(* ===== verification/Prelude.thy ===== *)
theory Prelude
  imports Main
begin

text \<open>
  Shared vocabulary of the development: the identifiers and clock of the server, the errors a
  handler raises, and the three table operations to which every SQL statement of the sources
  reduces (a conditional update, a selection and a deletion over a list of rows), with the
  lemmas the components rely on.  A table is the list of its rows; a statement touches every
  row its \<open>WHERE\<close> clause accepts, so a table update is a map over that list.
\<close>

named_theorems table_simps \<open>lemmas on table updates and selections\<close>
named_theorems run_defs \<open>definitions of the transactions on the runs and threads tables\<close>

type_synonym run_id = string
type_synonym thread_id = string
type_synonym user_id = string
type_synonym worker = string
type_synonym time = int

text \<open>
  Exceptions that leave a handler.  An \<open>HTTPException\<close> keeps its status code; the texts of the
  messages are not modelled.
\<close>

datatype py_error =
    HTTPException nat
  | ValueError
  | KeyError
  | TypeError
  | RuntimeError
  | AttributeError
  | ZeroDivisionError
  | TimeoutError
  | RedisError
  | CancelledError
  | AssertionError
  | IntegrityError
  | AuthenticationError
  | ValidationError

type_synonym 'a result = "py_error + 'a"

definition bind_res :: "'a result \<Rightarrow> ('a \<Rightarrow> 'b result) \<Rightarrow> 'b result" where
  "bind_res m f = (case m of Inl e \<Rightarrow> Inl e | Inr x \<Rightarrow> f x)"

text \<open>A comprehension whose element expression may raise: the first exception wins.\<close>

fun map_res :: "('a \<Rightarrow> 'b result) \<Rightarrow> 'a list \<Rightarrow> 'b list result" where
  "map_res f [] = Inr []"
| "map_res f (x # xs) = bind_res (f x) (\<lambda>y. bind_res (map_res f xs) (\<lambda>ys. Inr (y # ys)))"

definition update_where :: "('r \<Rightarrow> bool) \<Rightarrow> ('r \<Rightarrow> 'r) \<Rightarrow> 'r list \<Rightarrow> 'r list" where
  "update_where p f rows = map (\<lambda>r. if p r then f r else r) rows"

definition select_where :: "('r \<Rightarrow> bool) \<Rightarrow> 'r list \<Rightarrow> 'r list" where
  "select_where p rows = filter p rows"

definition delete_where :: "('r \<Rightarrow> bool) \<Rightarrow> 'r list \<Rightarrow> 'r list" where
  "delete_where p rows = filter (\<lambda>r. \<not> p r) rows"

text \<open>\<open>session.scalar(select(...))\<close>: the first row that matches, if any.\<close>

definition first_where :: "('r \<Rightarrow> bool) \<Rightarrow> 'r list \<Rightarrow> 'r option" where
  "first_where p rows = find p rows"

text \<open>
  \<open>ORDER BY key, tie ASC\<close>: equal keys are ordered by the tie-breaker in both directions, and a
  page is an offset and a limit.
\<close>

definition order_rows :: "('r \<Rightarrow> 'k :: linorder) \<Rightarrow> ('r \<Rightarrow> 'i :: linorder) \<Rightarrow> bool \<Rightarrow> 'r list \<Rightarrow> 'r list" where
  "order_rows key tie asc rows =
     (let tied = sort_key tie rows
      in if asc then sort_key key tied else rev (sort_key key (rev tied)))"

definition page :: "nat \<Rightarrow> nat \<Rightarrow> 'r list \<Rightarrow> 'r list" where
  "page offset limit rows = take limit (drop offset rows)"

text \<open>The truth value of an optional string in Python: neither absent nor empty.\<close>

definition truthy_str :: "string option \<Rightarrow> bool" where
  "truthy_str s = (case s of None \<Rightarrow> False | Some x \<Rightarrow> x \<noteq> [])"

subsection \<open>Lemmas on results\<close>

lemma bind_res_simps [simp]:
  "bind_res (Inl e) f = Inl e"
  "bind_res (Inr x) f = f x"
  by (simp_all add: bind_res_def)

lemma bind_res_InrD: "bind_res m f = Inr y \<Longrightarrow> \<exists>x. m = Inr x \<and> f x = Inr y"
  by (cases m) auto

lemma map_res_cong [fundef_cong]:
  "xs = ys \<Longrightarrow> (\<And>x. x \<in> set ys \<Longrightarrow> f x = g x) \<Longrightarrow> map_res f xs = map_res g ys"
  by (induction ys arbitrary: xs) auto

lemma map_res_InrD:
  "map_res f xs = Inr ys \<Longrightarrow> list_all2 (\<lambda>x y. f x = Inr y) xs ys"
  by (induction xs arbitrary: ys) (auto dest!: bind_res_InrD)

subsection \<open>Lemmas on tables\<close>

lemma length_update_where [simp, table_simps]: "length (update_where p f rows) = length rows"
  by (simp add: update_where_def)

lemma update_where_Nil [simp, table_simps]: "update_where p f [] = []"
  by (simp add: update_where_def)

lemma update_where_Cons [simp, table_simps]:
  "update_where p f (r # rows) = (if p r then f r else r) # update_where p f rows"
  by (simp add: update_where_def)

lemma set_update_where:
  "set (update_where p f rows) = (\<lambda>r. if p r then f r else r) ` set rows"
  by (simp add: update_where_def)

lemma in_update_where:
  "r' \<in> set (update_where p f rows) \<longleftrightarrow> (\<exists>r \<in> set rows. r' = (if p r then f r else r))"
  by (auto simp: set_update_where)

lemma in_update_whereE:
  assumes "r' \<in> set (update_where p f rows)"
  obtains (hit) r where "r \<in> set rows" "p r" "r' = f r"
        | (miss) "r' \<in> set rows" "\<not> p r'"
  using assms by (auto simp: in_update_where split: if_splits)

lemma map_key_update_where [table_simps]:
  "(\<And>r. k (f r) = k r) \<Longrightarrow> map k (update_where p f rows) = map k rows"
  by (induction rows) auto

lemma update_where_id [table_simps]:
  "(\<And>r. r \<in> set rows \<Longrightarrow> \<not> p r) \<Longrightarrow> update_where p f rows = rows"
  by (induction rows) auto

lemma update_where_ball:
  assumes "\<And>r. r \<in> set rows \<Longrightarrow> Q r"
    and "\<And>r. r \<in> set rows \<Longrightarrow> p r \<Longrightarrow> Q r \<Longrightarrow> Q (f r)"
  shows "r \<in> set (update_where p f rows) \<Longrightarrow> Q r"
  using assms by (auto simp: in_update_where)

lemma set_select_where [simp, table_simps]: "set (select_where p rows) = {r \<in> set rows. p r}"
  by (auto simp: select_where_def)

lemma select_where_Nil_iff [table_simps]:
  "select_where p rows = [] \<longleftrightarrow> (\<forall>r \<in> set rows. \<not> p r)"
  by (simp add: select_where_def filter_empty_conv)

lemma set_delete_where [simp, table_simps]: "set (delete_where p rows) = {r \<in> set rows. \<not> p r}"
  by (auto simp: delete_where_def)

lemma distinct_map_delete_where:
  "distinct (map k rows) \<Longrightarrow> distinct (map k (delete_where p rows))"
  by (induction rows) (auto simp: delete_where_def)

lemma first_where_SomeD:
  "first_where p rows = Some r \<Longrightarrow> r \<in> set rows \<and> p r"
  by (auto simp: first_where_def find_Some_iff)

lemma first_where_None_iff:
  "first_where p rows = None \<longleftrightarrow> (\<forall>r \<in> set rows. \<not> p r)"
  by (auto simp: first_where_def find_None_iff)

lemma unique_key:
  "distinct (map k rows) \<Longrightarrow> r \<in> set rows \<Longrightarrow> r' \<in> set rows \<Longrightarrow> k r = k r' \<Longrightarrow> r = r'"
  by (metis distinct_map inj_onD)

lemma first_where_unique_key:
  assumes "distinct (map k rows)" and "r \<in> set rows"
  shows "first_where (\<lambda>r'. k r' = k r) rows = Some r"
proof (cases "first_where (\<lambda>r'. k r' = k r) rows")
  case None
  with assms(2) show ?thesis by (auto simp: first_where_None_iff)
next
  case (Some r')
  then have "r' \<in> set rows" "k r' = k r" by (auto dest: first_where_SomeD)
  with assms have "r' = r" by (metis unique_key)
  with Some show ?thesis by simp
qed

lemma sorted_take [intro]: "sorted xs \<Longrightarrow> sorted (take n xs)"
  by (metis append_take_drop_id sorted_append)

lemma set_take_sort_key: "set (take n (sort_key k xs)) \<subseteq> set xs"
  by (metis set_sort set_take_subset)

lemma set_order_rows [simp]: "set (order_rows key tie asc rows) = set rows"
  by (simp add: order_rows_def Let_def)

lemma length_order_rows [simp]: "length (order_rows key tie asc rows) = length rows"
  by (simp add: order_rows_def Let_def)

lemma distinct_order_rows [simp]: "distinct (order_rows key tie asc rows) = distinct rows"
  by (simp add: order_rows_def Let_def)

lemma sorted_order_rows:
  "sorted (map key (if asc then order_rows key tie asc rows else rev (order_rows key tie asc rows)))"
  by (simp add: order_rows_def Let_def)

lemma set_page: "set (page offset limit rows) \<subseteq> set rows"
  unfolding page_def by (meson in_set_dropD in_set_takeD subsetI)

lemma concat_pages:
  "concat (map (\<lambda>i. page (i * limit) limit rows) [0..<k]) = take (k * limit) rows"
proof (induction k)
  case (Suc k)
  have "Suc k * limit = k * limit + limit" by simp
  with Suc show ?case by (simp only: upt_Suc_append [OF le0] map_append concat_append take_add)
    (simp add: page_def)
qed simp

lemma select_update_where_other:
  "(\<And>r. p r \<Longrightarrow> \<not> q r \<and> \<not> q (f r)) \<Longrightarrow> select_where q (update_where p f rows) = select_where q rows"
  by (induction rows) (auto simp: select_where_def)

lemma select_append [simp]: "select_where p (xs @ ys) = select_where p xs @ select_where p ys"
  by (simp add: select_where_def)

lemma select_delete_other: "(\<And>r. q r \<Longrightarrow> \<not> p r) \<Longrightarrow> select_where q (delete_where p rows) = select_where q rows"
  by (induction rows) (auto simp: select_where_def delete_where_def)

lemma select_rewritten_other:
  "(\<And>r. q (f r) = q r) \<Longrightarrow> (\<And>r. r \<in> set rows \<Longrightarrow> q r \<Longrightarrow> \<not> p r) \<Longrightarrow>
   select_where q (update_where p f rows) = select_where q rows"
  by (induction rows) (auto simp: select_where_def)

lemma update_where_keeps: "x \<in> set rows \<Longrightarrow> \<not> p x \<Longrightarrow> x \<in> set (update_where p f rows)"
  by (force simp: in_update_where)

lemma map_res_Inr: "(\<And>x. x \<in> set xs \<Longrightarrow> f x = Inr (g x)) \<Longrightarrow> map_res f xs = Inr (map g xs)"
  by (induction xs) auto

lemma map_res_error: "x \<in> set xs \<Longrightarrow> f x = Inl e \<Longrightarrow> (\<And>y e'. f y = Inl e' \<Longrightarrow> e' = e) \<Longrightarrow> map_res f xs = Inl e"
proof (induction xs)
  case Nil
  from Nil.prems(1) show ?case by simp
next
  case (Cons y ys)
  show ?case
  proof (cases "f y")
    case (Inl e')
    with Cons.prems(3) [OF Inl] show ?thesis by simp
  next
    case (Inr z)
    have "y \<noteq> x" using Inr Cons.prems(2) by (metis Inl_Inr_False)
    with Cons.prems(1) have "x \<in> set ys" by simp
    from Cons.IH [OF this Cons.prems(2,3)] show ?thesis using Inr by simp
  qed
qed

end
