(* ===== verification/Json.thy ===== *)
theory Json
  imports Prelude Complex_Main "HOL-Library.AList"
begin

text \<open>
  JSON-compatible Python values and the dictionary operations the server applies to them, with
  the two helpers every JSONB column goes through: \<open>_strip_null_bytes\<close> of
  \<^verbatim>\<open>repo/orm.py\<close> (the bind processor of \<open>JsonbSafe\<close>) and \<open>_merge_jsonb\<close> of
  \<^verbatim>\<open>execution/run_utils.py\<close>.  A dictionary is an association list with distinct keys in
  insertion order; writing an existing key keeps its position, as Python does.
\<close>

text \<open>The server's \<open>User\<close> model (\<^verbatim>\<open>domain/user.py\<close>); extra authentication fields are left out.\<close>

record user =
  identity :: string
  is_authenticated :: bool
  permissions :: "string list"
  display_name :: string
  org_id :: "string option"
  email :: "string option"

text \<open>
  \<open>JUser\<close> stands for a live \<open>User\<close> object inside a run configuration; it is the only
  non-JSON value the server puts there.
\<close>

datatype json =
    JNull
  | JBool bool
  | JInt int
  | JFloat rat
  | JStr string
  | JList "json list"
  | JObj "(string \<times> json) list"
  | JUser user

type_synonym dict = "(string \<times> json) list"

subsection \<open>Dictionaries\<close>

definition dict_update :: "('k \<times> 'v) list \<Rightarrow> ('k \<times> 'v) list \<Rightarrow> ('k \<times> 'v) list" where
  "dict_update d e = fold (\<lambda>(k, v). AList.update k v) e d"

definition dict_filter :: "('k \<Rightarrow> bool) \<Rightarrow> ('k \<times> 'v) list \<Rightarrow> ('k \<times> 'v) list" where
  "dict_filter p d = filter (\<lambda>(k, _). p k) d"

definition dict_setdefault :: "'k \<Rightarrow> 'v \<Rightarrow> ('k \<times> 'v) list \<Rightarrow> ('k \<times> 'v) list" where
  "dict_setdefault k v d = (if map_of d k = None then d @ [(k, v)] else d)"

definition wf_dict :: "('k \<times> 'v) list \<Rightarrow> bool" where
  "wf_dict d = distinct (map fst d)"

text \<open>\<open>dict.get\<close> with a default.\<close>

definition get_or :: "dict \<Rightarrow> string \<Rightarrow> json \<Rightarrow> json" where
  "get_or d k v = (case map_of d k of None \<Rightarrow> v | Some x \<Rightarrow> x)"

definition is_dict :: "json \<Rightarrow> bool" where
  "is_dict v = (case v of JObj _ \<Rightarrow> True | _ \<Rightarrow> False)"

text \<open>Python's truth value of a JSON value; a live object is true.\<close>

fun json_truthy :: "json \<Rightarrow> bool" where
  "json_truthy JNull = False"
| "json_truthy (JBool b) = b"
| "json_truthy (JInt i) = (i \<noteq> 0)"
| "json_truthy (JFloat f) = (f \<noteq> 0)"
| "json_truthy (JStr s) = (s \<noteq> [])"
| "json_truthy (JList xs) = (xs \<noteq> [])"
| "json_truthy (JObj kvs) = (kvs \<noteq> [])"
| "json_truthy (JUser _) = True"

subsection \<open>\<open>_strip_null_bytes\<close>\<close>

definition MAX_STRIP_DEPTH :: nat where
  "MAX_STRIP_DEPTH = 200"

definition strip_nul :: "string \<Rightarrow> string" where
  "strip_nul s = filter (\<lambda>c. c \<noteq> CHR 0x00) s"

text \<open>A string key is itself stripped one level down, so it is left alone at the limit.\<close>

definition strip_key :: "nat \<Rightarrow> string \<Rightarrow> string" where
  "strip_key depth k = (if MAX_STRIP_DEPTH \<le> depth then k else strip_nul k)"

function strip_null_bytes :: "nat \<Rightarrow> json \<Rightarrow> json" where
  "strip_null_bytes depth v =
     (if MAX_STRIP_DEPTH \<le> depth then v
      else case v of
        JStr s \<Rightarrow> JStr (strip_nul s)
      | JObj kvs \<Rightarrow>
          JObj (dict_update []
            (map (\<lambda>kv. (strip_key (Suc depth) (fst kv), strip_null_bytes (Suc depth) (snd kv))) kvs))
      | JList vs \<Rightarrow> JList (map (strip_null_bytes (Suc depth)) vs)
      | _ \<Rightarrow> v)"
  by pat_completeness auto
termination
  by (relation "measure (\<lambda>(depth, _). MAX_STRIP_DEPTH - depth)") auto

declare strip_null_bytes.simps [simp del]

definition process_bind_param :: "json \<Rightarrow> json" where
  "process_bind_param v = strip_null_bytes 0 v"

text \<open>What a JSONB column holds after a dictionary is written to it.\<close>

definition bind_dict :: "dict \<Rightarrow> dict" where
  "bind_dict d = (case process_bind_param (JObj d) of JObj d' \<Rightarrow> d' | _ \<Rightarrow> d)"

text \<open>What a JSONB column accepts: no NUL byte in any string or key.\<close>

fun no_nul :: "json \<Rightarrow> bool" where
  "no_nul (JStr s) = (CHR 0x00 \<notin> set s)"
| "no_nul (JList vs) = (\<forall>v \<in> set vs. no_nul v)"
| "no_nul (JObj kvs) = (\<forall>kv \<in> set kvs. CHR 0x00 \<notin> set (fst kv) \<and> no_nul (snd kv))"
| "no_nul _ = True"

text \<open>Every object inside the value has distinct keys, as a Python dictionary has.\<close>

fun wf_json :: "json \<Rightarrow> bool" where
  "wf_json (JList vs) = (\<forall>v \<in> set vs. wf_json v)"
| "wf_json (JObj kvs) = (distinct (map fst kvs) \<and> (\<forall>kv \<in> set kvs. wf_json (snd kv)))"
| "wf_json _ = True"

text \<open>How deeply a value nests: a container is one level deeper than anything inside it.\<close>

fun json_depth :: "json \<Rightarrow> nat" where
  "json_depth (JList vs) = Suc (fold max (map json_depth vs) 0)"
| "json_depth (JObj kvs) = Suc (fold max (map (\<lambda>kv. json_depth (snd kv)) kvs) 1)"
| "json_depth _ = 1"

subsection \<open>\<open>_merge_jsonb\<close>\<close>

text \<open>\<open>copy.deepcopy\<close> of an immutable value is the value.\<close>

fun merge_jsonb :: "dict option list \<Rightarrow> dict" where
  "merge_jsonb objs =
     fold (\<lambda>obj acc. case obj of None \<Rightarrow> acc | Some d \<Rightarrow> dict_update acc d) objs []"

subsection \<open>Lemmas on dictionaries\<close>

lemma dict_update_Nil [simp]: "dict_update d [] = d"
  by (simp add: dict_update_def)

lemma dict_update_Cons [simp]:
  "dict_update d ((k, v) # e) = dict_update (AList.update k v d) e"
  by (simp add: dict_update_def)

lemma map_of_dict_update:
  "map_of (dict_update d e) k = (case map_of (rev e) k of None \<Rightarrow> map_of d k | Some v \<Rightarrow> Some v)"
proof (induction e arbitrary: d)
  case (Cons kv e)
  then show ?case
    by (cases kv) (auto simp: update_conv' map_add_def split: option.splits)
qed simp

lemma map_of_rev_distinct: "wf_dict e \<Longrightarrow> map_of (rev e) = map_of e"
proof (induction e)
  case (Cons kv e)
  obtain k v where kv: "kv = (k, v)" by (cases kv)
  from Cons.prems have "map_of e k = None"
    by (simp add: kv wf_dict_def map_of_eq_None_iff)
  moreover have "map_of (rev e) = map_of e"
    using Cons by (simp add: kv wf_dict_def)
  ultimately show ?case
    by (auto simp: kv map_add_def fun_eq_iff split: option.splits)
qed simp

lemma map_of_dict_update_wf:
  "wf_dict e \<Longrightarrow> map_of (dict_update d e) k = (map_of d ++ map_of e) k"
  by (simp add: map_of_dict_update map_of_rev_distinct map_add_def)

lemma wf_dict_update [simp]: "wf_dict d \<Longrightarrow> wf_dict (AList.update k v d)"
  by (simp add: wf_dict_def distinct_update)

lemma wf_dict_dict_update [simp]: "wf_dict d \<Longrightarrow> wf_dict (dict_update d e)"
  by (induction e arbitrary: d) auto

lemma wf_dict_Nil [simp]: "wf_dict []"
  by (simp add: wf_dict_def)

lemma keys_dict_update: "fst ` set (dict_update d e) = fst ` set d \<union> fst ` set e"
proof (induction e arbitrary: d)
  case (Cons kv e)
  then show ?case by (cases kv) (simp add: dom_update)
qed simp

lemma map_of_dict_filter [simp]:
  "map_of (dict_filter p d) k = (if p k then map_of d k else None)"
  by (induction d) (auto simp: dict_filter_def)

lemma wf_dict_filter [simp]: "wf_dict d \<Longrightarrow> wf_dict (dict_filter p d)"
  by (induction d) (auto simp: dict_filter_def wf_dict_def)

lemma keys_dict_filter: "fst ` set (dict_filter p d) = {k \<in> fst ` set d. p k}"
  by (force simp: dict_filter_def)

lemma map_of_setdefault [simp]:
  "map_of (dict_setdefault k v d) k' =
     (if k' = k \<and> map_of d k = None then Some v else map_of d k')"
  by (auto simp: dict_setdefault_def map_add_def split: option.splits)

lemma wf_dict_setdefault [simp]: "wf_dict d \<Longrightarrow> wf_dict (dict_setdefault k v d)"
  by (auto simp: dict_setdefault_def wf_dict_def map_of_eq_None_iff)

subsection \<open>The JSONB bind processor\<close>

lemma strip_nul_no_nul [simp]: "CHR 0x00 \<notin> set (strip_nul s)"
  by (simp add: strip_nul_def)

lemma strip_nul_id: "CHR 0x00 \<notin> set s \<Longrightarrow> strip_nul s = s"
  by (auto simp: strip_nul_def intro: filter_True)

lemma fold_max_ge_init: "m \<le> fold max xs (m :: nat)"
proof (induction xs arbitrary: m)
  case (Cons y xs)
  have "m \<le> max y m" by simp
  also have "\<dots> \<le> fold max xs (max y m)" by (rule Cons.IH)
  finally show ?case by simp
qed simp

lemma fold_max_ge: "x \<in> set xs \<Longrightarrow> x \<le> fold max xs (m :: nat)"
proof (induction xs arbitrary: m)
  case (Cons y xs)
  have "y \<le> fold max xs (max y m)"
    using fold_max_ge_init [of "max y m" xs] by simp
  with Cons show ?case by auto
qed simp

lemma json_depth_pos: "0 < json_depth v"
  by (cases v) auto

lemma json_depth_elem: "v \<in> set vs \<Longrightarrow> json_depth v < json_depth (JList vs)"
  using fold_max_ge [of "json_depth v" "map json_depth vs" 0] by auto

lemma json_depth_value: "kv \<in> set kvs \<Longrightarrow> json_depth (snd kv) < json_depth (JObj kvs)"
  using fold_max_ge [of "json_depth (snd kv)" "map (\<lambda>kv. json_depth (snd kv)) kvs" 1] by auto

lemma json_depth_key: "1 < json_depth (JObj kvs)"
  using fold_max_ge_init [of 1 "map (\<lambda>kv. json_depth (snd kv)) kvs"] by auto

lemma dict_update_all:
  assumes "\<And>kv. kv \<in> set d \<Longrightarrow> P kv" and "\<And>kv. kv \<in> set e \<Longrightarrow> P kv"
  shows "kv \<in> set (dict_update d e) \<Longrightarrow> P kv"
  using assms
proof (induction e arbitrary: d)
  case (Cons x e)
  obtain k v where x: "x = (k, v)" by (cases x)
  have "P y" if "y \<in> set (AList.update k v d)" for y
  proof -
    have "set (AList.update k v d) \<subseteq> insert (k, v) (set d)"
      by (induction d) auto
    then have "y = (k, v) \<or> y \<in> set d" using that by auto
    with Cons.prems(2,3) show ?thesis by (metis list.set_intros(1) x)
  qed
  with Cons show ?case by (simp add: x)
qed simp

text \<open>A value with room below the depth limit leaves the bind processor free of NUL bytes.\<close>

lemma strip_null_bytes_no_nul:
  "depth + json_depth v \<le> MAX_STRIP_DEPTH \<Longrightarrow> no_nul (strip_null_bytes depth v)"
proof (induction depth v rule: strip_null_bytes.induct)
  case (1 depth v)
  have room: "\<not> MAX_STRIP_DEPTH \<le> depth"
    using "1.prems" json_depth_pos [of v] by linarith
  show ?case
  proof (cases v)
    case (JList vs)
    have "no_nul (strip_null_bytes (Suc depth) x)" if "x \<in> set vs" for x
      using "1.IH"(1) [OF room JList that] "1.prems" json_depth_elem [OF that] JList by simp
    with room JList show ?thesis by (simp add: strip_null_bytes.simps [of depth])
  next
    case (JObj kvs)
    have vals: "no_nul (strip_null_bytes (Suc depth) (snd kv))" if "kv \<in> set kvs" for kv
      using "1.IH"(2) [OF room JObj that] "1.prems" json_depth_value [OF that] JObj by simp
    have keys: "CHR 0x00 \<notin> set (strip_key (Suc depth) k)" for k
      using "1.prems" json_depth_key [of kvs] JObj by (simp add: strip_key_def)
    have "CHR 0x00 \<notin> set (fst x) \<and> no_nul (snd x)"
      if "x \<in> set (dict_update [] (map (\<lambda>kv. (strip_key (Suc depth) (fst kv),
            strip_null_bytes (Suc depth) (snd kv))) kvs))" for x
      by (rule dict_update_all [where P = "\<lambda>kv. CHR 0x00 \<notin> set (fst kv) \<and> no_nul (snd kv)",
            OF _ _ that]) (use vals keys in force)+
    with room JObj show ?thesis by (simp add: strip_null_bytes.simps [of depth])
  qed (use room in \<open>auto simp: strip_null_bytes.simps [of depth]\<close>)
qed

text \<open>The bind processor does not touch a value that has no NUL byte, however deep it is.\<close>

lemma dict_update_append_fresh:
  "distinct (map fst e) \<Longrightarrow> fst ` set d \<inter> fst ` set e = {} \<Longrightarrow> dict_update d e = d @ e"
proof (induction e arbitrary: d)
  case (Cons kv e)
  obtain k v where kv: "kv = (k, v)" by (cases kv)
  from Cons.prems have "k \<notin> fst ` set d" by (auto simp: kv)
  then have "AList.update k v d = d @ [(k, v)]" by (induction d) auto
  with Cons show ?case by (auto simp: kv)
qed simp

lemma dict_update_Nil_fresh: "distinct (map fst e) \<Longrightarrow> dict_update [] e = e"
  using dict_update_append_fresh [of e "[]"] by simp

lemma strip_null_bytes_id:
  "no_nul v \<Longrightarrow> wf_json v \<Longrightarrow> strip_null_bytes depth v = v"
proof (induction depth v rule: strip_null_bytes.induct)
  case (1 depth v)
  show ?case
  proof (cases "MAX_STRIP_DEPTH \<le> depth")
    case True
    then show ?thesis by (simp add: strip_null_bytes.simps [of depth])
  next
    case room: False
    show ?thesis
    proof (cases v)
      case (JList vs)
      have "strip_null_bytes (Suc depth) x = x" if "x \<in> set vs" for x
        using "1.IH"(1) [OF room JList that] "1.prems" JList that by simp
      with room JList show ?thesis
        by (simp add: strip_null_bytes.simps [of depth] map_idI)
    next
      case (JObj kvs)
      have "(strip_key (Suc depth) (fst kv), strip_null_bytes (Suc depth) (snd kv)) = kv"
        if "kv \<in> set kvs" for kv
        using "1.IH"(2) [OF room JObj that] "1.prems" JObj that
        by (auto simp: strip_key_def strip_nul_id prod_eq_iff)
      then have "map (\<lambda>kv. (strip_key (Suc depth) (fst kv), strip_null_bytes (Suc depth) (snd kv))) kvs = kvs"
        by (rule map_idI)
      with room JObj "1.prems" show ?thesis
        by (simp add: strip_null_bytes.simps [of depth] dict_update_Nil_fresh)
    qed (use room "1.prems" in \<open>auto simp: strip_null_bytes.simps [of depth] strip_nul_id\<close>)
  qed
qed

lemma strip_key_stored: "strip_key 1 k = strip_nul k"
  by (simp add: strip_key_def MAX_STRIP_DEPTH_def)

lemma bind_dict_eq:
  "bind_dict d = dict_update [] (map (\<lambda>kv. (strip_nul (fst kv), strip_null_bytes 1 (snd kv))) d)"
  by (simp add: bind_dict_def process_bind_param_def strip_null_bytes.simps [of 0]
      MAX_STRIP_DEPTH_def strip_key_def)

lemma bind_dict_id: "no_nul (JObj d) \<Longrightarrow> wf_json (JObj d) \<Longrightarrow> bind_dict d = d"
  using strip_null_bytes_id [of "JObj d" 0] by (simp add: bind_dict_def process_bind_param_def)

lemma wf_bind_dict [simp]: "wf_dict (bind_dict d)"
  by (simp add: bind_dict_eq)

subsection \<open>What reaches a JSONB column\<close>

text \<open>
  A value that nests within the depth limit reaches a JSONB column without any NUL
  byte in a string or key, and a value that had none is stored unchanged, whatever its depth.
\<close>

theorem jsonb_bind_safe:
  "(json_depth v \<le> MAX_STRIP_DEPTH \<longrightarrow> no_nul (process_bind_param v)) \<and>
   (no_nul v \<and> wf_json v \<longrightarrow> process_bind_param v = v)"
  using strip_null_bytes_no_nul [of 0 v] strip_null_bytes_id [of v 0]
  by (simp add: process_bind_param_def)

theorem jsonb_bind_safe_witness:
  "no_nul (process_bind_param (JObj [([CHR ''k'', CHR 0x00], JList [JStr [CHR 0x00, CHR ''a'']])])) \<and>
   process_bind_param (JObj [(''k'', JList [JStr ''a'', JInt 3])]) = JObj [(''k'', JList [JStr ''a'', JInt 3])]"
  using jsonb_bind_safe [of "JObj [([CHR ''k'', CHR 0x00], JList [JStr [CHR 0x00, CHR ''a'']])]"]
    jsonb_bind_safe [of "JObj [(''k'', JList [JStr ''a'', JInt 3])]"]
  by (simp add: MAX_STRIP_DEPTH_def)

end
