(* ===== verification/Run_Config.thy ===== *)
theory Run_Config
  imports Json
begin

text \<open>
  Which keys of a run configuration the server owns (\<^verbatim>\<open>domain/run_config.py\<close>) and how the
  configuration handed to a graph is assembled (\<open>create_thread_config\<close>, \<open>create_run_config\<close>
  and \<open>inject_user_context\<close> of \<^verbatim>\<open>repo/graphs/langgraph_service.py\<close>).  The tracing
  callbacks and the observability metadata are arguments: they come from the observability
  providers installed in the process.
\<close>

definition SERVER_PINNED_IDENTITY_KEYS :: "string list" where
  "SERVER_PINNED_IDENTITY_KEYS = [''user_id'', ''user_display_name'', ''langgraph_auth_user'']"

definition SERVER_PINNED_CONFIG_KEYS :: "string list" where
  "SERVER_PINNED_CONFIG_KEYS = SERVER_PINNED_IDENTITY_KEYS @ [''thread_id'', ''run_id'']"

definition strip_pinned_config_keys :: "string list \<Rightarrow> dict \<Rightarrow> dict" where
  "strip_pinned_config_keys keys d = dict_filter (\<lambda>k. k \<notin> set keys) d"

definition configurable_user_id :: "dict option \<Rightarrow> string option" where
  "configurable_user_id config =
     (case map_of (case config of None \<Rightarrow> [] | Some c \<Rightarrow> c) ''configurable'' of
        Some (JObj c) \<Rightarrow>
          (case map_of c ''langgraph_auth_user'' of
             Some (JUser u) \<Rightarrow>
               if identity u \<noteq> [] then Some (identity u)
               else (case map_of c ''user_id'' of
                       Some (JStr s) \<Rightarrow> if s \<noteq> [] then Some s else None
                     | _ \<Rightarrow> None)
           | _ \<Rightarrow> (case map_of c ''user_id'' of
                     Some (JStr s) \<Rightarrow> if s \<noteq> [] then Some s else None
                   | _ \<Rightarrow> None))
      | _ \<Rightarrow> None)"

text \<open>
  Writing into \<open>config["configurable"]\<close> raises when the caller left something there that is
  not a mapping.
\<close>

definition set_configurable :: "dict \<Rightarrow> dict \<Rightarrow> dict result" where
  "set_configurable kvs cfg =
     (case map_of cfg ''configurable'' of
        Some (JObj c) \<Rightarrow> Inr (AList.update ''configurable'' (JObj (dict_update c kvs)) cfg)
      | _ \<Rightarrow> Inl TypeError)"

definition inject_user_context :: "user option \<Rightarrow> dict option \<Rightarrow> dict result" where
  "inject_user_context u base_config =
     (let config = (case base_config of None \<Rightarrow> [] | Some c \<Rightarrow> c);
          config = dict_setdefault ''configurable'' (JObj []) config
      in case u of
           None \<Rightarrow> Inr config
         | Some usr \<Rightarrow>
             set_configurable
               [(''user_id'', JStr (identity usr)),
                (''user_display_name'',
                 JStr (if display_name usr \<noteq> [] then display_name usr else identity usr)),
                (''langgraph_auth_user'', JUser usr)] config)"

definition create_thread_config :: "thread_id \<Rightarrow> user option \<Rightarrow> dict option \<Rightarrow> dict result" where
  "create_thread_config tid u additional =
     (let base = [(''configurable'', JObj [(''thread_id'', JStr tid)])];
          base = (case additional of None \<Rightarrow> base | Some a \<Rightarrow> dict_update base a)
      in inject_user_context u (Some base))"

definition merge_callbacks :: "json list \<Rightarrow> dict \<Rightarrow> dict" where
  "merge_callbacks callbacks cfg =
     (if callbacks = [] then cfg
      else let existing = (case map_of cfg ''callbacks'' of Some (JList xs) \<Rightarrow> xs | _ \<Rightarrow> [])
           in AList.update ''callbacks'' (JList (existing @ callbacks)) cfg)"

definition merge_metadata :: "dict \<Rightarrow> dict \<Rightarrow> dict result" where
  "merge_metadata observability cfg =
     (let cfg = dict_setdefault ''metadata'' (JObj []) cfg
      in case map_of cfg ''metadata'' of
           Some (JObj m) \<Rightarrow> Inr (AList.update ''metadata'' (JObj (dict_update m observability)) cfg)
         | _ \<Rightarrow> Inl AttributeError)"

definition apply_checkpoint :: "dict option \<Rightarrow> dict \<Rightarrow> dict result" where
  "apply_checkpoint checkpoint cfg =
     (case checkpoint of
        None \<Rightarrow> Inr cfg
      | Some [] \<Rightarrow> Inr cfg
      | Some cp \<Rightarrow>
          set_configurable
            (filter (\<lambda>(_, v). v \<noteq> JNull) (strip_pinned_config_keys SERVER_PINNED_CONFIG_KEYS cp)) cfg)"

definition create_run_config ::
  "run_id \<Rightarrow> thread_id \<Rightarrow> user option \<Rightarrow> dict option \<Rightarrow> dict option \<Rightarrow> json list \<Rightarrow> dict \<Rightarrow> dict result"
where
  "create_run_config rid tid u additional checkpoint callbacks observability =
     (let cfg = (case additional of None \<Rightarrow> [] | Some a \<Rightarrow> a);
          cfg = dict_setdefault ''configurable'' (JObj []) cfg
      in bind_res (set_configurable [(''thread_id'', JStr tid), (''run_id'', JStr rid)] cfg) (\<lambda>cfg.
         let cfg = merge_callbacks callbacks (dict_setdefault ''run_id'' (JStr rid) cfg) in
         bind_res (merge_metadata observability cfg) (\<lambda>cfg.
         bind_res (apply_checkpoint checkpoint cfg) (\<lambda>cfg.
         inject_user_context u (Some cfg)))))"

subsection \<open>Lemmas\<close>

lemma map_of_strip_pinned:
  "map_of (strip_pinned_config_keys keys d) k = (if k \<in> set keys then None else map_of d k)"
  by (simp add: strip_pinned_config_keys_def)

lemma keys_strip_pinned:
  "fst ` set (strip_pinned_config_keys keys d) = fst ` set d - set keys"
  by (auto simp: strip_pinned_config_keys_def keys_dict_filter)

lemma map_of_aupdate [simp]: "map_of (AList.update k v d) k' = (if k' = k then Some v else map_of d k')"
  by (simp add: update_conv')

text \<open>Reading one key of the \<open>configurable\<close> section.\<close>

definition cfg_key :: "dict \<Rightarrow> string \<Rightarrow> json option" where
  "cfg_key cfg k =
     (case map_of cfg ''configurable'' of Some (JObj c) \<Rightarrow> map_of c k | _ \<Rightarrow> None)"

lemma set_configurable_InrD:
  assumes "set_configurable kvs cfg = Inr cfg'"
  shows "cfg_key cfg' k = (case map_of (rev kvs) k of None \<Rightarrow> cfg_key cfg k | Some v \<Rightarrow> Some v)"
    and "k' \<noteq> ''configurable'' \<Longrightarrow> map_of cfg' k' = map_of cfg k'"
  using assms
  by (auto simp: set_configurable_def cfg_key_def map_of_dict_update
      split: option.splits json.splits)

lemma apply_checkpoint_pinned:
  assumes "apply_checkpoint cp cfg = Inr cfg'" and "k \<in> set SERVER_PINNED_CONFIG_KEYS"
  shows "cfg_key cfg' k = cfg_key cfg k"
proof (cases "cp = None \<or> cp = Some []")
  case True
  with assms(1) show ?thesis by (auto simp: apply_checkpoint_def)
next
  case False
  then obtain x xs where cp: "cp = Some (x # xs)" by (metis neq_Nil_conv not_None_eq)
  let ?kvs = "filter (\<lambda>(_, v). v \<noteq> JNull) (strip_pinned_config_keys SERVER_PINNED_CONFIG_KEYS (x # xs))"
  from assms(1) cp have "set_configurable ?kvs cfg = Inr cfg'"
    by (simp add: apply_checkpoint_def)
  moreover have "map_of (rev ?kvs) k = None"
    using assms(2) by (auto simp: map_of_eq_None_iff strip_pinned_config_keys_def dict_filter_def)
  ultimately show ?thesis by (simp add: set_configurable_InrD(1))
qed

lemma cfg_key_other [simp]:
  "k' \<noteq> ''configurable'' \<Longrightarrow> cfg_key (AList.update k' v cfg) k = cfg_key cfg k"
  "k' \<noteq> ''configurable'' \<Longrightarrow> cfg_key (dict_setdefault k' v cfg) k = cfg_key cfg k"
  by (auto simp: cfg_key_def)

lemma cfg_key_merge_callbacks [simp]: "cfg_key (merge_callbacks cbs cfg) k = cfg_key cfg k"
  by (simp add: merge_callbacks_def Let_def)

lemma merge_metadata_cfg_key: "merge_metadata obs cfg = Inr cfg' \<Longrightarrow> cfg_key cfg' k = cfg_key cfg k"
  by (auto simp: merge_metadata_def Let_def split: option.splits json.splits if_splits)

lemma inject_user_context_cfg_key:
  assumes "inject_user_context (Some u) (Some cfg) = Inr cfg'"
  shows "cfg_key cfg' ''langgraph_auth_user'' = Some (JUser u)"
    and "cfg_key cfg' ''user_id'' = Some (JStr (identity u))"
    and "k \<notin> set SERVER_PINNED_IDENTITY_KEYS \<Longrightarrow> cfg_key cfg' k = cfg_key cfg k"
  using set_configurable_InrD(1) [OF assms [unfolded inject_user_context_def Let_def, simplified]]
  by (auto simp: SERVER_PINNED_IDENTITY_KEYS_def)
    (auto simp: cfg_key_def)

lemma configurable_user_id_auth_user:
  assumes "cfg_key cfg ''langgraph_auth_user'' = Some (JUser u)" and "identity u \<noteq> []"
  shows "configurable_user_id (Some cfg) = Some (identity u)"
  using assms by (auto simp: configurable_user_id_def cfg_key_def split: option.splits json.splits)

lemma create_run_config_stages:
  assumes "create_run_config rid tid u additional cp cbs obs = Inr cfg"
  obtains c1 c2 c3 where
    "cfg_key c1 ''thread_id'' = Some (JStr tid)" "cfg_key c1 ''run_id'' = Some (JStr rid)"
    "merge_metadata obs c1 = Inr c2" "apply_checkpoint cp c2 = Inr c3"
    "inject_user_context u (Some c3) = Inr cfg"
proof -
  let ?cfg = "dict_setdefault ''configurable'' (JObj []) (case additional of None \<Rightarrow> [] | Some a \<Rightarrow> a)"
  from assms obtain c0 where c0:
    "set_configurable [(''thread_id'', JStr tid), (''run_id'', JStr rid)] ?cfg = Inr c0"
    "bind_res (merge_metadata obs (merge_callbacks cbs (dict_setdefault ''run_id'' (JStr rid) c0)))
       (\<lambda>cfg. bind_res (apply_checkpoint cp cfg) (\<lambda>cfg. inject_user_context u (Some cfg))) = Inr cfg"
    by (auto simp: create_run_config_def Let_def dest!: bind_res_InrD)
  let ?c1 = "merge_callbacks cbs (dict_setdefault ''run_id'' (JStr rid) c0)"
  from c0(2) obtain c2 c3 where
    "merge_metadata obs ?c1 = Inr c2" "apply_checkpoint cp c2 = Inr c3"
    "inject_user_context u (Some c3) = Inr cfg"
    by (auto dest!: bind_res_InrD)
  moreover have "cfg_key ?c1 ''thread_id'' = Some (JStr tid)" "cfg_key ?c1 ''run_id'' = Some (JStr rid)"
    using set_configurable_InrD(1) [OF c0(1)] by auto
  ultimately show ?thesis by (rule that [rotated 2])
qed

subsection \<open>The pinned keys of a run\<close>

lemma set_configurable_obj:
  "map_of cfg ''configurable'' = Some (JObj c) \<Longrightarrow>
   \<exists>cfg'. set_configurable kvs cfg = Inr cfg' \<and> map_of cfg' ''configurable'' = Some (JObj (dict_update c kvs)) \<and>
          (\<forall>k. k \<noteq> ''configurable'' \<longrightarrow> map_of cfg' k = map_of cfg k)"
  by (simp add: set_configurable_def)

lemma apply_checkpoint_obj:
  "map_of cfg ''configurable'' = Some (JObj c) \<Longrightarrow>
   \<exists>cfg' c'. apply_checkpoint cp cfg = Inr cfg' \<and> map_of cfg' ''configurable'' = Some (JObj c')"
  by (auto simp: apply_checkpoint_def set_configurable_def split: option.splits list.splits)

text \<open>A section of the caller's configuration is absent or a mapping.\<close>

definition section_ok :: "string \<Rightarrow> dict \<Rightarrow> bool" where
  "section_ok k d = (case map_of d k of None \<Rightarrow> True | Some (JObj _) \<Rightarrow> True | _ \<Rightarrow> False)"

lemma section_okE:
  assumes "section_ok k d"
  obtains c where "map_of (dict_setdefault k (JObj []) d) k = Some (JObj c)"
  using assms by (auto simp: section_ok_def split: option.splits json.splits)

lemma create_run_config_total:
  assumes "section_ok ''configurable'' a" and "section_ok ''metadata'' a"
  shows "\<exists>cfg. create_run_config rid tid u (Some a) cp cbs obs = Inr cfg"
proof -
  obtain c where c: "map_of (dict_setdefault ''configurable'' (JObj []) a) ''configurable'' = Some (JObj c)"
    using assms(1) by (rule section_okE)
  from set_configurable_obj [OF c, of "[(''thread_id'', JStr tid), (''run_id'', JStr rid)]"] obtain c1 d1 where
    c1: "set_configurable [(''thread_id'', JStr tid), (''run_id'', JStr rid)]
           (dict_setdefault ''configurable'' (JObj []) a) = Inr c1"
        "map_of c1 ''configurable'' = Some (JObj d1)"
        "map_of c1 ''metadata'' = map_of a ''metadata''"
    by auto
  let ?c2 = "merge_callbacks cbs (dict_setdefault ''run_id'' (JStr rid) c1)"
  have sec2: "section_ok ''metadata'' ?c2" "map_of ?c2 ''configurable'' = Some (JObj d1)"
    using assms(2) c1 by (auto simp: section_ok_def merge_callbacks_def Let_def)
  then obtain c3 where c3: "merge_metadata obs ?c2 = Inr c3" "map_of c3 ''configurable'' = Some (JObj d1)"
    by (auto simp: merge_metadata_def Let_def section_ok_def split: option.splits json.splits)
  from apply_checkpoint_obj [OF c3(2), of cp] obtain c4 d4 where
    c4: "apply_checkpoint cp c3 = Inr c4" "map_of c4 ''configurable'' = Some (JObj d4)" by blast
  then have "\<exists>cfg. inject_user_context u (Some c4) = Inr cfg"
    by (auto simp: inject_user_context_def Let_def set_configurable_def split: option.splits)
  with c1(1) c3(1) c4(1) show ?thesis by (simp add: create_run_config_def Let_def)
qed

text \<open>
  Claim C4.  Whatever the caller's configuration and checkpoint contain, as long as their
  \<open>configurable\<close> and \<open>metadata\<close> sections are mappings, building the configuration of a run
  succeeds, and the graph sees the thread, the run and the authenticated user of the server:
  no key of the caller replaces a pinned one.
\<close>

theorem run_config_pinned:
  assumes "section_ok ''configurable'' a" and "section_ok ''metadata'' a"
  shows "\<exists>cfg. create_run_config rid tid (Some u) (Some a) cp cbs obs = Inr cfg \<and>
           cfg_key cfg ''thread_id'' = Some (JStr tid) \<and> cfg_key cfg ''run_id'' = Some (JStr rid) \<and>
           cfg_key cfg ''user_id'' = Some (JStr (identity u)) \<and>
           cfg_key cfg ''langgraph_auth_user'' = Some (JUser u) \<and>
           (identity u \<noteq> [] \<longrightarrow> configurable_user_id (Some cfg) = Some (identity u))"
proof -
  obtain cfg where cfg: "create_run_config rid tid (Some u) (Some a) cp cbs obs = Inr cfg"
    using create_run_config_total [OF assms] by blast
  from cfg show ?thesis
  proof (rule create_run_config_stages)
    fix c1 c2 c3
    assume c1: "cfg_key c1 ''thread_id'' = Some (JStr tid)" "cfg_key c1 ''run_id'' = Some (JStr rid)"
      and c2: "merge_metadata obs c1 = Inr c2" and c3: "apply_checkpoint cp c2 = Inr c3"
      and inj: "inject_user_context (Some u) (Some c3) = Inr cfg"
    have pinned: "cfg_key cfg k = cfg_key c1 k" if "k = ''thread_id'' \<or> k = ''run_id''" for k
      using that inject_user_context_cfg_key(3) [OF inj, of k] apply_checkpoint_pinned [OF c3, of k]
        merge_metadata_cfg_key [OF c2, of k]
      by (auto simp: SERVER_PINNED_CONFIG_KEYS_def SERVER_PINNED_IDENTITY_KEYS_def)
    from cfg pinned c1 inject_user_context_cfg_key(1,2) [OF inj] configurable_user_id_auth_user
    show ?thesis by auto
  qed
qed

theorem run_config_pinned_witness:
  "\<exists>cfg. create_run_config ''r'' ''t''
           (Some \<lparr>identity = ''alice'', is_authenticated = True, permissions = [], display_name = '''',
                  org_id = None, email = None\<rparr>)
           (Some [(''configurable'', JObj [(''user_id'', JStr ''mallory''), (''thread_id'', JStr ''x'')])])
           (Some [(''thread_id'', JStr ''y''), (''checkpoint_id'', JStr ''c1'')]) [] [] = Inr cfg \<and>
         cfg_key cfg ''thread_id'' = Some (JStr ''t'') \<and> cfg_key cfg ''user_id'' = Some (JStr ''alice'')"
  using run_config_pinned [of "[(''configurable'', JObj [(''user_id'', JStr ''mallory''), (''thread_id'', JStr ''x'')])]"
      "''r''" "''t''" "\<lparr>identity = ''alice'', is_authenticated = True, permissions = [], display_name = '''',
                  org_id = None, email = None\<rparr>" "Some [(''thread_id'', JStr ''y''), (''checkpoint_id'', JStr ''c1'')]" "[]" "[]"]
  by (auto simp: section_ok_def)

end
