(* ===== verification/Run_Status.thy ===== *)
theory Run_Status
  imports Json
begin

text \<open>
  The runs and threads tables (\<^verbatim>\<open>repo/orm.py\<close>), the status vocabulary
  (\<^verbatim>\<open>domain/enums.py\<close>, \<^verbatim>\<open>domain/status_compat.py\<close>) and the transactions of
  \<^verbatim>\<open>execution/run_status.py\<close>.  Every transaction is a function from the database to the
  database it commits, together with what it returns; a rolled back transaction returns the
  database unchanged.  Times are integers in one fixed unit; \<open>now\<close> is an argument.
\<close>

datatype run_status = Pending | Running | Error | Success | Timeout | Interrupted

datatype thread_status = Idle | Busy | ThreadInterrupted | ThreadError

record run_row =
  r_run_id :: run_id
  r_thread_id :: thread_id
  r_assistant_id :: "string option"
  r_status :: run_status
  r_input :: "json option"
  r_config :: "dict option"
  r_context :: "dict option"
  r_output :: "json option"
  r_error_message :: "string option"
  r_user_id :: user_id
  r_created_at :: time
  r_updated_at :: time
  r_execution_params :: "dict option"
  r_claimed_by :: "worker option"
  r_lease_expires_at :: "time option"

record thread_row =
  t_thread_id :: thread_id
  t_status :: thread_status
  t_metadata :: json
  t_user_id :: user_id
  t_created_at :: time
  t_updated_at :: time

record db =
  runs :: "run_row list"
  threads :: "thread_row list"

definition validate_run_status :: "string \<Rightarrow> run_status result" where
  "validate_run_status s =
     (if s = ''pending'' then Inr Pending
      else if s = ''running'' then Inr Running
      else if s = ''error'' then Inr Error
      else if s = ''success'' then Inr Success
      else if s = ''timeout'' then Inr Timeout
      else if s = ''interrupted'' then Inr Interrupted
      else Inl ValueError)"

definition validate_thread_status :: "string \<Rightarrow> thread_status result" where
  "validate_thread_status s =
     (if s = ''idle'' then Inr Idle
      else if s = ''busy'' then Inr Busy
      else if s = ''interrupted'' then Inr ThreadInterrupted
      else if s = ''error'' then Inr ThreadError
      else Inl ValueError)"

fun run_status_str :: "run_status \<Rightarrow> string" where
  "run_status_str Pending = ''pending''"
| "run_status_str Running = ''running''"
| "run_status_str Error = ''error''"
| "run_status_str Success = ''success''"
| "run_status_str Timeout = ''timeout''"
| "run_status_str Interrupted = ''interrupted''"

definition ACTIVE_RUN_STATES :: "run_status list" where
  "ACTIVE_RUN_STATES = [Pending, Running]"

definition is_active :: "run_row \<Rightarrow> bool" where
  "is_active r = (r_status r \<in> set ACTIVE_RUN_STATES)"

definition start_run :: "time \<Rightarrow> run_id \<Rightarrow> user_id \<Rightarrow> db \<Rightarrow> bool \<times> db" where
  "start_run now rid uid d =
     (let p = (\<lambda>r. r_run_id r = rid \<and> r_user_id r = uid \<and> is_active r)
      in if select_where p (runs d) \<noteq> []
         then (True, d\<lparr>runs := update_where p (\<lambda>r. r\<lparr>r_status := Running, r_updated_at := now\<rparr>) (runs d)\<rparr>)
         else (False, d))"

definition set_thread_status :: "time \<Rightarrow> thread_id \<Rightarrow> string \<Rightarrow> db \<Rightarrow> db result" where
  "set_thread_status now tid s d =
     bind_res (validate_thread_status s) (\<lambda>validated.
       let p = (\<lambda>t. t_thread_id t = tid)
       in if select_where p (threads d) = [] then Inl ValueError
          else Inr (d\<lparr>threads :=
            update_where p (\<lambda>t. t\<lparr>t_status := validated, t_updated_at := now\<rparr>) (threads d)\<rparr>))"

definition has_active_run :: "user_id \<Rightarrow> thread_id \<Rightarrow> run_row list \<Rightarrow> bool" where
  "has_active_run uid tid rs =
     (\<exists>r \<in> set rs. r_thread_id r = tid \<and> r_user_id r = uid \<and> is_active r)"

definition set_thread_status_if_no_active_runs ::
  "time \<Rightarrow> thread_id list \<Rightarrow> thread_status \<Rightarrow> user_id \<Rightarrow> db \<Rightarrow> db"
where
  "set_thread_status_if_no_active_runs now tids s uid d =
     (if tids = [] then d
      else d\<lparr>threads :=
        update_where
          (\<lambda>t. t_thread_id t \<in> set tids \<and> t_user_id t = uid
               \<and> \<not> has_active_run uid (t_thread_id t) (runs d))
          (\<lambda>t. t\<lparr>t_status := s, t_updated_at := now\<rparr>) (threads d)\<rparr>)"

text \<open>\<open>RunORM.lease_expires_at < now\<close>: SQL comparison with NULL is not true.\<close>

definition lease_expired :: "time \<Rightarrow> run_row \<Rightarrow> bool" where
  "lease_expired now r = (case r_lease_expires_at r of None \<Rightarrow> False | Some t \<Rightarrow> t < now)"

definition interrupt_unowned_run ::
  "time \<Rightarrow> run_id \<Rightarrow> thread_id \<Rightarrow> user_id \<Rightarrow> db \<Rightarrow> bool \<times> db"
where
  "interrupt_unowned_run now rid tid uid d =
     (let p = (\<lambda>r. r_run_id r = rid \<and> r_thread_id r = tid \<and> r_user_id r = uid \<and> is_active r
                   \<and> (r_claimed_by r = None \<or> lease_expired now r))
      in if select_where p (runs d) = [] then (False, d)
         else
           (let d' = d\<lparr>runs := update_where p
                  (\<lambda>r. r\<lparr>r_status := Interrupted, r_claimed_by := None, r_lease_expires_at := None,
                         r_updated_at := now\<rparr>) (runs d)\<rparr>
            in (True, set_thread_status_if_no_active_runs now [tid] Idle uid d')))"

text \<open>
  \<open>_safe_serialize\<close>: the serializer is an argument, \<open>None\<close> when it raises.
\<close>

definition safe_serialize :: "('o \<Rightarrow> json option) \<Rightarrow> ('o \<Rightarrow> string) \<Rightarrow> 'o \<Rightarrow> json" where
  "safe_serialize serialize type_name output =
     (case serialize output of
        Some j \<Rightarrow> j
      | None \<Rightarrow> JObj [(''error'', JStr ''Output serialization failed''),
                       (''original_type'', JStr (type_name output))])"

text \<open>
  \<open>finalize_run\<close> writes \<open>output\<close> and \<open>error_message\<close> only when they are not \<open>None\<close>, so a
  last event that is Python's \<open>None\<close>, here \<open>JNull\<close>, leaves the output as it was; the output here is already
  serialised.
\<close>

definition finalize_values ::
  "time \<Rightarrow> run_status \<Rightarrow> json option \<Rightarrow> string option \<Rightarrow> run_row \<Rightarrow> run_row"
where
  "finalize_values now s output err r =
     r\<lparr>r_status := s,
       r_updated_at := now,
       r_output := (case output of None \<Rightarrow> r_output r
                      | Some j \<Rightarrow> if j = JNull then r_output r else Some (process_bind_param j)),
       r_error_message := (case err of None \<Rightarrow> r_error_message r | Some e \<Rightarrow> Some e)\<rparr>"

definition finalize_run ::
  "time \<Rightarrow> run_id \<Rightarrow> thread_id \<Rightarrow> user_id \<Rightarrow> string \<Rightarrow> string \<Rightarrow> json option \<Rightarrow> string option
   \<Rightarrow> db \<Rightarrow> (bool \<times> db) result"
where
  "finalize_run now rid tid uid status thread_status output err d =
     bind_res (validate_run_status status) (\<lambda>validated_run.
     bind_res (validate_thread_status thread_status) (\<lambda>validated_thread.
       let p = (\<lambda>r. r_run_id r = rid \<and> r_user_id r = uid \<and> is_active r)
       in if select_where p (runs d) = [] then Inr (False, d)
          else
            (let d' = d\<lparr>runs := update_where p (finalize_values now validated_run output err) (runs d)\<rparr>
             in Inr (True, set_thread_status_if_no_active_runs now [tid] validated_thread uid d'))))"

lemmas [run_defs] = start_run_def interrupt_unowned_run_def finalize_run_def finalize_values_def
  set_thread_status_if_no_active_runs_def

subsection \<open>Well-formed databases\<close>

text \<open>
  Primary keys are unique and a run's lease columns are set together; a run waiting in the
  queue is owned by nobody.
\<close>

definition lease_ok :: "run_row \<Rightarrow> bool" where
  "lease_ok r =
     ((r_claimed_by r = None \<longleftrightarrow> r_lease_expires_at r = None)
      \<and> (r_status r = Pending \<longrightarrow> r_claimed_by r = None))"

definition wf_db :: "db \<Rightarrow> bool" where
  "wf_db d =
     (distinct (map r_run_id (runs d)) \<and> distinct (map t_thread_id (threads d))
      \<and> list_all lease_ok (runs d))"

definition lookup_run :: "db \<Rightarrow> run_id \<Rightarrow> run_row option" where
  "lookup_run d rid = first_where (\<lambda>r. r_run_id r = rid) (runs d)"

definition lookup_thread :: "db \<Rightarrow> thread_id \<Rightarrow> thread_row option" where
  "lookup_thread d tid = first_where (\<lambda>t. t_thread_id t = tid) (threads d)"

definition terminal :: "run_status \<Rightarrow> bool" where
  "terminal s = (s \<notin> set ACTIVE_RUN_STATES)"

subsection \<open>Lemmas\<close>

lemma is_active_iff: "is_active r \<longleftrightarrow> r_status r = Pending \<or> r_status r = Running"
  by (simp add: is_active_def ACTIVE_RUN_STATES_def)

lemma terminal_iff: "terminal s \<longleftrightarrow> s \<noteq> Pending \<and> s \<noteq> Running"
  by (auto simp: terminal_def ACTIVE_RUN_STATES_def)

lemma active_not_terminal: "is_active r \<longleftrightarrow> \<not> terminal (r_status r)"
  by (auto simp: is_active_iff terminal_iff)

lemma validate_run_status_str [simp]: "validate_run_status (run_status_str s) = Inr s"
  by (cases s) (simp_all add: validate_run_status_def)

lemma runs_set_thread_status_if [simp]:
  "runs (set_thread_status_if_no_active_runs now tids s uid d) = runs d"
  by (simp add: set_thread_status_if_no_active_runs_def)

lemma thread_keys_set_thread_status_if [simp]:
  "map t_thread_id (threads (set_thread_status_if_no_active_runs now tids s uid d))
     = map t_thread_id (threads d)"
  by (simp add: set_thread_status_if_no_active_runs_def map_key_update_where)

lemma wf_db_runs_update:
  assumes "wf_db d" and "\<And>r. r_run_id (f r) = r_run_id r"
    and "\<And>r. r \<in> set (runs d) \<Longrightarrow> p r \<Longrightarrow> lease_ok r \<Longrightarrow> lease_ok (f r)"
  shows "wf_db (d\<lparr>runs := update_where p f (runs d)\<rparr>)"
  using assms by (auto simp: wf_db_def map_key_update_where list_all_iff in_update_where)

lemma wf_db_set_thread_status_if:
  "wf_db d \<Longrightarrow> wf_db (set_thread_status_if_no_active_runs now tids s uid d)"
  by (simp add: wf_db_def)

lemma lookup_run_SomeD: "lookup_run d rid = Some r \<Longrightarrow> r \<in> set (runs d) \<and> r_run_id r = rid"
  by (auto simp: lookup_run_def dest: first_where_SomeD)

lemma lookup_run_eq:
  "wf_db d \<Longrightarrow> lookup_run d rid = Some r \<longleftrightarrow> r \<in> set (runs d) \<and> r_run_id r = rid"
  using first_where_unique_key [of r_run_id "runs d" r]
  by (auto simp: wf_db_def lookup_run_def dest: first_where_SomeD)

lemma lookup_run_None_iff: "lookup_run d rid = None \<longleftrightarrow> rid \<notin> r_run_id ` set (runs d)"
  by (auto simp: lookup_run_def first_where_None_iff)

lemma lookup_run_update_where:
  assumes "\<And>r. r_run_id (f r) = r_run_id r"
  shows "lookup_run (d\<lparr>runs := update_where p f (runs d)\<rparr>) rid =
    map_option (\<lambda>r. if p r then f r else r) (lookup_run d rid)"
proof -
  have "find (\<lambda>r. r_run_id r = rid) (update_where p f rs) =
      map_option (\<lambda>r. if p r then f r else r) (find (\<lambda>r. r_run_id r = rid) rs)" for rs
    by (induction rs) (auto simp: assms)
  then show ?thesis by (simp add: lookup_run_def first_where_def)
qed

lemma lookup_run_threads [simp]: "lookup_run (d\<lparr>threads := ts\<rparr>) rid = lookup_run d rid"
  by (simp add: lookup_run_def)

lemma lookup_run_set_thread_status_if [simp]:
  "lookup_run (set_thread_status_if_no_active_runs now tids s uid d) rid = lookup_run d rid"
  by (simp add: lookup_run_def)

lemma lookup_thread_set_status_if:
  "lookup_thread (set_thread_status_if_no_active_runs now tids s uid d) tid =
     map_option (\<lambda>t. if tids \<noteq> [] \<and> t_thread_id t \<in> set tids \<and> t_user_id t = uid
                         \<and> \<not> has_active_run uid (t_thread_id t) (runs d)
                      then t\<lparr>t_status := s, t_updated_at := now\<rparr> else t) (lookup_thread d tid)"
proof -
  have "find (\<lambda>t. t_thread_id t = tid) (update_where p (\<lambda>t. t\<lparr>t_status := s, t_updated_at := now\<rparr>) ts) =
      map_option (\<lambda>t. if p t then t\<lparr>t_status := s, t_updated_at := now\<rparr> else t)
        (find (\<lambda>t. t_thread_id t = tid) ts)" for p ts
    by (induction ts) auto
  then show ?thesis
    by (auto simp: lookup_thread_def first_where_def set_thread_status_if_no_active_runs_def
        map_option.identity)
qed

subsection \<open>A final status is written once\<close>

text \<open>Concrete rows, for the examples of this and the following theories.\<close>

definition example_run :: "run_id \<Rightarrow> run_status \<Rightarrow> worker option \<Rightarrow> time option \<Rightarrow> run_row" where
  "example_run rid s w l =
     \<lparr>r_run_id = rid, r_thread_id = ''t1'', r_assistant_id = None, r_status = s, r_input = None,
      r_config = None, r_context = None, r_output = None, r_error_message = None, r_user_id = ''alice'',
      r_created_at = 0, r_updated_at = 0, r_execution_params = Some [(''_retry_count'', JInt 1)],
      r_claimed_by = w, r_lease_expires_at = l\<rparr>"

definition example_thread :: thread_row where
  "example_thread = \<lparr>t_thread_id = ''t1'', t_status = Busy, t_metadata = JObj [], t_user_id = ''alice'', t_created_at = 0, t_updated_at = 0\<rparr>"

definition example_db :: "run_row list \<Rightarrow> db" where
  "example_db rs = \<lparr>runs = rs, threads = [example_thread]\<rparr>"

lemmas example_defs = example_run_def example_thread_def example_db_def

lemma finalize_run_spec:
  assumes "finalize_run now rid tid uid status tstatus outp err d = Inr (b, d')"
  obtains v vt where "validate_run_status status = Inr v" "validate_thread_status tstatus = Inr vt"
    "b \<longleftrightarrow> select_where (\<lambda>r. r_run_id r = rid \<and> r_user_id r = uid \<and> is_active r) (runs d) \<noteq> []"
    "runs d' = update_where (\<lambda>r. r_run_id r = rid \<and> r_user_id r = uid \<and> is_active r)
       (finalize_values now v outp err) (runs d)"
    "\<not> b \<Longrightarrow> d' = d"
proof -
  let ?p = "\<lambda>r. r_run_id r = rid \<and> r_user_id r = uid \<and> is_active r"
  from assms obtain v vt where v: "validate_run_status status = Inr v" "validate_thread_status tstatus = Inr vt"
    by (auto simp: finalize_run_def dest!: bind_res_InrD)
  show thesis
  proof (cases "select_where ?p (runs d) = []")
    case True
    then have "update_where ?p (finalize_values now v outp err) (runs d) = runs d"
      by (intro update_where_id) (auto simp: select_where_Nil_iff)
    with True show ?thesis using assms v by (intro that [OF v]) (simp_all add: finalize_run_def)
  next
    case False
    then show ?thesis using assms v by (intro that [OF v]) (auto simp: finalize_run_def Let_def)
  qed
qed

text \<open>
  Finalising writes a final status at most once.  After \<open>finalize_run\<close> with a final
  status reported success, every row it addressed carries that status, and any later attempt to
  start, finalise or interrupt the run, by whichever worker and with whatever outcome, reports
  failure and leaves the database as it is.
\<close>

theorem finalize_once:
  assumes "finalize_run now rid tid uid status tstatus outp err d = Inr (True, d')"
    and "validate_run_status status = Inr v" and "terminal v" and "distinct (map r_run_id (runs d))"
  shows "(\<exists>r. lookup_run d' rid = Some r \<and> r_status r = v) \<and>
    (validate_run_status status' \<in> range Inr \<and> validate_thread_status tstatus' \<in> range Inr \<longrightarrow>
       finalize_run now' rid tid' uid' status' tstatus' outp' err' d' = Inr (False, d')) \<and>
    start_run now' rid uid' d' = (False, d') \<and>
    interrupt_unowned_run now' rid tid' uid' d' = (False, d')"
proof -
  let ?p = "\<lambda>r. r_run_id r = rid \<and> r_user_id r = uid \<and> is_active r"
  from assms(1) have hit: "select_where ?p (runs d) \<noteq> []"
    and runs': "runs d' = update_where ?p (finalize_values now v outp err) (runs d)"
    using assms(2) by (auto elim!: finalize_run_spec)
  from hit obtain r where r: "r \<in> set (runs d)" "?p r" by (auto simp: select_where_Nil_iff)
  have id: "r_run_id (finalize_values now v outp err x) = r_run_id x" for x
    by (simp add: finalize_values_def)
  have dist: "distinct (map r_run_id (runs d'))"
    using assms(4) by (simp add: runs' map_key_update_where id)
  have in': "finalize_values now v outp err r \<in> set (runs d')"
    using r by (auto simp: runs' in_update_where)
  have look: "lookup_run d' rid = Some (finalize_values now v outp err r)"
    using first_where_unique_key [OF dist in'] r(2) by (simp add: lookup_run_def id)
  have off: "\<not> is_active x" if "x \<in> set (runs d')" "r_run_id x = rid" for x
  proof -
    have "x = finalize_values now v outp err r" using unique_key [OF dist that(1) in'] that(2) r(2) by (simp add: id)
    with assms(3) show ?thesis by (simp add: active_not_terminal finalize_values_def)
  qed
  then have none: "select_where (\<lambda>x. r_run_id x = rid \<and> Q x \<and> is_active x \<and> Q' x) (runs d') = []" for Q Q'
    by (auto simp: select_where_Nil_iff)
  show ?thesis
    using look none [of "\<lambda>x. r_user_id x = uid'" "\<lambda>_. True"]
      none [of "\<lambda>x. r_thread_id x = tid' \<and> r_user_id x = uid'" "\<lambda>x. r_claimed_by x = None \<or> lease_expired now' x"]
    by (auto simp: finalize_run_def start_run_def interrupt_unowned_run_def Let_def
        finalize_values_def conj_assoc)
qed

theorem finalize_once_witness:
  "\<exists>d'. finalize_run 5 ''r1'' ''t1'' ''alice'' ''success'' ''idle'' (Some (JObj [])) None
          (example_db [example_run ''r1'' Running (Some ''w'') (Some 9)]) = Inr (True, d') \<and>
        start_run 6 ''r1'' ''alice'' d' = (False, d') \<and>
        finalize_run 6 ''r1'' ''t1'' ''alice'' ''error'' ''error'' None (Some ''late'') d' = Inr (False, d')"
proof -
  let ?d = "example_db [example_run ''r1'' Running (Some ''w'') (Some 9)]"
  have "\<exists>d'. finalize_run 5 ''r1'' ''t1'' ''alice'' ''success'' ''idle'' (Some (JObj [])) None ?d = Inr (True, d')"
    by (simp add: finalize_run_def validate_run_status_def validate_thread_status_def example_defs
        select_where_def is_active_iff Let_def)
  then obtain d' where d': "finalize_run 5 ''r1'' ''t1'' ''alice'' ''success'' ''idle'' (Some (JObj [])) None ?d = Inr (True, d')"
    by blast
  from finalize_once [OF d', where status' = "''error''" and tstatus' = "''error''" and now' = 6
      and uid' = "''alice''" and tid' = "''t1''" and outp' = None and err' = "Some ''late''" and v = Success]
  show ?thesis using d'
    by (auto simp: example_defs validate_run_status_def validate_thread_status_def terminal_iff)
qed

end
