(* ===== verification/Run_Job.thy ===== *)
theory Run_Job
  imports Run_Config Run_Status
begin

text \<open>
  The job specification of a run (\<^verbatim>\<open>execution/run_job.py\<close>): the frozen models
  \<open>RunIdentity\<close>, \<open>RunExecution\<close>, \<open>RunBehavior\<close> and \<open>RunJob\<close>, its serialisation into the
  \<open>execution_params\<close> column and its reconstruction by a worker.  Pydantic's \<open>model_dump\<close>
  and \<open>model_validate\<close> of the three nested models are the fields of a \<open>codec\<close> record, an
  argument of the two operations; the interface \<open>lossless_codec\<close> names what the code relies
  on: validating what was dumped gives the model back.
\<close>

datatype durability = Sync | Async | Exit

datatype str_or_list = OneStr string | ManyStr "string list"

record run_identity =
  ji_run_id :: run_id
  ji_thread_id :: thread_id
  ji_graph_id :: string

record run_execution =
  e_input_data :: "dict option"
  e_config :: dict
  e_context :: dict
  e_stream_mode :: "str_or_list option"
  e_checkpoint :: "dict option"
  e_command :: "dict option"
  e_durability :: "durability option"
  e_event_streaming_v2 :: bool

record run_behavior =
  b_interrupt_before :: "str_or_list option"
  b_interrupt_after :: "str_or_list option"
  b_multitask_strategy :: "string option"
  b_subgraphs :: bool

record run_job =
  j_identity :: run_identity
  j_user :: user
  j_execution :: run_execution
  j_behavior :: run_behavior
  j_run_metadata :: dict

record codec =
  dump_user :: "user \<Rightarrow> json"
  validate_user :: "json \<Rightarrow> user option"
  dump_execution :: "run_execution \<Rightarrow> json"
  validate_execution :: "json \<Rightarrow> run_execution option"
  dump_behavior :: "run_behavior \<Rightarrow> json"
  validate_behavior :: "json \<Rightarrow> run_behavior option"

text \<open>A failed validation is a \<open>ValidationError\<close>, which is a \<open>ValueError\<close>.\<close>

definition model_validate :: "(json \<Rightarrow> 'm option) \<Rightarrow> json \<Rightarrow> 'm result" where
  "model_validate v j = (case v j of None \<Rightarrow> Inl ValueError | Some m \<Rightarrow> Inr m)"

definition subscript :: "dict \<Rightarrow> string \<Rightarrow> json result" where
  "subscript d k = (case map_of d k of None \<Rightarrow> Inl KeyError | Some v \<Rightarrow> Inr v)"

definition to_execution_params :: "codec \<Rightarrow> run_job \<Rightarrow> dict" where
  "to_execution_params c job =
     [(''graph_id'', JStr (ji_graph_id (j_identity job))),
      (''user'', dump_user c (j_user job)),
      (''execution'', dump_execution c (j_execution job)),
      (''behavior'', dump_behavior c (j_behavior job)),
      (''run_metadata'', JObj (j_run_metadata job))]"

text \<open>The \<open>str\<close> field of \<open>RunIdentity\<close> and the \<open>dict\<close> field of \<open>RunJob\<close>.\<close>

definition as_str :: "json \<Rightarrow> string result" where
  "as_str j = (case j of JStr s \<Rightarrow> Inr s | _ \<Rightarrow> Inl ValueError)"

definition as_dict :: "json \<Rightarrow> dict result" where
  "as_dict j = (case j of JObj d \<Rightarrow> Inr d | _ \<Rightarrow> Inl ValueError)"

definition run_metadata_or_empty :: "dict \<Rightarrow> json" where
  "run_metadata_or_empty params =
     (case map_of params ''run_metadata'' of
        Some v \<Rightarrow> if json_truthy v then v else JObj []
      | None \<Rightarrow> JObj [])"

definition from_run_orm :: "codec \<Rightarrow> run_row \<Rightarrow> run_job result" where
  "from_run_orm c row =
     (case r_execution_params row of
        None \<Rightarrow> Inl ValueError
      | Some params \<Rightarrow>
          bind_res (bind_res (subscript params ''graph_id'') as_str) (\<lambda>graph_id.
          bind_res (bind_res (subscript params ''user'') (model_validate (validate_user c))) (\<lambda>u.
          bind_res (bind_res (subscript params ''execution'') (model_validate (validate_execution c))) (\<lambda>ex.
          bind_res (bind_res (subscript params ''behavior'') (model_validate (validate_behavior c))) (\<lambda>bh.
          bind_res (as_dict (run_metadata_or_empty params)) (\<lambda>md.
            Inr \<lparr>j_identity = \<lparr>ji_run_id = r_run_id row, ji_thread_id = r_thread_id row,
                              ji_graph_id = graph_id\<rparr>,
                 j_user = u, j_execution = ex, j_behavior = bh, j_run_metadata = md\<rparr>))))))"

subsection \<open>What the job store promises\<close>

locale lossless_codec =
  fixes c :: codec
  assumes user_rt: "validate_user c (dump_user c u) = Some u"
    and execution_rt: "validate_execution c (dump_execution c ex) = Some ex"
    and behavior_rt: "validate_behavior c (dump_behavior c bh) = Some bh"
begin

lemma from_run_orm_params:
  assumes "r_execution_params row = Some params"
    and "\<And>k. k \<in> {''graph_id'', ''user'', ''execution'', ''behavior'', ''run_metadata''} \<Longrightarrow>
           map_of params k = map_of (to_execution_params c job) k"
    and "r_run_id row = ji_run_id (j_identity job)" "r_thread_id row = ji_thread_id (j_identity job)"
  shows "from_run_orm c row = Inr job"
proof -
  have keys: "map_of params ''graph_id'' = Some (JStr (ji_graph_id (j_identity job)))"
    "map_of params ''user'' = Some (dump_user c (j_user job))"
    "map_of params ''execution'' = Some (dump_execution c (j_execution job))"
    "map_of params ''behavior'' = Some (dump_behavior c (j_behavior job))"
    "map_of params ''run_metadata'' = Some (JObj (j_run_metadata job))"
    using assms(2) by (simp_all add: to_execution_params_def)
  have "as_dict (run_metadata_or_empty params) = Inr (j_run_metadata job)"
    by (simp add: run_metadata_or_empty_def keys as_dict_def)
  then show ?thesis
    using assms(1,3,4)
    by (simp add: from_run_orm_def subscript_def model_validate_def as_str_def keys
        user_rt execution_rt behavior_rt)
qed

end

lemma map_of_dict_update_other:
  assumes "k \<notin> fst ` set e"
  shows "map_of (dict_update d e) k = map_of d k"
proof -
  have "map_of (rev e) k = None" using assms by (auto simp: map_of_eq_None_iff)
  then show ?thesis by (simp add: map_of_dict_update)
qed

subsection \<open>Plain models\<close>

text \<open>
  The interface is met by the dump of a model whose fields carry no aliases and no custom
  serialisers, which is what the models of this file are: every field is written under its own
  name and read back from there.
\<close>

definition json_of_opt :: "('a \<Rightarrow> json) \<Rightarrow> 'a option \<Rightarrow> json" where
  "json_of_opt f x = (case x of None \<Rightarrow> JNull | Some v \<Rightarrow> f v)"

definition opt_of_json :: "(json \<Rightarrow> 'a option) \<Rightarrow> json \<Rightarrow> 'a option option" where
  "opt_of_json f j = (if j = JNull then Some None else map_option Some (f j))"

definition str_of_json :: "json \<Rightarrow> string option" where
  "str_of_json j = (case j of JStr s \<Rightarrow> Some s | _ \<Rightarrow> None)"

definition bool_of_json :: "json \<Rightarrow> bool option" where
  "bool_of_json j = (case j of JBool b \<Rightarrow> Some b | _ \<Rightarrow> None)"

definition obj_of_json :: "json \<Rightarrow> dict option" where
  "obj_of_json j = (case j of JObj d \<Rightarrow> Some d | _ \<Rightarrow> None)"

definition strs_of_json :: "json \<Rightarrow> string list option" where
  "strs_of_json j = (case j of JList xs \<Rightarrow> those (map str_of_json xs) | _ \<Rightarrow> None)"

definition json_of_sol :: "str_or_list \<Rightarrow> json" where
  "json_of_sol x = (case x of OneStr s \<Rightarrow> JStr s | ManyStr ss \<Rightarrow> JList (map JStr ss))"

definition sol_of_json :: "json \<Rightarrow> str_or_list option" where
  "sol_of_json j =
     (case j of JStr s \<Rightarrow> Some (OneStr s)
      | JList xs \<Rightarrow> map_option ManyStr (those (map str_of_json xs)) | _ \<Rightarrow> None)"

definition json_of_durability :: "durability \<Rightarrow> json" where
  "json_of_durability x = JStr (case x of Sync \<Rightarrow> ''sync'' | Async \<Rightarrow> ''async'' | Exit \<Rightarrow> ''exit'')"

definition durability_of_json :: "json \<Rightarrow> durability option" where
  "durability_of_json j =
     (if j = JStr ''sync'' then Some Sync else if j = JStr ''async'' then Some Async
      else if j = JStr ''exit'' then Some Exit else None)"

definition field :: "(json \<Rightarrow> 'a option) \<Rightarrow> json \<Rightarrow> string \<Rightarrow> 'a option" where
  "field f j k = Option.bind (obj_of_json j) (\<lambda>d. Option.bind (map_of d k) f)"

definition plain_codec :: codec where
  "plain_codec = \<lparr>
     dump_user = (\<lambda>u. JObj
       [(''identity'', JStr (identity u)), (''is_authenticated'', JBool (is_authenticated u)),
        (''permissions'', JList (map JStr (permissions u))), (''display_name'', JStr (display_name u)),
        (''org_id'', json_of_opt JStr (org_id u)), (''email'', json_of_opt JStr (email u))]),
     validate_user = (\<lambda>j.
       Option.bind (field str_of_json j ''identity'') (\<lambda>i.
       Option.bind (field bool_of_json j ''is_authenticated'') (\<lambda>a.
       Option.bind (field strs_of_json j ''permissions'') (\<lambda>ps.
       Option.bind (field str_of_json j ''display_name'') (\<lambda>n.
       Option.bind (field (opt_of_json str_of_json) j ''org_id'') (\<lambda>org.
       Option.bind (field (opt_of_json str_of_json) j ''email'') (\<lambda>em.
         Some \<lparr>identity = i, is_authenticated = a, permissions = ps, display_name = n,
               org_id = org, email = em\<rparr>))))))),
     dump_execution = (\<lambda>e. JObj
       [(''input_data'', json_of_opt JObj (e_input_data e)), (''config'', JObj (e_config e)),
        (''context'', JObj (e_context e)), (''stream_mode'', json_of_opt json_of_sol (e_stream_mode e)),
        (''checkpoint'', json_of_opt JObj (e_checkpoint e)), (''command'', json_of_opt JObj (e_command e)),
        (''durability'', json_of_opt json_of_durability (e_durability e)),
        (''event_streaming_v2'', JBool (e_event_streaming_v2 e))]),
     validate_execution = (\<lambda>j.
       Option.bind (field (opt_of_json obj_of_json) j ''input_data'') (\<lambda>i.
       Option.bind (field obj_of_json j ''config'') (\<lambda>cf.
       Option.bind (field obj_of_json j ''context'') (\<lambda>cx.
       Option.bind (field (opt_of_json sol_of_json) j ''stream_mode'') (\<lambda>sm.
       Option.bind (field (opt_of_json obj_of_json) j ''checkpoint'') (\<lambda>cp.
       Option.bind (field (opt_of_json obj_of_json) j ''command'') (\<lambda>cm.
       Option.bind (field (opt_of_json durability_of_json) j ''durability'') (\<lambda>du.
       Option.bind (field bool_of_json j ''event_streaming_v2'') (\<lambda>v2.
         Some \<lparr>e_input_data = i, e_config = cf, e_context = cx, e_stream_mode = sm,
               e_checkpoint = cp, e_command = cm, e_durability = du,
               e_event_streaming_v2 = v2\<rparr>))))))))),
     dump_behavior = (\<lambda>b. JObj
       [(''interrupt_before'', json_of_opt json_of_sol (b_interrupt_before b)),
        (''interrupt_after'', json_of_opt json_of_sol (b_interrupt_after b)),
        (''multitask_strategy'', json_of_opt JStr (b_multitask_strategy b)),
        (''subgraphs'', JBool (b_subgraphs b))]),
     validate_behavior = (\<lambda>j.
       Option.bind (field (opt_of_json sol_of_json) j ''interrupt_before'') (\<lambda>ib.
       Option.bind (field (opt_of_json sol_of_json) j ''interrupt_after'') (\<lambda>ia.
       Option.bind (field (opt_of_json str_of_json) j ''multitask_strategy'') (\<lambda>ms.
       Option.bind (field bool_of_json j ''subgraphs'') (\<lambda>sg.
         Some \<lparr>b_interrupt_before = ib, b_interrupt_after = ia, b_multitask_strategy = ms,
               b_subgraphs = sg\<rparr>)))))\<rparr>"

lemma those_map_str [simp]: "those (map str_of_json (map JStr ss)) = Some ss"
  by (induction ss) (simp_all add: str_of_json_def)

lemma sol_rt [simp]: "sol_of_json (json_of_sol x) = Some x" "json_of_sol x \<noteq> JNull"
  using those_map_str by (cases x; simp add: sol_of_json_def json_of_sol_def)+

lemma durability_rt [simp]:
  "durability_of_json (json_of_durability x) = Some x" "json_of_durability x \<noteq> JNull"
  by (cases x; simp add: durability_of_json_def json_of_durability_def)+

lemma opt_rt [simp]:
  assumes "\<And>x. f (g x) = Some x" and "\<And>x. g x \<noteq> JNull"
  shows "opt_of_json f (json_of_opt g v) = Some v"
  using assms by (cases v) (simp_all add: opt_of_json_def json_of_opt_def)

lemma scalar_rt [simp]:
  "str_of_json (JStr s) = Some s" "bool_of_json (JBool b) = Some b" "obj_of_json (JObj d) = Some d"
  "strs_of_json (JList (map JStr ss)) = Some ss"
  using those_map_str [of ss]
  by (simp_all add: str_of_json_def bool_of_json_def obj_of_json_def strs_of_json_def)

interpretation plain: lossless_codec plain_codec
  by unfold_locales (simp_all add: plain_codec_def field_def)

end
