(* ===== verification/Lease.thy ===== *)
theory Lease
  imports Run_Job
begin

text \<open>
  The lease operations and queue helpers of \<^verbatim>\<open>execution/worker_executor.py\<close>.  The job queue
  is the Redis list of run ids; a Redis call takes an argument that says whether Redis answers.
  Lease lengths come from the settings and are arguments.
\<close>

type_synonym queue = "string list"

datatype redis_state = RedisUp | RedisIdleTimeout | RedisDown

subsection \<open>Run ids\<close>

definition is_hex :: "char \<Rightarrow> bool" where
  "is_hex c = (c \<in> set ''0123456789abcdef'')"

definition uuid_at :: "nat \<Rightarrow> char \<Rightarrow> bool" where
  "uuid_at i c = (if i \<in> {8, 13, 18, 23} then c = CHR ''-'' else is_hex c)"

text \<open>
  \<open>_RUN_ID_PATTERN.match\<close>: Python's \<open>$\<close> also matches just before a final newline, so one
  trailing newline is accepted.
\<close>

definition is_valid_run_id :: "string \<Rightarrow> bool" where
  "is_valid_run_id s =
     ((length s = 36 \<or> (length s = 37 \<and> last s = CHR 0x0A))
      \<and> list_all (\<lambda>(i, c). uuid_at i c) (enumerate 0 (take 36 s)))"

subsection \<open>Queue operations\<close>

definition worker_submit :: "redis_state \<Rightarrow> run_id \<Rightarrow> queue \<Rightarrow> queue result" where
  "worker_submit r rid q = (if r = RedisUp then Inr (q @ [rid]) else Inl RedisError)"

text \<open>\<open>_poll_postgres\<close>: the oldest pending, unclaimed run.\<close>

definition poll_postgres :: "db \<Rightarrow> run_id option" where
  "poll_postgres d =
     (case sort_key r_created_at
             (select_where (\<lambda>r. r_status r = Pending \<and> r_claimed_by r = None) (runs d)) of
        [] \<Rightarrow> None
      | r # _ \<Rightarrow> Some (r_run_id r))"

definition dequeue :: "redis_state \<Rightarrow> queue \<Rightarrow> db \<Rightarrow> run_id option \<times> queue" where
  "dequeue r q d =
     (case r of
        RedisUp \<Rightarrow> (case q of [] \<Rightarrow> (None, []) | x # xs \<Rightarrow> (Some x, xs))
      | RedisIdleTimeout \<Rightarrow> (None, q)
      | RedisDown \<Rightarrow> (poll_postgres d, q))"

definition push_back :: "redis_state \<Rightarrow> run_id \<Rightarrow> queue \<Rightarrow> queue" where
  "push_back r rid q = (if r = RedisUp then q @ [rid] else q)"

subsection \<open>Lease transactions\<close>

definition get_run_identity :: "run_id \<Rightarrow> db \<Rightarrow> (thread_id \<times> user_id) option" where
  "get_run_identity rid d = map_option (\<lambda>r. (r_thread_id r, r_user_id r)) (lookup_run d rid)"

datatype load_outcome =
    NotAcquired
  | MissingParams
  | LoadFailed py_error
  | Loaded run_job json

definition acquire_values :: "worker \<Rightarrow> time \<Rightarrow> run_row \<Rightarrow> run_row" where
  "acquire_values w lease_until r =
     r\<lparr>r_claimed_by := Some w, r_lease_expires_at := Some lease_until, r_status := Running\<rparr>"

definition missing_params_values :: "run_row \<Rightarrow> run_row" where
  "missing_params_values r =
     r\<lparr>r_claimed_by := None, r_lease_expires_at := None, r_status := Error,
       r_error_message := Some ''Run missing execution_params (data corruption or pre-migration row)''\<rparr>"

text \<open>
  \<open>_acquire_and_load\<close> is one transaction that claims the run and reads its row, and for a row without
  \<^verbatim>\<open>execution_params\<close> a second one, whose \<open>WHERE\<close> asks for the claim only.  Other transactions can
  commit between the two: \<open>Run_System\<close> interleaves them; \<open>acquire_and_load\<close> is the call that nothing
  comes in between of.
\<close>

definition claim_run ::
  "codec \<Rightarrow> int \<Rightarrow> time \<Rightarrow> run_id \<Rightarrow> worker \<Rightarrow> db \<Rightarrow> load_outcome \<times> db"
where
  "claim_run c lease_duration now rid w d =
     (let p = (\<lambda>r. r_run_id r = rid \<and> r_status r = Pending \<and> r_claimed_by r = None)
      in if select_where p (runs d) = [] then (NotAcquired, d)
         else
           (let d1 = d\<lparr>runs := update_where p (acquire_values w (now + lease_duration)) (runs d)\<rparr>
            in (case lookup_run d1 rid of
                  None \<Rightarrow> MissingParams
                | Some row \<Rightarrow>
                    (case r_execution_params row of
                       None \<Rightarrow> MissingParams
                     | Some params \<Rightarrow>
                         (case from_run_orm c row of
                            Inl e \<Rightarrow> LoadFailed e
                          | Inr job \<Rightarrow>
                              Loaded job (case map_of params ''trace'' of None \<Rightarrow> JObj [] | Some t \<Rightarrow> t))),
                d1)))"

definition fail_missing :: "run_id \<Rightarrow> worker \<Rightarrow> db \<Rightarrow> db" where
  "fail_missing rid w d =
     d\<lparr>runs := update_where (\<lambda>r. r_run_id r = rid \<and> r_claimed_by r = Some w) missing_params_values (runs d)\<rparr>"

definition acquire_and_load ::
  "codec \<Rightarrow> int \<Rightarrow> time \<Rightarrow> run_id \<Rightarrow> worker \<Rightarrow> db \<Rightarrow> load_outcome \<times> db"
where
  "acquire_and_load c lease_duration now rid w d =
     (case claim_run c lease_duration now rid w d of
        (MissingParams, d1) \<Rightarrow> (MissingParams, fail_missing rid w d1)
      | claimed \<Rightarrow> claimed)"

definition release_lease :: "run_id \<Rightarrow> worker \<Rightarrow> db \<Rightarrow> db" where
  "release_lease rid w d =
     d\<lparr>runs := update_where (\<lambda>r. r_run_id r = rid \<and> r_claimed_by r = Some w)
         (\<lambda>r. r\<lparr>r_claimed_by := None, r_lease_expires_at := None\<rparr>) (runs d)\<rparr>"

text \<open>
  One iteration of \<open>_heartbeat_loop\<close>.  The result says whether the lease is still held; when
  it is not, the loop marks the run in \<open>_lease_loss_cancellations\<close>, cancels the job task and
  returns.  A database error inside the iteration is swallowed and the loop goes on.
\<close>

datatype heartbeat_outcome = LeaseExtended | LeaseLost | HeartbeatFailed

definition heartbeat_step ::
  "int \<Rightarrow> time \<Rightarrow> run_id \<Rightarrow> worker \<Rightarrow> bool \<Rightarrow> db \<Rightarrow> heartbeat_outcome \<times> db"
where
  "heartbeat_step lease_duration now rid w db_ok d =
     (let p = (\<lambda>r. r_run_id r = rid \<and> r_claimed_by r = Some w)
      in if \<not> db_ok then (HeartbeatFailed, d)
         else if select_where p (runs d) = [] then (LeaseLost, d)
         else (LeaseExtended,
               d\<lparr>runs := update_where p (\<lambda>r. r\<lparr>r_lease_expires_at := Some (now + lease_duration)\<rparr>) (runs d)\<rparr>))"

fun push_while_up :: "redis_state list \<Rightarrow> run_id list \<Rightarrow> queue \<Rightarrow> run_id list \<times> queue" where
  "push_while_up (RedisUp # rs) (x # xs) q =
     (let (pushed, q') = push_while_up rs xs (q @ [x]) in (x # pushed, q'))"
| "push_while_up _ _ q = ([], q)"

definition requeue_values :: "run_row \<Rightarrow> run_row" where
  "requeue_values r = r\<lparr>r_status := Pending, r_claimed_by := None, r_lease_expires_at := None\<rparr>"

text \<open>
  \<open>_requeue_drained_runs\<close>: the rows are reset in one transaction, then pushed one by one until
  Redis fails.
\<close>

definition requeue_drained_runs ::
  "redis_state list \<Rightarrow> run_id list \<Rightarrow> db \<times> queue \<Rightarrow> db \<times> queue"
where
  "requeue_drained_runs rs rids s =
     (case s of (d, q) \<Rightarrow>
       (let p = (\<lambda>r. r_run_id r \<in> set rids \<and> (r_status r = Running \<or> r_status r = Pending));
            reset_ids = map r_run_id (select_where p (runs d));
            d' = d\<lparr>runs := update_where p requeue_values (runs d)\<rparr>
        in (d', if reset_ids = [] then q else snd (push_while_up rs reset_ids q))))"

definition TERMINAL_STATUSES :: "run_status list" where
  "TERMINAL_STATUSES = [Success, Error, Interrupted]"

definition is_run_terminal :: "db \<Rightarrow> run_id \<Rightarrow> bool" where
  "is_run_terminal d rid =
     (case lookup_run d rid of None \<Rightarrow> True | Some r \<Rightarrow> r_status r \<in> set TERMINAL_STATUSES)"

text \<open>
  \<open>wait_for_completion\<close> over what its iterations observe: the clock at the loop head, the
  answer of \<open>EXISTS\<close> and the database the terminal check reads.  A \<open>RedisError\<close> of the first is
  passed over; any other exception of either ends the wait, as does a client that was never
  initialised.  \<open>None\<close> means that the observations ran out before the loop ended.
\<close>

type_synonym wait_obs = "time \<times> bool result \<times> db result"

fun wait_loop :: "run_id \<Rightarrow> time \<Rightarrow> nat \<Rightarrow> wait_obs list \<Rightarrow> unit result option" where
  "wait_loop rid deadline poll_count [] = None"
| "wait_loop rid deadline poll_count ((t, done_key, d) # obs) =
     (if t < deadline then
        (let next_poll =
               (if Suc poll_count mod 2 = 0 then
                  (case d of
                     Inl e \<Rightarrow> Some (Inl e)
                   | Inr d \<Rightarrow> if is_run_terminal d rid then Some (Inr ()) else wait_loop rid deadline (Suc poll_count) obs)
                else wait_loop rid deadline (Suc poll_count) obs)
         in case done_key of
              Inl e \<Rightarrow> if e = RedisError then next_poll else Some (Inl e)
            | Inr found \<Rightarrow> if found then Some (Inr ()) else next_poll)
      else Some (Inl TimeoutError))"

definition wait_for_completion ::
  "bool \<Rightarrow> run_id \<Rightarrow> time \<Rightarrow> int \<Rightarrow> wait_obs list \<Rightarrow> unit result option"
where
  "wait_for_completion client_ready rid start timeout obs =
     (if client_ready then wait_loop rid (start + timeout) 0 obs else Some (Inl RuntimeError))"

lemmas [run_defs] = acquire_values_def missing_params_values_def release_lease_def
  heartbeat_step_def requeue_values_def

subsection \<open>Lemmas\<close>

lemma wf_db_release [intro]: "wf_db d \<Longrightarrow> wf_db (release_lease rid w d)"
  unfolding release_lease_def by (rule wf_db_runs_update) (auto simp: lease_ok_def)

lemma wf_db_heartbeat [intro]: "wf_db d \<Longrightarrow> wf_db (snd (heartbeat_step dur now rid w ok d))"
  by (auto simp: heartbeat_step_def Let_def lease_ok_def intro!: wf_db_runs_update)

lemma wf_db_requeue [intro]: "wf_db d \<Longrightarrow> wf_db (fst (requeue_drained_runs rs rids (d, q)))"
  by (auto simp: requeue_drained_runs_def requeue_values_def Let_def lease_ok_def
      intro!: wf_db_runs_update)

lemma wf_db_acquire_update:
  "wf_db d \<Longrightarrow> wf_db (d\<lparr>runs := update_where p (acquire_values w t) (runs d)\<rparr>)"
  by (rule wf_db_runs_update) (auto simp: acquire_values_def lease_ok_def)

lemma wf_db_missing_update:
  "wf_db (d\<lparr>runs := rs\<rparr>) \<Longrightarrow> wf_db (d\<lparr>runs := update_where p missing_params_values rs\<rparr>)"
  using wf_db_runs_update [of "d\<lparr>runs := rs\<rparr>" missing_params_values p]
  by (simp add: missing_params_values_def lease_ok_def)

lemma wf_db_claim [intro]: "wf_db d \<Longrightarrow> wf_db (snd (claim_run c dur now rid w d))"
  by (auto simp: claim_run_def Let_def wf_db_acquire_update)

lemma wf_db_fail_missing [intro]: "wf_db d \<Longrightarrow> wf_db (fail_missing rid w d)"
  unfolding fail_missing_def by (rule wf_db_runs_update) (auto simp: missing_params_values_def lease_ok_def)

lemma acquire_as_claim:
  "acquire_and_load c dur now rid w d = (out, d') \<Longrightarrow>
   \<exists>d1. claim_run c dur now rid w d = (out, d1) \<and> d' = (if out = MissingParams then fail_missing rid w d1 else d1)"
  by (cases "claim_run c dur now rid w d"; cases "fst (claim_run c dur now rid w d)") (auto simp: acquire_and_load_def)

lemma wf_db_acquire [intro]: "wf_db d \<Longrightarrow> wf_db (snd (acquire_and_load c dur now rid w d))"
proof (cases "acquire_and_load c dur now rid w d")
  case (Pair out d')
  assume "wf_db d"
  with wf_db_claim [of d c dur now rid w] acquire_as_claim [OF Pair] show ?thesis by (auto simp: Pair)
qed

text \<open>
  Every transaction changes rows by a function applied to the rows its \<open>WHERE\<close> accepts, so
  its effect on one run is read off the looked up row.
\<close>

lemma lookup_acquire_update:
  "lookup_run (d\<lparr>runs := update_where p (acquire_values w t) (runs d)\<rparr>) rid =
     map_option (\<lambda>r. if p r then acquire_values w t r else r) (lookup_run d rid)"
  by (rule lookup_run_update_where) (simp add: acquire_values_def)

lemma lookup_release:
  "lookup_run (release_lease rid w d) rid' =
     map_option (\<lambda>r. if r_run_id r = rid \<and> r_claimed_by r = Some w
                     then r\<lparr>r_claimed_by := None, r_lease_expires_at := None\<rparr> else r)
       (lookup_run d rid')"
  unfolding release_lease_def by (rule lookup_run_update_where) simp

lemma select_run_Nil_iff:
  assumes "wf_db d"
  shows "select_where (\<lambda>r. r_run_id r = rid \<and> Q r) (runs d) = [] \<longleftrightarrow>
    (\<forall>r. lookup_run d rid = Some r \<longrightarrow> \<not> Q r)"
  using assms by (auto simp: select_where_Nil_iff lookup_run_eq)

lemma push_while_up_prefix:
  "push_while_up rs xs q = (pushed, q') \<Longrightarrow> q' = q @ pushed \<and> (\<exists>rest. xs = pushed @ rest)"
  by (induction rs xs q arbitrary: pushed q' rule: push_while_up.induct)
    (auto split: prod.splits)

lemma push_while_up_all:
  "length rs = length xs \<Longrightarrow> set rs \<subseteq> {RedisUp} \<Longrightarrow> push_while_up rs xs q = (xs, q @ xs)"
proof (induction xs arbitrary: rs q)
  case (Cons x xs)
  then show ?case by (cases rs) auto
qed simp

lemma acquire_Loaded_cases:
  assumes "acquire_and_load c dur now rid w d = (out, d')" and "out \<noteq> NotAcquired"
  shows "\<exists>r \<in> set (runs d). r_run_id r = rid \<and> r_status r = Pending \<and> r_claimed_by r = None"
  using assms acquire_as_claim [OF assms(1)] by (auto simp: claim_run_def Let_def select_where_Nil_iff split: if_splits)

subsection \<open>A run has one owner\<close>

lemma acquire_Loaded_row:
  assumes wf: "wf_db d" and acq: "acquire_and_load c dur now rid w d = (Loaded job tr, d')"
  obtains r where "lookup_run d rid = Some r" "r_status r = Pending" "r_claimed_by r = None"
    "lookup_run d' rid = Some (acquire_values w (now + dur) r)" "from_run_orm c (acquire_values w (now + dur) r) = Inr job"
proof -
  let ?p = "\<lambda>r. r_run_id r = rid \<and> r_status r = Pending \<and> r_claimed_by r = None"
  from acquire_Loaded_cases [OF acq] obtain r where r: "lookup_run d rid = Some r" "?p r"
    using wf by (auto simp: lookup_run_eq)
  have hit: "select_where ?p (runs d) \<noteq> []"
    using r wf by (auto simp: select_where_Nil_iff lookup_run_eq)
  have look: "lookup_run (d\<lparr>runs := update_where ?p (acquire_values w (now + dur)) (runs d)\<rparr>) rid
      = Some (acquire_values w (now + dur) r)"
    using r by (simp add: lookup_acquire_update)
  from acq hit look have "d' = d\<lparr>runs := update_where ?p (acquire_values w (now + dur)) (runs d)\<rparr>"
    "from_run_orm c (acquire_values w (now + dur) r) = Inr job"
    using acquire_as_claim [OF acq] by (auto simp: claim_run_def Let_def split: option.splits sum.splits)
  with look r show thesis by (auto intro: that)
qed

lemma acquire_refused:
  assumes "wf_db d" and "lookup_run d rid = Some r" and "r_status r \<noteq> Pending \<or> r_claimed_by r \<noteq> None"
  shows "acquire_and_load c dur now rid w d = (NotAcquired, d)"
proof -
  have "select_where (\<lambda>r. r_run_id r = rid \<and> r_status r = Pending \<and> r_claimed_by r = None) (runs d) = []"
    using assms by (subst select_run_Nil_iff) auto
  then show ?thesis by (simp add: acquire_and_load_def claim_run_def Let_def)
qed

lemma stale_worker:
  assumes "wf_db d" and "\<forall>r. lookup_run d rid = Some r \<longrightarrow> r_claimed_by r \<noteq> Some w"
  shows "release_lease rid w d = d \<and> heartbeat_step dur now rid w True d = (LeaseLost, d)"
proof -
  have none: "select_where (\<lambda>r. r_run_id r = rid \<and> r_claimed_by r = Some w) (runs d) = []"
    using assms(2) by (subst select_run_Nil_iff [OF assms(1)])
  then have "update_where (\<lambda>r. r_run_id r = rid \<and> r_claimed_by r = Some w) f (runs d) = runs d" for f
    by (intro update_where_id) (auto simp: select_where_Nil_iff)
  with none show ?thesis by (simp add: release_lease_def heartbeat_step_def)
qed

text \<open>
  Claim C2.  A claim on a run is exclusive.  The worker that loads a job has taken the run from
  pending and unclaimed to running under its own lease.  In every database in which the run still
  carries that claim, whatever else has happened, no worker can acquire it, and until the lease
  expires no cancellation interrupts it behind the owner's back and the reaper does not consider
  it crashed.  A heartbeat of another worker does not touch it.  (Once the claim is given up, by
  release, drain, recovery or deletion, the run may be taken again.)
\<close>

theorem lease_exclusive:
  assumes "wf_db d" and "acquire_and_load c dur now rid w d = (Loaded job tr, d')"
  shows "(\<exists>r. lookup_run d rid = Some r \<and> r_status r = Pending \<and> r_claimed_by r = None) \<and>
    (\<exists>r. lookup_run d' rid = Some r \<and> r_status r = Running \<and> r_claimed_by r = Some w \<and>
            r_lease_expires_at r = Some (now + dur)) \<and>
    (\<forall>d'' r. wf_db d'' \<and> lookup_run d'' rid = Some r \<and> r_claimed_by r = Some w \<longrightarrow>
       (\<forall>c' dur' now' w'. acquire_and_load c' dur' now' rid w' d'' = (NotAcquired, d'')) \<and>
       (\<forall>dur' now' w'. w' \<noteq> w \<longrightarrow> heartbeat_step dur' now' rid w' True d'' = (LeaseLost, d'') \<and> release_lease rid w' d'' = d'') \<and>
       (\<forall>now' tid uid e. r_lease_expires_at r = Some e \<and> now' \<le> e \<longrightarrow>
          interrupt_unowned_run now' rid tid uid d'' = (False, d'') \<and> \<not> lease_expired now' r))"
proof -
  have held: "(\<forall>c' dur' now' w'. acquire_and_load c' dur' now' rid w' d'' = (NotAcquired, d'')) \<and>
       (\<forall>dur' now' w'. w' \<noteq> w \<longrightarrow> heartbeat_step dur' now' rid w' True d'' = (LeaseLost, d'') \<and> release_lease rid w' d'' = d'') \<and>
       (\<forall>now' tid uid e. r_lease_expires_at r = Some e \<and> now' \<le> e \<longrightarrow>
          interrupt_unowned_run now' rid tid uid d'' = (False, d'') \<and> \<not> lease_expired now' r)"
    if wf: "wf_db d''" and r: "lookup_run d'' rid = Some r" "r_claimed_by r = Some w" for d'' r
  proof (intro conjI allI impI)
    fix c' dur' now' w' show "acquire_and_load c' dur' now' rid w' d'' = (NotAcquired, d'')"
      by (rule acquire_refused [OF wf r(1)]) (simp add: r(2))
  next
    fix dur' now' w' assume "w' \<noteq> w"
    then have "\<forall>r. lookup_run d'' rid = Some r \<longrightarrow> r_claimed_by r \<noteq> Some w'" using r by simp
    from stale_worker [OF wf this]
    show "heartbeat_step dur' now' rid w' True d'' = (LeaseLost, d'')" "release_lease rid w' d'' = d''" by auto
  next
    fix now' tid uid e assume e: "r_lease_expires_at r = Some e \<and> now' \<le> e"
    then show "\<not> lease_expired now' r" by (simp add: lease_expired_def)
    have "select_where (\<lambda>r. r_run_id r = rid \<and> r_thread_id r = tid \<and> r_user_id r = uid \<and> is_active r
        \<and> (r_claimed_by r = None \<or> lease_expired now' r)) (runs d'') = []"
      using r e by (subst select_run_Nil_iff [OF wf]) (auto simp: lease_expired_def)
    then show "interrupt_unowned_run now' rid tid uid d'' = (False, d'')" by (simp add: interrupt_unowned_run_def Let_def)
  qed
  obtain r where r: "lookup_run d rid = Some r" "r_status r = Pending" "r_claimed_by r = None"
    "lookup_run d' rid = Some (acquire_values w (now + dur) r)" using acquire_Loaded_row [OF assms] .
  from r(1-3) have before: "\<exists>r. lookup_run d rid = Some r \<and> r_status r = Pending \<and> r_claimed_by r = None" by blast
  from r(4) have owned: "\<exists>r. lookup_run d' rid = Some r \<and> r_status r = Running \<and> r_claimed_by r = Some w \<and>
      r_lease_expires_at r = Some (now + dur)" by (simp add: acquire_values_def)
  show ?thesis by (rule conjI [OF before conjI [OF owned]]) (intro allI impI, elim conjE, rule held)
qed

text \<open>A loadable example: the job of run \<open>r1\<close>, stored with the plain codec.\<close>

definition example_user :: user where
  "example_user = \<lparr>identity = ''alice'', is_authenticated = True, permissions = [], display_name = ''Alice'',
     org_id = None, email = None\<rparr>"

definition example_job :: run_job where
  "example_job = \<lparr>j_identity = \<lparr>ji_run_id = ''r1'', ji_thread_id = ''t1'', ji_graph_id = ''g''\<rparr>,
     j_user = example_user,
     j_execution = \<lparr>e_input_data = Some [], e_config = [], e_context = [], e_stream_mode = None,
       e_checkpoint = None, e_command = None, e_durability = None, e_event_streaming_v2 = False\<rparr>,
     j_behavior = \<lparr>b_interrupt_before = None, b_interrupt_after = None, b_multitask_strategy = None,
       b_subgraphs = False\<rparr>,
     j_run_metadata = []\<rparr>"

definition example_loadable :: run_row where
  "example_loadable = (example_run ''r1'' Pending None None)
     \<lparr>r_execution_params := Some (to_execution_params plain_codec example_job)\<rparr>"

lemma wf_example_db: "lease_ok r \<Longrightarrow> wf_db (example_db [r])"
  by (simp add: wf_db_def example_db_def)

lemma lookup_example [simp]: "lookup_run (example_db [r]) rid = (if r_run_id r = rid then Some r else None)"
  by (simp add: lookup_run_def first_where_def example_db_def)

lemma example_loads:
  "from_run_orm plain_codec (acquire_values w t example_loadable) = Inr example_job"
  by (rule plain.from_run_orm_params)
    (simp_all add: acquire_values_def example_loadable_def example_run_def example_job_def)

lemma example_acquired:
  "\<exists>tr d'. acquire_and_load plain_codec 30 10 ''r1'' w (example_db [example_loadable]) = (Loaded example_job tr, d')"
  using example_loads [of w 40]
  by (simp add: acquire_and_load_def claim_run_def Let_def lookup_run_def first_where_def example_db_def select_where_def)
    (simp add: example_loadable_def example_run_def acquire_values_def)

theorem lease_exclusive_witness:
  "\<exists>tr d'. acquire_and_load plain_codec 30 10 ''r1'' ''w1'' (example_db [example_loadable])
             = (Loaded example_job tr, d') \<and>
           acquire_and_load plain_codec 30 12 ''r1'' ''w2'' d' = (NotAcquired, d') \<and>
           interrupt_unowned_run 12 ''r1'' ''t1'' ''alice'' d' = (False, d')"
proof -
  obtain tr d' where d': "acquire_and_load plain_codec 30 10 ''r1'' ''w1'' (example_db [example_loadable])
      = (Loaded example_job tr, d')" using example_acquired [of "''w1''"] by blast
  have "wf_db (example_db [example_loadable])"
    by (rule wf_example_db) (simp add: example_loadable_def example_run_def lease_ok_def)
  from lease_exclusive [OF this d'] wf_db_acquire [OF this, of plain_codec 30 10 "''r1''" "''w1''"] d'
  show ?thesis by auto
qed

text \<open>
  A worker that lost its lease cannot disturb the new owner: its release changes
  nothing, its next heartbeat extends nothing and reports the loss.
\<close>

theorem stale_worker_harmless:
  assumes "wf_db d" and "\<forall>r. lookup_run d rid = Some r \<longrightarrow> r_claimed_by r \<noteq> Some w"
  shows "release_lease rid w d = d \<and> heartbeat_step dur now rid w True d = (LeaseLost, d)"
  by (rule stale_worker [OF assms])

theorem stale_worker_harmless_witness:
  "release_lease ''r1'' ''w1'' (example_db [example_run ''r1'' Running (Some ''w2'') (Some 50)])
     = example_db [example_run ''r1'' Running (Some ''w2'') (Some 50)] \<and>
   heartbeat_step 30 20 ''r1'' ''w1'' True (example_db [example_run ''r1'' Running (Some ''w2'') (Some 50)])
     = (LeaseLost, example_db [example_run ''r1'' Running (Some ''w2'') (Some 50)])"
  by (rule stale_worker_harmless, rule wf_example_db) (simp_all add: lease_ok_def example_run_def)

subsection \<open>Waiting for a run\<close>

text \<open>
  What iteration \<open>k\<close>, counted from zero, may see: the completion, or an exception.  The row is read
  in every second iteration.
\<close>

definition saw_completion :: "run_id \<Rightarrow> nat \<Rightarrow> wait_obs \<Rightarrow> bool" where
  "saw_completion rid k x =
     (case x of (t, done_key, d) \<Rightarrow> done_key = Inr True \<or> (odd k \<and> (\<exists>d'. d = Inr d' \<and> is_run_terminal d' rid)))"

definition saw_exception :: "nat \<Rightarrow> wait_obs \<Rightarrow> py_error \<Rightarrow> bool" where
  "saw_exception k x e =
     (case x of (t, done_key, d) \<Rightarrow> (done_key = Inl e \<and> e \<noteq> RedisError) \<or> (odd k \<and> d = Inl e))"

definition wait_ends :: "run_id \<Rightarrow> nat \<Rightarrow> wait_obs list \<Rightarrow> unit result \<Rightarrow> bool" where
  "wait_ends rid n its res =
     (case res of
        Inr _ \<Rightarrow> \<exists>k < length its. saw_completion rid (n + k) (its ! k)
      | Inl e \<Rightarrow> (\<exists>k < length its. saw_exception (n + k) (its ! k) e)
          \<or> (e = TimeoutError \<and> (\<forall>k < length its. \<not> saw_completion rid (n + k) (its ! k))))"

lemma wait_ends_Cons:
  "wait_ends rid n (x # its) res \<longleftrightarrow>
     (case res of
        Inr _ \<Rightarrow> saw_completion rid n x \<or> wait_ends rid (Suc n) its res
      | Inl e \<Rightarrow> saw_exception n x e \<or> (\<exists>k < length its. saw_exception (Suc n + k) (its ! k) e)
          \<or> (e = TimeoutError \<and> \<not> saw_completion rid n x \<and> (\<forall>k < length its. \<not> saw_completion rid (Suc n + k) (its ! k))))"
  by (cases res) (auto simp: wait_ends_def less_Suc_eq_0_disj)

lemma wait_loop_ends:
  "\<exists>x \<in> set obs. dl \<le> fst x \<Longrightarrow>
   \<exists>res. wait_loop rid dl n obs = Some res \<and> wait_ends rid n (takeWhile (\<lambda>x. fst x < dl) obs) res"
proof (induction obs arbitrary: n)
  case (Cons x obs)
  obtain t done_key d where x: "x = (t, done_key, d)" by (cases x)
  show ?case
  proof (cases "t < dl")
    case False
    then show ?thesis by (simp add: x wait_ends_def)
  next
    case True
    with Cons.prems have "\<exists>x \<in> set obs. dl \<le> fst x" by (auto simp: x)
    from Cons.IH [OF this, of "Suc n"] obtain res where
      res: "wait_loop rid dl (Suc n) obs = Some res" "wait_ends rid (Suc n) (takeWhile (\<lambda>x. fst x < dl) obs) res" by blast
    then have cont: "wait_ends rid n (x # takeWhile (\<lambda>x. fst x < dl) obs) res" if "\<not> saw_completion rid n x"
      using that unfolding wait_ends_Cons by (auto simp: wait_ends_def split: sum.splits)
    have parity: "Suc n mod 2 = 0 \<longleftrightarrow> odd n" by presburger
    consider "saw_completion rid n x" | e where "saw_exception n x e" "\<not> saw_completion rid n x"
      | "\<not> saw_completion rid n x" "\<And>e. \<not> saw_exception n x e" by blast
    then show ?thesis
    proof cases
      case 3
      then have "wait_loop rid dl n (x # obs) = Some res"
        using True res(1) parity
        by (cases done_key; cases d) (auto simp: x saw_completion_def saw_exception_def Let_def)
      with cont [OF 3(1)] True show ?thesis by (simp add: x)
    next
      case 1
      then show ?thesis
        using True parity
        by (cases done_key; cases d) (auto simp: x wait_ends_Cons saw_completion_def saw_exception_def Let_def)
    next
      case 2
      then show ?thesis
        using True parity
        by (cases done_key; cases d) (auto simp: x wait_ends_Cons saw_completion_def saw_exception_def Let_def)
    qed
  qed
qed simp

text \<open>
  Claim C37.  Waiting for a run ends: once the clock has passed the deadline the wait has returned.
  With an initialised client it returns normally only when an iteration before the deadline saw the
  completion key, or a final or deleted row where it read the row, which is every second iteration.
  It fails with an exception that reading the key (a failure of Redis apart) or the row raised, or
  with a timeout; and the clock runs out only when no iteration saw the completion.  Without an
  initialised client it fails at once.
\<close>

theorem wait_for_completion_ends:
  assumes "\<exists>x \<in> set obs. start + timeout \<le> fst x"
  shows "\<exists>res. wait_for_completion client_ready rid start timeout obs = Some res
    \<and> (if client_ready then wait_ends rid 0 (takeWhile (\<lambda>x. fst x < start + timeout) obs) res else res = Inl RuntimeError)"
  using wait_loop_ends [OF assms, of rid 0] by (simp add: wait_for_completion_def)

theorem wait_for_completion_ends_witness:
  "wait_for_completion True ''r1'' 0 10
     [(1, Inr False, Inr (example_db [example_run ''r1'' Running None None])),
      (3, Inl RedisError, Inr (example_db [example_run ''r1'' Running None None])),
      (11, Inr False, Inl RuntimeError)] = Some (Inl TimeoutError)"
proof -
  let ?d = "example_db [example_run ''r1'' Running None None]"
  let ?obs = "[(1, Inr False, Inr ?d), (3, Inl RedisError, Inr ?d), (11, Inr False, Inl RuntimeError)] :: wait_obs list"
  have "\<not> is_run_terminal ?d ''r1''" by (simp add: is_run_terminal_def example_run_def TERMINAL_STATUSES_def)
  moreover obtain res where "wait_for_completion True ''r1'' 0 10 ?obs = Some res" "wait_ends ''r1'' 0 (takeWhile (\<lambda>x. fst x < 10) ?obs) res"
    using wait_for_completion_ends [of ?obs 0 10 True "''r1''"] by auto
  ultimately show ?thesis
    by (cases res) (auto simp: wait_ends_def saw_completion_def saw_exception_def less_Suc_eq conj_disj_distribR ex_disj_distrib)
qed

end
