(* ===== verification/Lease_Reaper.thy ===== *)
theory Lease_Reaper
  imports Lease
begin

text \<open>
  \<^verbatim>\<open>execution/lease_reaper.py\<close>: the scan for crashed and stuck runs, the transaction that
  charges the retry budget of a crashed run and decides its next state, and the re-enqueueing.
  Rows locked by another transaction (\<open>SKIP LOCKED\<close>) are an argument.
\<close>

record reaper_settings =
  BG_JOB_MAX_RETRIES :: int
  STUCK_PENDING_THRESHOLD_SECONDS :: int

definition crashed :: "time \<Rightarrow> run_row \<Rightarrow> bool" where
  "crashed now r = (r_status r = Running \<and> lease_expired now r)"

definition find_recoverable :: "reaper_settings \<Rightarrow> time \<Rightarrow> db \<Rightarrow> run_id list \<times> run_id list" where
  "find_recoverable cfg now d =
     (map r_run_id (select_where
        (\<lambda>r. r_status r = Running \<and> r_lease_expires_at r \<noteq> None \<and> lease_expired now r) (runs d)),
      map r_run_id (select_where
        (\<lambda>r. r_status r = Pending \<and> r_claimed_by r = None
             \<and> r_created_at r < now - STUCK_PENDING_THRESHOLD_SECONDS cfg) (runs d)))"

text \<open>
  \<open>params.get("_retry_count", 0) + 1\<close>: a counter that is not a number raises.
\<close>

definition retry_count :: "dict \<Rightarrow> json result" where
  "retry_count params =
     (case map_of params ''_retry_count'' of
        None \<Rightarrow> Inr (JInt 1)
      | Some (JInt n) \<Rightarrow> Inr (JInt (n + 1))
      | Some (JBool b) \<Rightarrow> Inr (JInt (of_bool b + 1))
      | Some (JFloat f) \<Rightarrow> Inr (JFloat (f + 1))
      | Some _ \<Rightarrow> Inl TypeError)"

definition exceeds :: "json \<Rightarrow> int \<Rightarrow> bool" where
  "exceeds j m = (case j of JInt n \<Rightarrow> n > m | JFloat f \<Rightarrow> f > of_int m | _ \<Rightarrow> False)"

definition params_of :: "run_row \<Rightarrow> dict" where
  "params_of r = (case r_execution_params r of None \<Rightarrow> [] | Some p \<Rightarrow> p)"

record recovery =
  rec_retryable :: "run_id list"
  rec_exhausted :: "run_id list"
  rec_threads :: "(user_id \<times> thread_id list) list"
  rec_db :: db

definition recover_values :: "time \<Rightarrow> dict \<Rightarrow> bool \<Rightarrow> run_row \<Rightarrow> run_row" where
  "recover_values now params exhausted r =
     (let r = r\<lparr>r_execution_params := Some (bind_dict params), r_claimed_by := None,
                r_lease_expires_at := None, r_updated_at := now\<rparr>
      in if exhausted
         then r\<lparr>r_status := Error,
                r_error_message := Some ''Max retries exceeded after repeated worker failures''\<rparr>
         else r\<lparr>r_status := Pending\<rparr>)"

definition recover_one ::
  "reaper_settings \<Rightarrow> time \<Rightarrow> run_row \<Rightarrow> recovery \<Rightarrow> recovery result"
where
  "recover_one cfg now row st =
     bind_res (retry_count (params_of row)) (\<lambda>rc.
       let params = AList.update ''_retry_count'' rc (params_of row);
           exhausted = exceeds rc (BG_JOB_MAX_RETRIES cfg);
           p = (\<lambda>r. r_run_id r = r_run_id row \<and> r_user_id r = r_user_id row \<and> crashed now r);
           d = rec_db st
       in if select_where p (runs d) = [] then Inr st
          else
            (let st = st\<lparr>rec_db := d\<lparr>runs := update_where p (recover_values now params exhausted) (runs d)\<rparr>\<rparr>
             in if exhausted
                then Inr (st\<lparr>rec_exhausted := rec_exhausted st @ [r_run_id row],
                             rec_threads := map_default (r_user_id row) [r_thread_id row]
                               (List.insert (r_thread_id row)) (rec_threads st)\<rparr>)
                else Inr (st\<lparr>rec_retryable := rec_retryable st @ [r_run_id row]\<rparr>)))"

fun recover_all :: "reaper_settings \<Rightarrow> time \<Rightarrow> run_row list \<Rightarrow> recovery \<Rightarrow> recovery result" where
  "recover_all cfg now [] st = Inr st"
| "recover_all cfg now (row # rows) st =
     bind_res (recover_one cfg now row st) (recover_all cfg now rows)"

definition fail_threads :: "time \<Rightarrow> (user_id \<times> thread_id list) list \<Rightarrow> db \<Rightarrow> db" where
  "fail_threads now by_user d =
     fold (\<lambda>(uid, tids). set_thread_status_if_no_active_runs now tids ThreadError uid) by_user d"

text \<open>\<open>_recover_crashed_runs\<close>; an exception rolls the whole transaction back.\<close>

definition recover_crashed_runs ::
  "reaper_settings \<Rightarrow> time \<Rightarrow> (run_id \<Rightarrow> bool) \<Rightarrow> run_id list \<Rightarrow> db
   \<Rightarrow> ((run_id list \<times> run_id list) \<times> db) result"
where
  "recover_crashed_runs cfg now locked rids d =
     bind_res
       (recover_all cfg now
          (select_where (\<lambda>r. r_run_id r \<in> set rids \<and> crashed now r \<and> \<not> locked (r_run_id r)) (runs d))
          \<lparr>rec_retryable = [], rec_exhausted = [], rec_threads = [], rec_db = d\<rparr>)
       (\<lambda>st. Inr ((rec_retryable st, rec_exhausted st),
                  fail_threads now (rec_threads st) (rec_db st)))"

definition missing_from_queue :: "redis_state \<Rightarrow> run_id list \<Rightarrow> queue \<Rightarrow> run_id list" where
  "missing_from_queue r rids q =
     (if r = RedisUp then filter (\<lambda>x. x \<notin> set q) rids else [])"

definition reenqueue :: "redis_state list \<Rightarrow> run_id list \<Rightarrow> queue \<Rightarrow> run_id list \<times> queue" where
  "reenqueue rs rids q = push_while_up rs rids q"

text \<open>
  One pass of the reaper.  \<open>rs1\<close> and \<open>rs2\<close> are Redis' answers to the pushes of the two
  re-enqueueings and \<open>r\<close> its answer to the queue scan between them; the two transactions see
  the databases \<open>d\<close> and \<open>env d\<close>, since others commit in between.
\<close>

definition reap ::
  "reaper_settings \<Rightarrow> time \<Rightarrow> time \<Rightarrow> (run_id \<Rightarrow> bool) \<Rightarrow> (db \<Rightarrow> db) \<Rightarrow> redis_state list \<Rightarrow> redis_state
   \<Rightarrow> redis_state list \<Rightarrow> db \<times> queue \<Rightarrow> (db \<times> queue) result"
where
  "reap cfg now now' locked env rs1 r rs2 s =
     (case s of (d, q) \<Rightarrow>
       (let (cr, stuck) = find_recoverable cfg now d; d = env d
        in if cr = [] \<and> stuck = [] then Inr (d, q)
           else
             bind_res
               (if cr = [] then Inr (d, q)
                else bind_res (recover_crashed_runs cfg now' locked cr d) (\<lambda>((retryable, exhausted), d').
                       Inr (d', if retryable = [] then q else snd (reenqueue rs1 retryable q))))
               (\<lambda>(d', q').
                  if stuck = [] then Inr (d', q')
                  else (let lost = missing_from_queue r stuck q'
                        in Inr (d', if lost = [] then q' else snd (reenqueue rs2 lost q'))))))"

subsection \<open>Lemmas\<close>

lemma runs_fail_threads [simp]: "runs (fail_threads now xs d) = runs d"
  by (induction xs arbitrary: d) (auto simp: fail_threads_def)

lemma thread_keys_fail_threads [simp]:
  "map t_thread_id (threads (fail_threads now xs d)) = map t_thread_id (threads d)"
  by (induction xs arbitrary: d) (auto simp: fail_threads_def)

lemma wf_db_fail_threads: "wf_db d \<Longrightarrow> wf_db (fail_threads now xs d)"
  by (simp add: wf_db_def)

lemma r_run_id_recover_values [simp]: "r_run_id (recover_values now params ex r) = r_run_id r"
  by (simp add: recover_values_def Let_def)

lemma lease_ok_recover_values [simp]: "lease_ok (recover_values now params ex r)"
  by (simp add: recover_values_def Let_def lease_ok_def)

lemma wf_db_recover_update:
  "wf_db d \<Longrightarrow> wf_db (d\<lparr>runs := update_where p (recover_values now params ex) (runs d)\<rparr>)"
  by (rule wf_db_runs_update) auto

lemma recover_one_wf:
  "recover_one cfg now row st = Inr st' \<Longrightarrow> wf_db (rec_db st) \<Longrightarrow> wf_db (rec_db st')"
  by (auto simp: recover_one_def Let_def wf_db_recover_update dest!: bind_res_InrD split: if_splits)

lemma recover_all_wf:
  "recover_all cfg now rows st = Inr st' \<Longrightarrow> wf_db (rec_db st) \<Longrightarrow> wf_db (rec_db st')"
  by (induction rows arbitrary: st) (auto dest!: bind_res_InrD intro: recover_one_wf)

lemma recover_crashed_wf:
  "recover_crashed_runs cfg now locked rids d = Inr (x, d') \<Longrightarrow> wf_db d \<Longrightarrow> wf_db d'"
  unfolding recover_crashed_runs_def
  by (auto dest!: bind_res_InrD intro!: wf_db_fail_threads elim!: recover_all_wf)

text \<open>What happens to one crashed row, and that no other row is touched.\<close>

definition recovered_row :: "reaper_settings \<Rightarrow> time \<Rightarrow> run_row \<Rightarrow> run_row" where
  "recovered_row cfg now r =
     (case retry_count (params_of r) of
        Inl _ \<Rightarrow> r
      | Inr rc \<Rightarrow> recover_values now (AList.update ''_retry_count'' rc (params_of r))
                   (exceeds rc (BG_JOB_MAX_RETRIES cfg)) r)"

lemma r_run_id_recovered [simp]: "r_run_id (recovered_row cfg now r) = r_run_id r"
  by (simp add: recovered_row_def split: sum.splits)

lemma lookup_recover_one:
  assumes "recover_one cfg now row st = Inr st'" and "lookup_run (rec_db st) (r_run_id row) = Some row"
    and "crashed now row" and wf: "wf_db (rec_db st)"
  shows "lookup_run (rec_db st') rid =
    (if rid = r_run_id row then Some (recovered_row cfg now row) else lookup_run (rec_db st) rid)"
proof -
  from assms(1) obtain rc where rc: "retry_count (params_of row) = Inr rc"
    by (auto simp: recover_one_def dest!: bind_res_InrD)
  let ?p = "\<lambda>r. r_run_id r = r_run_id row \<and> r_user_id r = r_user_id row \<and> crashed now r"
  let ?f = "recover_values now (AList.update ''_retry_count'' rc (params_of row))
              (exceeds rc (BG_JOB_MAX_RETRIES cfg))"
  have row: "row \<in> set (runs (rec_db st))" using assms(2) by (auto dest: lookup_run_SomeD)
  then have "select_where ?p (runs (rec_db st)) \<noteq> []"
    using assms(3) by (auto simp: select_where_Nil_iff)
  then have "rec_db st' = (rec_db st)\<lparr>runs := update_where ?p ?f (runs (rec_db st))\<rparr>"
    using assms(1) rc by (auto simp: recover_one_def Let_def split: if_splits)
  then have eq: "lookup_run (rec_db st') rid =
      map_option (\<lambda>r. if ?p r then ?f r else r) (lookup_run (rec_db st) rid)"
    by (simp add: lookup_run_update_where)
  show ?thesis
  proof (cases "rid = r_run_id row")
    case True
    with eq assms(2,3) rc show ?thesis by (simp add: recovered_row_def)
  next
    case False
    then have "\<not> ?p r" if "lookup_run (rec_db st) rid = Some r" for r
      using lookup_run_SomeD [OF that] by auto
    with False eq show ?thesis by (cases "lookup_run (rec_db st) rid") auto
  qed
qed

lemma lookup_recover_all:
  assumes "recover_all cfg now rows st = Inr st'" and "distinct (map r_run_id rows)"
    and "\<And>r. r \<in> set rows \<Longrightarrow> lookup_run (rec_db st) (r_run_id r) = Some r \<and> crashed now r"
    and "wf_db (rec_db st)"
  shows "lookup_run (rec_db st') rid =
    (if rid \<in> r_run_id ` set rows then map_option (recovered_row cfg now) (lookup_run (rec_db st) rid)
     else lookup_run (rec_db st) rid)"
  using assms
proof (induction rows arbitrary: st)
  case (Cons row rows)
  from Cons.prems(1) obtain st1 where one: "recover_one cfg now row st = Inr st1"
    and rest: "recover_all cfg now rows st1 = Inr st'"
    by (auto dest!: bind_res_InrD)
  have row: "lookup_run (rec_db st) (r_run_id row) = Some row" "crashed now row"
    using Cons.prems(3) by auto
  note eq = lookup_recover_one [OF one row Cons.prems(4)]
  have "lookup_run (rec_db st1) (r_run_id r) = Some r \<and> crashed now r" if "r \<in> set rows" for r
    using Cons.prems(2,3) that eq [of "r_run_id r"] by (force simp: image_iff)
  then have "lookup_run (rec_db st') rid =
      (if rid \<in> r_run_id ` set rows then map_option (recovered_row cfg now) (lookup_run (rec_db st1) rid)
       else lookup_run (rec_db st1) rid)"
    using Cons.IH [OF rest] Cons.prems(2,4) recover_one_wf [OF one] by simp
  then show ?case
    using eq [of rid] row Cons.prems(2) by auto
qed simp

lemma lookup_recover_crashed:
  assumes "recover_crashed_runs cfg now locked rids d = Inr (x, d')" and wf: "wf_db d"
  shows "lookup_run d' rid =
    map_option (\<lambda>r. if rid \<in> set rids \<and> crashed now r \<and> \<not> locked rid
                    then recovered_row cfg now r else r) (lookup_run d rid)"
proof -
  let ?rows = "select_where (\<lambda>r. r_run_id r \<in> set rids \<and> crashed now r \<and> \<not> locked (r_run_id r)) (runs d)"
  from assms(1) obtain st where
    all: "recover_all cfg now ?rows \<lparr>rec_retryable = [], rec_exhausted = [], rec_threads = [], rec_db = d\<rparr> = Inr st"
    and d': "d' = fail_threads now (rec_threads st) (rec_db st)"
    unfolding recover_crashed_runs_def by (auto dest!: bind_res_InrD)
  have dist: "distinct (map r_run_id ?rows)"
    using wf by (simp add: wf_db_def select_where_def distinct_map_filter)
  have "lookup_run d (r_run_id r) = Some r \<and> crashed now r" if "r \<in> set ?rows" for r
    using that wf by (simp add: lookup_run_eq)
  then have "lookup_run (rec_db st) rid =
      (if rid \<in> r_run_id ` set ?rows then map_option (recovered_row cfg now) (lookup_run d rid)
       else lookup_run d rid)"
    using lookup_recover_all [OF all dist, of rid] wf by (simp only: recovery.select_convs)
  moreover have "rid \<in> r_run_id ` set ?rows \<longleftrightarrow>
      (\<exists>r. lookup_run d rid = Some r \<and> rid \<in> set rids \<and> crashed now r \<and> \<not> locked rid)"
    using wf by (auto simp: lookup_run_eq)
  moreover have "lookup_run d' rid = lookup_run (rec_db st) rid"
    by (simp add: d' lookup_run_def)
  ultimately show ?thesis
    by (cases "lookup_run d rid") auto
qed

end
