(* ===== verification/Event_Ids.thy ===== *)
theory Event_Ids
  imports Prelude
begin

text \<open>
  SSE event ids (\<^verbatim>\<open>infra/sse_utils.py\<close>): \<open>{run_id}_event_{sequence}\<close> and the extraction of
  the sequence number.  The Python primitives behind them are written out: decimal printing of
  an integer, \<open>str.split\<close> on a separator, and \<open>int(str)\<close> with its optional sign, surrounding
  white space and single underscores between digits.
\<close>

subsection \<open>Python's \<open>str(int)\<close>, \<open>int(str)\<close> and \<open>str.split\<close>\<close>

definition digit_char :: "nat \<Rightarrow> char" where
  "digit_char n = char_of (48 + n)"

definition digit_val :: "char \<Rightarrow> nat option" where
  "digit_val c =
     (let n = (of_char c :: nat) in if 48 \<le> n \<and> n \<le> 57 then Some (n - 48) else None)"

fun dec :: "nat \<Rightarrow> string" where
  "dec n = (if n < 10 then [digit_char n] else dec (n div 10) @ [digit_char (n mod 10)])"

declare dec.simps [simp del]

definition py_space :: "char \<Rightarrow> bool" where
  "py_space c =
     (let n = (of_char c :: nat) in n \<in> {9, 10, 11, 12, 13, 28, 29, 30, 31, 32, 133, 160})"

definition py_strip :: "string \<Rightarrow> string" where
  "py_strip s = rev (dropWhile py_space (rev (dropWhile py_space s)))"

fun parse_digits :: "nat \<Rightarrow> string \<Rightarrow> nat option" where
  "parse_digits acc [] = Some acc"
| "parse_digits acc (c # cs) =
     (case digit_val c of
        Some v \<Rightarrow> parse_digits (acc * 10 + v) cs
      | None \<Rightarrow>
          if c = CHR ''_'' then
            (case cs of
               [] \<Rightarrow> None
             | e # es \<Rightarrow>
                 (case digit_val e of
                    Some v \<Rightarrow> parse_digits (acc * 10 + v) es
                  | None \<Rightarrow> None))
          else None)"

definition parse_nat :: "string \<Rightarrow> nat option" where
  "parse_nat s =
     (case s of
        [] \<Rightarrow> None
      | c # cs \<Rightarrow> (case digit_val c of Some v \<Rightarrow> parse_digits v cs | None \<Rightarrow> None))"

definition py_int :: "string \<Rightarrow> int option" where
  "py_int s =
     (case py_strip s of
        [] \<Rightarrow> None
      | c # cs \<Rightarrow>
          if c = CHR ''-'' then map_option (\<lambda>n. - int n) (parse_nat cs)
          else if c = CHR ''+'' then map_option int (parse_nat cs)
          else map_option int (parse_nat (c # cs)))"

text \<open>\<open>str.split\<close> with a non-empty separator: leftmost matches, without overlap.\<close>

fun split_aux :: "string \<Rightarrow> string \<Rightarrow> string \<Rightarrow> string list" where
  "split_aux sep acc [] = [rev acc]"
| "split_aux sep acc (c # cs) =
     (if take (length sep) (c # cs) = sep
      then rev acc # split_aux sep [] (drop (length sep - 1) cs)
      else split_aux sep (c # acc) cs)"

definition py_split :: "string \<Rightarrow> string \<Rightarrow> string list" where
  "py_split sep s = split_aux sep [] s"

text \<open>\<open>str.lower\<close> on the Latin-1 range and \<open>str.split()\<close> on white space.\<close>

definition lower_char :: "char \<Rightarrow> char" where
  "lower_char c =
     (let n = (of_char c :: nat)
      in if 65 \<le> n \<and> n \<le> 90 \<or> 192 \<le> n \<and> n \<le> 222 \<and> n \<noteq> 215 then char_of (n + 32) else c)"

definition py_lower :: "string \<Rightarrow> string" where
  "py_lower = map lower_char"

text \<open>\<open>str.upper\<close> on ASCII.\<close>

definition upper_char :: "char \<Rightarrow> char" where
  "upper_char c = (let n = (of_char c :: nat) in if 97 \<le> n \<and> n \<le> 122 then char_of (n - 32) else c)"

definition py_upper :: "string \<Rightarrow> string" where
  "py_upper = map upper_char"

fun words_aux :: "string \<Rightarrow> string \<Rightarrow> string list" where
  "words_aux acc [] = (if acc = [] then [] else [rev acc])"
| "words_aux acc (c # cs) =
     (if py_space c then (if acc = [] then [] else [rev acc]) @ words_aux [] cs
      else words_aux (c # acc) cs)"

definition py_words :: "string \<Rightarrow> string list" where
  "py_words s = words_aux [] s"

subsection \<open>Event ids\<close>

definition event_sep :: string where
  "event_sep = ''_event_''"

definition generate_event_id :: "run_id \<Rightarrow> nat \<Rightarrow> string" where
  "generate_event_id rid sequence = rid @ event_sep @ dec sequence"

definition extract_event_sequence :: "string \<Rightarrow> int" where
  "extract_event_sequence event_id =
     (case py_int (last (py_split event_sep event_id)) of Some n \<Rightarrow> n | None \<Rightarrow> 0)"

subsection \<open>Lemmas\<close>

lemma digit_val_digit_char [simp]: "n < 10 \<Longrightarrow> digit_val (digit_char n) = Some n"
  by (simp add: digit_val_def digit_char_def of_char_of Let_def)

lemma digit_val_SomeD: "digit_val c = Some v \<Longrightarrow> \<not> py_space c \<and> c \<noteq> CHR ''_'' \<and> c \<noteq> CHR ''-'' \<and> c \<noteq> CHR ''+''"
  by (auto simp: digit_val_def py_space_def Let_def split: if_splits)

lemma dec_digits: "c \<in> set (dec n) \<Longrightarrow> \<exists>v. digit_val c = Some v"
proof (induction n rule: dec.induct)
  case (1 n)
  show ?case
  proof (cases "n < 10")
    case True
    with 1 show ?thesis by (auto simp: dec.simps [of n])
  next
    case False
    then have "c \<in> set (dec (n div 10)) \<or> c = digit_char (n mod 10)"
      using "1.prems" by (auto simp: dec.simps [of n])
    then show ?thesis using "1.IH" [OF False] by auto
  qed
qed

lemma dec_not_Nil [simp]: "dec n \<noteq> []"
  by (simp add: dec.simps [of n])

lemma parse_digits_append_digit:
  "(\<And>c. c \<in> set s \<Longrightarrow> \<exists>v. digit_val c = Some v) \<Longrightarrow> digit_val e = Some v \<Longrightarrow>
   parse_digits acc (s @ [e]) = map_option (\<lambda>m. m * 10 + v) (parse_digits acc s)"
proof (induction s arbitrary: acc)
  case (Cons c cs)
  from Cons.prems(1) obtain w where "digit_val c = Some w" by auto
  with Cons show ?case by auto
qed simp

lemma parse_nat_dec: "parse_nat (dec n) = Some n"
proof (induction n rule: dec.induct)
  case (1 n)
  show ?case
  proof (cases "n < 10")
    case True
    then show ?thesis by (simp add: dec.simps [of n] parse_nat_def)
  next
    case False
    obtain c cs where ccs: "dec (n div 10) = c # cs" by (cases "dec (n div 10)") auto
    then obtain v where v: "digit_val c = Some v" using dec_digits [of c "n div 10"] by auto
    have "parse_digits v cs = Some (n div 10)"
      using "1.IH" [OF False] by (simp add: ccs parse_nat_def v)
    moreover have "\<exists>v. digit_val x = Some v" if "x \<in> set cs" for x
      using dec_digits [of x "n div 10"] ccs that by simp
    ultimately have "parse_digits v (cs @ [digit_char (n mod 10)]) = Some n"
      by (subst parse_digits_append_digit [where v = "n mod 10"]) auto
    then show ?thesis using False by (simp add: dec.simps [of n] ccs parse_nat_def v)
  qed
qed

lemma dropWhile_none: "(\<And>c. c \<in> set s \<Longrightarrow> \<not> P c) \<Longrightarrow> dropWhile P s = s"
  by (cases s) auto

lemma py_strip_digits: "py_strip (dec n) = dec n"
proof -
  have "\<not> py_space c" if "c \<in> set (dec n)" for c
    using dec_digits [OF that] digit_val_SomeD by blast
  then have "dropWhile py_space (dec n) = dec n" "dropWhile py_space (rev (dec n)) = rev (dec n)"
    by (auto intro!: dropWhile_none)
  then show ?thesis by (simp add: py_strip_def)
qed

lemma py_int_dec: "py_int (dec n) = Some (int n)"
proof -
  obtain c cs where ccs: "dec n = c # cs" by (cases "dec n") auto
  then obtain v where "digit_val c = Some v" using dec_digits [of c n] by auto
  then have "c \<noteq> CHR ''-''" "c \<noteq> CHR ''+''" by (auto dest: digit_val_SomeD)
  then show ?thesis
    using parse_nat_dec [of n] py_strip_digits [of n] by (simp add: py_int_def ccs)
qed

lemma split_aux_no_sep:
  "CHR ''_'' \<notin> set s \<Longrightarrow> split_aux event_sep acc s = [rev acc @ s]"
  by (induction s arbitrary: acc) (auto simp: event_sep_def)

lemma split_aux_prefix:
  "CHR ''_'' \<notin> set s \<Longrightarrow> split_aux event_sep acc (s @ event_sep @ t) = (rev acc @ s) # split_aux event_sep [] t"
proof (induction s arbitrary: acc)
  case Nil
  show ?case by (simp add: event_sep_def)
next
  case (Cons c cs)
  then have "take (length event_sep) ((c # cs) @ event_sep @ t) \<noteq> event_sep"
    by (auto simp: event_sep_def)
  with Cons show ?case by simp
qed

lemma extract_generate:
  assumes "CHR ''_'' \<notin> set rid"
  shows "extract_event_sequence (generate_event_id rid n) = int n"
proof -
  have "CHR ''_'' \<notin> set (dec n)"
    using dec_digits [of "CHR ''_''" n] by (auto dest: digit_val_SomeD)
  then have "py_split event_sep (generate_event_id rid n) = [rid, dec n]"
    using assms by (simp add: py_split_def generate_event_id_def split_aux_prefix split_aux_no_sep)
  then show ?thesis by (simp add: extract_event_sequence_def py_int_dec)
qed

lemma generate_event_id_inj:
  assumes "CHR ''_'' \<notin> set rid"
  shows "generate_event_id rid m = generate_event_id rid n \<longleftrightarrow> m = n"
  using extract_generate [OF assms] by (metis of_nat_eq_iff)

end
