(* ===== verification/Broker.thy ===== *)
theory Broker
  imports Event_Ids Json
begin

text \<open>
  The interface of a run's event broker (\<^verbatim>\<open>streaming/base_broker.py\<close>) and its in-memory
  implementation \<open>RunBroker\<close> / \<open>BrokerManager\<close> (\<^verbatim>\<open>streaming/broker.py\<close>).  A payload is a
  Python tuple or any other value; the loop clock is an argument.  The async iterator \<open>aiter\<close>
  is its frame (the backlog it copied and its queue) with one operation per resumption.
\<close>

datatype payload = Tuple "json list" | Plain json

type_synonym event = "string \<times> payload"

definition is_end :: "payload \<Rightarrow> bool" where
  "is_end p = (case p of Tuple (JStr s # _) \<Rightarrow> s = ''end'' | _ \<Rightarrow> False)"

definition end_event :: "string \<Rightarrow> payload" where
  "end_event status = Tuple [JStr ''end'', JObj [(''status'', JStr status)]]"

subsection \<open>The contract of a replayable broker\<close>

text \<open>The events after the one with a given id; all of them when the id is unknown.\<close>

fun after_id :: "string \<Rightarrow> event list \<Rightarrow> event list option" where
  "after_id x [] = None"
| "after_id x (e # es) = (if fst e = x then Some es else after_id x es)"

definition replay_spec :: "string option \<Rightarrow> event list \<Rightarrow> event list" where
  "replay_spec lid elog =
     (case lid of
        None \<Rightarrow> elog
      | Some x \<Rightarrow> (case after_id x elog of Some es \<Rightarrow> es | None \<Rightarrow> elog))"

lemma after_id_append:
  "x \<notin> fst ` set pre \<Longrightarrow> after_id x (pre @ (x, p) # post) = Some post"
  by (induction pre) auto

lemma after_id_suffix: "after_id x es = Some es' \<Longrightarrow> \<exists>pre. es = pre @ es'"
proof (induction es)
  case (Cons e es)
  show ?case
  proof (cases "fst e = x")
    case True
    with Cons.prems show ?thesis by (intro exI [of _ "[e]"]) simp
  next
    case False
    with Cons obtain pre where "es = pre @ es'" by auto
    then show ?thesis by (intro exI [of _ "e # pre"]) simp
  qed
qed simp

lemma replay_spec_resume:
  "x \<notin> fst ` set pre \<Longrightarrow> replay_spec (Some x) (pre @ (x, p) # post) = post"
  by (simp add: replay_spec_def after_id_append)

text \<open>
  What \<open>BaseRunBroker\<close> promises its clients, over the log of a broker: \<open>'o\<close> is what the
  environment decides during a write, and \<open>ok\<close> says that this write reaches the replay store.
\<close>

locale replayable_broker =
  fixes put :: "'o \<Rightarrow> string \<Rightarrow> payload \<Rightarrow> 'b \<Rightarrow> 'b"
    and elog :: "'b \<Rightarrow> event list"
    and replay :: "string option \<Rightarrow> 'b \<Rightarrow> event list"
    and finished :: "'b \<Rightarrow> bool"
    and ok :: "'o \<Rightarrow> payload \<Rightarrow> 'b \<Rightarrow> bool"
  assumes put_log: "ok x p b \<Longrightarrow> \<not> finished b \<Longrightarrow> e \<notin> fst ` set (elog b) \<Longrightarrow>
        elog (put x e p b) = elog b @ [(e, p)]"
    and put_finished: "finished b \<Longrightarrow> put x e p b = b"
    and end_finishes: "finished (put x e p b) \<longleftrightarrow> finished b \<or> is_end p"
    and replay_log: "replay lid b = replay_spec lid (elog b)"
begin

fun puts :: "('o \<times> event) list \<Rightarrow> 'b \<Rightarrow> 'b" where
  "puts [] b = b"
| "puts ((x, e) # es) b = puts es (put x (fst e) (snd e) b)"

fun all_ok :: "('o \<times> event) list \<Rightarrow> 'b \<Rightarrow> bool" where
  "all_ok [] b = True"
| "all_ok ((x, e) # es) b = (ok x (snd e) b \<and> all_ok es (put x (fst e) (snd e) b))"

lemma puts_log:
  assumes "all_ok es b" and "\<not> finished b" and "distinct (map (fst \<circ> snd) es)"
    and "(fst \<circ> snd) ` set es \<inter> fst ` set (elog b) = {}"
    and "\<forall>e \<in> set (butlast es). \<not> is_end (snd (snd e))"
  shows "elog (puts es b) = elog b @ map snd es"
  using assms
proof (induction es arbitrary: b)
  case (Cons xe es)
  obtain x e p where xe: "xe = (x, (e, p))" by (metis prod.collapse)
  let ?b = "put x e p b"
  have fresh: "e \<notin> fst ` set (elog b)" using Cons.prems(4) by (auto simp: xe)
  have elog: "elog ?b = elog b @ [(e, p)]"
    using Cons.prems(1,2) fresh by (simp add: xe put_log)
  show ?case
  proof (cases "es = []")
    case True
    with elog show ?thesis by (simp add: xe)
  next
    case False
    then have "\<not> is_end p" and rest: "\<forall>e \<in> set (butlast es). \<not> is_end (snd (snd e))"
      using Cons.prems(5) by (auto simp: xe)
    then have fin: "\<not> finished ?b" using Cons.prems(2) by (simp add: end_finishes)
    have disj: "(fst \<circ> snd) ` set es \<inter> fst ` set (elog ?b) = {}"
      using Cons.prems(3,4) by (auto simp: elog xe)
    have "elog (puts es ?b) = elog ?b @ map snd es"
      by (rule Cons.IH) (use Cons.prems fin disj rest in \<open>auto simp: xe\<close>)
    with elog show ?thesis by (simp add: xe)
  qed
qed simp

text \<open>
  A reconnecting client that saw the events up to and including one it names gets exactly the
  ones it missed.
\<close>

lemma reconnect_exact:
  assumes "elog b = seen @ (x, p) # missed" and "x \<notin> fst ` set seen"
  shows "seen @ (x, p) # replay (Some x) b = elog b"
  using assms by (simp add: replay_log replay_spec_resume)

lemma replay_suffix: "\<exists>pre. elog b = pre @ replay lid b"
  by (auto simp: replay_log replay_spec_def dest: after_id_suffix split: option.splits)

lemma put_after_end: "is_end p \<Longrightarrow> put x' e' p' (put x e p b) = put x e p b"
  by (simp add: put_finished end_finishes)

end

subsection \<open>\<open>RunBroker\<close>\<close>

record run_broker =
  rb_run_id :: run_id
  rb_finished :: bool
  rb_replay_buffer :: "event list"
  rb_subscribers :: "(nat \<times> event list) list"
  rb_created_at :: time
  rb_finished_at :: "time option"

definition new_run_broker :: "time \<Rightarrow> run_id \<Rightarrow> run_broker" where
  "new_run_broker now rid =
     \<lparr>rb_run_id = rid, rb_finished = False, rb_replay_buffer = [], rb_subscribers = [],
      rb_created_at = now, rb_finished_at = None\<rparr>"

definition mark_finished :: "time \<Rightarrow> run_broker \<Rightarrow> run_broker" where
  "mark_finished now b =
     (if rb_finished b then b else b\<lparr>rb_finished_at := Some now, rb_finished := True\<rparr>)"

definition broker_put :: "time \<Rightarrow> bool \<Rightarrow> string \<Rightarrow> payload \<Rightarrow> run_broker \<Rightarrow> run_broker" where
  "broker_put now resumable event_id p b =
     (if rb_finished b then b
      else
        (let b = (if resumable then b\<lparr>rb_replay_buffer := rb_replay_buffer b @ [(event_id, p)]\<rparr> else b);
             b = b\<lparr>rb_subscribers := map (\<lambda>(i, q). (i, q @ [(event_id, p)])) (rb_subscribers b)\<rparr>
         in if is_end p then mark_finished now b else b))"

definition broker_replay :: "string option \<Rightarrow> run_broker \<Rightarrow> event list" where
  "broker_replay lid b =
     (if rb_replay_buffer b = [] then []
      else
        (case lid of
           None \<Rightarrow> rb_replay_buffer b
         | Some x \<Rightarrow>
             (case after_id x (rb_replay_buffer b) of
                Some es \<Rightarrow> es
              | None \<Rightarrow> rb_replay_buffer b)))"

definition is_empty :: "run_broker \<Rightarrow> bool" where
  "is_empty b = list_all (\<lambda>(_, q). q = []) (rb_subscribers b)"

definition get_finished_age :: "time \<Rightarrow> run_broker \<Rightarrow> int option" where
  "get_finished_age now b = map_option (\<lambda>t. now - t) (rb_finished_at b)"

subsubsection \<open>The async iterator\<close>

record subscriber =
  sub_id :: nat
  sub_backlog :: "event list"
  sub_done :: bool

definition aiter_start :: "run_broker \<Rightarrow> subscriber \<times> run_broker" where
  "aiter_start b =
     (let i = Suc (fold max (map fst (rb_subscribers b)) 0)
      in (\<lparr>sub_id = i, sub_backlog = rb_replay_buffer b, sub_done = False\<rparr>,
          b\<lparr>rb_subscribers := rb_subscribers b @ [(i, [])]\<rparr>))"

definition unsubscribe :: "nat \<Rightarrow> run_broker \<Rightarrow> run_broker" where
  "unsubscribe i b = b\<lparr>rb_subscribers := filter (\<lambda>(j, _). j \<noteq> i) (rb_subscribers b)\<rparr>"

definition sub_queue :: "nat \<Rightarrow> run_broker \<Rightarrow> event list" where
  "sub_queue i b = (case map_of (rb_subscribers b) i of None \<Rightarrow> [] | Some q \<Rightarrow> q)"

definition finish_sub :: "event option \<Rightarrow> subscriber \<Rightarrow> run_broker \<Rightarrow> event option \<times> subscriber \<times> run_broker" where
  "finish_sub e s b = (e, s\<lparr>sub_done := True\<rparr>, unsubscribe (sub_id s) b)"

text \<open>
  One resumption: the yielded event, if any.  With an empty queue the iterator ends when the
  broker is finished and otherwise waits, which yields nothing and changes nothing.
\<close>

definition aiter_next :: "subscriber \<Rightarrow> run_broker \<Rightarrow> event option \<times> subscriber \<times> run_broker" where
  "aiter_next s b =
     (if sub_done s then (None, s, b)
      else
        (case sub_backlog s of
           e # es \<Rightarrow>
             (let s = s\<lparr>sub_backlog := es\<rparr>
              in if is_end (snd e) then finish_sub (Some e) s b else (Some e, s, b))
         | [] \<Rightarrow>
             (case sub_queue (sub_id s) b of
                e # es \<Rightarrow>
                  (let b = b\<lparr>rb_subscribers :=
                        map (\<lambda>(i, q). if i = sub_id s then (i, es) else (i, q)) (rb_subscribers b)\<rparr>
                   in if is_end (snd e) then finish_sub (Some e) s b else (Some e, s, b))
              | [] \<Rightarrow> if rb_finished b then finish_sub None s b else (None, s, b))))"

interpretation mem: replayable_broker
  "\<lambda>now. broker_put now True" rb_replay_buffer broker_replay rb_finished "\<lambda>_ _ _. True"
  by unfold_locales
    (auto simp: broker_put_def broker_replay_def mark_finished_def replay_spec_def Let_def
      split: option.splits)

subsection \<open>\<open>BrokerManager\<close>\<close>

record broker_manager =
  bm_brokers :: "(run_id \<times> run_broker) list"
  bm_event_counters :: "(run_id \<times> nat) list"

definition REPLAY_RETENTION_SECONDS :: int where
  "REPLAY_RETENTION_SECONDS = 600"

definition get_broker :: "run_id \<Rightarrow> broker_manager \<Rightarrow> run_broker option" where
  "get_broker rid m = map_of (bm_brokers m) rid"

definition get_or_create_broker :: "time \<Rightarrow> run_id \<Rightarrow> broker_manager \<Rightarrow> run_broker \<times> broker_manager" where
  "get_or_create_broker now rid m =
     (case map_of (bm_brokers m) rid of
        Some b \<Rightarrow> (b, m)
      | None \<Rightarrow> (new_run_broker now rid,
                 m\<lparr>bm_brokers := bm_brokers m @ [(rid, new_run_broker now rid)]\<rparr>))"

text \<open>A broker object is shared, so an operation on it is visible through the manager.\<close>

definition set_broker :: "run_id \<Rightarrow> run_broker \<Rightarrow> broker_manager \<Rightarrow> broker_manager" where
  "set_broker rid b m = m\<lparr>bm_brokers := AList.update rid b (bm_brokers m)\<rparr>"

definition cleanup_broker :: "time \<Rightarrow> run_id \<Rightarrow> broker_manager \<Rightarrow> broker_manager" where
  "cleanup_broker now rid m =
     (case map_of (bm_brokers m) rid of
        None \<Rightarrow> m
      | Some b \<Rightarrow> set_broker rid (mark_finished now b) m)"

definition remove_broker :: "run_id \<Rightarrow> broker_manager \<Rightarrow> broker_manager" where
  "remove_broker rid m =
     (case map_of (bm_brokers m) rid of
        None \<Rightarrow> m
      | Some _ \<Rightarrow> m\<lparr>bm_brokers := AList.delete rid (bm_brokers m),
                    bm_event_counters := AList.delete rid (bm_event_counters m)\<rparr>)"

definition get_event_sequence :: "run_id \<Rightarrow> broker_manager \<Rightarrow> nat" where
  "get_event_sequence rid m =
     (case map_of (bm_event_counters m) rid of None \<Rightarrow> 0 | Some n \<Rightarrow> n)"

definition allocate_event_id :: "run_id \<Rightarrow> broker_manager \<Rightarrow> string \<times> broker_manager" where
  "allocate_event_id rid m =
     (let seq = get_event_sequence rid m + 1
      in (generate_event_id rid seq,
          m\<lparr>bm_event_counters := AList.update rid seq (bm_event_counters m)\<rparr>))"

text \<open>
  \<open>request_cancel\<close>: \<open>task_live\<close> says whether \<open>active_runs\<close> holds an unfinished task for the
  run; the first component of the result says whether that task was cancelled.
\<close>

definition request_cancel ::
  "time \<Rightarrow> bool \<Rightarrow> bool \<Rightarrow> run_id \<Rightarrow> broker_manager \<Rightarrow> bool \<times> broker_manager"
where
  "request_cancel now task_live emit_end_event rid m =
     (if \<not> task_live then (False, m)
      else
        (let (b, m) = get_or_create_broker now rid m
         in if emit_end_event \<and> \<not> rb_finished b then
              (let (eid, m) = allocate_event_id rid m;
                   m = set_broker rid (broker_put now True eid (end_event ''interrupted'') b) m
               in (True, cleanup_broker now rid m))
            else (True, m)))"

definition broker_expired :: "time \<Rightarrow> int \<Rightarrow> run_broker \<Rightarrow> bool" where
  "broker_expired now retention b =
     (is_empty b \<and> (case get_finished_age now b of None \<Rightarrow> False | Some a \<Rightarrow> a > retention))"

definition sweep_expired_brokers ::
  "time \<Rightarrow> int \<Rightarrow> broker_manager \<Rightarrow> run_id list \<times> broker_manager"
where
  "sweep_expired_brokers now retention m =
     (let expired = map fst (filter (\<lambda>(_, b). broker_expired now retention b) (bm_brokers m))
      in (expired, fold remove_broker expired m))"

subsection \<open>What a subscriber receives\<close>

text \<open>
  A subscriber alternates with producers: any interleaving of publications and resumptions.
  The first component collects what the iterator yielded.
\<close>

datatype sub_action = SPut time string payload | SNext

type_synonym sub_state = "event list \<times> subscriber \<times> run_broker"

fun sub_step :: "sub_action \<Rightarrow> sub_state \<Rightarrow> sub_state" where
  "sub_step (SPut now e p) (got, s, b) = (got, s, broker_put now True e p b)"
| "sub_step SNext (got, s, b) =
     (case aiter_next s b of (y, s', b') \<Rightarrow> (got @ (case y of None \<Rightarrow> [] | Some e \<Rightarrow> [e]), s', b'))"

definition sub_run :: "sub_action list \<Rightarrow> run_broker \<Rightarrow> sub_state" where
  "sub_run acts b = fold sub_step acts ([], aiter_start b)"

definition wf_broker :: "run_broker \<Rightarrow> bool" where
  "wf_broker b =
     (distinct (map fst (rb_subscribers b))
      \<and> list_all (\<lambda>e. \<not> is_end (snd e)) (butlast (rb_replay_buffer b))
      \<and> (list_ex (\<lambda>e. is_end (snd e)) (rb_replay_buffer b) \<longrightarrow> rb_finished b))"

fun sub_inv :: "sub_state \<Rightarrow> bool" where
  "sub_inv (got, s, b) =
     (wf_broker b
      \<and> (if sub_done s then got = rb_replay_buffer b \<and> rb_finished b
         else sub_id s \<in> fst ` set (rb_subscribers b)
           \<and> got @ sub_backlog s @ sub_queue (sub_id s) b = rb_replay_buffer b))"

lemma map_of_map_queue:
  "map_of (map (\<lambda>(i, q). (i, f i q)) xs) i = map_option (f i) (map_of xs i)"
  by (induction xs) auto

lemma wf_broker_new: "wf_broker (new_run_broker now rid)"
  by (simp add: wf_broker_def new_run_broker_def)

lemma wf_broker_put: "wf_broker b \<Longrightarrow> wf_broker (broker_put now True e p b)"
proof (cases "rb_finished b")
  case False
  assume wf: "wf_broker b"
  have fsts: "fst \<circ> (\<lambda>(i, q). (i, q @ [(e, p)])) = fst"
    by (auto simp: fun_eq_iff)
  have "list_all (\<lambda>e. \<not> is_end (snd e)) (rb_replay_buffer b)"
    using wf False by (auto simp: wf_broker_def list_ex_iff list_all_iff)
  with wf False show ?thesis
    by (auto simp: wf_broker_def broker_put_def mark_finished_def Let_def fsts list_ex_iff list_all_iff)
qed (simp add: broker_put_def)

lemma sub_inv_start: "wf_broker b \<Longrightarrow> sub_inv ([], aiter_start b)"
proof -
  assume wf: "wf_broker b"
  let ?i = "Suc (fold max (map fst (rb_subscribers b)) 0)"
  have "i < ?i" if "i \<in> fst ` set (rb_subscribers b)" for i
    using fold_max_ge [of i "map fst (rb_subscribers b)" 0] that by auto
  then have fresh: "?i \<notin> fst ` set (rb_subscribers b)" by blast
  then have "map_of (rb_subscribers b) ?i = None"
    by (auto simp: map_of_eq_None_iff)
  with wf fresh show ?thesis
    by (auto simp: aiter_start_def wf_broker_def sub_queue_def map_add_def)
qed

lemma sub_inv_put:
  assumes "sub_inv (got, s, b)"
  shows "sub_inv (got, s, broker_put now True e p b)"
proof (cases "rb_finished b")
  case True
  with assms show ?thesis by (simp add: broker_put_def)
next
  case False
  let ?b = "broker_put now True e p b"
  have "sub_queue i ?b = sub_queue i b @ [(e, p)]" if "i \<in> fst ` set (rb_subscribers b)" for i
  proof -
    have "map_of (rb_subscribers ?b) i = map_option (\<lambda>q. q @ [(e, p)]) (map_of (rb_subscribers b) i)"
      using False by (simp add: broker_put_def mark_finished_def Let_def map_of_map_queue)
    moreover have "\<exists>q. map_of (rb_subscribers b) i = Some q"
      using that by (cases "map_of (rb_subscribers b) i") (auto simp: map_of_eq_None_iff)
    ultimately show ?thesis by (auto simp: sub_queue_def)
  qed
  moreover have "fst ` set (rb_subscribers ?b) = fst ` set (rb_subscribers b)"
    using False by (auto simp: broker_put_def mark_finished_def Let_def image_image split_def)
  moreover have "rb_replay_buffer ?b = rb_replay_buffer b @ [(e, p)]"
    using False by (simp add: broker_put_def mark_finished_def Let_def)
  ultimately show ?thesis using assms False by (auto simp: wf_broker_put)
qed

text \<open>An end event is the last one: the iterator that sees it has seen everything.\<close>

lemma end_is_last:
  assumes "wf_broker b" and "rb_replay_buffer b = pre @ e # post" and "is_end (snd e)"
  shows "post = []" "rb_finished b"
proof -
  show "post = []"
  proof (rule ccontr)
    assume "post \<noteq> []"
    then have "e \<in> set (butlast (rb_replay_buffer b))"
      by (simp add: assms(2) butlast_append)
    with assms(1,3) show False by (auto simp: wf_broker_def list_all_iff)
  qed
  show "rb_finished b" using assms by (auto simp: wf_broker_def list_ex_iff)
qed

lemma wf_unsubscribe [simp]: "wf_broker b \<Longrightarrow> wf_broker (unsubscribe i b)"
  by (auto simp: wf_broker_def unsubscribe_def distinct_map_filter)

lemma unsubscribe_simps [simp]:
  "rb_replay_buffer (unsubscribe i b) = rb_replay_buffer b" "rb_finished (unsubscribe i b) = rb_finished b"
  by (simp_all add: unsubscribe_def)

lemma sub_inv_next:
  assumes "sub_inv (got, s, b)"
  shows "sub_inv (sub_step SNext (got, s, b))"
proof (cases "sub_done s")
  case True
  with assms show ?thesis by (simp add: aiter_next_def)
next
  case live: False
  show ?thesis
  proof (cases "sub_backlog s")
    case (Cons e es)
    show ?thesis
    proof (cases "is_end (snd e)")
      case True
      have "rb_replay_buffer b = got @ e # (es @ sub_queue (sub_id s) b)"
        using assms live Cons by simp
      from end_is_last [OF _ this True] True assms live Cons show ?thesis
        by (simp add: aiter_next_def finish_sub_def)
    next
      case False
      with assms live Cons show ?thesis by (simp add: aiter_next_def)
    qed
  next
    case Nil
    show ?thesis
    proof (cases "sub_queue (sub_id s) b")
      case queue: Nil
      show ?thesis using assms live Nil queue by (simp add: aiter_next_def finish_sub_def)
    next
      case (Cons e es)
      let ?b = "b\<lparr>rb_subscribers :=
          map (\<lambda>(i, q). if i = sub_id s then (i, es) else (i, q)) (rb_subscribers b)\<rparr>"
      have shape: "(\<lambda>(i, q). if i = sub_id s then (i, es) else (i, q))
          = (\<lambda>(i, q). (i, if i = sub_id s then es else q))"
        by (auto simp: fun_eq_iff)
      have fsts: "map fst (rb_subscribers ?b) = map fst (rb_subscribers b)"
        by (auto simp: shape)
      have wf: "wf_broker ?b"
        using assms unfolding wf_broker_def fsts by (simp add: wf_broker_def)
      have ids: "fst ` set (rb_subscribers ?b) = fst ` set (rb_subscribers b)"
        by (simp only: fsts set_map [symmetric])
      obtain q where "map_of (rb_subscribers b) (sub_id s) = Some q"
        using Cons by (auto simp: sub_queue_def split: option.splits)
      then have "map_of (rb_subscribers ?b) (sub_id s) = Some es"
        by (simp add: shape map_of_map_queue [where f = "\<lambda>i q. if i = sub_id s then es else q"])
      then have queue: "sub_queue (sub_id s) ?b = es" by (simp add: sub_queue_def)
      have buf: "rb_replay_buffer b = got @ e # es" using assms live Nil Cons by simp
      show ?thesis
      proof (cases "is_end (snd e)")
        case True
        have "wf_broker b" using assms by simp
        note last = end_is_last [OF this buf True]
        note wf' = wf_unsubscribe [OF wf, of "sub_id s", unfolded last(1)]
        from wf' last True live Nil Cons buf show ?thesis
          by (simp add: aiter_next_def finish_sub_def)
      next
        case False
        with wf queue ids assms live Nil Cons buf show ?thesis
          by (simp add: aiter_next_def)
      qed
    qed
  qed
qed

lemma sub_inv_step: "sub_inv st \<Longrightarrow> sub_inv (sub_step a st)"
proof (induction a st rule: sub_step.induct)
  case (1 now e p got s b)
  then show ?case unfolding sub_step.simps by (rule sub_inv_put)
next
  case (2 got s b)
  then show ?case by (rule sub_inv_next)
qed

lemma sub_inv_run: "wf_broker b \<Longrightarrow> sub_inv (sub_run acts b)"
proof -
  have "sub_inv st \<Longrightarrow> sub_inv (fold sub_step acts st)" for st
  proof (induction acts arbitrary: st)
    case (Cons a acts)
    from Cons.IH [OF sub_inv_step [OF Cons.prems]] show ?case by simp
  qed simp
  then show "wf_broker b \<Longrightarrow> ?thesis" by (simp add: sub_run_def sub_inv_start)
qed

subsection \<open>Nothing is lost, nothing is repeated\<close>

lemma next_when_finished:
  assumes "sub_inv (got, s, b)" and "rb_finished b" and "sub_step SNext (got, s, b) = (got', s', b')"
  shows "rb_finished b' \<and> rb_replay_buffer b' = rb_replay_buffer b \<and>
    (if sub_done s then got' = got \<and> sub_done s' else sub_done s' \<or> length got' = Suc (length got))"
  using assms
  by (auto simp: aiter_next_def finish_sub_def Let_def split: list.splits if_splits)

text \<open>Once the broker is finished, the iterator ends after at most one resumption per event and one more.\<close>

lemma drain_finished:
  assumes "sub_inv st" and "rb_finished (snd (snd st))"
    and "length (rb_replay_buffer (snd (snd st))) < n + length (fst st) \<or> sub_done (fst (snd st))"
  shows "fst (fold sub_step (replicate n SNext) st) = rb_replay_buffer (snd (snd st))"
  using assms
proof (induction n arbitrary: st)
  case 0
  obtain got s b where st: "st = (got, s, b)" by (cases st)
  have "sub_done s"
  proof (rule ccontr)
    assume "\<not> sub_done s"
    with 0 have "length got < length got - length (sub_backlog s @ sub_queue (sub_id s) b)"
      by (auto simp: st dest!: arg_cong [where f = length])
    then show False by simp
  qed
  with 0 show ?case by (simp add: st)
next
  case (Suc n)
  obtain got s b where st: "st = (got, s, b)" by (cases st)
  obtain got' s' b' where st': "sub_step SNext (got, s, b) = (got', s', b')" by (metis prod_cases3)
  have inv': "sub_inv (got', s', b')" using sub_inv_step [OF Suc.prems(1), of SNext] st st' by simp
  note next_when_finished [OF Suc.prems(1) [unfolded st] Suc.prems(2) [unfolded st, simplified] st']
  with Suc.IH [OF inv'] Suc.prems st st' show ?case by (auto split: if_splits)
qed

text \<open>
  Claim C34.  A subscriber receives every event of a run once and in order.  Under any
  interleaving of publications and resumptions, whenever the subscriber joined, what it has
  received is a prefix of the run's log, and once the run is finished resuming it delivers
  exactly the whole log and then ends.
\<close>

theorem subscriber_receives_log:
  assumes "wf_broker b" and "sub_run acts b = (got, s, b')"
  shows "(\<exists>rest. rb_replay_buffer b' = got @ rest) \<and>
    (rb_finished b' \<longrightarrow>
       fst (fold sub_step (replicate (Suc (length (rb_replay_buffer b'))) SNext) (got, s, b')) = rb_replay_buffer b')"
proof -
  have inv: "sub_inv (got, s, b')" using sub_inv_run [OF assms(1), of acts] assms(2) by simp
  then have "\<exists>rest. rb_replay_buffer b' = got @ rest"
    by (auto split: if_splits intro: exI [of _ "[]"] dest: sym)
  moreover have "fst (fold sub_step (replicate (Suc (length (rb_replay_buffer b'))) SNext) (got, s, b')) = rb_replay_buffer b'"
    if "rb_finished b'"
    using drain_finished [OF inv, of "Suc (length (rb_replay_buffer b'))"] that by simp
  ultimately show ?thesis by blast
qed

theorem subscriber_receives_log_witness:
  "\<exists>got s b'. sub_run [SPut 1 ''r_event_1'' (Tuple [JStr ''values'', JInt 7]), SNext, SPut 2 ''r_event_2'' (end_event ''success'')]
       (new_run_broker 0 ''r'') = (got, s, b') \<and> rb_finished b' \<and> got = [(''r_event_1'', Tuple [JStr ''values'', JInt 7])] \<and>
     fst (fold sub_step (replicate 3 SNext) (got, s, b')) = rb_replay_buffer b'"
proof -
  let ?acts = "[SPut 1 ''r_event_1'' (Tuple [JStr ''values'', JInt 7]), SNext, SPut 2 ''r_event_2'' (end_event ''success'')]"
  obtain got s b' where run: "sub_run ?acts (new_run_broker 0 ''r'') = (got, s, b')" by (metis prod_cases3)
  then have eqs: "got = [(''r_event_1'', Tuple [JStr ''values'', JInt 7])]" "rb_finished b'" "length (rb_replay_buffer b') = 2"
    by (auto simp: sub_run_def new_run_broker_def aiter_start_def broker_put_def mark_finished_def aiter_next_def
        sub_queue_def is_end_def end_event_def Let_def)
  from subscriber_receives_log [OF wf_broker_new run] eqs run show ?thesis
    by (auto simp: eval_nat_numeral)
qed

end
