(* ===== verification/Redis_Broker.thy ===== *)
theory Redis_Broker
  imports Broker
begin

text \<open>
  The Redis implementation of the broker (\<^verbatim>\<open>streaming/redis_broker.py\<close>): at-least-once writes
  with bounded retry, the adjacent-duplicate filters of the live and the replay path, the
  expiry of its keys, and the manager with its shared event counter.  A Redis write succeeds, fails without effect, or is
  applied and then reported as failed; a message on the wire is the event id with the JSON
  form of the payload, in which a tuple is a list.
\<close>

datatype write_outcome = WriteOk | WriteFailed | WriteAppliedThenError

type_synonym wire_message = "string \<times> json"

definition REPLAY_MAX_EVENTS :: nat where
  "REPLAY_MAX_EVENTS = 10000"

text \<open>Seconds that the keys of a run outlive the last write to them.\<close>

definition REPLAY_TTL_SECONDS :: time where
  "REPLAY_TTL_SECONDS = 600"

definition PUT_MAX_ATTEMPTS :: nat where
  "PUT_MAX_ATTEMPTS = 3"

fun serialize_payload :: "payload \<Rightarrow> json" where
  "serialize_payload (Tuple xs) = JList xs"
| "serialize_payload (Plain j) = j"

definition deserialize_payload :: "json \<Rightarrow> payload" where
  "deserialize_payload raw =
     (case raw of JList (JStr s # xs) \<Rightarrow> Tuple (JStr s # xs) | _ \<Rightarrow> Plain raw)"

definition decode_message :: "wire_message \<Rightarrow> event" where
  "decode_message m = (fst m, deserialize_payload (snd m))"

definition BACKOFF_BASE :: rat where "BACKOFF_BASE = 1 / 2"
definition BACKOFF_MAX :: rat where "BACKOFF_MAX = 30"
definition BACKOFF_FACTOR :: rat where "BACKOFF_FACTOR = 2"

text \<open>\<open>_backoff_delay\<close>; the jitter is drawn from \<open>[0, delay / 4]\<close> and is an argument.\<close>

definition backoff_delay :: "nat \<Rightarrow> rat \<Rightarrow> rat" where
  "backoff_delay attempt jitter = min (BACKOFF_BASE * BACKOFF_FACTOR ^ attempt) BACKOFF_MAX + jitter"

subsection \<open>\<open>RedisRunBroker\<close>\<close>

text \<open>
  The keys Redis holds for a run: the replay list and the counter, each with the time it expires,
  and the channel's traffic.  An expired key is as good as absent.
\<close>

record run_log =
  rl_cache :: "wire_message list"
  rl_cache_until :: "time option"
  rl_counter :: nat
  rl_counter_until :: "time option"
  rl_channel :: "wire_message list"

record redis_broker =
  rr_run_id :: run_id
  rr_finished :: bool
  rr_log :: run_log

definition key_alive :: "time \<Rightarrow> time option \<Rightarrow> bool" where
  "key_alive now until = (case until of None \<Rightarrow> True | Some t \<Rightarrow> now < t)"

definition cache_at :: "time \<Rightarrow> run_log \<Rightarrow> wire_message list" where
  "cache_at now l = (if key_alive now (rl_cache_until l) then rl_cache l else [])"

definition counter_at :: "time \<Rightarrow> run_log \<Rightarrow> nat" where
  "counter_at now l = (if key_alive now (rl_counter_until l) then rl_counter l else 0)"

definition cache_event :: "time \<Rightarrow> wire_message \<Rightarrow> run_log \<Rightarrow> run_log" where
  "cache_event now m l =
     (let pushed = cache_at now l @ [m]
      in l\<lparr>rl_cache := drop (length pushed - REPLAY_MAX_EVENTS) pushed,
           rl_cache_until := Some (now + REPLAY_TTL_SECONDS),
           rl_counter := counter_at now l + 1,
           rl_counter_until := Some (now + REPLAY_TTL_SECONDS)\<rparr>)"

definition publish_event :: "wire_message \<Rightarrow> run_log \<Rightarrow> run_log" where
  "publish_event m l = l\<lparr>rl_channel := rl_channel l @ [m]\<rparr>"

text \<open>
  \<open>_write_with_retry\<close> with the outcomes of its attempts; attempts without a listed outcome
  fail.  The result says whether the write was confirmed.
\<close>

fun write_attempts :: "nat \<Rightarrow> write_outcome list \<Rightarrow> (run_log \<Rightarrow> run_log) \<Rightarrow> run_log \<Rightarrow> bool \<times> run_log" where
  "write_attempts 0 outs f l = (False, l)"
| "write_attempts (Suc n) [] f l = (False, l)"
| "write_attempts (Suc n) (WriteOk # outs) f l = (True, f l)"
| "write_attempts (Suc n) (WriteFailed # outs) f l = write_attempts n outs f l"
| "write_attempts (Suc n) (WriteAppliedThenError # outs) f l = write_attempts n outs f (f l)"

definition write_with_retry ::
  "write_outcome list \<Rightarrow> (run_log \<Rightarrow> run_log) \<Rightarrow> run_log \<Rightarrow> bool \<times> run_log"
where
  "write_with_retry outs f l = write_attempts PUT_MAX_ATTEMPTS outs f l"

text \<open>
  \<open>RedisRunBroker.put\<close>; the outcomes are those of the cache write and of the publish.  The
  attempts of one write count as one moment.
\<close>

definition redis_put ::
  "time \<Rightarrow> write_outcome list \<times> write_outcome list \<Rightarrow> bool \<Rightarrow> string \<Rightarrow> payload \<Rightarrow> redis_broker \<Rightarrow> redis_broker"
where
  "redis_put now outs resumable event_id p b =
     (if rr_finished b then b
      else
        (let message = (event_id, serialize_payload p);
             (cached, l) = (if resumable
                            then write_with_retry (fst outs) (cache_event now message) (rr_log b)
                            else (True, rr_log b));
             l = (if cached then snd (write_with_retry (snd outs) (publish_event message) l) else l)
         in b\<lparr>rr_log := l, rr_finished := is_end p\<rparr>))"

text \<open>The loop of \<open>replay\<close>: all events, those after the requested id, whether it was found.\<close>

record replay_acc =
  ra_all :: "event list"
  ra_after :: "event list"
  ra_found :: bool
  ra_prev :: "string option"

definition replay_body :: "string option \<Rightarrow> wire_message \<Rightarrow> replay_acc \<Rightarrow> replay_acc" where
  "replay_body lid raw a =
     (if ra_prev a = Some (fst raw) then a
      else
        (let event = decode_message raw;
             a = a\<lparr>ra_prev := Some (fst raw), ra_all := ra_all a @ [event]\<rparr>
         in if \<not> ra_found a
            then (if lid = Some (fst raw) then a\<lparr>ra_found := True\<rparr> else a)
            else a\<lparr>ra_after := ra_after a @ [event]\<rparr>))"

definition replay_messages :: "string option \<Rightarrow> wire_message list \<Rightarrow> event list" where
  "replay_messages lid raw_messages =
     (if raw_messages = [] then []
      else
        (let a = fold (replay_body lid) raw_messages
                   \<lparr>ra_all = [], ra_after = [], ra_found = (lid = None), ra_prev = None\<rparr>
         in if \<not> ra_found a then ra_all a else ra_after a))"

definition redis_replay :: "bool \<Rightarrow> time \<Rightarrow> string option \<Rightarrow> redis_broker \<Rightarrow> event list" where
  "redis_replay redis_ok now lid b =
     (if \<not> redis_ok then [] else replay_messages lid (take REPLAY_MAX_EVENTS (cache_at now (rr_log b))))"

text \<open>\<open>_check_end_in_buffer\<close>: whether the newest stored event ends the run; it then marks the broker.\<close>

definition check_end_in_buffer :: "bool \<Rightarrow> time \<Rightarrow> redis_broker \<Rightarrow> bool \<times> redis_broker" where
  "check_end_in_buffer redis_ok now b =
     (if redis_ok \<and> cache_at now (rr_log b) \<noteq> []
         \<and> is_end (snd (decode_message (List.last (cache_at now (rr_log b)))))
      then (True, b\<lparr>rr_finished := True\<rparr>) else (False, b))"

text \<open>
  The loop of \<open>_subscribe_and_listen\<close> over what \<open>get_message\<close> returns: \<open>None\<close> when it times
  out.  The result has the yielded events, the broker and whether the loop was left.
\<close>

fun listen_loop ::
  "bool \<Rightarrow> string option \<Rightarrow> wire_message option list \<Rightarrow> redis_broker \<Rightarrow> event list \<times> redis_broker \<times> bool"
where
  "listen_loop end_seen prev [] b = ([], b, False)"
| "listen_loop end_seen prev (None # ms) b =
     (if rr_finished b \<or> end_seen then ([], b, True) else listen_loop end_seen prev ms b)"
| "listen_loop end_seen prev (Some m # ms) b =
     (if prev = Some (fst m) then listen_loop end_seen prev ms b
      else
        (let event = decode_message m
         in if is_end (snd event) then ([event], b\<lparr>rr_finished := True\<rparr>, True)
            else (case listen_loop end_seen (Some (fst m)) ms b of
                    (ys, b', left) \<Rightarrow> (event # ys, b', left))))"

definition subscribe_and_listen ::
  "bool \<Rightarrow> time \<Rightarrow> wire_message option list \<Rightarrow> redis_broker \<Rightarrow> event list \<times> redis_broker \<times> bool"
where
  "subscribe_and_listen redis_ok now ms b =
     (case check_end_in_buffer redis_ok now b of (end_seen, b') \<Rightarrow> listen_loop end_seen None ms b')"

definition redis_mark_finished :: "redis_broker \<Rightarrow> redis_broker" where
  "redis_mark_finished b = b\<lparr>rr_finished := True\<rparr>"

text \<open>
  \<open>aiter\<close>: one subscription after another; a subscription that was not left by an end event
  or a finished broker broke off with a \<open>RedisError\<close> and is replaced by the next one.
\<close>

fun redis_aiter :: "(bool \<times> time \<times> wire_message option list) list \<Rightarrow> redis_broker \<Rightarrow> event list \<times> redis_broker" where
  "redis_aiter [] b = ([], b)"
| "redis_aiter ((ok, now, ms) # sessions) b =
     (if rr_finished b then ([], b)
      else (case subscribe_and_listen ok now ms b of
              (ys, b', left) \<Rightarrow>
                if left then (ys, b')
                else (case redis_aiter sessions b' of (zs, b'') \<Rightarrow> (ys @ zs, b''))))"

subsection \<open>\<open>RedisBrokerManager\<close>\<close>

text \<open>
  The local cache of broker objects, whose own state is the finished flag, and the Redis keys
  of every run.
\<close>

record redis_manager =
  rm_brokers :: "(run_id \<times> bool) list"
  rm_store :: "run_id \<Rightarrow> run_log"

definition redis_get_broker :: "run_id \<Rightarrow> redis_manager \<Rightarrow> redis_broker option" where
  "redis_get_broker rid m =
     map_option (\<lambda>f. \<lparr>rr_run_id = rid, rr_finished = f, rr_log = rm_store m rid\<rparr>) (map_of (rm_brokers m) rid)"

definition redis_get_or_create :: "run_id \<Rightarrow> redis_manager \<Rightarrow> redis_broker \<times> redis_manager" where
  "redis_get_or_create rid m =
     (case redis_get_broker rid m of
        Some b \<Rightarrow> (b, m)
      | None \<Rightarrow> (\<lparr>rr_run_id = rid, rr_finished = False, rr_log = rm_store m rid\<rparr>,
                 m\<lparr>rm_brokers := rm_brokers m @ [(rid, False)]\<rparr>))"

definition redis_set_broker :: "redis_broker \<Rightarrow> redis_manager \<Rightarrow> redis_manager" where
  "redis_set_broker b m =
     m\<lparr>rm_brokers := AList.update (rr_run_id b) (rr_finished b) (rm_brokers m),
       rm_store := (rm_store m)(rr_run_id b := rr_log b)\<rparr>"

definition redis_cleanup_broker :: "run_id \<Rightarrow> redis_manager \<Rightarrow> redis_manager" where
  "redis_cleanup_broker rid m = m\<lparr>rm_brokers := AList.delete rid (rm_brokers m)\<rparr>"

definition redis_get_event_sequence :: "bool \<Rightarrow> time \<Rightarrow> run_id \<Rightarrow> redis_manager \<Rightarrow> nat" where
  "redis_get_event_sequence redis_ok now rid m = (if redis_ok then counter_at now (rm_store m rid) else 0)"

text \<open>
  \<open>allocate_event_id\<close>: \<open>INCR\<close>, which keeps the deadline of the counter, and \<open>EXPIRE\<close>; or the clock in
  milliseconds when Redis fails.
\<close>

definition redis_allocate_event_id ::
  "write_outcome \<Rightarrow> time \<Rightarrow> nat \<Rightarrow> run_id \<Rightarrow> redis_manager \<Rightarrow> string \<times> redis_manager"
where
  "redis_allocate_event_id out now now_ms rid m =
     (let l = rm_store m rid;
          seq = counter_at now l + 1;
          until = (if key_alive now (rl_counter_until l) then rl_counter_until l else None);
          bumped = (\<lambda>u. m\<lparr>rm_store := (rm_store m)(rid := l\<lparr>rl_counter := seq, rl_counter_until := u\<rparr>)\<rparr>)
      in case out of
           WriteOk \<Rightarrow> (generate_event_id rid seq, bumped (Some (now + REPLAY_TTL_SECONDS)))
         | WriteFailed \<Rightarrow> (generate_event_id rid now_ms, m)
         | WriteAppliedThenError \<Rightarrow> (generate_event_id rid now_ms, bumped until))"

text \<open>
  \<open>_execute_cancel\<close>: \<open>task_live\<close> says whether this process runs the task; the result says
  whether it was marked as explicitly cancelled and cancelled.
\<close>

definition redis_execute_cancel ::
  "write_outcome \<Rightarrow> time \<Rightarrow> nat \<Rightarrow> write_outcome list \<times> write_outcome list \<Rightarrow> bool \<Rightarrow> bool \<Rightarrow> run_id
   \<Rightarrow> redis_manager \<Rightarrow> bool \<times> redis_manager"
where
  "redis_execute_cancel out now now_ms outs task_live emit_end_event rid m =
     (if \<not> task_live then (False, m)
      else
        (let (b, m) = redis_get_or_create rid m
         in if emit_end_event \<and> \<not> rr_finished b then
              (let (eid, m) = redis_allocate_event_id out now now_ms rid m;
                   b = b\<lparr>rr_log := rm_store m rid\<rparr>
               in (True, redis_set_broker (redis_put now outs True eid (end_event ''interrupted'') b) m))
            else (True, m)))"

text \<open>
  \<open>_subscribe_and_handle_cancels\<close> for one message.  \<open>KeyError\<close> and \<open>ValueError\<close> are logged
  and the message is dropped; any other exception ends the listener.
\<close>

definition parse_cancel_command :: "json \<Rightarrow> (json \<times> bool) result" where
  "parse_cancel_command data =
     (case data of
        JObj d \<Rightarrow>
          bind_res
            (case map_of d ''emit_end_event'' of
               None \<Rightarrow> Inr True
             | Some (JBool flag) \<Rightarrow> Inr flag
             | Some _ \<Rightarrow> Inl ValueError)
            (\<lambda>flag. case map_of d ''run_id'' of None \<Rightarrow> Inl KeyError | Some r \<Rightarrow> Inr (r, flag))
      | _ \<Rightarrow> Inl AttributeError)"

datatype cancel_reaction = ExecuteCancel run_id bool | DropMessage | ListenerDies

text \<open>An unhashable run id raises in \<open>active_runs.get\<close>; any other value is no key of it.\<close>

definition handle_cancel_message :: "json \<Rightarrow> cancel_reaction" where
  "handle_cancel_message data =
     (case parse_cancel_command data of
        Inl KeyError \<Rightarrow> DropMessage
      | Inl ValueError \<Rightarrow> DropMessage
      | Inl _ \<Rightarrow> ListenerDies
      | Inr (JStr r, flag) \<Rightarrow> ExecuteCancel r flag
      | Inr (JList _, _) \<Rightarrow> ListenerDies
      | Inr (JObj _, _) \<Rightarrow> ListenerDies
      | Inr _ \<Rightarrow> DropMessage)"

text \<open>The message \<open>request_cancel\<close> publishes.\<close>

definition cancel_command :: "run_id \<Rightarrow> string \<Rightarrow> bool \<Rightarrow> json" where
  "cancel_command rid action emit_end_event =
     JObj [(''run_id'', JStr rid), (''action'', JStr action), (''emit_end_event'', JBool emit_end_event)]"

subsection \<open>Adjacent duplicates\<close>

fun dedup_adj :: "string option \<Rightarrow> event list \<Rightarrow> event list" where
  "dedup_adj prev [] = []"
| "dedup_adj prev (e # es) =
     (if prev = Some (fst e) then dedup_adj prev es else e # dedup_adj (Some (fst e)) es)"

definition stored_events :: "redis_broker \<Rightarrow> event list" where
  "stored_events b = dedup_adj None (map decode_message (take REPLAY_MAX_EVENTS (rl_cache (rr_log b))))"

lemma fst_decode [simp]: "fst (decode_message m) = fst m"
  by (simp add: decode_message_def)

lemma dedup_adj_ids: "fst ` set (dedup_adj prev es) \<union> set_option prev = fst ` set es \<union> set_option prev"
  by (induction prev es rule: dedup_adj.induct) auto

lemma dedup_adj_same [simp]: "dedup_adj (Some x) (replicate k (x, p)) = []"
  by (induction k) auto

lemma dedup_adj_append_copies:
  assumes "x \<notin> fst ` set es" and "prev \<noteq> Some x" and "0 < k"
  shows "dedup_adj prev (es @ replicate k (x, p)) = dedup_adj prev es @ [(x, p)]"
  using assms
proof (induction prev es rule: dedup_adj.induct)
  case (1 prev)
  then show ?case by (cases k) auto
qed auto

definition found_after :: "string option \<Rightarrow> event list \<Rightarrow> event list option" where
  "found_after lid es = Option.bind lid (\<lambda>x. after_id x es)"

lemma found_after_Nil [simp]: "found_after lid [] = None"
  by (cases lid) (auto simp: found_after_def)

lemma found_after_Cons:
  "found_after lid (e # es) = (if lid = Some (fst e) then Some es else found_after lid es)"
  by (cases lid) (auto simp: found_after_def)

lemma replay_body_selectors:
  "ra_prev (replay_body lid m a) = Some (fst m)"
  "ra_all (replay_body lid m a) = ra_all a @ (if ra_prev a = Some (fst m) then [] else [decode_message m])"
  "ra_found (replay_body lid m a) \<longleftrightarrow> ra_found a \<or> (ra_prev a \<noteq> Some (fst m) \<and> lid = Some (fst m))"
  "ra_after (replay_body lid m a) =
     ra_after a @ (if ra_prev a \<noteq> Some (fst m) \<and> ra_found a then [decode_message m] else [])"
  by (auto simp: replay_body_def Let_def)

lemma fold_replay_body:
  fixes ms :: "wire_message list"
  defines "es a \<equiv> dedup_adj (ra_prev a) (map decode_message ms)"
  shows "ra_all (fold (replay_body lid) ms a) = ra_all a @ es a"
    and "ra_found (fold (replay_body lid) ms a) \<longleftrightarrow> ra_found a \<or> found_after lid (es a) \<noteq> None"
    and "ra_after (fold (replay_body lid) ms a) =
      ra_after a @ (if ra_found a then es a else case found_after lid (es a) of Some post \<Rightarrow> post | None \<Rightarrow> [])"
  unfolding es_def
  by (induction ms arbitrary: a)
    (simp_all add: replay_body_selectors found_after_Cons split: if_splits)

text \<open>The replay of the Redis buffer is the contract's replay of the stored events.\<close>

lemma replay_messages_stored:
  "replay_messages lid (take REPLAY_MAX_EVENTS (rl_cache (rr_log b))) = replay_spec lid (stored_events b)"
  by (cases lid) (auto simp: replay_messages_def stored_events_def replay_spec_def fold_replay_body
      found_after_def Let_def split: option.splits)

lemma redis_replay_stored:
  "redis_replay True now lid b = (if key_alive now (rl_cache_until (rr_log b)) then replay_spec lid (stored_events b) else [])"
  by (simp add: redis_replay_def cache_at_def replay_messages_stored) (simp add: replay_messages_def)

subsection \<open>Writes\<close>

fun applied_count :: "nat \<Rightarrow> write_outcome list \<Rightarrow> nat" where
  "applied_count 0 outs = 0"
| "applied_count (Suc n) [] = 0"
| "applied_count (Suc n) (WriteOk # outs) = 1"
| "applied_count (Suc n) (WriteFailed # outs) = applied_count n outs"
| "applied_count (Suc n) (WriteAppliedThenError # outs) = Suc (applied_count n outs)"

lemma alive_after_write [simp]: "key_alive now (Some (now + REPLAY_TTL_SECONDS))"
  by (simp add: key_alive_def REPLAY_TTL_SECONDS_def)

lemma write_attempts_cache:
  assumes "length (rl_cache l) + n \<le> REPLAY_MAX_EVENTS" and "key_alive now (rl_cache_until l)"
  shows "rl_cache (snd (write_attempts n outs (cache_event now m) l)) =
      rl_cache l @ replicate (applied_count n outs) m
    \<and> (0 < applied_count n outs \<longrightarrow>
         rl_cache_until (snd (write_attempts n outs (cache_event now m) l)) = Some (now + REPLAY_TTL_SECONDS))"
  using assms
proof (induction n outs "cache_event now m" l rule: write_attempts.induct)
  case (5 n outs l)
  have l: "rl_cache (cache_event now m l) = rl_cache l @ [m]"
    "rl_cache_until (cache_event now m l) = Some (now + REPLAY_TTL_SECONDS)"
    using "5.prems" by (simp_all add: cache_event_def cache_at_def Let_def)
  have kept: "rl_cache_until (snd (write_attempts n outs (cache_event now m) (cache_event now m l))) = Some (now + REPLAY_TTL_SECONDS)"
    if "applied_count n outs = 0"
    using that l(2) by (induction n outs rule: applied_count.induct) auto
  from 5 l show ?case
    using kept by (cases "applied_count n outs") (auto simp: replicate_app_Cons_same)
qed (simp_all add: cache_event_def cache_at_def Let_def)

lemma applied_count_le: "applied_count n outs \<le> n"
  by (induction n outs rule: applied_count.induct) auto

lemma write_publish_cache [simp]:
  "rl_cache (snd (write_attempts n outs (publish_event m) l)) = rl_cache l"
  "rl_cache_until (snd (write_attempts n outs (publish_event m) l)) = rl_cache_until l"
  by (induction n outs "publish_event m" l rule: write_attempts.induct)
    (simp_all add: publish_event_def)

text \<open>
  A write reaches the replay store when some attempt was applied; what is stored must not have
  expired, the buffer must have room for the copies, and the payload must be a tuple tagged by a string, which is what every
  producer of the server emits.
\<close>

fun tagged :: "payload \<Rightarrow> bool" where
  "tagged (Tuple (JStr s # xs)) = True"
| "tagged _ = False"

definition redis_ok :: "time \<times> write_outcome list \<times> write_outcome list \<Rightarrow> payload \<Rightarrow> redis_broker \<Rightarrow> bool" where
  "redis_ok x p b =
     (0 < applied_count PUT_MAX_ATTEMPTS (fst (snd x)) \<and> tagged p \<and> key_alive (fst x) (rl_cache_until (rr_log b))
      \<and> length (rl_cache (rr_log b)) + PUT_MAX_ATTEMPTS \<le> REPLAY_MAX_EVENTS)"

lemma deserialize_serialize: "tagged p \<Longrightarrow> deserialize_payload (serialize_payload p) = p"
  by (cases p rule: tagged.cases) (auto simp: deserialize_payload_def)

lemma redis_put_cache:
  assumes "\<not> rr_finished b" and "length (rl_cache (rr_log b)) + PUT_MAX_ATTEMPTS \<le> REPLAY_MAX_EVENTS"
    and "key_alive now (rl_cache_until (rr_log b))"
  shows "rl_cache (rr_log (redis_put now outs True e p b)) =
      rl_cache (rr_log b) @ replicate (applied_count PUT_MAX_ATTEMPTS (fst outs)) (e, serialize_payload p)
    \<and> (0 < applied_count PUT_MAX_ATTEMPTS (fst outs) \<longrightarrow>
         rl_cache_until (rr_log (redis_put now outs True e p b)) = Some (now + REPLAY_TTL_SECONDS))"
  using assms write_attempts_cache [of "rr_log b" PUT_MAX_ATTEMPTS now "fst outs" "(e, serialize_payload p)"]
  by (auto simp: redis_put_def write_with_retry_def Let_def split: prod.splits)

lemma redis_put_finished:
  "rr_finished (redis_put now outs resumable e p b) \<longleftrightarrow> rr_finished b \<or> is_end p"
  by (simp add: redis_put_def Let_def split_def)

definition redis_store_put :: "time \<times> write_outcome list \<times> write_outcome list \<Rightarrow> string \<Rightarrow> payload \<Rightarrow> redis_broker \<Rightarrow> redis_broker" where
  "redis_store_put x = redis_put (fst x) (snd x) True"

lemma redis_put_stored:
  assumes "redis_ok x p b" and "\<not> rr_finished b" and "e \<notin> fst ` set (stored_events b)"
  shows "stored_events (redis_store_put x e p b) = stored_events b @ [(e, p)]"
proof -
  let ?k = "applied_count PUT_MAX_ATTEMPTS (fst (snd x))"
  let ?c = "rl_cache (rr_log b)"
  have room: "length ?c + PUT_MAX_ATTEMPTS \<le> REPLAY_MAX_EVENTS" and k: "0 < ?k" and t: "tagged p"
    and alive: "key_alive (fst x) (rl_cache_until (rr_log b))"
    using assms(1) by (auto simp: redis_ok_def)
  have all: "take REPLAY_MAX_EVENTS ?c = ?c" using room by simp
  have fresh: "e \<notin> fst ` set (map decode_message ?c)"
    using assms(3) dedup_adj_ids [of None "map decode_message ?c"]
    by (simp add: stored_events_def all)
  have c: "rl_cache (rr_log (redis_store_put x e p b)) = ?c @ replicate ?k (e, serialize_payload p)"
    using redis_put_cache [OF assms(2) room alive, of "snd x" e p] by (simp add: redis_store_put_def)
  have "length (rl_cache (rr_log (redis_store_put x e p b))) \<le> REPLAY_MAX_EVENTS"
    using room applied_count_le [of PUT_MAX_ATTEMPTS "fst (snd x)"] by (simp add: c)
  then have "stored_events (redis_store_put x e p b) =
      dedup_adj None (map decode_message ?c @ replicate ?k (e, p))"
    by (simp add: stored_events_def c map_replicate decode_message_def deserialize_serialize [OF t])
  also have "\<dots> = dedup_adj None (map decode_message ?c) @ [(e, p)]"
    by (rule dedup_adj_append_copies [OF fresh _ k]) simp
  finally show ?thesis by (simp add: stored_events_def all)
qed

interpretation redis: replayable_broker
  redis_store_put stored_events "\<lambda>lid b. replay_messages lid (take REPLAY_MAX_EVENTS (rl_cache (rr_log b)))" rr_finished redis_ok
proof unfold_locales
  show "replay_messages lid (take REPLAY_MAX_EVENTS (rl_cache (rr_log b))) = replay_spec lid (stored_events b)" for lid b
    by (rule replay_messages_stored)
qed (simp add: redis_put_stored, simp_all add: redis_store_put_def redis_put_finished, simp add: redis_put_def)

text \<open>What is stored lives ten minutes from the last write.\<close>

lemma puts_until:
  assumes "redis.all_ok es b" and "\<not> rr_finished b" and "es \<noteq> []" and "\<forall>e \<in> set (butlast es). \<not> is_end (snd (snd e))"
  shows "rl_cache_until (rr_log (redis.puts es b)) = Some (fst (fst (List.last es)) + REPLAY_TTL_SECONDS)"
  using assms
proof (induction es arbitrary: b)
  case (Cons xe es)
  obtain x e p where xe: "xe = (x, (e, p))" by (metis prod.collapse)
  let ?b = "redis_store_put x e p b"
  have until: "rl_cache_until (rr_log ?b) = Some (fst x + REPLAY_TTL_SECONDS)"
  proof -
    have "redis_ok x p b" using Cons.prems(1) by (simp add: xe)
    then show ?thesis
      using Cons.prems(2) redis_put_cache [of b "fst x" "snd x" e p] by (simp add: redis_ok_def redis_store_put_def)
  qed
  show ?case
  proof (cases "es = []")
    case False
    then have "\<not> is_end p" "\<forall>e \<in> set (butlast es). \<not> is_end (snd (snd e))" using Cons.prems(4) by (auto simp: xe)
    moreover from this have "\<not> rr_finished ?b" using Cons.prems(2) by (simp add: redis_store_put_def redis_put_finished)
    ultimately show ?thesis using Cons.IH [of ?b] Cons.prems(1) False by (simp add: xe)
  qed (simp add: xe until)
qed simp

subsection \<open>Both backends replay the same log\<close>

lemma mem_all_ok: "mem.all_ok es b"
  by (induction es arbitrary: b) auto

definition empty_redis_broker :: "run_id \<Rightarrow> redis_broker" where
  "empty_redis_broker rid =
     \<lparr>rr_run_id = rid, rr_finished = False,
      rr_log = \<lparr>rl_cache = [], rl_cache_until = None, rl_counter = 0, rl_counter_until = None, rl_channel = []\<rparr>\<rparr>"

lemma stored_empty [simp]: "stored_events (empty_redis_broker rid) = []" "\<not> rr_finished (empty_redis_broker rid)"
  by (simp_all add: stored_events_def empty_redis_broker_def)

text \<open>
  Claim C35.  The Redis broker replays what the in-memory broker would.  A run's events with
  distinct ids, the end event last, are published to both; in Redis any attempt may fail, or be
  applied and reported as failed and therefore written again, as long as one attempt of each write
  lands, the bounded buffer has room, and an event is written before the ten minutes that the stored
  events outlive the one before it are over.  Then, within ten minutes of the last event, both replay the
  same list for every \<open>Last-Event-ID\<close>: the whole run without one, and after a known id the events that
  follow it.  Later, Redis replays nothing.
\<close>

theorem redis_replay_equals_memory:
  assumes "redis.all_ok es (empty_redis_broker rid)" and "distinct (map (fst \<circ> snd) es)"
    and "\<forall>e \<in> set (butlast es). \<not> is_end (snd (snd e))" and "es \<noteq> []"
    and "deadline = fst (fst (List.last es)) + 600"
  shows "(\<forall>t < deadline.
      redis_replay True t lid (redis.puts es (empty_redis_broker rid)) =
        broker_replay lid (mem.puts (map (\<lambda>(_, e). (now, e)) es) (new_run_broker now rid)) \<and>
      redis_replay True t None (redis.puts es (empty_redis_broker rid)) = map snd es \<and>
      (\<forall>pre x e p post. es = pre @ (x, (e, p)) # post \<longrightarrow>
         redis_replay True t (Some e) (redis.puts es (empty_redis_broker rid)) = map snd post)) \<and>
    (\<forall>t \<ge> deadline. redis_replay True t lid (redis.puts es (empty_redis_broker rid)) = [])"
proof -
  let ?ms = "map (\<lambda>(_, e). (now, e)) es"
  let ?b = "redis.puts es (empty_redis_broker rid)"
  have until: "rl_cache_until (rr_log ?b) = Some deadline"
    using puts_until [OF assms(1) _ assms(4,3)] assms(5) by (simp add: REPLAY_TTL_SECONDS_def)
  have alive: "redis_replay True t l ?b = (if t < deadline then replay_spec l (stored_events ?b) else [])" for t l
    by (simp add: redis_replay_stored until key_alive_def)
  have snds: "map snd ?ms = map snd es" "map (fst \<circ> snd) ?ms = map (fst \<circ> snd) es"
    by (auto simp: split_def)
  have log: "stored_events ?b = map snd es"
    using redis.puts_log [OF assms(1) _ assms(2) _ assms(3)] by simp
  have "\<forall>e \<in> set (butlast ?ms). \<not> is_end (snd (snd e))"
    using assms(3) by (auto simp: map_butlast [symmetric])
  then have "rb_replay_buffer (mem.puts ?ms (new_run_broker now rid)) =
      rb_replay_buffer (new_run_broker now rid) @ map snd ?ms"
    by (intro mem.puts_log mem_all_ok) (simp_all only: snds assms(2), simp_all add: new_run_broker_def)
  then have mlog: "rb_replay_buffer (mem.puts ?ms (new_run_broker now rid)) = map snd es"
    unfolding snds(1) by (simp add: new_run_broker_def)
  have post: "replay_spec (Some e) (stored_events ?b) = map snd post"
    if "es = pre @ (x, (e, p)) # post" for pre x e p post
  proof -
    have "e \<notin> fst ` set (map snd pre)" using assms(2) that by (auto simp: image_comp)
    then show ?thesis
      using redis.reconnect_exact [of ?b "map snd pre" e p "map snd post"] log that
      by (simp add: replay_messages_stored)
  qed
  have none: "replay_spec None (stored_events ?b) = map snd es" by (simp add: replay_spec_def log)
  have same: "broker_replay lid (mem.puts ?ms (new_run_broker now rid)) = replay_spec lid (stored_events ?b)"
    by (simp only: mem.replay_log mlog log)
  show ?thesis unfolding alive same none using post by simp
qed

lemma put_attempts_Suc: "PUT_MAX_ATTEMPTS = Suc (Suc (Suc 0))"
  by (simp add: PUT_MAX_ATTEMPTS_def)

theorem redis_replay_equals_memory_witness:
  "redis_replay True 300 (Some ''r_event_1'')
     (redis.puts [((0, [WriteAppliedThenError, WriteOk], [WriteFailed]), (''r_event_1'', Tuple [JStr ''values'', JInt 7])),
                  ((60, [WriteFailed, WriteOk], [WriteOk]), (''r_event_2'', end_event ''success''))] (empty_redis_broker ''r''))
   = [(''r_event_2'', end_event ''success'')]"
proof -
  let ?es = "[((0 :: time, [WriteAppliedThenError, WriteOk], [WriteFailed]), (''r_event_1'', Tuple [JStr ''values'', JInt 7])),
              ((60, [WriteFailed, WriteOk], [WriteOk]), (''r_event_2'', end_event ''success''))]"
  have ok: "redis.all_ok ?es (empty_redis_broker ''r'')"
    by (simp add: redis_ok_def empty_redis_broker_def put_attempts_Suc REPLAY_MAX_EVENTS_def redis_store_put_def key_alive_def
        REPLAY_TTL_SECONDS_def cache_at_def
        redis_put_def write_with_retry_def cache_event_def publish_event_def end_event_def Let_def)
  have dist: "distinct (map (fst \<circ> snd) ?es)" by simp
  have last: "\<forall>e \<in> set (butlast ?es). \<not> is_end (snd (snd e))" by (simp add: is_end_def)
  have "300 < fst (fst (List.last ?es)) + 600" by simp
  with redis_replay_equals_memory [OF ok dist last _ refl] have "\<forall>pre x e p post. ?es = pre @ (x, (e, p)) # post \<longrightarrow>
      redis_replay True 300 (Some e) (redis.puts ?es (empty_redis_broker ''r'')) = map snd post" by blast
  from this [rule_format, of "[]"] have "redis_replay True 300 (Some ''r_event_1'') (redis.puts ?es (empty_redis_broker ''r'')) =
      map snd (tl ?es)" by simp
  then show ?thesis by simp
qed

subsection \<open>Cancellation across processes\<close>

text \<open>
  How the cancel listener reacts.  A cancellation published by one process is the one
  another executes, with the run id and the end-event flag it was sent.  A message without a run
  id or with a flag that is not a boolean is dropped and the listener goes on.  A message that is
  not an object ends the listener: its \<open>AttributeError\<close> is none of the exceptions the loop handles.
\<close>

theorem cancel_listener_reactions:
  "handle_cancel_message (cancel_command rid action flag) = ExecuteCancel rid flag \<and>
   handle_cancel_message (JObj [(''action'', JStr action), (''emit_end_event'', JBool flag)]) = DropMessage \<and>
   handle_cancel_message (JObj [(''run_id'', JStr rid), (''emit_end_event'', JStr s)]) = DropMessage \<and>
   handle_cancel_message (JStr s) = ListenerDies \<and> handle_cancel_message JNull = ListenerDies"
  by (simp add: handle_cancel_message_def parse_cancel_command_def cancel_command_def)

end
