(* ===== verification/Sse.thy ===== *)
theory Sse
  imports Broker
begin

text \<open>
  Server-sent events on the wire: \<open>format_sse_message\<close> and the event constructors of
  \<^verbatim>\<open>infra/sse.py\<close>, and the converter of \<^verbatim>\<open>streaming/event_converter.py\<close>.  The text of a JSON
  value (\<open>json.dumps\<close> with the serialiser of the server and the unescaping pass over it) is the
  argument \<open>enc\<close>, and Python's \<open>str\<close> of a value the argument \<open>pystr\<close>.
\<close>

definition nl :: char where
  "nl = CHR 0x0A"

definition join_lines :: "string list \<Rightarrow> string" where
  "join_lines ls = concat (map (\<lambda>l. l @ [nl]) ls)"

text \<open>\<open>"\n".join(lines) + "\n"\<close> ends every line with a newline.\<close>

definition format_sse_message :: "(json \<Rightarrow> string) \<Rightarrow> string \<Rightarrow> json \<Rightarrow> string option \<Rightarrow> string" where
  "format_sse_message enc event data event_id =
     join_lines
       ([''event: '' @ event, ''data: '' @ (if data = JNull then [] else enc data)]
        @ (case event_id of None \<Rightarrow> [] | Some i \<Rightarrow> if i = [] then [] else [''id: '' @ i])
        @ [[]])"

text \<open>The checkpoint reference read off a \<open>configurable\<close> section.\<close>

definition checkpoint_ref :: "dict \<Rightarrow> json" where
  "checkpoint_ref c =
     JObj [(''thread_id'', get_or c ''thread_id'' JNull),
           (''checkpoint_id'', get_or c ''checkpoint_id'' JNull),
           (''checkpoint_ns'', get_or c ''checkpoint_ns'' (JStr []))]"

definition configurable_of :: "json \<Rightarrow> dict option" where
  "configurable_of config =
     (case config of
        JObj c \<Rightarrow> (case map_of c ''configurable'' of Some (JObj cc) \<Rightarrow> Some cc | _ \<Rightarrow> None)
      | _ \<Rightarrow> None)"

definition add_checkpoint :: "dict \<Rightarrow> dict" where
  "add_checkpoint p =
     (case (map_of p ''checkpoint'', map_of p ''config'') of
        (None, Some config) \<Rightarrow>
          (case configurable_of config of
             Some cc \<Rightarrow> AList.update ''checkpoint'' (checkpoint_ref cc) p
           | None \<Rightarrow> p)
      | _ \<Rightarrow> p)"

definition add_parent_checkpoint :: "dict \<Rightarrow> dict" where
  "add_parent_checkpoint p =
     (case (map_of p ''parent_checkpoint'', map_of p ''parent_config'') of
        (None, Some config) \<Rightarrow>
          (case configurable_of config of
             Some cc \<Rightarrow> AList.update ''parent_checkpoint'' (checkpoint_ref cc) p
           | None \<Rightarrow> if config = JNull then AList.update ''parent_checkpoint'' JNull p else p)
      | _ \<Rightarrow> p)"

definition debug_data :: "json \<Rightarrow> json" where
  "debug_data data =
     (case data of
        JObj d \<Rightarrow>
          (case map_of d ''payload'' of
             Some (JObj p) \<Rightarrow>
               JObj (AList.update ''payload'' (JObj (add_parent_checkpoint (add_checkpoint p))) d)
           | _ \<Rightarrow> data)
      | _ \<Rightarrow> data)"

definition create_debug_event :: "(json \<Rightarrow> string) \<Rightarrow> json \<Rightarrow> string option \<Rightarrow> string" where
  "create_debug_event enc data event_id = format_sse_message enc ''debug'' (debug_data data) event_id"

definition create_end_event :: "(json \<Rightarrow> string) \<Rightarrow> string option \<Rightarrow> json \<Rightarrow> string" where
  "create_end_event enc event_id status =
     format_sse_message enc ''end'' (JObj [(''status'', status)]) event_id"

definition create_error_event ::
  "(json \<Rightarrow> string) \<Rightarrow> (json \<Rightarrow> string) \<Rightarrow> json \<Rightarrow> string option \<Rightarrow> string"
where
  "create_error_event enc pystr err event_id =
     format_sse_message enc ''error''
       (case err of
          JObj d \<Rightarrow> JObj [(''error'', get_or d ''error'' (JStr ''Error'')),
                         (''message'', get_or d ''message'' (JStr (pystr err)))]
        | _ \<Rightarrow> JObj [(''error'', JStr ''Error''), (''message'', JStr (pystr err))])
       event_id"

text \<open>A tuple and a list have the same JSON form, so both branches format the same data.\<close>

definition create_messages_event :: "(json \<Rightarrow> string) \<Rightarrow> json \<Rightarrow> string \<Rightarrow> string option \<Rightarrow> string" where
  "create_messages_event enc data event_type event_id = format_sse_message enc event_type data event_id"

subsection \<open>\<open>EventConverter\<close>\<close>

definition normalize_namespace :: "(json \<Rightarrow> string) \<Rightarrow> json \<Rightarrow> string list option" where
  "normalize_namespace pystr ns =
     (case ns of
        JNull \<Rightarrow> None
      | JList xs \<Rightarrow> if xs = [] then None else Some (map (\<lambda>x. case x of JStr s \<Rightarrow> s | _ \<Rightarrow> pystr x) xs)
      | JStr s \<Rightarrow> if s = [] then None else Some [s]
      | _ \<Rightarrow> Some [pystr ns])"

definition parse_raw_event ::
  "(json \<Rightarrow> string) \<Rightarrow> bool \<Rightarrow> payload \<Rightarrow> json \<times> json \<times> string list option"
where
  "parse_raw_event pystr subgraphs raw =
     (case raw of
        Tuple [mode, chunk] \<Rightarrow> (mode, chunk, None)
      | Tuple [ns, mode, chunk] \<Rightarrow>
          if subgraphs then (mode, chunk, normalize_namespace pystr ns) else (mode, chunk, None)
      | Tuple xs \<Rightarrow> (JStr ''values'', JList xs, None)
      | Plain j \<Rightarrow> (JStr ''values'', j, None))"

definition starts_with :: "string \<Rightarrow> string \<Rightarrow> bool" where
  "starts_with pre s = (take (length pre) s = pre)"

fun join_bar :: "string list \<Rightarrow> string" where
  "join_bar [] = []"
| "join_bar [x] = x"
| "join_bar (x # xs) = x @ ''|'' @ join_bar xs"

definition create_sse_event ::
  "(json \<Rightarrow> string) \<Rightarrow> (json \<Rightarrow> string) \<Rightarrow> bool \<Rightarrow> string \<Rightarrow> json \<Rightarrow> string \<Rightarrow> string list option \<Rightarrow> string"
where
  "create_sse_event enc pystr subgraphs mode data event_id namespace =
     (let event_type = (case namespace of
            Some (n # ns) \<Rightarrow> if subgraphs then mode @ ''|'' @ join_bar (n # ns) else mode
          | _ \<Rightarrow> mode)
      in if mode = ''updates'' then format_sse_message enc event_type data (Some event_id)
         else if mode \<in> {''messages/metadata'', ''messages/partial'', ''messages/complete''}
           then format_sse_message enc mode data (Some event_id)
         else if mode = ''messages'' \<or> starts_with ''messages'' event_type
           then create_messages_event enc data event_type (Some event_id)
         else if mode = ''values'' \<or> starts_with ''values'' event_type
           then format_sse_message enc event_type data (Some event_id)
         else if mode = ''debug'' then create_debug_event enc data (Some event_id)
         else if mode = ''end'' then
           create_end_event enc (Some event_id)
             (case data of JObj d \<Rightarrow> get_or d ''status'' (JStr ''success'') | _ \<Rightarrow> JStr ''success'')
         else if mode = ''error'' then create_error_event enc pystr data (Some event_id)
         else format_sse_message enc event_type data (Some event_id))"

text \<open>
  \<open>convert_raw_to_sse\<close>.  A mode that is not a string reaches the string operations of
  \<open>_create_sse_event\<close> and raises.
\<close>

definition convert_raw_to_sse ::
  "(json \<Rightarrow> string) \<Rightarrow> (json \<Rightarrow> string) \<Rightarrow> bool \<Rightarrow> string \<Rightarrow> payload \<Rightarrow> string result"
where
  "convert_raw_to_sse enc pystr subgraphs event_id raw =
     (case parse_raw_event pystr subgraphs raw of
        (JStr mode, data, ns) \<Rightarrow> Inr (create_sse_event enc pystr subgraphs mode data event_id ns)
      | _ \<Rightarrow> Inl AttributeError)"

subsection \<open>Reading the stream\<close>

text \<open>
  What an SSE client does with the text: it collects the fields of the lines and dispatches an
  event at every blank line.
\<close>

record sse_frame =
  f_event :: string
  f_data :: string
  f_id :: "string option"

definition empty_frame :: sse_frame where
  "empty_frame = \<lparr>f_event = [], f_data = [], f_id = None\<rparr>"

definition read_field :: "string \<Rightarrow> sse_frame \<Rightarrow> sse_frame" where
  "read_field l f =
     (if starts_with ''event: '' l then f\<lparr>f_event := drop 7 l\<rparr>
      else if starts_with ''data: '' l then f\<lparr>f_data := drop 6 l\<rparr>
      else if starts_with ''id: '' l then f\<lparr>f_id := Some (drop 4 l)\<rparr>
      else f)"

fun read_lines :: "string \<Rightarrow> sse_frame \<Rightarrow> string \<Rightarrow> sse_frame list" where
  "read_lines acc f [] = []"
| "read_lines acc f (c # cs) =
     (if c = nl then
        (if acc = [] then f # read_lines [] empty_frame cs
         else read_lines [] (read_field (rev acc) f) cs)
      else read_lines (c # acc) f cs)"

definition parse_sse :: "string \<Rightarrow> sse_frame list" where
  "parse_sse text = read_lines [] empty_frame text"

lemma read_lines_line:
  "nl \<notin> set l \<Longrightarrow> rev acc @ l \<noteq> [] \<Longrightarrow>
   read_lines acc f (l @ nl # cs) = read_lines [] (read_field (rev acc @ l) f) cs"
  by (induction l arbitrary: acc) auto

lemma read_lines_blank: "read_lines [] f (nl # cs) = f # read_lines [] empty_frame cs"
  by simp

lemma starts_with_append [simp]: "starts_with pre (pre @ s)"
  by (simp add: starts_with_def)

lemma format_sse_message_shape:
  assumes "i \<noteq> []"
  shows "format_sse_message enc event data (Some i) =
    (''event: '' @ event) @ nl # (''data: '' @ (if data = JNull then [] else enc data)) @ nl #
    (''id: '' @ i) @ nl # [nl]"
  using assms by (simp add: format_sse_message_def join_lines_def)

lemma read_three_lines:
  assumes "nl \<notin> set l1" "l1 \<noteq> []" "nl \<notin> set l2" "l2 \<noteq> []" "nl \<notin> set l3" "l3 \<noteq> []"
  shows "read_lines [] f (l1 @ nl # l2 @ nl # l3 @ nl # nl # rest) =
    read_field l3 (read_field l2 (read_field l1 f)) # read_lines [] empty_frame rest"
  using assms by (simp add: read_lines_line)

lemma read_formatted:
  assumes "i \<noteq> []" and "nl \<notin> set i" and "nl \<notin> set event" and "nl \<notin> set (enc data)"
  shows "read_lines [] empty_frame (format_sse_message enc event data (Some i) @ rest) =
    \<lparr>f_event = event, f_data = (if data = JNull then [] else enc data), f_id = Some i\<rparr>
    # read_lines [] empty_frame rest"
proof -
  let ?d = "if data = JNull then [] else enc data"
  have "nl \<notin> set (''event: '' @ event)" "nl \<notin> set (''data: '' @ ?d)" "nl \<notin> set (''id: '' @ i)"
    using assms by (auto simp: nl_def)
  then have "read_lines [] empty_frame (format_sse_message enc event data (Some i) @ rest) =
      read_field (''id: '' @ i) (read_field (''data: '' @ ?d) (read_field (''event: '' @ event) empty_frame))
      # read_lines [] empty_frame rest"
    using read_three_lines [of "''event: '' @ event" "''data: '' @ ?d" "''id: '' @ i"]
    by (simp add: format_sse_message_shape [OF assms(1)])
  then show ?thesis
    by (simp add: read_field_def starts_with_def empty_frame_def)
qed

subsection \<open>Framing\<close>

text \<open>
  The stream of server-sent events reads back as it was written.  For event names and
  ids without line breaks and an encoder whose JSON text has none, a client that splits the
  concatenated messages at blank lines recovers every event's name, data text and id, in order,
  with nothing added or merged.
\<close>

theorem sse_stream_round_trip:
  assumes "\<And>d. nl \<notin> set (enc d)"
    and "\<forall>(event, data, i) \<in> set evs. i \<noteq> [] \<and> nl \<notin> set i \<and> nl \<notin> set event"
  shows "parse_sse (concat (map (\<lambda>(event, data, i). format_sse_message enc event data (Some i)) evs)) =
    map (\<lambda>(event, data, i). \<lparr>f_event = event, f_data = (if data = JNull then [] else enc data), f_id = Some i\<rparr>) evs"
  using assms(2)
proof (induction evs)
  case (Cons e evs)
  obtain event data i where e: "e = (event, data, i)" by (cases e)
  have "i \<noteq> []" "nl \<notin> set i" "nl \<notin> set event" using Cons.prems by (auto simp: e)
  note read_formatted [where enc = enc and data = data, OF this assms(1) [of data], where rest = "concat (map (\<lambda>(event, data, i). format_sse_message enc event data (Some i)) evs)"]
  with Cons show ?case by (simp add: e parse_sse_def)
qed (simp add: parse_sse_def)

theorem sse_stream_round_trip_witness:
  "parse_sse (concat (map (\<lambda>(event, data, i). format_sse_message (\<lambda>_. ''{}'') event data (Some i))
      [(''values'', JObj [], ''r_event_1''), (''end'', JNull, ''r_event_2'')])) =
   [\<lparr>f_event = ''values'', f_data = ''{}'', f_id = Some ''r_event_1''\<rparr>,
    \<lparr>f_event = ''end'', f_data = [], f_id = Some ''r_event_2''\<rparr>]"
  using sse_stream_round_trip [of "\<lambda>_. ''{}''" "[(''values'', JObj [], ''r_event_1''), (''end'', JNull, ''r_event_2'')]"]
  by (simp add: nl_def)

end
