(* ===== verification/Streaming.thy ===== *)
theory Streaming
  imports Sse Run_Status
begin

text \<open>
  The streaming service (\<^verbatim>\<open>streaming/streaming_service.py\<close>) over the in-memory broker
  manager: publication of events, the terminal signals, and the SSE stream of a client, which
  replays stored events and then follows the live ones without sending any event twice.
\<close>

record streaming =
  ss_event_counters :: "(run_id \<times> int) list"
  ss_manager :: broker_manager

definition next_event_counter :: "run_id \<Rightarrow> string \<Rightarrow> streaming \<Rightarrow> int \<times> streaming" where
  "next_event_counter rid event_id s =
     (let idx = extract_event_sequence event_id;
          current = (case map_of (ss_event_counters s) rid of None \<Rightarrow> 0 | Some n \<Rightarrow> n)
      in if idx > current
         then (idx, s\<lparr>ss_event_counters := AList.update rid idx (ss_event_counters s)\<rparr>)
         else (current, s))"

definition put_to_broker :: "time \<Rightarrow> run_id \<Rightarrow> string \<Rightarrow> payload \<Rightarrow> streaming \<Rightarrow> streaming" where
  "put_to_broker now rid event_id raw s =
     (let (b, m) = get_or_create_broker now rid (ss_manager s);
          s = snd (next_event_counter rid event_id (s\<lparr>ss_manager := m\<rparr>))
      in s\<lparr>ss_manager := set_broker rid (broker_put now True event_id raw b) (ss_manager s)\<rparr>)"

text \<open>Allocate the next id of the run and publish a payload under it.\<close>

definition put_next :: "time \<Rightarrow> run_id \<Rightarrow> payload \<Rightarrow> run_broker \<Rightarrow> broker_manager \<Rightarrow> run_broker \<times> broker_manager" where
  "put_next now rid p b m =
     (let (eid, m) = allocate_event_id rid m;
          b = broker_put now True eid p b
      in (b, set_broker rid b m))"

definition signal_run_cancelled :: "time \<Rightarrow> run_id \<Rightarrow> streaming \<Rightarrow> streaming" where
  "signal_run_cancelled now rid s =
     (let (b, m) = get_or_create_broker now rid (ss_manager s)
      in if rb_finished b then s\<lparr>ss_manager := m\<rparr>
         else s\<lparr>ss_manager :=
                cleanup_broker now rid (snd (put_next now rid (end_event ''interrupted'') b m))\<rparr>)"

definition error_event :: "string \<Rightarrow> string \<Rightarrow> payload" where
  "error_event error_type error_message =
     Tuple [JStr ''error'', JObj [(''error'', JStr error_type), (''message'', JStr error_message)]]"

definition signal_run_error :: "time \<Rightarrow> run_id \<Rightarrow> string \<Rightarrow> string \<Rightarrow> streaming \<Rightarrow> streaming" where
  "signal_run_error now rid error_message error_type s =
     (let (b, m) = get_or_create_broker now rid (ss_manager s)
      in if rb_finished b then s\<lparr>ss_manager := m\<rparr>
         else
           (let (b, m) = put_next now rid (error_event error_type error_message) b m;
                (b, m) = put_next now rid (end_event ''error'') b m
            in s\<lparr>ss_manager := cleanup_broker now rid m\<rparr>))"

definition is_run_streaming :: "run_id \<Rightarrow> streaming \<Rightarrow> bool" where
  "is_run_streaming rid s =
     (case get_broker rid (ss_manager s) of None \<Rightarrow> False | Some b \<Rightarrow> \<not> rb_finished b)"

definition cleanup_run :: "time \<Rightarrow> run_id \<Rightarrow> streaming \<Rightarrow> streaming" where
  "cleanup_run now rid s =
     s\<lparr>ss_event_counters := AList.delete rid (ss_event_counters s),
       ss_manager := cleanup_broker now rid (ss_manager s)\<rparr>"

definition cancel_run :: "time \<Rightarrow> bool \<Rightarrow> bool \<Rightarrow> run_id \<Rightarrow> streaming \<Rightarrow> bool \<times> streaming" where
  "cancel_run now task_live emit_end_event rid s =
     (True, s\<lparr>ss_manager := snd (request_cancel now task_live emit_end_event rid (ss_manager s))\<rparr>)"

subsection \<open>The stream of a client\<close>

text \<open>
  \<open>conv\<close> is the converter to SSE text, empty when there is nothing to send.  Sent events are
  listed with their ids; \<open>_replay_stored_events\<close> and the loop of \<open>_stream_live_events\<close>.
\<close>

definition replay_stored_events ::
  "(string \<Rightarrow> payload \<Rightarrow> string) \<Rightarrow> event list \<Rightarrow> (string \<times> string) list"
where
  "replay_stored_events conv stored =
     filter (\<lambda>(_, sse). sse \<noteq> []) (map (\<lambda>(eid, raw). (eid, conv eid raw)) stored)"

fun stream_live_events ::
  "(string \<Rightarrow> payload \<Rightarrow> string) \<Rightarrow> int \<Rightarrow> event list \<Rightarrow> (string \<times> string) list"
where
  "stream_live_events conv last_sent [] = []"
| "stream_live_events conv last_sent ((eid, raw) # es) =
     (let current = extract_event_sequence eid
      in if current \<le> last_sent then stream_live_events conv last_sent es
         else if conv eid raw = [] then stream_live_events conv last_sent es
         else (eid, conv eid raw) # stream_live_events conv current es)"

definition highest_replayed :: "int \<Rightarrow> (string \<times> string) list \<Rightarrow> int" where
  "highest_replayed start sent =
     fold (\<lambda>(eid, _) n. if extract_event_sequence eid > n then extract_event_sequence eid else n) sent start"

text \<open>
  \<open>stream_run_execution\<close>: \<open>stored\<close> is what the broker replays for \<open>last_event_id\<close>, \<open>live\<close>
  what its iterator yields afterwards.  A run that is over with its broker gone or finished has
  no live part.
\<close>

definition no_live_part :: "run_status \<Rightarrow> run_broker option \<Rightarrow> bool" where
  "no_live_part status broker =
     (status \<in> {Success, Error, Interrupted}
      \<and> (case broker of None \<Rightarrow> True | Some b \<Rightarrow> rb_finished b))"

definition stream_run_execution ::
  "(string \<Rightarrow> payload \<Rightarrow> string) \<Rightarrow> run_status \<Rightarrow> run_broker option \<Rightarrow> string option \<Rightarrow> event list
   \<Rightarrow> event list \<Rightarrow> (string \<times> string) list"
where
  "stream_run_execution conv status broker last_event_id stored live =
     (let start = (case last_event_id of
            None \<Rightarrow> 0 | Some i \<Rightarrow> if i = [] then 0 else extract_event_sequence i);
          replayed = replay_stored_events conv stored
      in replayed @
         (if no_live_part status broker then []
          else stream_live_events conv (highest_replayed start replayed) live))"

subsection \<open>Lemmas\<close>

definition seqs :: "event list \<Rightarrow> int list" where
  "seqs es = map (extract_event_sequence \<circ> fst) es"

lemma stream_live_increasing:
  assumes "\<And>e. e \<in> set es \<Longrightarrow> conv (fst e) (snd e) \<noteq> []"
    and "sorted (seqs es)" "distinct (seqs es)"
  shows "stream_live_events conv n es =
    map (\<lambda>e. (fst e, conv (fst e) (snd e))) (filter (\<lambda>e. n < extract_event_sequence (fst e)) es)"
  using assms
proof (induction es arbitrary: n)
  case (Cons e es)
  obtain eid raw where e: "e = (eid, raw)" by (cases e)
  let ?c = "extract_event_sequence eid"
  have later: "?c < extract_event_sequence (fst x)" if "x \<in> set es" for x
    using Cons.prems(2,3) that by (auto simp: seqs_def e order.strict_iff_order image_iff)
  have IH: "stream_live_events conv m es =
      map (\<lambda>e. (fst e, conv (fst e) (snd e))) (filter (\<lambda>e. m < extract_event_sequence (fst e)) es)" for m
    using Cons by (auto simp: seqs_def)
  show ?case
  proof (cases "?c \<le> n")
    case True
    then show ?thesis by (simp add: e IH)
  next
    case False
    have "filter (\<lambda>e. n < extract_event_sequence (fst e)) es =
        filter (\<lambda>e. ?c < extract_event_sequence (fst e)) es"
      using False later by (intro filter_cong) force+
    moreover have "conv eid raw \<noteq> []" using Cons.prems(1) [of e] by (simp add: e)
    ultimately show ?thesis using False by (simp add: e IH)
  qed
qed simp

lemma highest_replayed_snoc:
  "highest_replayed start (xs @ [(eid, t)]) = max (highest_replayed start xs) (extract_event_sequence eid)"
  by (simp add: highest_replayed_def)

lemma highest_replayed_sorted:
  assumes "sorted (map (extract_event_sequence \<circ> fst) sent)"
    and "\<And>x. x \<in> set sent \<Longrightarrow> start \<le> extract_event_sequence (fst x)"
  shows "highest_replayed start sent =
    (if sent = [] then start else extract_event_sequence (fst (last sent)))"
  using assms
proof (induction sent rule: rev_induct)
  case (snoc x xs)
  obtain eid t where x: "x = (eid, t)" by (cases x)
  have sorted: "sorted (map (extract_event_sequence \<circ> fst) xs)"
    and le: "\<And>y. y \<in> set xs \<Longrightarrow> extract_event_sequence (fst y) \<le> extract_event_sequence eid"
    using snoc.prems(1) by (auto simp: x sorted_append comp_def)
  have "highest_replayed start xs = (if xs = [] then start else extract_event_sequence (fst (last xs)))"
    using snoc.prems(2) by (intro snoc.IH sorted) auto
  then have "highest_replayed start xs \<le> extract_event_sequence eid"
    using le [of "last xs"] snoc.prems(2) [of x] by (auto simp: x)
  with x show ?case by (simp add: highest_replayed_snoc)
qed (simp add: highest_replayed_def)

lemma replay_stored_all:
  "(\<And>e. e \<in> set es \<Longrightarrow> conv (fst e) (snd e) \<noteq> []) \<Longrightarrow>
   replay_stored_events conv es = map (\<lambda>e. (fst e, conv (fst e) (snd e))) es"
  by (induction es) (auto simp: replay_stored_events_def)

text \<open>
  The replayed part and the live part, which starts with the whole buffer again, together are
  the events after the client's position, once each and in order.
\<close>

lemma stream_exactly_once:
  assumes conv: "\<And>eid raw. conv eid raw \<noteq> []"
    and inc: "sorted (seqs (pre @ missed @ later))" "distinct (seqs (pre @ missed @ later))"
    and start: "\<And>e. e \<in> set (missed @ later) \<Longrightarrow> start < extract_event_sequence (fst e)"
    and pre: "\<And>e. e \<in> set pre \<Longrightarrow> extract_event_sequence (fst e) \<le> start"
  shows "replay_stored_events conv missed
      @ stream_live_events conv (highest_replayed start (replay_stored_events conv missed))
          (pre @ missed @ later)
    = map (\<lambda>e. (fst e, conv (fst e) (snd e))) (missed @ later)"
proof -
  let ?out = "\<lambda>e. (fst e, conv (fst e) (snd e))"
  have rep: "replay_stored_events conv missed = map ?out missed"
    by (rule replay_stored_all) (rule conv)
  have "highest_replayed start (map ?out missed) =
      (if missed = [] then start else extract_event_sequence (fst (last missed)))"
  proof -
    have "start \<le> extract_event_sequence (fst x)" if "x \<in> set (map ?out missed)" for x
      using that start by (force intro: less_imp_le)
    then show ?thesis
      using highest_replayed_sorted [of "map ?out missed" start] inc(1)
      by (simp add: seqs_def sorted_append comp_def last_map)
  qed
  note n = this
  let ?n = "highest_replayed start (map ?out missed)"
  have seqs: "sorted (map (extract_event_sequence \<circ> fst) (missed @ later))"
    "distinct (map (extract_event_sequence \<circ> fst) (missed @ later))"
    using inc by (auto simp: seqs_def sorted_append)
  have low: "\<not> ?n < extract_event_sequence (fst e)" if "e \<in> set (pre @ missed)" for e
  proof (cases "missed = []")
    case True
    with pre [of e] that n show ?thesis by simp
  next
    case False
    then obtain ys y where m: "missed = ys @ [y]" by (metis append_butlast_last_id)
    have "extract_event_sequence (fst e) \<le> extract_event_sequence (fst y)"
      using that inc(1) by (auto simp: m seqs_def sorted_append)
    with n m show ?thesis by simp
  qed
  have high: "?n < extract_event_sequence (fst e)" if "e \<in> set later" for e
  proof (cases "missed = []")
    case True
    with start [of e] that n show ?thesis by simp
  next
    case False
    then obtain ys y where m: "missed = ys @ [y]" by (metis append_butlast_last_id)
    have "extract_event_sequence (fst y) \<le> extract_event_sequence (fst e)"
      "extract_event_sequence (fst y) \<noteq> extract_event_sequence (fst e)"
      using that seqs by (auto simp: m sorted_append image_iff)
    with n m show ?thesis by simp
  qed
  have "filter (\<lambda>e. ?n < extract_event_sequence (fst e)) (pre @ missed) = []"
    using low by (auto simp: filter_empty_conv)
  moreover have "filter (\<lambda>e. ?n < extract_event_sequence (fst e)) later = later"
    using high by (auto simp: filter_id_conv)
  ultimately have "stream_live_events conv ?n (pre @ missed @ later) = map ?out later"
    using stream_live_increasing [of "pre @ missed @ later" conv ?n] conv inc by simp
  with rep show ?thesis by simp
qed

subsection \<open>Exactly once across a reconnection\<close>

text \<open>The events of a run as the producers number them: consecutive sequence numbers.\<close>

definition numbered :: "run_id \<Rightarrow> nat \<Rightarrow> payload list \<Rightarrow> event list" where
  "numbered rid n ps = map (\<lambda>(k, p). (generate_event_id rid k, p)) (enumerate n ps)"

lemma length_numbered [simp]: "length (numbered rid n ps) = length ps"
  by (simp add: numbered_def)

lemma numbered_append: "numbered rid n (ps @ qs) = numbered rid n ps @ numbered rid (n + length ps) qs"
  by (simp add: numbered_def enumerate_append_eq)

lemma seqs_numbered:
  assumes "CHR ''_'' \<notin> set rid"
  shows "seqs (numbered rid n ps) = map int [n..<n + length ps]"
proof -
  have "seqs (numbered rid n ps) = map int (map fst (enumerate n ps))"
    unfolding seqs_def numbered_def map_map
    by (rule map_cong) (auto simp: extract_generate [OF assms])
  then show ?thesis by (simp add: map_fst_enumerate)
qed

lemma seq_numbered:
  assumes "CHR ''_'' \<notin> set rid" and "e \<in> set (numbered rid n ps)"
  shows "int n \<le> extract_event_sequence (fst e)" "extract_event_sequence (fst e) < int (n + length ps)"
proof -
  have "extract_event_sequence (fst e) \<in> set (seqs (numbered rid n ps))"
    using assms(2) by (auto simp: seqs_def)
  then show "int n \<le> extract_event_sequence (fst e)" "extract_event_sequence (fst e) < int (n + length ps)"
    by (auto simp: seqs_numbered [OF assms(1)])
qed

lemma replay_numbered:
  assumes "CHR ''_'' \<notin> set rid" and "0 < k" and "k \<le> length ps"
  shows "replay_spec (Some (generate_event_id rid k)) (numbered rid 1 ps) = drop k (numbered rid 1 ps)"
proof -
  let ?pre = "take (k - 1) ps" and ?p = "ps ! (k - 1)" and ?post = "drop k ps"
  have ps: "ps = ?pre @ ?p # ?post" using assms(2,3) id_take_nth_drop [of "k - 1" ps] by simp
  have num: "numbered rid 1 ps = numbered rid 1 ?pre @ (generate_event_id rid k, ?p) # numbered rid (Suc k) ?post"
    using assms(2,3) numbered_append [of rid 1 ?pre "?p # ?post"] ps by (simp add: numbered_def)
  have "generate_event_id rid k \<notin> fst ` set (numbered rid 1 ?pre)"
    using assms(2,3) seq_numbered(2) [OF assms(1), of _ 1 ?pre] extract_generate [OF assms(1), of k] by force
  then have "replay_spec (Some (generate_event_id rid k)) (numbered rid 1 ps) = numbered rid (Suc k) ?post"
    unfolding num by (rule replay_spec_resume)
  moreover have "drop k (numbered rid 1 ps) = numbered rid (Suc k) ?post"
    unfolding num using assms(2,3) by (cases k) simp_all
  ultimately show ?thesis by simp
qed

lemma mem_replay: "broker_replay lid b = replay_spec lid (rb_replay_buffer b)"
  by (rule mem.replay_log)

text \<open>
  Claim C33.  A client that reconnects gets exactly what it missed.  The client has seen the
  first \<open>k\<close> events and sends the id of the last one; the service replays the stored events from
  there and then follows the live iterator, which starts over with the whole log.  What the
  client receives is every event after its position, stored or published later, once each and
  in order.
\<close>

theorem reconnecting_client_exactly_once:
  assumes "CHR ''_'' \<notin> set rid" and "\<And>eid raw. conv eid raw \<noteq> []"
    and "rb_replay_buffer b = numbered rid 1 ps" and "k \<le> length ps"
    and "last_id = (if k = 0 then None else Some (generate_event_id rid k))"
    and "\<not> no_live_part status (Some b)"
  shows "stream_run_execution conv status (Some b) last_id (broker_replay last_id b) (numbered rid 1 (ps @ qs)) =
    map (\<lambda>e. (fst e, conv (fst e) (snd e))) (drop k (numbered rid 1 (ps @ qs)))"
proof -
  let ?pre = "take k (numbered rid 1 ps)" and ?missed = "drop k (numbered rid 1 ps)"
  let ?later = "numbered rid (1 + length ps) qs"
  have all: "numbered rid 1 (ps @ qs) = ?pre @ ?missed @ ?later" by (simp add: numbered_append)
  have stored: "broker_replay last_id b = ?missed"
    using assms(3-5) replay_numbered [OF assms(1), of k ps]
    by (cases "k = 0") (simp_all add: mem_replay, simp add: replay_spec_def)
  have start: "(case last_id of None \<Rightarrow> 0 | Some i \<Rightarrow> if i = [] then 0 else extract_event_sequence i) = int k"
    using assms(5) extract_generate [OF assms(1), of k] by (simp add: generate_event_id_def)
  have k: "?pre = numbered rid 1 (take k ps)" "?missed = numbered rid (1 + k) (drop k ps)"
    using numbered_append [of rid 1 "take k ps" "drop k ps"] assms(4) by (simp_all add: min_def)
  have "int k < extract_event_sequence (fst e)" if "e \<in> set (?missed @ ?later)" for e
  proof -
    from that have "e \<in> set (numbered rid (1 + k) (drop k ps)) \<or> e \<in> set ?later" unfolding k(2) by auto
    then show ?thesis
      using seq_numbered(1) [OF assms(1), of e "1 + k" "drop k ps"]
        seq_numbered(1) [OF assms(1), of e "1 + length ps" qs] assms(4) by fastforce
  qed
  moreover have "extract_event_sequence (fst e) \<le> int k" if "e \<in> set ?pre" for e
    using seq_numbered(2) [OF assms(1) that [unfolded k(1)]] assms(4) by simp
  moreover have "sorted (seqs (?pre @ ?missed @ ?later))" "distinct (seqs (?pre @ ?missed @ ?later))"
    unfolding all [symmetric] seqs_numbered [OF assms(1)]
    by (simp_all add: sorted_map sorted_wrt_upt distinct_map del: upt_Suc)
  ultimately have "replay_stored_events conv ?missed
      @ stream_live_events conv (highest_replayed (int k) (replay_stored_events conv ?missed)) (?pre @ ?missed @ ?later)
    = map (\<lambda>e. (fst e, conv (fst e) (snd e))) (?missed @ ?later)"
    by (intro stream_exactly_once assms(2))
  moreover have "drop k (numbered rid 1 (ps @ qs)) = ?missed @ ?later"
    using assms(4) by (simp add: numbered_append)
  ultimately show ?thesis
    using assms(6) unfolding stream_run_execution_def Let_def start stored all by simp
qed

theorem reconnecting_client_exactly_once_witness:
  "stream_run_execution (\<lambda>_ _. ''x'') Running
     (Some ((new_run_broker 0 ''r'')\<lparr>rb_replay_buffer := numbered ''r'' 1 [Plain (JInt 1), Plain (JInt 2)]\<rparr>))
     (Some (generate_event_id ''r'' 1))
     (broker_replay (Some (generate_event_id ''r'' 1))
        ((new_run_broker 0 ''r'')\<lparr>rb_replay_buffer := numbered ''r'' 1 [Plain (JInt 1), Plain (JInt 2)]\<rparr>))
     (numbered ''r'' 1 ([Plain (JInt 1), Plain (JInt 2)] @ [Plain (JInt 3)])) =
   [(generate_event_id ''r'' 2, ''x''), (generate_event_id ''r'' 3, ''x'')]"
  using reconnecting_client_exactly_once [of "''r''" "\<lambda>_ _. ''x''"
      "(new_run_broker 0 ''r'')\<lparr>rb_replay_buffer := numbered ''r'' 1 [Plain (JInt 1), Plain (JInt 2)]\<rparr>"
      "[Plain (JInt 1), Plain (JInt 2)]" 1 "Some (generate_event_id ''r'' 1)" Running "[Plain (JInt 3)]"]
  by (simp add: no_live_part_def) (simp add: numbered_def eval_nat_numeral)

end
