(* ===== verification/Run_Executor.thy ===== *)
theory Run_Executor
  imports Streaming Lease
begin

text \<open>
  \<^verbatim>\<open>execution/run_executor.py\<close> with the command mapping of \<^verbatim>\<open>execution/run_utils.py\<close>: one
  execution of a run from \<open>start_run\<close> to the release of its streaming resources.  The compiled
  graph is an argument: from the configuration and the input it is given it produces the events
  it streams and how it ended.  What other transactions commit while the graph runs is the
  argument \<open>env\<close>.
\<close>

subsection \<open>Process state\<close>

text \<open>
  The registries of \<^verbatim>\<open>active_runs.py\<close> and the cancellation provenance sets, as lists of run
  ids.
\<close>

record proc =
  p_active_runs :: "run_id list"
  p_explicit :: "run_id list"
  p_lease_loss :: "run_id list"
  p_shutdown :: "run_id list"
  p_timeout :: "run_id list"

record world =
  w_db :: db
  w_streaming :: streaming
  w_proc :: proc
  w_done_keys :: "run_id list"

subsection \<open>Input and configuration of the graph\<close>

datatype goto_target = GotoNode string | Send json "json option"

datatype command_update = NoUpdate | RawUpdate json | PairUpdate "(string \<times> json) list"

record lg_command =
  lc_update :: command_update
  lc_goto :: "goto_target list option"
  lc_resume :: "json option"

datatype graph_input = InputData "dict option" | InputCommand lg_command

definition as_pair :: "json \<Rightarrow> (string \<times> json) option" where
  "as_pair j = (case j of JList [JStr k, v] \<Rightarrow> Some (k, v) | _ \<Rightarrow> None)"

definition map_update :: "json option \<Rightarrow> command_update" where
  "map_update u =
     (case u of
        None \<Rightarrow> NoUpdate
      | Some JNull \<Rightarrow> NoUpdate
      | Some (JList xs) \<Rightarrow>
          (case those (map as_pair xs) of Some ps \<Rightarrow> PairUpdate ps | None \<Rightarrow> RawUpdate (JList xs))
      | Some j \<Rightarrow> RawUpdate j)"

definition map_goto_item :: "json \<Rightarrow> goto_target result" where
  "map_goto_item it =
     (case it of
        JStr s \<Rightarrow> Inr (GotoNode s)
      | JObj d \<Rightarrow> (case map_of d ''node'' of
                    None \<Rightarrow> Inl KeyError
                  | Some n \<Rightarrow> Inr (Send n (map_of d ''input'')))
      | _ \<Rightarrow> Inl TypeError)"

definition map_command_to_langgraph :: "dict \<Rightarrow> lg_command result" where
  "map_command_to_langgraph cmd =
     (let goto = (case map_of cmd ''goto'' of
            None \<Rightarrow> []
          | Some JNull \<Rightarrow> []
          | Some (JList xs) \<Rightarrow> xs
          | Some j \<Rightarrow> [j])
      in bind_res (map_res map_goto_item goto) (\<lambda>targets.
           Inr \<lparr>lc_update = map_update (map_of cmd ''update''),
                lc_goto = (if goto = [] then None else Some targets),
                lc_resume = (case map_of cmd ''resume'' of Some JNull \<Rightarrow> None | r \<Rightarrow> r)\<rparr>))"

definition resolve_input :: "run_job \<Rightarrow> graph_input result" where
  "resolve_input job =
     (case e_command (j_execution job) of
        Some cmd \<Rightarrow> bind_res (map_command_to_langgraph cmd) (\<lambda>c. Inr (InputCommand c))
      | None \<Rightarrow> Inr (InputData (e_input_data (j_execution job))))"

definition resolve_stream_modes :: "str_or_list option \<Rightarrow> string list" where
  "resolve_stream_modes m =
     (case m of None \<Rightarrow> [''values''] | Some (OneStr s) \<Rightarrow> [s] | Some (ManyStr ss) \<Rightarrow> ss)"

definition json_str_list :: "str_or_list \<Rightarrow> json" where
  "json_str_list v = JList (map JStr (case v of OneStr s \<Rightarrow> [s] | ManyStr ss \<Rightarrow> ss))"

definition build_run_config :: "json list \<Rightarrow> dict \<Rightarrow> run_job \<Rightarrow> dict result" where
  "build_run_config callbacks observability job =
     bind_res
       (create_run_config (ji_run_id (j_identity job)) (ji_thread_id (j_identity job)) (Some (j_user job))
          (Some (e_config (j_execution job))) (e_checkpoint (j_execution job)) callbacks observability)
       (\<lambda>config.
          let config = (case b_interrupt_before (j_behavior job) of
                None \<Rightarrow> config
              | Some v \<Rightarrow> AList.update ''interrupt_before'' (json_str_list v) config)
          in Inr (case b_interrupt_after (j_behavior job) of
                None \<Rightarrow> config
              | Some v \<Rightarrow> AList.update ''interrupt_after'' (json_str_list v) config))"

subsection \<open>Streaming the graph\<close>

record graph_result =
  g_data :: json
  g_has_interrupt :: bool

datatype ending = Completed | Cancelled | Raised string string

type_synonym graph = "dict \<Rightarrow> graph_input \<Rightarrow> string list \<Rightarrow> (string \<times> json) list \<times> ending"

definition has_key :: "string \<Rightarrow> json \<Rightarrow> bool" where
  "has_key k j = (case j of JObj d \<Rightarrow> map_of d k \<noteq> None | _ \<Rightarrow> False)"

definition publish_graph_event :: "time \<Rightarrow> run_id \<Rightarrow> string \<Rightarrow> json \<Rightarrow> streaming \<Rightarrow> streaming" where
  "publish_graph_event now rid event_type data s =
     (let (eid, m) = allocate_event_id rid (ss_manager s)
      in put_to_broker now rid eid (Tuple [JStr event_type, data]) (s\<lparr>ss_manager := m\<rparr>))"

definition legacy_event ::
  "time \<Rightarrow> run_id \<Rightarrow> string \<times> json \<Rightarrow> streaming \<times> graph_result \<Rightarrow> streaming \<times> graph_result"
where
  "legacy_event now rid ev st =
     (case (ev, st) of ((event_type, data), (s, res)) \<Rightarrow>
       (publish_graph_event now rid event_type data s,
        \<lparr>g_data = (if starts_with ''values'' event_type then data else g_data res),
         g_has_interrupt = (g_has_interrupt res \<or> has_key ''__interrupt__'' data)\<rparr>))"

definition stream_legacy ::
  "time \<Rightarrow> run_id \<Rightarrow> (string \<times> json) list \<Rightarrow> streaming \<times> graph_result \<Rightarrow> streaming \<times> graph_result"
where
  "stream_legacy now rid evs st = fold (legacy_event now rid) evs st"

text \<open>A protocol event: \<open>event.get("params", {})\<close>, an object, with its data and interrupts.\<close>

definition event_params :: "json \<Rightarrow> dict" where
  "event_params ev =
     (case ev of
        JObj d \<Rightarrow> (case map_of d ''params'' of Some (JObj p) \<Rightarrow> p | _ \<Rightarrow> [])
      | _ \<Rightarrow> [])"

definition native_event ::
  "time \<Rightarrow> run_id \<Rightarrow> string \<times> json \<Rightarrow> streaming \<times> graph_result \<Rightarrow> streaming \<times> graph_result"
where
  "native_event now rid ev st =
     (case (ev, st) of ((method, event), (s, res)) \<Rightarrow>
       (let params = event_params event; data = get_or params ''data'' JNull
        in (publish_graph_event now rid method event s,
            \<lparr>g_data = (if method = ''values'' \<and> is_dict data then data else g_data res),
             g_has_interrupt = (g_has_interrupt res \<or> json_truthy (get_or params ''interrupts'' JNull)
                                \<or> has_key ''__interrupt__'' data)\<rparr>)))"

definition stream_native_v2 ::
  "time \<Rightarrow> run_id \<Rightarrow> (string \<times> json) list \<Rightarrow> streaming \<times> graph_result \<Rightarrow> streaming \<times> graph_result"
where
  "stream_native_v2 now rid evs st = fold (native_event now rid) evs st"

definition error_name :: "py_error \<Rightarrow> string" where
  "error_name e =
     (case e of
        HTTPException _ \<Rightarrow> ''HTTPException'' | ValueError \<Rightarrow> ''ValueError'' | KeyError \<Rightarrow> ''KeyError''
      | TypeError \<Rightarrow> ''TypeError'' | RuntimeError \<Rightarrow> ''RuntimeError''
      | AttributeError \<Rightarrow> ''AttributeError'' | ZeroDivisionError \<Rightarrow> ''ZeroDivisionError''
      | TimeoutError \<Rightarrow> ''TimeoutError'' | RedisError \<Rightarrow> ''RedisError''
      | CancelledError \<Rightarrow> ''CancelledError'' | AssertionError \<Rightarrow> ''AssertionError''
      | IntegrityError \<Rightarrow> ''IntegrityError'' | AuthenticationError \<Rightarrow> ''AuthenticationError''
      | ValidationError \<Rightarrow> ''ValidationError'')"

definition stream_graph ::
  "json list \<Rightarrow> dict \<Rightarrow> graph \<Rightarrow> time \<Rightarrow> run_job \<Rightarrow> streaming \<Rightarrow> (streaming \<times> graph_result) \<times> ending"
where
  "stream_graph callbacks observability graph now job s =
     (let empty = \<lparr>g_data = JObj [], g_has_interrupt = False\<rparr>; rid = ji_run_id (j_identity job)
      in case bind_res (build_run_config callbacks observability job)
                (\<lambda>cfg. bind_res (resolve_input job) (\<lambda>inp. Inr (cfg, inp))) of
           Inl e \<Rightarrow> ((s, empty), Raised (error_name e) [])
         | Inr (cfg, inp) \<Rightarrow>
             (case graph cfg inp (resolve_stream_modes (e_stream_mode (j_execution job))) of
                (evs, ending) \<Rightarrow>
                  ((if e_event_streaming_v2 (j_execution job)
                    then stream_native_v2 now rid evs (s, empty)
                    else stream_legacy now rid evs (s, empty)), ending)))"

subsection \<open>The run\<close>

definition signal_end_event :: "time \<Rightarrow> run_id \<Rightarrow> string \<Rightarrow> streaming \<Rightarrow> streaming" where
  "signal_end_event now rid status s =
     (case get_broker rid (ss_manager s) of
        None \<Rightarrow> s
      | Some b \<Rightarrow>
          if rb_finished b then s
          else s\<lparr>ss_manager := snd (put_next now rid (end_event status) b (ss_manager s))\<rparr>)"

text \<open>\<open>_best_effort_signal\<close>: a signal that raises leaves the run as committed.\<close>

definition best_effort_signal :: "bool \<Rightarrow> (streaming \<Rightarrow> streaming) \<Rightarrow> streaming \<Rightarrow> streaming" where
  "best_effort_signal works f s = (if works then f s else s)"

datatype closing = ResumesElsewhere | Closed "(bool \<times> db) result"

text \<open>
  What the handlers do with the ending: which final status is written, or none when the run
  continues on another worker.
\<close>

definition close_run :: "time \<Rightarrow> run_job \<Rightarrow> proc \<Rightarrow> graph_result \<Rightarrow> ending \<Rightarrow> db \<Rightarrow> closing" where
  "close_run now job p res ending d =
     (let rid = ji_run_id (j_identity job);
          fin = finalize_run now rid (ji_thread_id (j_identity job)) (identity (j_user job))
      in case ending of
           Completed \<Rightarrow>
             if g_has_interrupt res
             then Closed (fin ''interrupted'' ''interrupted'' (Some (g_data res)) None d)
             else Closed (fin ''success'' ''idle'' (Some (g_data res)) None d)
         | Cancelled \<Rightarrow>
             if rid \<in> set (p_lease_loss p) then ResumesElsewhere
             else if rid \<in> set (p_shutdown p) then ResumesElsewhere
             else if rid \<in> set (p_timeout p)
               then Closed (fin ''error'' ''error'' (Some (JObj []))
                      (Some ''Job exceeded maximum execution time'') d)
             else Closed (fin ''interrupted'' ''idle'' (Some (JObj [])) None d)
         | Raised ty msg \<Rightarrow> Closed (fin ''error'' ''error'' (Some (JObj [])) (Some msg) d))"

definition closing_signal ::
  "time \<Rightarrow> run_job \<Rightarrow> proc \<Rightarrow> graph_result \<Rightarrow> ending \<Rightarrow> streaming \<Rightarrow> streaming"
where
  "closing_signal now job p res ending s =
     (let rid = ji_run_id (j_identity job)
      in case ending of
           Completed \<Rightarrow> signal_end_event now rid (if g_has_interrupt res then ''interrupted'' else ''success'') s
         | Cancelled \<Rightarrow>
             if rid \<in> set (p_timeout p)
             then signal_run_error now rid ''TimeoutError: execution failed'' ''TimeoutError'' s
             else signal_run_cancelled now rid s
         | Raised ty msg \<Rightarrow> signal_run_error now rid (ty @ '': execution failed'') ty s)"

definition discard :: "run_id \<Rightarrow> run_id list \<Rightarrow> run_id list" where
  "discard rid xs = filter (\<lambda>x. x \<noteq> rid) xs"

definition finally_proc :: "run_id \<Rightarrow> proc \<Rightarrow> proc" where
  "finally_proc rid p =
     p\<lparr>p_lease_loss := discard rid (p_lease_loss p), p_shutdown := discard rid (p_shutdown p),
       p_timeout := discard rid (p_timeout p), p_active_runs := discard rid (p_active_runs p)\<rparr>"

definition finally_run :: "time \<Rightarrow> bool \<Rightarrow> bool \<Rightarrow> run_id \<Rightarrow> world \<Rightarrow> world" where
  "finally_run now redis_works resumes rid w =
     (let w = w\<lparr>w_proc := finally_proc rid (w_proc w)\<rparr>
      in if resumes then w
         else w\<lparr>w_streaming := cleanup_run now rid (w_streaming w),
                w_done_keys := (if redis_works then List.insert rid (w_done_keys w) else w_done_keys w)\<rparr>)"

text \<open>
  \<open>execute_run\<close>.  \<open>t0\<close> and \<open>t1\<close> are the times of its two transactions; the flags say whether
  the signals and the done key reach their backends.
\<close>

definition execute_run ::
  "json list \<Rightarrow> dict \<Rightarrow> graph \<Rightarrow> (db \<Rightarrow> db) \<Rightarrow> time \<Rightarrow> time \<Rightarrow> bool \<Rightarrow> bool \<Rightarrow> run_job \<Rightarrow> world \<Rightarrow> world"
where
  "execute_run callbacks observability graph env t0 t1 signals redis_works job w =
     (let rid = ji_run_id (j_identity job);
          (started, d) = start_run t0 rid (identity (j_user job)) (w_db w)
      in if \<not> started then finally_run t1 redis_works False rid (w\<lparr>w_db := d\<rparr>)
         else
           (case stream_graph callbacks observability graph t0 job (w_streaming w) of
              ((s, res), ending) \<Rightarrow>
                (case close_run t1 job (w_proc w) res ending (env d) of
                   ResumesElsewhere \<Rightarrow>
                     finally_run t1 redis_works True rid (w\<lparr>w_db := env d, w_streaming := s\<rparr>)
                 | Closed (Inl _) \<Rightarrow>
                     finally_run t1 redis_works False rid (w\<lparr>w_db := env d, w_streaming := s\<rparr>)
                 | Closed (Inr (finalized, d')) \<Rightarrow>
                     finally_run t1 redis_works False rid
                       (w\<lparr>w_db := d',
                          w_streaming := (if finalized
                            then best_effort_signal signals (closing_signal t1 job (w_proc w) res ending) s
                            else s)\<rparr>))))"

subsection \<open>Lemmas\<close>

lemma w_db_finally_run [simp]: "w_db (finally_run now r resumes rid w) = w_db w"
  by (simp add: finally_run_def Let_def)

lemma w_proc_finally_run [simp]: "w_proc (finally_run now r resumes rid w) = finally_proc rid (w_proc w)"
  by (simp add: finally_run_def Let_def)

lemma finally_proc_discards:
  "rid \<notin> set (p_lease_loss (finally_proc rid p)) \<and> rid \<notin> set (p_shutdown (finally_proc rid p))
   \<and> rid \<notin> set (p_timeout (finally_proc rid p)) \<and> rid \<notin> set (p_active_runs (finally_proc rid p))"
  by (simp add: finally_proc_def discard_def)

lemma validate_status_names [simp]:
  "validate_run_status ''success'' = Inr Success" "validate_run_status ''error'' = Inr Error"
  "validate_run_status ''interrupted'' = Inr Interrupted"
  "validate_thread_status ''idle'' = Inr Idle" "validate_thread_status ''busy'' = Inr Busy"
  "validate_thread_status ''error'' = Inr ThreadError"
  "validate_thread_status ''interrupted'' = Inr ThreadInterrupted"
  by (simp_all add: validate_run_status_def validate_thread_status_def)

text \<open>The row a successful \<open>finalize_run\<close> leaves, and that it fails only on an inactive row.\<close>

lemma finalize_run_row:
  assumes wf: "wf_db d" and row: "lookup_run d rid = Some r" and uid: "r_user_id r = uid"
    and st: "validate_run_status s = Inr vs" "validate_thread_status ts = Inr vt"
  shows "\<exists>d'. finalize_run now rid tid uid s ts out err d = Inr (is_active r, d')
    \<and> lookup_run d' rid = Some (if is_active r then finalize_values now vs out err r else r)"
proof (cases "is_active r")
  case True
  let ?p = "\<lambda>x. r_run_id x = rid \<and> r_user_id x = uid \<and> is_active x"
  have r: "r \<in> set (runs d)" "r_run_id r = rid" using row by (auto dest: lookup_run_SomeD)
  then have "select_where ?p (runs d) \<noteq> []" using True uid by (auto simp: select_where_Nil_iff)
  moreover have "lookup_run (d\<lparr>runs := update_where ?p (finalize_values now vs out err) (runs d)\<rparr>) rid
      = Some (finalize_values now vs out err r)"
    using row r True uid by (simp add: lookup_run_update_where finalize_values_def)
  ultimately show ?thesis
    using True st by (simp add: finalize_run_def Let_def)
next
  case False
  then have "select_where (\<lambda>x. r_run_id x = rid \<and> r_user_id x = uid \<and> is_active x) (runs d) = []"
    using row by (subst select_run_Nil_iff [OF wf]) simp
  with False row st show ?thesis by (simp add: finalize_run_def Let_def)
qed

subsection \<open>What one execution leaves behind\<close>

text \<open>
  The contract of an execution: the final status, output and error message by how the graph
  ended, or nothing when the cancellation came from a lost lease or a shutdown, in which case
  another worker continues the run.
\<close>

definition final_outcome ::
  "run_id \<Rightarrow> proc \<Rightarrow> graph_result \<Rightarrow> ending \<Rightarrow> (run_status \<times> json \<times> string option) option" where
  "final_outcome rid p res ending =
     (case ending of
        Completed \<Rightarrow> Some (if g_has_interrupt res then Interrupted else Success, g_data res, None)
      | Raised ty msg \<Rightarrow> Some (Error, JObj [], Some msg)
      | Cancelled \<Rightarrow>
          if rid \<in> set (p_lease_loss p) \<union> set (p_shutdown p) then None
          else if rid \<in> set (p_timeout p)
            then Some (Error, JObj [], Some ''Job exceeded maximum execution time'')
          else Some (Interrupted, JObj [], None))"

lemma close_run_none:
  "final_outcome (ji_run_id (j_identity job)) p res ending = None \<longleftrightarrow> close_run now job p res ending d = ResumesElsewhere"
  by (auto simp: final_outcome_def close_run_def Let_def split: ending.splits)

lemma close_run_outcome:
  assumes "final_outcome (ji_run_id (j_identity job)) p res ending = Some (st, outp, err)"
    and "wf_db d" and "lookup_run d (ji_run_id (j_identity job)) = Some r" and "r_user_id r = identity (j_user job)"
  shows "\<exists>d'. close_run now job p res ending d = Closed (Inr (is_active r, d')) \<and>
    lookup_run d' (ji_run_id (j_identity job)) =
      Some (if is_active r then finalize_values now st (Some outp) err r else r)"
proof -
  note fin = finalize_run_row [OF assms(2-4), where now = now and tid = "ji_thread_id (j_identity job)"]
  show ?thesis
  proof (cases ending)
    case Completed
    with assms(1) show ?thesis
      using fin [of "''success''" Success "''idle''" Idle "Some outp" err]
        fin [of "''interrupted''" Interrupted "''interrupted''" ThreadInterrupted "Some outp" err]
      by (cases "g_has_interrupt res") (auto simp: close_run_def Let_def final_outcome_def)
  next
    case Cancelled
    with assms(1) show ?thesis
      using fin [of "''error''" Error "''error''" ThreadError "Some outp" err]
        fin [of "''interrupted''" Interrupted "''idle''" Idle "Some outp" err]
      by (auto simp: close_run_def Let_def final_outcome_def split: if_splits)
  next
    case (Raised ty msg)
    with assms(1) show ?thesis
      using fin [of "''error''" Error "''error''" ThreadError "Some outp" err]
      by (auto simp: close_run_def Let_def final_outcome_def)
  qed
qed

text \<open>
  Claim C3.  One execution writes the final status its ending calls for and no other.  Given a
  run that could be started, and whatever other transactions did to its row meanwhile: if the
  run is still active the row receives exactly the status, output and error message of the
  contract; if somebody already settled it the row is left alone; and when the cancellation came
  from a lost lease or a shutdown the row stays as it is, no completion key is set and the stream
  of the run stays open for the next worker.  The run is no longer registered in the process.
\<close>

theorem execute_run_outcome:
  assumes "start_run t0 (ji_run_id (j_identity job)) (identity (j_user job)) (w_db w) = (True, d)"
    and "stream_graph cbs obs graph t0 job (w_streaming w) = ((s, res), ending)"
    and "wf_db (env d)" and "lookup_run (env d) (ji_run_id (j_identity job)) = Some r"
    and "r_user_id r = identity (j_user job)"
    and "w' = execute_run cbs obs graph env t0 t1 signals redis_works job w"
    and "rid = ji_run_id (j_identity job)"
  shows "lookup_run (w_db w') rid =
      Some (case final_outcome rid (w_proc w) res ending of
              None \<Rightarrow> r
            | Some (st, outp, err) \<Rightarrow> if is_active r then finalize_values t1 st (Some outp) err r else r) \<and>
    (final_outcome rid (w_proc w) res ending = None \<longrightarrow>
       w_db w' = env d \<and> w_streaming w' = s \<and> w_done_keys w' = w_done_keys w) \<and>
    (final_outcome rid (w_proc w) res ending \<noteq> None \<and> redis_works \<longrightarrow> rid \<in> set (w_done_keys w')) \<and>
    rid \<notin> set (p_active_runs (w_proc w'))"
proof (cases "final_outcome rid (w_proc w) res ending")
  case None
  then have cl: "close_run t1 job (w_proc w) res ending (env d) = ResumesElsewhere"
    using close_run_none assms(7) by blast
  have "w' = finally_run t1 redis_works True rid (w\<lparr>w_db := env d, w_streaming := s\<rparr>)"
    using assms(1,2,6,7) cl by (simp add: execute_run_def)
  with None assms(4,7) show ?thesis
    by (simp add: finally_run_def Let_def finally_proc_discards)
next
  case (Some o3)
  obtain st outp err where o3: "o3 = (st, outp, err)" by (cases o3)
  from close_run_outcome [where job = job and p = "w_proc w" and now = t1, OF _ assms(3-5)] Some o3 assms(7)
  obtain d' where d': "close_run t1 job (w_proc w) res ending (env d) = Closed (Inr (is_active r, d'))"
    "lookup_run d' rid = Some (if is_active r then finalize_values t1 st (Some outp) err r else r)"
    by blast
  define s' where "s' = (if is_active r then best_effort_signal signals (closing_signal t1 job (w_proc w) res ending) s else s)"
  have "w' = finally_run t1 redis_works False rid (w\<lparr>w_db := d', w_streaming := s'\<rparr>)"
    using assms(1,2,6,7) d'(1) by (simp add: execute_run_def s'_def)
  with Some o3 d'(2) show ?thesis
    by (simp add: finally_run_def Let_def finally_proc_discards)
qed

text \<open>A graph that streams one value and completes, run on the example job.\<close>

definition example_graph :: graph where
  "example_graph cfg inp modes = ([(''values'', JObj [(''x'', JInt 1)])], Completed)"

definition example_world :: "run_row \<Rightarrow> world" where
  "example_world r = \<lparr>w_db = example_db [r],
     w_streaming = \<lparr>ss_event_counters = [], ss_manager = \<lparr>bm_brokers = [], bm_event_counters = []\<rparr>\<rparr>,
     w_proc = \<lparr>p_active_runs = [''r1''], p_explicit = [], p_lease_loss = [], p_shutdown = [], p_timeout = []\<rparr>,
     w_done_keys = []\<rparr>"

lemma example_stream:
  "\<exists>s. stream_graph [] [] example_graph t0 example_job st0 =
     ((s, \<lparr>g_data = JObj [(''x'', JInt 1)], g_has_interrupt = False\<rparr>), Completed)"
proof -
  obtain cfg where "create_run_config (ji_run_id (j_identity example_job)) (ji_thread_id (j_identity example_job))
      (Some (j_user example_job)) (Some []) None [] [] = Inr cfg"
    using create_run_config_total [of "[]"] by (force simp: section_ok_def)
  then have cfg: "\<exists>cfg. build_run_config [] [] example_job = Inr cfg"
    by (simp add: build_run_config_def example_job_def)
  have inp: "resolve_input example_job = Inr (InputData (Some []))"
    by (simp add: resolve_input_def example_job_def)
  have v2: "e_event_streaming_v2 (j_execution example_job) = False"
    by (simp add: example_job_def)
  show ?thesis
    using cfg by (auto simp: stream_graph_def Let_def inp v2 example_graph_def stream_legacy_def
        legacy_event_def starts_with_def has_key_def)
qed

theorem execute_run_outcome_witness:
  "\<exists>r'. lookup_run (w_db (execute_run [] [] example_graph id 10 20 True True example_job
            (example_world (example_run ''r1'' Running (Some ''w1'') (Some 40))))) ''r1'' = Some r' \<and>
         r_status r' = Success \<and> r_output r' = Some (process_bind_param (JObj [(''x'', JInt 1)]))"
proof -
  let ?r = "example_run ''r1'' Running (Some ''w1'') (Some 40)"
  obtain d where d: "start_run 10 ''r1'' ''alice'' (example_db [?r]) = (True, d)"
    "d = example_db [?r\<lparr>r_updated_at := 10\<rparr>]"
    by (simp add: start_run_def example_defs select_where_def is_active_iff Let_def)
  have ids: "ji_run_id (j_identity example_job) = ''r1''" "identity (j_user example_job) = ''alice''"
    by (simp_all add: example_job_def example_user_def)
  have wf: "wf_db (id d)"
    unfolding d(2) id_apply by (rule wf_example_db) (simp add: lease_ok_def example_run_def)
  obtain s where s: "stream_graph [] [] example_graph 10 example_job (w_streaming (example_world ?r)) =
     ((s, \<lparr>g_data = JObj [(''x'', JInt 1)], g_has_interrupt = False\<rparr>), Completed)"
    using example_stream by blast
  have "w_db (example_world ?r) = example_db [?r]" by (simp add: example_world_def)
  with execute_run_outcome [where w = "example_world ?r" and job = example_job and graph = example_graph and
      ?t0.0 = 10 and ?t1.0 = 20 and env = id and r = "?r\<lparr>r_updated_at := 10\<rparr>" and d = d, OF _ s wf _ _ refl refl] d
  show ?thesis
    by (auto simp: ids final_outcome_def example_run_def is_active_iff finalize_values_def)
qed

end
