(* ===== verification/Worker.thy ===== *)
theory Worker
  imports Run_Executor Lease_Reaper
begin

text \<open>
  The worker side of \<^verbatim>\<open>execution/worker_executor.py\<close> (one iteration of the worker loop, a job
  under its lease, the handling of timeouts and cancellations, the drain at shutdown), the local
  executor (\<^verbatim>\<open>execution/local_executor.py\<close>), the wait/join endpoints' body
  (\<^verbatim>\<open>execution/run_waiters.py\<close>) and the deletion of ephemeral threads
  (\<^verbatim>\<open>execution/run_cleanup.py\<close>).
\<close>

subsection \<open>A job under its lease\<close>

text \<open>
  \<open>_execute_with_lease\<close>: \<open>exec\<close> is the execution of the loaded job, including what its
  cancellation does.  An exception while loading leaves before the lease is released.
\<close>

definition execute_with_lease ::
  "codec \<Rightarrow> int \<Rightarrow> time \<Rightarrow> (run_job \<Rightarrow> world \<Rightarrow> world) \<Rightarrow> run_id \<Rightarrow> worker \<Rightarrow> world \<Rightarrow> py_error option \<times> world"
where
  "execute_with_lease c lease_duration now exec rid wname w =
     (case acquire_and_load c lease_duration now rid wname (w_db w) of
        (Loaded job _, d) \<Rightarrow>
          (let w' = exec job (w\<lparr>w_db := d\<rparr>)
           in (None, w'\<lparr>w_db := release_lease rid wname (w_db w')\<rparr>))
      | (LoadFailed e, d) \<Rightarrow> (Some e, w\<lparr>w_db := d\<rparr>)
      | (_, d) \<Rightarrow> (None, w\<lparr>w_db := d\<rparr>))"

definition finalize_or_keep ::
  "time \<Rightarrow> run_id \<Rightarrow> thread_id \<times> user_id \<Rightarrow> string \<Rightarrow> string \<Rightarrow> json option \<Rightarrow> string option \<Rightarrow> db \<Rightarrow> db"
where
  "finalize_or_keep now rid who s ts out err d =
     (case finalize_run now rid (fst who) (snd who) s ts out err d of
        Inr (_, d') \<Rightarrow> d' | Inl _ \<Rightarrow> d)"

text \<open>\<open>_cleanup_cancelled_execution\<close>, once the execution task has stopped.\<close>

definition cleanup_cancelled_execution :: "time \<Rightarrow> run_id \<Rightarrow> world \<Rightarrow> world" where
  "cleanup_cancelled_execution now rid w =
     (if rid \<notin> set (p_explicit (w_proc w)) then w
      else case get_run_identity rid (w_db w) of
             None \<Rightarrow> w
           | Some who \<Rightarrow>
               w\<lparr>w_db := finalize_or_keep now rid who ''interrupted'' ''idle'' (Some (JObj [])) None (w_db w)\<rparr>)"

text \<open>How the wait of \<open>_execute_and_release\<close> for the execution task ends.\<close>

datatype job_end = JobDone | JobTimedOut | JobCancelled

definition release_job_proc :: "run_id \<Rightarrow> proc \<Rightarrow> proc" where
  "release_job_proc rid p =
     p\<lparr>p_timeout := discard rid (p_timeout p), p_shutdown := discard rid (p_shutdown p),
       p_explicit := discard rid (p_explicit p), p_active_runs := discard rid (p_active_runs p)\<rparr>"

definition execute_and_release ::
  "time \<Rightarrow> (world \<Rightarrow> world) \<Rightarrow> job_end \<Rightarrow> run_id \<Rightarrow> worker \<Rightarrow> world \<Rightarrow> world"
where
  "execute_and_release now exec how rid wname w =
     (let w = w\<lparr>w_proc := (w_proc w)\<lparr>p_active_runs := List.insert rid (p_active_runs (w_proc w))\<rparr>\<rparr>;
          w = (case how of
                 JobDone \<Rightarrow> exec w
               | JobTimedOut \<Rightarrow>
                   (let w = exec (w\<lparr>w_proc := (w_proc w)\<lparr>p_timeout := List.insert rid (p_timeout (w_proc w))\<rparr>\<rparr>);
                        d = (case get_run_identity rid (w_db w) of
                               None \<Rightarrow> w_db w
                             | Some who \<Rightarrow> finalize_or_keep now rid who ''error'' ''error'' None
                                             (Some ''Job exceeded maximum execution time'') (w_db w))
                    in w\<lparr>w_db := release_lease rid wname d\<rparr>)
               | JobCancelled \<Rightarrow> cleanup_cancelled_execution now rid (exec w))
      in w\<lparr>w_proc := release_job_proc rid (w_proc w)\<rparr>)"

text \<open>
  \<open>_heartbeat_loop\<close> over its iterations (the clock, whether the database answers, and the
  database it sees): \<open>Some\<close> once the lease is lost, with the registry it leaves and whether it
  cancelled the job.
\<close>

fun heartbeat_loop ::
  "int \<Rightarrow> run_id \<Rightarrow> worker \<Rightarrow> bool \<Rightarrow> (time \<times> bool \<times> db) list \<Rightarrow> proc \<Rightarrow> (bool \<times> proc) option"
where
  "heartbeat_loop lease_duration rid wname job_done [] p = None"
| "heartbeat_loop lease_duration rid wname job_done ((now, ok, d) # obs) p =
     (case fst (heartbeat_step lease_duration now rid wname ok d) of
        LeaseLost \<Rightarrow>
          if job_done then Some (False, p)
          else Some (True, p\<lparr>p_lease_loss := List.insert rid (p_lease_loss p)\<rparr>)
      | _ \<Rightarrow> heartbeat_loop lease_duration rid wname job_done obs p)"

subsection \<open>The worker loop\<close>

record worker_loop =
  wl_slots :: nat
  wl_jobs :: "run_id list"
  wl_queue :: queue

datatype loop_outcome = Blocked | LoopContinues | LoopBreaks | StartsJob run_id

text \<open>The loop's start: the concurrency must be positive; the semaphore holds that many slots.\<close>

definition start_worker_loop :: "int \<Rightarrow> queue \<Rightarrow> worker_loop result" where
  "start_worker_loop n_jobs q =
     (if n_jobs \<le> 0 then Inl ValueError
      else Inr \<lparr>wl_slots = nat n_jobs, wl_jobs = [], wl_queue = q\<rparr>)"

text \<open>
  One iteration; \<open>running1\<close> and \<open>running2\<close> are \<open>self._running\<close> after the semaphore and after
  the dequeue, \<open>push\<close> Redis' answer to a push-back.  The dequeue raises when Redis is down and
  the Postgres poll it falls back to fails too (\<open>db_up\<close>): the slot is given back and the loop
  goes on.
\<close>

definition worker_iteration ::
  "bool \<Rightarrow> redis_state \<Rightarrow> bool \<Rightarrow> db \<Rightarrow> bool \<Rightarrow> redis_state \<Rightarrow> worker_loop \<Rightarrow> loop_outcome \<times> worker_loop"
where
  "worker_iteration running1 r db_up d running2 push l =
     (if wl_slots l = 0 then (Blocked, l)
      else if \<not> running1 then (LoopBreaks, l)
      else if r = RedisDown \<and> \<not> db_up then (LoopContinues, l)
      else
        (case dequeue r (wl_queue l) d of
           (None, q) \<Rightarrow> (LoopContinues, l\<lparr>wl_queue := q\<rparr>)
         | (Some rid, q) \<Rightarrow>
             if \<not> is_valid_run_id rid then (LoopContinues, l\<lparr>wl_queue := q\<rparr>)
             else if \<not> running2 then (LoopBreaks, l\<lparr>wl_queue := push_back push rid q\<rparr>)
             else (StartsJob rid, l\<lparr>wl_queue := q, wl_slots := wl_slots l - 1, wl_jobs := rid # wl_jobs l\<rparr>)))"

definition job_finished :: "run_id \<Rightarrow> worker_loop \<Rightarrow> worker_loop" where
  "job_finished rid l =
     (if rid \<in> set (wl_jobs l)
      then l\<lparr>wl_slots := wl_slots l + 1, wl_jobs := remove1 rid (wl_jobs l)\<rparr> else l)"

inductive worker_step :: "worker_loop \<Rightarrow> worker_loop \<Rightarrow> bool" where
  iterate: "worker_step l (snd (worker_iteration running1 r db_up d running2 push l))"
| finish: "worker_step l (job_finished rid l)"
| enqueue: "worker_step l (l\<lparr>wl_queue := q\<rparr>)"

inductive_cases worker_stepE: "worker_step l l'"

lemma worker_step_slots:
  "worker_step l l' \<Longrightarrow> wl_slots l' + length (wl_jobs l') = wl_slots l + length (wl_jobs l)"
proof (induction rule: worker_step.induct)
  case (iterate l running1 r db_up d running2 push)
  show ?case
    by (auto simp: worker_iteration_def split: option.splits prod.splits)
next
  case (finish l rid)
  show ?case
    using length_pos_if_in_set [of rid "wl_jobs l"]
    by (auto simp: job_finished_def length_remove1)
qed simp

lemma worker_steps_slots:
  "worker_step\<^sup>*\<^sup>* l l' \<Longrightarrow> wl_slots l' + length (wl_jobs l') = wl_slots l + length (wl_jobs l)"
  by (induction rule: rtranclp_induct) (auto dest: worker_step_slots)

subsection \<open>Shutdown\<close>

text \<open>
  \<open>stop\<close>: \<open>pending\<close> are the job tasks that did not finish within the drain timeout, in the order
  of \<open>_job_tasks\<close>, and \<open>cancel_job\<close> is what the cancellation of one of them does.
\<close>

definition drained_runs :: "run_id list \<Rightarrow> proc \<Rightarrow> run_id list" where
  "drained_runs pending p = filter (\<lambda>rid. rid \<notin> set (p_explicit p)) pending"

definition stop_worker ::
  "(run_id \<Rightarrow> world \<Rightarrow> world) \<Rightarrow> redis_state list \<Rightarrow> run_id list \<Rightarrow> world \<times> queue \<Rightarrow> world \<times> queue"
where
  "stop_worker cancel_job rs pending s =
     (case s of (w, q) \<Rightarrow>
       if pending = [] then (w, q)
       else
         (let drained = drained_runs pending (w_proc w);
              w = w\<lparr>w_proc := (w_proc w)\<lparr>p_shutdown := drained @ p_shutdown (w_proc w)\<rparr>\<rparr>;
              w = fold cancel_job pending w
          in if drained = [] then (w, q)
             else (case requeue_drained_runs rs drained (w_db w, q) of (d, q') \<Rightarrow> (w\<lparr>w_db := d\<rparr>, q'))))"

lemma lookup_requeue:
  "lookup_run (fst (requeue_drained_runs rs rids (d, q))) rid =
     map_option (\<lambda>r. if r_run_id r \<in> set rids \<and> (r_status r = Running \<or> r_status r = Pending)
                     then requeue_values r else r) (lookup_run d rid)"
  by (simp add: requeue_drained_runs_def Let_def lookup_run_update_where requeue_values_def)

lemma queue_requeue_all:
  assumes "set rs \<subseteq> {RedisUp}"
    and "length rs = length (select_where (\<lambda>r. r_run_id r \<in> set rids \<and> (r_status r = Running \<or> r_status r = Pending)) (runs d))"
  shows "snd (requeue_drained_runs rs rids (d, q)) =
    q @ map r_run_id (select_where (\<lambda>r. r_run_id r \<in> set rids \<and> (r_status r = Running \<or> r_status r = Pending)) (runs d))"
  using assms push_while_up_all [of rs "map r_run_id (select_where (\<lambda>r. r_run_id r \<in> set rids \<and> (r_status r = Running \<or> r_status r = Pending)) (runs d))" q]
  by (simp add: requeue_drained_runs_def Let_def)

subsection \<open>The local executor\<close>

definition local_submit :: "run_id \<Rightarrow> proc \<Rightarrow> proc" where
  "local_submit rid p = p\<lparr>p_active_runs := List.insert rid (p_active_runs p)\<rparr>"

text \<open>\<open>finishes_within\<close>: whether the shielded task ends before the timeout.\<close>

definition local_wait_for_completion :: "bool \<Rightarrow> run_id \<Rightarrow> proc \<Rightarrow> unit result" where
  "local_wait_for_completion finishes_within rid p =
     (if rid \<notin> set (p_active_runs p) then Inr ()
      else if finishes_within then Inr () else Inl TimeoutError)"

subsection \<open>Wait and join\<close>

definition error_envelope :: "string \<Rightarrow> string \<Rightarrow> json" where
  "error_envelope error message =
     JObj [(''__error__'', JObj [(''error'', JStr error), (''message'', JStr message)])]"

definition str_or :: "string option \<Rightarrow> string \<Rightarrow> string" where
  "str_or s d = (if truthy_str s then the s else d)"

definition quoted :: "string \<Rightarrow> string" where
  "quoted s = [CHR 0x27] @ s @ [CHR 0x27]"

definition run_result_body :: "run_row option \<Rightarrow> run_id \<Rightarrow> bool \<Rightarrow> json" where
  "run_result_body row rid timed_out =
     (case row of
        None \<Rightarrow> error_envelope ''RunNotFound'' (''Run '' @ quoted rid @ '' no longer exists'')
      | Some r \<Rightarrow>
          if r_status r \<in> {Success, Interrupted}
          then (case r_output r of Some out \<Rightarrow> if json_truthy out then out else JObj [] | None \<Rightarrow> JObj [])
          else if r_status r = Error
          then error_envelope ''Error'' (str_or (r_error_message r) ''Run failed'')
          else if r_status r = Timeout
          then error_envelope ''TimeoutError'' (str_or (r_error_message r) (''Run '' @ quoted rid @ '' timed out''))
          else if timed_out
          then error_envelope ''TimeoutError'' (''Run '' @ quoted rid @ '' did not finish within the wait timeout'')
          else error_envelope ''IncompleteRun''
                 (''Wait ended before run '' @ quoted rid @ '' completed (status: '' @ run_status_str (r_status r) @ '')''))"

definition read_run_result :: "run_id \<Rightarrow> thread_id \<Rightarrow> user_id \<Rightarrow> bool \<Rightarrow> db \<Rightarrow> json" where
  "read_run_result rid tid uid timed_out d =
     run_result_body
       (first_where (\<lambda>r. r_run_id r = rid \<and> r_thread_id r = tid \<and> r_user_id r = uid) (runs d)) rid timed_out"

text \<open>
  \<open>heartbeat_wait_body\<close>: the list says for each keep-alive interval whether the wait ended
  within it; \<open>waited\<close> is how the wait for the run ended, \<open>d\<close> the database read afterwards and
  \<open>enc\<close> the JSON text of a body.
\<close>

fun heartbeats :: "bool list \<Rightarrow> string list" where
  "heartbeats [] = []"
| "heartbeats (ended # xs) = (if ended then [] else [CHR 0x0A] # heartbeats xs)"

definition heartbeat_wait_body ::
  "(json \<Rightarrow> string) \<Rightarrow> run_id \<Rightarrow> thread_id \<Rightarrow> user_id \<Rightarrow> bool list \<Rightarrow> unit result \<Rightarrow> db \<Rightarrow> string list"
where
  "heartbeat_wait_body enc rid tid uid intervals waited d =
     heartbeats intervals @ [enc (read_run_result rid tid uid (waited = Inl TimeoutError) d)]"

definition has_error_key :: "json \<Rightarrow> bool" where
  "has_error_key j = has_key ''__error__'' j"

lemma has_error_envelope [simp]: "has_error_key (error_envelope e m)"
  by (simp add: has_error_key_def has_key_def error_envelope_def)

subsection \<open>Ephemeral threads\<close>

text \<open>
  \<open>delete_thread_by_id\<close>: the runs it cancels and the database afterwards; deleting the thread
  row cascades to its runs.
\<close>

definition delete_thread_by_id :: "thread_id \<Rightarrow> user_id \<Rightarrow> db \<Rightarrow> run_id list \<times> db" where
  "delete_thread_by_id tid uid d =
     (map r_run_id (select_where (\<lambda>r. r_thread_id r = tid \<and> r_user_id r = uid \<and> is_active r) (runs d)),
      if first_where (\<lambda>t. t_thread_id t = tid \<and> t_user_id t = uid) (threads d) = None then d
      else d\<lparr>threads := delete_where (\<lambda>t. t_thread_id t = tid \<and> t_user_id t = uid) (threads d),
             runs := delete_where (\<lambda>r. r_thread_id r = tid) (runs d)\<rparr>)"

text \<open>
  \<open>cleanup_after_background_run\<close>: cancellation, the timeout and backend errors of the wait are
  tolerated, any other exception propagates.
\<close>

definition cleanup_after_background_run ::
  "unit result \<Rightarrow> thread_id \<Rightarrow> user_id \<Rightarrow> db \<Rightarrow> (run_id list \<times> db) result"
where
  "cleanup_after_background_run waited tid uid d =
     (case waited of
        Inl e \<Rightarrow> if e \<in> {CancelledError, TimeoutError, RedisError}
                 then Inr (delete_thread_by_id tid uid d) else Inl e
      | Inr _ \<Rightarrow> Inr (delete_thread_by_id tid uid d))"

subsection \<open>What the workers guarantee\<close>

text \<open>
  A worker never runs more jobs than it has slots: whatever the queue holds and
  whatever fails, the jobs in flight plus the free slots are the configured concurrency.
\<close>

theorem worker_concurrency_bounded:
  assumes "start_worker_loop n_jobs q = Inr l" and "worker_step\<^sup>*\<^sup>* l l'"
  shows "int (wl_slots l') + int (length (wl_jobs l')) = n_jobs \<and> int (length (wl_jobs l')) \<le> n_jobs"
proof -
  have "wl_jobs l = [] \<and> int (wl_slots l) = n_jobs"
    using assms(1) by (auto simp: start_worker_loop_def split: if_splits)
  then show ?thesis
    using worker_steps_slots [OF assms(2)] by auto
qed

definition example_uuid :: string where
  "example_uuid = ''123e4567-e89b-12d3-a456-426614174000''"

lemma example_uuid_valid: "is_valid_run_id example_uuid"
  by code_simp

definition example_loop :: worker_loop where
  "example_loop = \<lparr>wl_slots = 2, wl_jobs = [], wl_queue = [example_uuid]\<rparr>"

theorem worker_concurrency_bounded_witness:
  "int (wl_slots (snd (worker_iteration True RedisUp True (example_db []) True RedisUp example_loop))) +
   int (length (wl_jobs (snd (worker_iteration True RedisUp True (example_db []) True RedisUp example_loop)))) = 2 \<and>
   wl_jobs (snd (worker_iteration True RedisUp True (example_db []) True RedisUp example_loop)) = [example_uuid]"
proof -
  have start: "start_worker_loop 2 [example_uuid] = Inr example_loop"
    by (simp add: start_worker_loop_def example_loop_def)
  have jobs: "wl_jobs (snd (worker_iteration True RedisUp True (example_db []) True RedisUp example_loop)) = [example_uuid]"
    by (simp add: worker_iteration_def dequeue_def example_uuid_valid example_loop_def)
  show ?thesis
    using worker_concurrency_bounded [OF start r_into_rtranclp [of worker_step, OF worker_step.iterate],
        of True RedisUp True "example_db []" True RedisUp] jobs by blast
qed

text \<open>
  Claim C36.  A shutdown hands the unfinished jobs over.  After the drain timeout every pending
  job that the user did not cancel, and whose run its cancellation left active, is back to
  pending, without an owner, and in the queue when Redis accepts the pushes; all other runs are as the
  cancellations left them: the runs that were not drained, and the drained ones that their own
  cancellation has already settled.
\<close>

theorem shutdown_requeues:
  assumes "rid \<in> set pending" and "rid \<notin> set (p_explicit (w_proc w))"
    and "w1 = fold cancel_job pending
      (w\<lparr>w_proc := (w_proc w)\<lparr>p_shutdown := drained_runs pending (w_proc w) @ p_shutdown (w_proc w)\<rparr>\<rparr>)"
    and "lookup_run (w_db w1) rid = Some r" and "is_active r" and "set rs \<subseteq> {RedisUp}"
    and "length rs = length (select_where (\<lambda>r. r_run_id r \<in> set (drained_runs pending (w_proc w)) \<and>
           (r_status r = Running \<or> r_status r = Pending)) (runs (w_db w1)))"
    and "stop_worker cancel_job rs pending (w, q) = (w', q')"
  shows "lookup_run (w_db w') rid = Some (requeue_values r) \<and> rid \<in> set q' \<and>
    (\<forall>rid'. lookup_run (w_db w') rid' =
       map_option (\<lambda>r'. if rid' \<in> set (drained_runs pending (w_proc w)) \<and> is_active r' then requeue_values r' else r')
         (lookup_run (w_db w1) rid'))"
proof -
  let ?dr = "drained_runs pending (w_proc w)"
  have rid: "rid \<in> set ?dr" using assms(1,2) by (simp add: drained_runs_def)
  then have ne: "pending \<noteq> []" "?dr \<noteq> []" using assms(1) by fastforce+
  obtain d2 q2 where rq: "requeue_drained_runs rs ?dr (w_db w1, q) = (d2, q2)" by force
  with assms(8) ne have w': "w_db w' = d2" "q' = q2"
    by (auto simp: stop_worker_def Let_def assms(3) [symmetric])
  have look: "lookup_run d2 x = map_option (\<lambda>r. if r_run_id r \<in> set ?dr \<and> (r_status r = Running \<or> r_status r = Pending)
      then requeue_values r else r) (lookup_run (w_db w1) x)" for x
    using lookup_requeue [of rs ?dr "w_db w1" q x] rq by simp
  have row: "r \<in> set (runs (w_db w1))" "r_run_id r = rid" using lookup_run_SomeD [OF assms(4)] by auto
  have q2: "rid \<in> set q2"
    using queue_requeue_all [OF assms(6,7), of q] rq row rid assms(5) by (auto simp: is_active_iff image_iff)
  have every: "lookup_run d2 x = map_option (\<lambda>r'. if x \<in> set ?dr \<and> is_active r' then requeue_values r' else r') (lookup_run (w_db w1) x)" for x
    using lookup_run_SomeD [of "w_db w1" x] by (cases "lookup_run (w_db w1) x") (auto simp: look is_active_iff)
  show ?thesis
    using look [of rid] assms(4,5) row rid q2 every w' by (simp add: is_active_iff)
qed

theorem shutdown_requeues_witness:
  "\<exists>w' q'. stop_worker (\<lambda>_. id) [RedisUp] [''r1''] (example_world (example_run ''r1'' Running (Some ''w1'') (Some 40)), [])
        = (w', q') \<and>
      lookup_run (w_db w') ''r1'' = Some (requeue_values (example_run ''r1'' Running (Some ''w1'') (Some 40))) \<and>
      ''r1'' \<in> set q'"
proof -
  let ?w = "example_world (example_run ''r1'' Running (Some ''w1'') (Some 40))"
  obtain w' q' where st: "stop_worker (\<lambda>_. id) [RedisUp] [''r1''] (?w, []) = (w', q')" by force
  from shutdown_requeues [OF _ _ refl _ _ _ _ st, of "''r1''" "example_run ''r1'' Running (Some ''w1'') (Some 40)"] st
  show ?thesis
    by (auto simp: example_world_def drained_runs_def example_run_def is_active_iff select_where_def example_db_def
        lookup_run_def first_where_def)
qed

lemma finalize_or_keep_row:
  assumes "wf_db d" and "lookup_run d rid = Some r" and "validate_run_status s = Inr vs"
    and "validate_thread_status ts = Inr vt"
  shows "lookup_run (finalize_or_keep now rid (r_thread_id r, r_user_id r) s ts outp err d) rid =
    Some (if is_active r then finalize_values now vs outp err r else r)"
  using finalize_run_row [OF assms(1,2) refl assms(3,4), of now "r_thread_id r" outp err]
  by (auto simp: finalize_or_keep_def)

text \<open>
  A job that exceeds its execution time is settled: its run has a final status, error
  if the execution left it active, and the worker no longer holds its lease.
\<close>

theorem timed_out_job_settled:
  assumes "w1 = exec (w\<lparr>w_proc := (w_proc w)\<lparr>p_active_runs := List.insert rid (p_active_runs (w_proc w)),
              p_timeout := List.insert rid (p_timeout (w_proc w))\<rparr>\<rparr>)"
    and "wf_db (w_db w1)" and "lookup_run (w_db w1) rid = Some r"
  shows "\<exists>r'. lookup_run (w_db (execute_and_release now exec JobTimedOut rid wname w)) rid = Some r' \<and>
    terminal (r_status r') \<and> r_status r' = (if is_active r then Error else r_status r) \<and>
    r_claimed_by r' \<noteq> Some wname"
proof -
  let ?d = "finalize_or_keep now rid (r_thread_id r, r_user_id r) ''error'' ''error'' None
              (Some ''Job exceeded maximum execution time'') (w_db w1)"
  have "w_db (execute_and_release now exec JobTimedOut rid wname w) = release_lease rid wname ?d"
    using assms(1,3) by (simp add: execute_and_release_def Let_def get_run_identity_def)
  moreover have "lookup_run ?d rid =
      Some (if is_active r then finalize_values now Error None (Some ''Job exceeded maximum execution time'') r else r)"
    by (rule finalize_or_keep_row [OF assms(2,3)]) simp_all
  ultimately show ?thesis
    using lookup_run_SomeD [OF assms(3)]
    by (auto simp: lookup_release finalize_values_def terminal_iff active_not_terminal)
qed

theorem timed_out_job_settled_witness:
  "\<exists>r'. lookup_run (w_db (execute_and_release 50 id JobTimedOut ''r1'' ''w1''
           (example_world (example_run ''r1'' Running (Some ''w1'') (Some 40))))) ''r1'' = Some r' \<and>
        r_status r' = Error \<and> r_claimed_by r' \<noteq> Some ''w1''"
proof -
  let ?r = "example_run ''r1'' Running (Some ''w1'') (Some 40)"
  have ok: "w_db (example_world ?r) = example_db [?r]" "wf_db (example_db [?r])"
    by (simp add: example_world_def, rule wf_example_db) (simp add: lease_ok_def example_run_def)
  show ?thesis
    using timed_out_job_settled [OF refl, where exec = id and rid = "''r1''" and r = ?r and w = "example_world ?r"
        and now = 50 and wname = "''w1''"] ok
    by (auto simp: is_active_iff example_run_def)
qed

text \<open>
  What the wait and join endpoints report.  For a run that ended in success or was
  interrupted the body is its output; in every other case, a failed, timed out, unfinished,
  deleted or foreign run included, the body carries the error envelope.
\<close>

theorem wait_body:
  assumes "wf_db d"
  shows "(case lookup_run d rid of
      Some r \<Rightarrow>
        if r_thread_id r = tid \<and> r_user_id r = uid \<and> (r_status r = Success \<or> r_status r = Interrupted)
        then read_run_result rid tid uid timed_out d =
               (case r_output r of Some out \<Rightarrow> if json_truthy out then out else JObj [] | None \<Rightarrow> JObj [])
        else has_error_key (read_run_result rid tid uid timed_out d)
    | None \<Rightarrow> has_error_key (read_run_result rid tid uid timed_out d))"
proof -
  let ?q = "\<lambda>r. r_run_id r = rid \<and> r_thread_id r = tid \<and> r_user_id r = uid"
  have row: "first_where ?q (runs d) = (case lookup_run d rid of
      Some r \<Rightarrow> if r_thread_id r = tid \<and> r_user_id r = uid then Some r else None | None \<Rightarrow> None)"
  proof (cases "first_where ?q (runs d)")
    case None
    then show ?thesis using lookup_run_eq [OF assms, of rid]
      by (auto simp: first_where_None_iff split: option.splits)
  next
    case (Some r)
    then have "lookup_run d rid = Some r" "?q r"
      using lookup_run_eq [OF assms, of rid r] by (auto dest: first_where_SomeD)
    with Some show ?thesis by simp
  qed
  show ?thesis
    unfolding read_run_result_def row
    by (cases "lookup_run d rid") (auto simp: run_result_body_def)
qed

theorem wait_body_witness:
  "has_error_key (read_run_result ''r1'' ''t1'' ''mallory'' False (example_db [example_run ''r1'' Success None None])) \<and>
   read_run_result ''r1'' ''t1'' ''alice'' False (example_db [example_run ''r1'' Success None None]) = JObj []"
proof -
  have wf: "wf_db (example_db [example_run ''r1'' Success None None])"
    by (rule wf_example_db) (simp add: lease_ok_def example_run_def)
  show ?thesis
    using wait_body [OF wf, of "''r1''" "''t1''" "''mallory''" False] wait_body [OF wf, of "''r1''" "''t1''" "''alice''" False]
    by (simp add: example_run_def)
qed

end
