(* ===== verification/Run_Preparation.thy ===== *)
theory Run_Preparation
  imports Run_Executor
begin

text \<open>
  Creation of a run: the request model \<open>RunCreate\<close> with its validators
  (\<^verbatim>\<open>domain/runs.py\<close>), the helpers and \<open>_prepare_run\<close> of
  \<^verbatim>\<open>execution/run_preparation.py\<close>, the JSONB merge of \<^verbatim>\<open>repo/jsonb.py\<close> and the metadata
  merge of \<^verbatim>\<open>infra/observability/span_enrichment.py\<close>.  The generated uuid, the assistant
  namespace uuid5, the registered graphs and the configured durability are arguments.
\<close>

subsection \<open>The request\<close>

record run_create =
  rc_assistant_id :: string
  rc_input :: "dict option"
  rc_config :: "dict option"
  rc_context :: "dict option"
  rc_checkpoint :: "dict option"
  rc_checkpoint_id :: "string option"
  rc_durability :: "durability option"
  rc_checkpoint_during :: "bool option"
  rc_stream_mode :: "str_or_list option"
  rc_multitask_strategy :: "string option"
  rc_command :: "dict option"
  rc_interrupt_before :: "str_or_list option"
  rc_interrupt_after :: "str_or_list option"
  rc_stream_subgraphs :: "bool option"
  rc_metadata :: "dict option"

definition METADATA_MAX_KEYS :: nat where "METADATA_MAX_KEYS = 32"
definition METADATA_MAX_VALUE_LEN :: nat where "METADATA_MAX_VALUE_LEN = 512"

definition key_char :: "char \<Rightarrow> bool" where
  "key_char c =
     (let n = (of_char c :: nat)
      in (65 \<le> n \<and> n \<le> 90) \<or> (97 \<le> n \<and> n \<le> 122) \<or> (48 \<le> n \<and> n \<le> 57) \<or> n = 95 \<or> n = 45)"

text \<open>\<open>^[A-Za-z0-9_-]{1,64}$\<close> under \<open>match\<close>: one trailing newline is accepted.\<close>

definition metadata_key_ok :: "string \<Rightarrow> bool" where
  "metadata_key_ok k =
     (let body = (if k \<noteq> [] \<and> last k = CHR 0x0A then butlast k else k)
      in 1 \<le> length body \<and> length body \<le> 64 \<and> list_all key_char body)"

fun is_primitive :: "json \<Rightarrow> bool" where
  "is_primitive (JBool _) = True"
| "is_primitive (JInt _) = True"
| "is_primitive (JFloat _) = True"
| "is_primitive (JStr _) = True"
| "is_primitive _ = False"

definition metadata_value_ok :: "json \<Rightarrow> bool" where
  "metadata_value_ok v =
     (is_primitive v \<and> (case v of JStr s \<Rightarrow> length s \<le> METADATA_MAX_VALUE_LEN | _ \<Rightarrow> True))"

definition validate_metadata_shape :: "dict option \<Rightarrow> dict option result" where
  "validate_metadata_shape md =
     (case md of
        None \<Rightarrow> Inr None
      | Some d \<Rightarrow>
          if length d > METADATA_MAX_KEYS then Inl ValueError
          else if list_all (\<lambda>(k, v). metadata_key_ok k \<and> metadata_value_ok v) d then Inr (Some d)
          else Inl ValueError)"

definition validate_input_command_exclusivity :: "run_create \<Rightarrow> run_create result" where
  "validate_input_command_exclusivity rq =
     bind_res
       (case (rc_input rq, rc_command rq) of
          (Some i, Some _) \<Rightarrow> if i = [] then Inr (rq\<lparr>rc_input := None\<rparr>) else Inl ValueError
        | _ \<Rightarrow> Inr rq)
       (\<lambda>rq. if rc_input rq = None \<and> rc_command rq = None
                \<and> \<not> (rc_checkpoint rq \<noteq> None \<or> rc_checkpoint_id rq \<noteq> None)
             then Inl ValueError else Inr rq)"

datatype cancel_selector = ByStatus string | ByIds thread_id "run_id list"

definition validate_exactly_one_selector ::
  "string option \<Rightarrow> thread_id option \<Rightarrow> run_id list option \<Rightarrow> cancel_selector result"
where
  "validate_exactly_one_selector status tid rids =
     (let by_status = (status \<noteq> None);
          complete_ids = (tid \<noteq> None \<and> rids \<noteq> None);
          any_ids = (tid \<noteq> None \<or> rids \<noteq> None)
      in if by_status = any_ids \<or> (any_ids \<and> \<not> complete_ids) then Inl ValueError
         else Inr (case status of Some s \<Rightarrow> ByStatus s | None \<Rightarrow> ByIds (the tid) (the rids)))"

subsection \<open>Trace metadata\<close>

definition merge_run_metadata :: "dict option \<Rightarrow> dict \<Rightarrow> dict" where
  "merge_run_metadata extra system =
     (case extra of
        None \<Rightarrow> system
      | Some [] \<Rightarrow> system
      | Some e \<Rightarrow> dict_update (filter (\<lambda>(k, v). map_of system k = None \<and> is_primitive v) e) system)"

definition restore_trace_metadata :: "run_job \<Rightarrow> dict \<Rightarrow> dict" where
  "restore_trace_metadata job trace =
     (let request_id = get_or trace ''correlation_id'' (JStr []);
          system = [(''run_id'', JStr (ji_run_id (j_identity job))),
                    (''thread_id'', JStr (ji_thread_id (j_identity job))),
                    (''graph_id'', JStr (ji_graph_id (j_identity job)))];
          system = (if json_truthy request_id then system @ [(''original_request_id'', request_id)] else system)
      in merge_run_metadata (Some (j_run_metadata job)) system)"

subsection \<open>Resume commands\<close>

definition RESUME_SETTLE_ATTEMPTS :: nat where "RESUME_SETTLE_ATTEMPTS = 10"

definition thread_interrupted :: "thread_row option \<Rightarrow> bool" where
  "thread_interrupted t = (case t of None \<Rightarrow> False | Some r \<Rightarrow> t_status r = ThreadInterrupted)"

text \<open>\<open>fresh\<close> lists the databases the polls of \<open>_validate_resume_command\<close> see.\<close>

definition validate_resume_command ::
  "db list \<Rightarrow> thread_id \<Rightarrow> dict option \<Rightarrow> db \<Rightarrow> unit result"
where
  "validate_resume_command fresh tid command d =
     (case command of
        None \<Rightarrow> Inr ()
      | Some cmd \<Rightarrow>
          if map_of cmd ''resume'' = None then Inr ()
          else
            (case lookup_thread d tid of
               None \<Rightarrow> Inl (HTTPException 404)
             | Some t \<Rightarrow>
                 if thread_interrupted (Some t) then Inr ()
                 else if list_ex (\<lambda>f. thread_interrupted (lookup_thread f tid)) (take RESUME_SETTLE_ATTEMPTS fresh)
                 then Inr ()
                 else Inl (HTTPException 400)))"

subsection \<open>Thread names\<close>

definition THREAD_NAME_MAX_LENGTH :: nat where "THREAD_NAME_MAX_LENGTH = 100"

fun join_space :: "string list \<Rightarrow> string" where
  "join_space [] = []"
| "join_space [x] = x"
| "join_space (x # xs) = x @ '' '' @ join_space xs"

definition block_text :: "json \<Rightarrow> string option" where
  "block_text block =
     (case block of
        JObj d \<Rightarrow>
          if map_of d ''type'' = Some (JStr ''text'')
          then (case map_of d ''text'' of
                  None \<Rightarrow> Some [] | Some (JStr s) \<Rightarrow> Some s | Some _ \<Rightarrow> None)
          else None
      | _ \<Rightarrow> None)"

definition resolve_content_text :: "json \<Rightarrow> string" where
  "resolve_content_text content =
     (case content of
        JStr s \<Rightarrow> s
      | JList blocks \<Rightarrow> join_space (List.map_filter block_text blocks)
      | _ \<Rightarrow> [])"

text \<open>\<open>rsplit(" ", 1)[0]\<close>: everything before the last space, or the whole string.\<close>

definition before_last_space :: "string \<Rightarrow> string" where
  "before_last_space s =
     (if CHR '' '' \<in> set s
      then rev (tl (dropWhile (\<lambda>c. c \<noteq> CHR '' '') (rev s))) else s)"

definition str_field :: "dict \<Rightarrow> string \<Rightarrow> string option" where
  "str_field d k = (case map_of d k of Some (JStr s) \<Rightarrow> Some s | _ \<Rightarrow> None)"

definition message_role :: "dict \<Rightarrow> string option" where
  "message_role d = (case str_field d ''role'' of Some r \<Rightarrow> Some r | None \<Rightarrow> str_field d ''type'')"

definition message_name :: "json \<Rightarrow> string option" where
  "message_name msg =
     (case msg of
        JObj d \<Rightarrow>
          if message_role d \<in> {Some ''human'', Some ''user''} then
            (let name = py_strip (resolve_content_text (get_or d ''content'' JNull))
             in if name = [] then None
                else if length name > THREAD_NAME_MAX_LENGTH
                then Some (before_last_space (take THREAD_NAME_MAX_LENGTH name) @ ''...'')
                else Some name)
          else None
      | _ \<Rightarrow> None)"

definition extract_thread_name :: "dict \<Rightarrow> string" where
  "extract_thread_name input =
     (case map_of input ''messages'' of
        Some (JList msgs) \<Rightarrow> (case List.map_filter message_name msgs of [] \<Rightarrow> [] | n # _ \<Rightarrow> n)
      | _ \<Rightarrow> [])"

subsection \<open>Thread metadata\<close>

definition jsonb_shallow_merge :: "json \<Rightarrow> dict list \<Rightarrow> json" where
  "jsonb_shallow_merge column patches =
     JObj (fold (\<lambda>p acc. dict_update acc p) patches (case column of JObj d \<Rightarrow> d | _ \<Rightarrow> []))"

text \<open>\<open>coalesce(metadata_json ->> 'thread_name', '') = ''\<close>.\<close>

definition unnamed :: "json \<Rightarrow> bool" where
  "unnamed md =
     (case md of
        JObj d \<Rightarrow> (case map_of d ''thread_name'' of
                    None \<Rightarrow> True | Some JNull \<Rightarrow> True | Some (JStr s) \<Rightarrow> s = [] | Some _ \<Rightarrow> False)
      | _ \<Rightarrow> True)"

definition update_thread_metadata ::
  "time \<Rightarrow> thread_id \<Rightarrow> string \<Rightarrow> string \<Rightarrow> user_id option \<Rightarrow> dict option \<Rightarrow> db \<Rightarrow> db result"
where
  "update_thread_metadata now tid assistant_id graph_id uid input_data d =
     (let name = extract_thread_name (case input_data of None \<Rightarrow> [] | Some i \<Rightarrow> i)
      in case lookup_thread d tid of
           None \<Rightarrow>
             (case uid of
                None \<Rightarrow> Inl (HTTPException 400)
              | Some u \<Rightarrow>
                  if u = [] then Inl (HTTPException 400)
                  else Inr (d\<lparr>threads := threads d @
                      [\<lparr>t_thread_id = tid, t_status = Idle,
                        t_metadata = process_bind_param (JObj
                          [(''owner'', JStr u), (''assistant_id'', JStr assistant_id),
                           (''graph_id'', JStr graph_id), (''thread_name'', JStr name)]),
                        t_user_id = u, t_created_at = now, t_updated_at = now\<rparr>]\<rparr>))
         | Some _ \<Rightarrow>
             Inr (d\<lparr>threads := update_where (\<lambda>t. t_thread_id t = tid)
               (\<lambda>t. t\<lparr>t_metadata := jsonb_shallow_merge (t_metadata t)
                        (bind_dict [(''assistant_id'', JStr assistant_id), (''graph_id'', JStr graph_id)]
                         # (if name = [] then []
                            else [if unnamed (t_metadata t) then bind_dict [(''thread_name'', JStr name)] else []])),
                      t_updated_at := now\<rparr>) (threads d)\<rparr>))"

subsection \<open>Checkpoint and durability\<close>

definition resolve_checkpoint :: "run_create \<Rightarrow> dict option" where
  "resolve_checkpoint rq =
     (case rc_checkpoint_id rq of
        None \<Rightarrow> rc_checkpoint rq
      | Some i \<Rightarrow> Some (dict_update [(''checkpoint_id'', JStr i)]
                     (case rc_checkpoint rq of None \<Rightarrow> [] | Some c \<Rightarrow> c)))"

text \<open>
  \<open>get_default_durability\<close>: the environment setting, then the value in the configuration file;
  the adapter accepts the three names.
\<close>

definition parse_durability :: "json \<Rightarrow> durability result" where
  "parse_durability raw =
     (case raw of
        JStr s \<Rightarrow> (case durability_of_json (JStr (py_strip s)) of Some x \<Rightarrow> Inr x | None \<Rightarrow> Inl ValueError)
      | _ \<Rightarrow> Inl ValueError)"

definition get_default_durability :: "json option \<Rightarrow> dict option \<Rightarrow> durability option result" where
  "get_default_durability setting file_config =
     (let raw = (case setting of Some JNull \<Rightarrow> None | r \<Rightarrow> r);
          raw = (case raw of
                   None \<Rightarrow> None
                 | Some (JStr s) \<Rightarrow> if py_strip s = [] then None else Some (JStr s)
                 | Some j \<Rightarrow> Some j);
          raw = (case raw of
                   Some j \<Rightarrow> Some j
                 | None \<Rightarrow> (case file_config of
                             None \<Rightarrow> None
                           | Some c \<Rightarrow> (case map_of c ''durability'' of Some JNull \<Rightarrow> None | r \<Rightarrow> r)))
      in case raw of
           None \<Rightarrow> Inr None
         | Some j \<Rightarrow> bind_res (parse_durability j) (\<lambda>x. Inr (Some x)))"

definition resolve_durability :: "durability option \<Rightarrow> run_create \<Rightarrow> durability option" where
  "resolve_durability server_default rq =
     (case rc_durability rq of
        Some x \<Rightarrow> Some x
      | None \<Rightarrow>
          (case rc_checkpoint_during rq of
             Some b \<Rightarrow> Some (if b then Async else Exit)
           | None \<Rightarrow> server_default))"

subsection \<open>\<open>_prepare_run\<close>\<close>

record assistant_row =
  a_assistant_id :: string
  a_graph_id :: string
  a_config :: "dict option"
  a_context :: "dict option"
  a_user_id :: user_id

definition resolve_assistant_id :: "(string \<Rightarrow> string) \<Rightarrow> string list \<Rightarrow> string \<Rightarrow> string" where
  "resolve_assistant_id uuid5 available_graphs requested =
     (if requested \<in> set available_graphs then uuid5 requested else requested)"

text \<open>The configuration and context of the request, without the keys the server owns.\<close>

definition request_config :: "run_create \<Rightarrow> (dict \<times> dict) result" where
  "request_config rq =
     (let config = strip_pinned_config_keys SERVER_PINNED_CONFIG_KEYS
                     (case rc_config rq of None \<Rightarrow> [] | Some c \<Rightarrow> c);
          context = strip_pinned_config_keys SERVER_PINNED_IDENTITY_KEYS
                      (case rc_context rq of None \<Rightarrow> [] | Some c \<Rightarrow> c)
      in case get_or config ''configurable'' (JObj []) of
           JObj c \<Rightarrow>
             (let c = strip_pinned_config_keys SERVER_PINNED_CONFIG_KEYS c
              in Inr (AList.update ''configurable'' (JObj c) config, if context = [] then c else context))
         | _ \<Rightarrow> Inl (HTTPException 422))"

text \<open>The merge with the assistant's own configuration and context.\<close>

definition merged_config :: "assistant_row \<Rightarrow> dict \<times> dict \<Rightarrow> dict \<times> dict" where
  "merged_config a cc =
     (case cc of (config, context) \<Rightarrow>
       (let config = merge_jsonb [a_config a, Some config];
            config = (case map_of config ''configurable'' of
                        Some (JObj c) \<Rightarrow>
                          AList.update ''configurable''
                            (JObj (strip_pinned_config_keys SERVER_PINNED_CONFIG_KEYS c)) config
                      | _ \<Rightarrow> config)
        in (config, strip_pinned_config_keys SERVER_PINNED_IDENTITY_KEYS (merge_jsonb [a_context a, Some context]))))"

definition build_job ::
  "durability option \<Rightarrow> run_id \<Rightarrow> thread_id \<Rightarrow> assistant_row \<Rightarrow> user \<Rightarrow> bool \<Rightarrow> run_create \<Rightarrow> dict \<times> dict \<Rightarrow> run_job"
where
  "build_job server_default rid tid a u v2 rq cc =
     \<lparr>j_identity = \<lparr>ji_run_id = rid, ji_thread_id = tid, ji_graph_id = a_graph_id a\<rparr>,
      j_user = u,
      j_execution = \<lparr>e_input_data = rc_input rq, e_config = fst cc, e_context = snd cc,
        e_stream_mode = rc_stream_mode rq, e_checkpoint = resolve_checkpoint rq,
        e_command = rc_command rq, e_durability = resolve_durability server_default rq,
        e_event_streaming_v2 = v2\<rparr>,
      j_behavior = \<lparr>b_interrupt_before = rc_interrupt_before rq, b_interrupt_after = rc_interrupt_after rq,
        b_multitask_strategy = rc_multitask_strategy rq,
        b_subgraphs = (rc_stream_subgraphs rq = Some True)\<rparr>,
      j_run_metadata = (case rc_metadata rq of None \<Rightarrow> [] | Some m \<Rightarrow> m)\<rparr>"

definition trace_params :: "string \<Rightarrow> user \<Rightarrow> thread_id \<Rightarrow> assistant_row \<Rightarrow> json" where
  "trace_params correlation u tid a =
     JObj [(''correlation_id'', JStr correlation), (''user_id'', JStr (identity u)),
           (''thread_id'', JStr tid), (''graph_id'', JStr (a_graph_id a))]"

definition new_run_row ::
  "codec \<Rightarrow> time \<Rightarrow> run_status \<Rightarrow> string \<Rightarrow> string \<Rightarrow> assistant_row \<Rightarrow> run_job \<Rightarrow> run_row"
where
  "new_run_row c now status correlation resolved a job =
     \<lparr>r_run_id = ji_run_id (j_identity job), r_thread_id = ji_thread_id (j_identity job),
      r_assistant_id = Some resolved, r_status = status,
      r_input = map_option (\<lambda>i. process_bind_param (JObj i)) (e_input_data (j_execution job)),
      r_config = Some (bind_dict (e_config (j_execution job))),
      r_context = Some (bind_dict (e_context (j_execution job))),
      r_output = None, r_error_message = None, r_user_id = identity (j_user job),
      r_created_at = now, r_updated_at = now,
      r_execution_params = Some (bind_dict (dict_update (to_execution_params c job)
        [(''trace'', trace_params correlation (j_user job) (ji_thread_id (j_identity job)) a)])),
      r_claimed_by = None, r_lease_expires_at = None\<rparr>"

record prep_env =
  pe_codec :: codec
  pe_uuid5 :: "string \<Rightarrow> string"
  pe_graphs :: "string list"
  pe_assistants :: "assistant_row list"
  pe_default_durability :: "durability option"
  pe_correlation :: string
  pe_fresh :: "db list"
  pe_redis :: redis_state

text \<open>
  \<open>_prepare_run\<close> with the queue executor: the committed database and, when the executor takes
  the job, the queue.  Everything before the commit is one transaction, so an error leaves the
  database as it was; a failing \<open>submit\<close> comes after the commit.
\<close>

definition prepare_run ::
  "prep_env \<Rightarrow> time \<Rightarrow> run_id \<Rightarrow> thread_id \<Rightarrow> run_create \<Rightarrow> user \<Rightarrow> run_status \<Rightarrow> bool \<Rightarrow> db \<times> queue
   \<Rightarrow> (run_job result) \<times> db \<times> queue"
where
  "prepare_run env now rid tid rq u status v2 s =
     (case s of (d, q) \<Rightarrow>
       (let resolved = resolve_assistant_id (pe_uuid5 env) (pe_graphs env) (rc_assistant_id rq);
            prepared =
              bind_res (validate_resume_command (pe_fresh env) tid (rc_command rq) d) (\<lambda>_.
              bind_res (request_config rq) (\<lambda>cc.
              case first_where (\<lambda>a. a_assistant_id a = resolved
                      \<and> (a_user_id a = identity u \<or> a_user_id a = ''system'')) (pe_assistants env) of
                None \<Rightarrow> Inl (HTTPException 404)
              | Some a \<Rightarrow>
                  if a_graph_id a \<notin> set (pe_graphs env) then Inl (HTTPException 404)
                  else
                    bind_res (update_thread_metadata now tid (a_assistant_id a) (a_graph_id a)
                                (Some (identity u)) (rc_input rq) d) (\<lambda>d1.
                    bind_res (set_thread_status now tid ''busy'' d1) (\<lambda>d2.
                      let job = build_job (pe_default_durability env) rid tid a u v2 rq (merged_config a cc)
                      in Inr (job, d2\<lparr>runs := runs d2 @
                            [new_run_row (pe_codec env) now status (pe_correlation env) resolved a job]\<rparr>)))))
        in case prepared of
             Inl e \<Rightarrow> (Inl e, d, q)
           | Inr (job, d') \<Rightarrow>
               (case worker_submit (pe_redis env) rid q of
                  Inl e \<Rightarrow> (Inl e, d', q)
                | Inr q' \<Rightarrow> (Inr job, d', q'))))"

subsection \<open>Lemmas\<close>

lemma strip_pinned_no_keys: "k \<in> set keys \<Longrightarrow> map_of (strip_pinned_config_keys keys d) k = None"
  by (simp add: map_of_strip_pinned)

lemma merged_config_clean:
  "k \<in> set SERVER_PINNED_CONFIG_KEYS \<Longrightarrow> cfg_key (fst (merged_config a cc)) k = None"
  by (auto simp: merged_config_def cfg_key_def Let_def map_of_strip_pinned split: prod.splits option.splits json.splits)

lemma merged_context_clean:
  "k \<in> set SERVER_PINNED_IDENTITY_KEYS \<Longrightarrow> map_of (snd (merged_config a cc)) k = None"
  by (simp add: merged_config_def Let_def map_of_strip_pinned split: prod.splits)

lemma prepare_run_InrD:
  assumes "prepare_run env now rid tid rq u status v2 (d, q) = (Inr job, d', q')"
  obtains a cc d2 where
    "a \<in> set (pe_assistants env)" "a_user_id a = identity u \<or> a_user_id a = ''system''"
    "a_graph_id a \<in> set (pe_graphs env)" "request_config rq = Inr cc"
    "job = build_job (pe_default_durability env) rid tid a u v2 rq (merged_config a cc)"
    "d' = d2\<lparr>runs := runs d2 @ [new_run_row (pe_codec env) now status (pe_correlation env)
        (resolve_assistant_id (pe_uuid5 env) (pe_graphs env) (rc_assistant_id rq)) a job]\<rparr>"
    "q' = q @ [rid]" "runs d2 = runs d"
proof -
  from assms obtain a cc d1 d2 where
    a: "first_where (\<lambda>a. a_assistant_id a = resolve_assistant_id (pe_uuid5 env) (pe_graphs env) (rc_assistant_id rq)
          \<and> (a_user_id a = identity u \<or> a_user_id a = ''system'')) (pe_assistants env) = Some a"
    and rest: "a_graph_id a \<in> set (pe_graphs env)" "request_config rq = Inr cc"
    "update_thread_metadata now tid (a_assistant_id a) (a_graph_id a) (Some (identity u)) (rc_input rq) d = Inr d1"
    "set_thread_status now tid ''busy'' d1 = Inr d2"
    "job = build_job (pe_default_durability env) rid tid a u v2 rq (merged_config a cc)"
    "d' = d2\<lparr>runs := runs d2 @ [new_run_row (pe_codec env) now status (pe_correlation env)
        (resolve_assistant_id (pe_uuid5 env) (pe_graphs env) (rc_assistant_id rq)) a job]\<rparr>"
    and q: "worker_submit (pe_redis env) rid q = Inr q'"
    unfolding prepare_run_def Let_def
    by (auto split: sum.splits option.splits if_splits prod.splits dest!: bind_res_InrD)
  have "runs d1 = runs d" using rest(3)
    by (auto simp: update_thread_metadata_def Let_def split: option.splits if_splits)
  moreover have "runs d2 = runs d1" using rest(4)
    by (auto simp: set_thread_status_def Let_def split: if_splits dest!: bind_res_InrD)
  ultimately have runs: "runs d2 = runs d" by simp
  have q': "q' = q @ [rid]" using q by (simp add: worker_submit_def split: if_splits)
  from a have "a \<in> set (pe_assistants env)" "a_user_id a = identity u \<or> a_user_id a = ''system''"
    by (auto dest: first_where_SomeD)
  then show ?thesis by (rule that) (fact rest q' runs)+
qed

subsection \<open>What preparation guarantees\<close>


text \<open>A request that tries to smuggle an identity, and the environment that serves it.\<close>

definition example_request :: run_create where
  "example_request = \<lparr>rc_assistant_id = ''a1'', rc_input = None,
     rc_config = Some [(''configurable'', JObj [(''user_id'', JStr ''mallory''), (''temperature'', JInt 1)])],
     rc_context = None, rc_checkpoint = None, rc_checkpoint_id = None, rc_durability = None,
     rc_checkpoint_during = None, rc_stream_mode = None, rc_multitask_strategy = None, rc_command = None,
     rc_interrupt_before = None, rc_interrupt_after = None, rc_stream_subgraphs = None, rc_metadata = None\<rparr>"

definition example_env :: "redis_state \<Rightarrow> prep_env" where
  "example_env r = \<lparr>pe_codec = plain_codec, pe_uuid5 = id, pe_graphs = [''g''],
     pe_assistants = [\<lparr>a_assistant_id = ''a1'', a_graph_id = ''g'', a_config = None, a_context = None,
                       a_user_id = ''alice''\<rparr>],
     pe_default_durability = None, pe_correlation = ''c'', pe_fresh = [], pe_redis = r\<rparr>"

lemma example_request_config: "\<exists>cc. request_config example_request = Inr cc"
  by (simp add: request_config_def example_request_def get_or_def map_of_strip_pinned
      SERVER_PINNED_CONFIG_KEYS_def SERVER_PINNED_IDENTITY_KEYS_def Let_def)

lemma example_prepared_gen:
  assumes "rc_command rq = None" and "rc_assistant_id rq = ''a1''" and "request_config rq = Inr cc"
    and "identity u = ''alice''"
  shows "\<exists>job d' q'. prepare_run (example_env RedisUp) now rid ''t1'' rq u st v2 (example_db rs, q) = (Inr job, d', q')"
proof -
  have th: "lookup_thread (example_db rs) ''t1'' = Some example_thread"
    by (simp add: example_db_def lookup_thread_def first_where_def example_thread_def)
  have meta: "\<exists>d1. update_thread_metadata now ''t1'' ''a1'' ''g'' uid inp (example_db rs) = Inr d1 \<and>
      map t_thread_id (threads d1) = [''t1'']" for uid inp
    by (simp add: update_thread_metadata_def Let_def th map_key_update_where)
      (simp add: example_db_def example_thread_def)
  have busy: "\<exists>d2. set_thread_status now ''t1'' ''busy'' d1 = Inr d2" if "map t_thread_id (threads d1) = [''t1'']" for d1
    using that by (auto simp: set_thread_status_def validate_thread_status_def select_where_Nil_iff Let_def)
  obtain d1 d2 where
    "update_thread_metadata now ''t1'' ''a1'' ''g'' (Some (identity u)) (rc_input rq) (example_db rs) = Inr d1"
    "set_thread_status now ''t1'' ''busy'' d1 = Inr d2"
    using meta busy by metis
  then show ?thesis
    by (simp add: prepare_run_def Let_def assms validate_resume_command_def example_env_def resolve_assistant_id_def
        first_where_def worker_submit_def)
qed

lemma example_prepared:
  "\<exists>job d' q'. prepare_run (example_env RedisUp) 10 ''r2'' ''t1'' example_request example_user Pending False
                 (example_db rs, q) = (Inr job, d', q')"
  using example_request_config example_prepared_gen [of example_request]
  by (fastforce simp: example_request_def example_user_def)


text \<open>
  A key with a NUL character passes the removal of pinned keys, and the column, from which a worker
  loads the job, holds it without the character.
\<close>

lemma nul_key_becomes_pinned:
  "strip_pinned_config_keys SERVER_PINNED_IDENTITY_KEYS [(''user_id'' @ [CHR 0x00], JStr ''mallory'')]
     = [(''user_id'' @ [CHR 0x00], JStr ''mallory'')]"
  "bind_dict [(''user_id'' @ [CHR 0x00], JStr ''mallory'')] = [(''user_id'', JStr ''mallory'')]"
  by (simp_all add: strip_pinned_config_keys_def SERVER_PINNED_IDENTITY_KEYS_def dict_filter_def bind_dict_def process_bind_param_def
      strip_null_bytes.simps MAX_STRIP_DEPTH_def strip_key_def strip_nul_def dict_update_def)

end
