(* ===== verification/Run_System.thy ===== *)
theory Run_System
  imports Run_Preparation Worker
begin

text \<open>
  The run store as a transition system: every transaction of the API, of the workers and of the
  reaper, in any interleaving.  A state is the database, the job queue, the run ids generated
  so far (a fresh uuid4 is none of them), and the workers that claimed a run without parameters
  and have yet to fail it, with the run.  Each step is one transaction of the component theories
  at an arbitrary clock reading; the two transactions of \<open>_acquire_and_load\<close> are two steps.  Deletions
  of rows are taken without the conditions their callers check first, and \<open>other_threads\<close> stands for
  every transaction that writes the threads table alone.
\<close>

record sys =
  sys_db :: db
  sys_queue :: queue
  sys_used :: "run_id list"
  sys_failing :: "(run_id \<times> worker) list"

text \<open>Rows that go: a single run, or a thread or assistant with the runs its deletion cascades to.\<close>

definition delete_rows :: "(thread_row \<Rightarrow> bool) \<Rightarrow> (run_row \<Rightarrow> bool) \<Rightarrow> db \<Rightarrow> db" where
  "delete_rows p q d = d\<lparr>threads := delete_where p (threads d), runs := delete_where q (runs d)\<rparr>"

text \<open>The final statuses the executors and workers write.\<close>

definition final_names :: "string list" where
  "final_names = [''success'', ''error'', ''interrupted'']"

inductive sys_step :: "codec \<Rightarrow> reaper_settings \<Rightarrow> int \<Rightarrow> sys \<Rightarrow> sys \<Rightarrow> bool"
  for c cfg dur
where
  create: "rid \<notin> set (sys_used s) \<Longrightarrow> pe_codec env = c \<Longrightarrow>
    prepare_run env now rid tid rq u Pending v2 (sys_db s, sys_queue s) = (res, d, q) \<Longrightarrow>
    sys_step c cfg dur s (s\<lparr>sys_db := d, sys_queue := q, sys_used := rid # sys_used s\<rparr>)"
| take_job: "dequeue r (sys_queue s) (sys_db s) = (x, q) \<Longrightarrow>
    sys_step c cfg dur s (s\<lparr>sys_queue := q\<rparr>)"
| claim: "claim_run c dur now rid w (sys_db s) = (out, d) \<Longrightarrow>
    sys_step c cfg dur s (s\<lparr>sys_db := d, sys_failing := (if out = MissingParams then [(rid, w)] else []) @ sys_failing s\<rparr>)"
| fail: "(rid, w) \<in> set (sys_failing s) \<Longrightarrow>
    sys_step c cfg dur s (s\<lparr>sys_db := fail_missing rid w (sys_db s), sys_failing := remove1 (rid, w) (sys_failing s)\<rparr>)"
| start: "start_run now rid uid (sys_db s) = (b, d) \<Longrightarrow>
    sys_step c cfg dur s (s\<lparr>sys_db := d\<rparr>)"
| heartbeat: "heartbeat_step dur now rid w ok (sys_db s) = (h, d) \<Longrightarrow>
    sys_step c cfg dur s (s\<lparr>sys_db := d\<rparr>)"
| finalize: "st \<in> set final_names \<Longrightarrow> finalize_run now rid tid uid st ts outp err (sys_db s) = Inr (b, d) \<Longrightarrow>
    sys_step c cfg dur s (s\<lparr>sys_db := d\<rparr>)"
| release: "sys_step c cfg dur s (s\<lparr>sys_db := release_lease rid w (sys_db s)\<rparr>)"
| interrupt: "interrupt_unowned_run now rid tid uid (sys_db s) = (b, d) \<Longrightarrow>
    sys_step c cfg dur s (s\<lparr>sys_db := d\<rparr>)"
| drain: "requeue_drained_runs rs rids (sys_db s, sys_queue s) = (d, q) \<Longrightarrow>
    sys_step c cfg dur s (s\<lparr>sys_db := d, sys_queue := q\<rparr>)"
| recover: "recover_crashed_runs cfg now locked rids (sys_db s) = Inr (x, d) \<Longrightarrow>
    sys_step c cfg dur s (s\<lparr>sys_db := d\<rparr>)"
| push: "sys_step c cfg dur s (s\<lparr>sys_queue := snd (reenqueue rs rids (sys_queue s))\<rparr>)"
| delete_thread: "delete_thread_by_id tid uid (sys_db s) = (rids, d) \<Longrightarrow>
    sys_step c cfg dur s (s\<lparr>sys_db := d\<rparr>)"
| delete_run: "sys_step c cfg dur s (s\<lparr>sys_db := delete_rows (\<lambda>_. False)
      (\<lambda>r. r_run_id r = rid \<and> r_thread_id r = tid \<and> r_user_id r = uid) (sys_db s)\<rparr>)"
| sweep_thread: "sys_step c cfg dur s (s\<lparr>sys_db := delete_rows (\<lambda>t. t_thread_id t = tid) (\<lambda>r. r_thread_id r = tid) (sys_db s)\<rparr>)"
| delete_assistant: "sys_step c cfg dur s (s\<lparr>sys_db := delete_rows (\<lambda>_. False) (\<lambda>r. r_assistant_id r = Some aid) (sys_db s)\<rparr>)"
| other_threads: "distinct (map t_thread_id ts) \<Longrightarrow> sys_step c cfg dur s (s\<lparr>sys_db := (sys_db s)\<lparr>threads := ts\<rparr>\<rparr>)"

inductive_cases sys_stepE: "sys_step c cfg dur s s'"

subsection \<open>The invariant of a run row\<close>

definition retries :: "run_row \<Rightarrow> int" where
  "retries r = (case map_of (params_of r) ''_retry_count'' of Some (JInt n) \<Rightarrow> n | _ \<Rightarrow> 0)"

definition params_ok :: "dict \<Rightarrow> bool" where
  "params_ok p =
     (wf_dict p \<and> list_all (\<lambda>k. CHR 0x00 \<notin> set k) (map fst p)
      \<and> (case map_of p ''_retry_count'' of None \<Rightarrow> True | Some (JInt n) \<Rightarrow> True | _ \<Rightarrow> False))"

definition row_ok :: "reaper_settings \<Rightarrow> run_row \<Rightarrow> bool" where
  "row_ok cfg r =
     (lease_ok r \<and> params_ok (params_of r) \<and> (is_active r \<longrightarrow> retries r \<le> BG_JOB_MAX_RETRIES cfg))"

definition sys_inv :: "reaper_settings \<Rightarrow> sys \<Rightarrow> bool" where
  "sys_inv cfg s =
     (wf_db (sys_db s) \<and> list_all (row_ok cfg) (runs (sys_db s))
      \<and> r_run_id ` set (runs (sys_db s)) \<subseteq> set (sys_used s))"

lemma params_of_simps [simp]:
  "params_of (r\<lparr>r_status := s\<rparr>) = params_of r" "params_of (r\<lparr>r_updated_at := t\<rparr>) = params_of r"
  "params_of (r\<lparr>r_claimed_by := w\<rparr>) = params_of r" "params_of (r\<lparr>r_lease_expires_at := l\<rparr>) = params_of r"
  "params_of (r\<lparr>r_output := out\<rparr>) = params_of r" "params_of (r\<lparr>r_error_message := e\<rparr>) = params_of r"
  by (simp_all add: params_of_def)

lemma retries_simps [simp]:
  "retries (r\<lparr>r_status := s\<rparr>) = retries r" "retries (r\<lparr>r_updated_at := t\<rparr>) = retries r"
  "retries (r\<lparr>r_claimed_by := w\<rparr>) = retries r" "retries (r\<lparr>r_lease_expires_at := l\<rparr>) = retries r"
  "retries (r\<lparr>r_output := out\<rparr>) = retries r" "retries (r\<lparr>r_error_message := e\<rparr>) = retries r"
  by (simp_all add: retries_def)

lemma map_of_bind_dict:
  assumes "wf_dict d" and "\<And>k. k \<in> fst ` set d \<Longrightarrow> CHR 0x00 \<notin> set k"
  shows "map_of (bind_dict d) k = map_option (strip_null_bytes 1) (map_of d k)"
proof -
  have eq: "map (\<lambda>kv. (strip_nul (fst kv), strip_null_bytes 1 (snd kv))) d =
      map (\<lambda>kv. (fst kv, strip_null_bytes 1 (snd kv))) d"
    using assms(2) by (auto simp: strip_nul_id)
  have fsts: "map fst (map (\<lambda>kv. (fst kv, strip_null_bytes 1 (snd kv))) d) = map fst d"
    by simp
  have "bind_dict d = map (\<lambda>kv. (fst kv, strip_null_bytes 1 (snd kv))) d"
    unfolding bind_dict_eq eq using assms(1) fsts
    by (intro dict_update_Nil_fresh) (simp only: wf_dict_def)
  moreover have "map_of (map (\<lambda>kv. (fst kv, strip_null_bytes 1 (snd kv))) e) k =
      map_option (strip_null_bytes 1) (map_of e k)" for e :: dict
    by (induction e) auto
  ultimately show ?thesis by simp
qed

lemma strip_JInt [simp]: "strip_null_bytes k (JInt n) = JInt n"
  by (simp add: strip_null_bytes.simps [of k])

text \<open>Parameters written to the column: the keys have no NUL byte and the counter stays a number.\<close>

lemma params_ok_bind:
  assumes "wf_dict d" and keys: "\<And>k. k \<in> fst ` set d \<Longrightarrow> CHR 0x00 \<notin> set k"
    and "map_of d ''_retry_count'' = None \<or> (\<exists>n. map_of d ''_retry_count'' = Some (JInt n))"
  shows "params_ok (bind_dict d)"
proof -
  note eq = map_of_bind_dict [OF assms(1) keys]
  have "CHR 0x00 \<notin> set k" if "k \<in> fst ` set (bind_dict d)" for k
  proof -
    have "map_of (bind_dict d) k \<noteq> None" using that by (simp add: map_of_eq_None_iff)
    then have "map_of d k \<noteq> None" by (simp add: eq)
    then show ?thesis using keys [of k] by (metis map_of_eq_None_iff)
  qed
  then show ?thesis
    using assms(3) by (auto simp: params_ok_def eq list_all_iff)
qed

lemma params_ok_keys: "params_ok p \<Longrightarrow> k \<in> fst ` set p \<Longrightarrow> CHR 0x00 \<notin> set k"
  by (auto simp: params_ok_def list_all_iff)

lemma bump_params:
  assumes "params_ok p"
  shows "params_ok (bind_dict (AList.update ''_retry_count'' (JInt n) p))"
    and "map_of (bind_dict (AList.update ''_retry_count'' (JInt n) p)) ''_retry_count'' = Some (JInt n)"
proof -
  let ?p = "AList.update ''_retry_count'' (JInt n) p"
  have wf: "wf_dict ?p" using assms by (simp add: params_ok_def)
  have keys: "CHR 0x00 \<notin> set k" if "k \<in> fst ` set ?p" for k
    using that params_ok_keys [OF assms, of k] by (auto simp: dom_update)
  show "params_ok (bind_dict ?p)" by (rule params_ok_bind [OF wf keys]) auto
  show "map_of (bind_dict ?p) ''_retry_count'' = Some (JInt n)"
    by (simp add: map_of_bind_dict [OF wf keys])
qed

lemma retry_count_ok:
  assumes "params_ok (params_of r)"
  shows "retry_count (params_of r) = Inr (JInt (retries r + 1))"
  using assms by (auto simp: params_ok_def retry_count_def retries_def split: option.splits json.splits)

lemma recovered_row_eq:
  assumes "params_ok (params_of r)"
  shows "recovered_row cfg now r =
    recover_values now (AList.update ''_retry_count'' (JInt (retries r + 1)) (params_of r))
      (retries r + 1 > BG_JOB_MAX_RETRIES cfg) r"
  by (simp add: recovered_row_def retry_count_ok [OF assms] exceeds_def)

lemma params_of_recover_values [simp]: "params_of (recover_values now p ex r) = bind_dict p"
  by (simp add: recover_values_def Let_def params_of_def)

lemma retries_recovered:
  assumes "params_ok (params_of r)"
  shows "retries (recovered_row cfg now r) = retries r + 1"
  using bump_params(2) [OF assms, of "retries r + 1"]
  by (simp add: recovered_row_eq [OF assms] retries_def [of "recover_values _ _ _ _"])

lemma row_ok_recovered:
  assumes "row_ok cfg r"
  shows "row_ok cfg (recovered_row cfg now r)"
proof -
  have ok: "params_ok (params_of r)" using assms by (simp add: row_ok_def)
  have "is_active (recovered_row cfg now r) \<Longrightarrow> retries r + 1 \<le> BG_JOB_MAX_RETRIES cfg"
    by (auto simp: recovered_row_eq [OF ok] recover_values_def Let_def is_active_iff split: if_splits)
  moreover have "params_ok (params_of (recovered_row cfg now r))"
    by (simp add: recovered_row_eq [OF ok] bump_params(1) [OF ok])
  moreover have "lease_ok (recovered_row cfg now r)"
    by (simp add: recovered_row_eq [OF ok])
  ultimately show ?thesis by (simp add: row_ok_def retries_recovered [OF ok])
qed

subsection \<open>Every transaction keeps the invariant\<close>

definition db_ok :: "reaper_settings \<Rightarrow> db \<Rightarrow> bool" where
  "db_ok cfg d = (wf_db d \<and> list_all (row_ok cfg) (runs d))"

lemma db_ok_update:
  assumes "db_ok cfg d" and "\<And>r. r_run_id (f r) = r_run_id r"
    and "\<And>r. p r \<Longrightarrow> row_ok cfg r \<Longrightarrow> row_ok cfg (f r)"
  shows "db_ok cfg (d\<lparr>runs := update_where p f (runs d)\<rparr>)"
proof -
  have ok: "row_ok cfg r" if "r \<in> set (runs d)" for r
    using assms(1) that by (simp add: db_ok_def list_all_iff)
  have "row_ok cfg r" if "r \<in> set (update_where p f (runs d))" for r
    using that ok assms(3) by (auto elim!: in_update_whereE)
  moreover have "wf_db (d\<lparr>runs := update_where p f (runs d)\<rparr>)"
    using assms(1) ok assms(3)
    by (intro wf_db_runs_update) (auto simp: db_ok_def assms(2) row_ok_def)
  ultimately show ?thesis by (simp add: db_ok_def list_all_iff)
qed

lemma db_ok_runs_eq: "db_ok cfg d \<Longrightarrow> runs d' = runs d \<Longrightarrow> wf_db d' \<Longrightarrow> db_ok cfg d'"
  by (simp add: db_ok_def)

lemma db_ok_thread_status: "db_ok cfg d \<Longrightarrow> db_ok cfg (set_thread_status_if_no_active_runs now tids st uid d)"
  by (simp add: db_ok_def wf_db_set_thread_status_if)

lemmas row_defs = row_ok_def lease_ok_def is_active_iff

lemma db_ok_start: "db_ok cfg d \<Longrightarrow> start_run now rid uid d = (b, d') \<Longrightarrow> db_ok cfg d'"
  by (auto simp: start_run_def Let_def row_defs split: if_splits intro!: db_ok_update)

lemma db_ok_heartbeat: "db_ok cfg d \<Longrightarrow> heartbeat_step dur now rid w ok d = (h, d') \<Longrightarrow> db_ok cfg d'"
  by (auto simp: heartbeat_step_def Let_def row_defs split: if_splits intro!: db_ok_update)

lemma db_ok_release: "db_ok cfg d \<Longrightarrow> db_ok cfg (release_lease rid w d)"
  by (auto simp: release_lease_def row_defs intro!: db_ok_update)

lemma db_ok_interrupt: "db_ok cfg d \<Longrightarrow> interrupt_unowned_run now rid tid uid d = (b, d') \<Longrightarrow> db_ok cfg d'"
  by (auto simp: interrupt_unowned_run_def Let_def row_defs split: if_splits
      intro!: db_ok_update db_ok_thread_status)

lemma db_ok_requeue: "db_ok cfg d \<Longrightarrow> requeue_drained_runs rs rids (d, q) = (d', q') \<Longrightarrow> db_ok cfg d'"
  by (auto simp: requeue_drained_runs_def Let_def requeue_values_def row_defs intro!: db_ok_update)

lemma final_names_terminal: "st \<in> set final_names \<Longrightarrow> \<exists>v. validate_run_status st = Inr v \<and> terminal v"
  by (auto simp: final_names_def terminal_iff)

lemma r_run_id_finalize_values [simp]: "r_run_id (finalize_values now v outp err r) = r_run_id r"
  by (simp add: finalize_values_def)

lemma row_ok_finalized:
  "row_ok cfg r \<Longrightarrow> terminal v \<Longrightarrow> row_ok cfg (finalize_values now v outp err r)"
  by (auto simp: finalize_values_def row_defs terminal_iff)

lemma db_ok_finalize:
  assumes "db_ok cfg d" and "st \<in> set final_names" and "finalize_run now rid tid uid st ts outp err d = Inr (b, d')"
  shows "db_ok cfg d'"
proof -
  from final_names_terminal [OF assms(2)] obtain v where v: "validate_run_status st = Inr v" "terminal v"
    by auto
  have upd: "db_ok cfg (d\<lparr>runs := update_where p (finalize_values now v outp err) (runs d)\<rparr>)" for p
    using assms(1) v(2) by (intro db_ok_update) (auto simp: row_ok_finalized)
  show ?thesis
    using assms(1,3) upd
    by (auto simp: finalize_run_def v(1) Let_def db_ok_thread_status split: if_splits dest!: bind_res_InrD)
qed

lemma db_ok_fail: "db_ok cfg d \<Longrightarrow> db_ok cfg (fail_missing rid w d)"
  unfolding fail_missing_def by (rule db_ok_update) (auto simp: missing_params_values_def row_defs)

lemma db_ok_acquire_update:
  "db_ok cfg d \<Longrightarrow> (\<And>r. p r \<Longrightarrow> is_active r) \<Longrightarrow>
   db_ok cfg (d\<lparr>runs := update_where p (acquire_values w t) (runs d)\<rparr>)"
  by (rule db_ok_update) (auto simp: acquire_values_def row_defs)

lemma db_ok_claim: "db_ok cfg d \<Longrightarrow> claim_run c dur now rid w d = (out, d') \<Longrightarrow> db_ok cfg d'"
  by (auto simp: claim_run_def Let_def is_active_iff split: if_splits intro!: db_ok_acquire_update)

lemma db_ok_recover:
  assumes "db_ok cfg d" and "recover_crashed_runs cfg now locked rids d = Inr (x, d')"
  shows "db_ok cfg d'"
proof -
  have wf: "wf_db d" using assms(1) by (simp add: db_ok_def)
  have wf': "wf_db d'" using recover_crashed_wf [OF assms(2) wf] .
  have "row_ok cfg r'" if "r' \<in> set (runs d')" for r'
  proof -
    have "lookup_run d' (r_run_id r') = Some r'" using that wf' by (simp add: lookup_run_eq)
    then obtain r where r: "lookup_run d (r_run_id r') = Some r"
      and eq: "r' = r \<or> r' = recovered_row cfg now r"
      by (auto simp: lookup_recover_crashed [OF assms(2) wf] split: if_splits)
    from r have "row_ok cfg r" using assms(1)
      by (auto simp: db_ok_def list_all_iff dest: lookup_run_SomeD)
    with eq show ?thesis by (auto simp: row_ok_recovered)
  qed
  with wf' show ?thesis by (simp add: db_ok_def list_all_iff)
qed

lemma db_ok_delete: "db_ok cfg d \<Longrightarrow> delete_thread_by_id tid uid d = (rids, d') \<Longrightarrow> db_ok cfg d'"
  by (auto simp: db_ok_def wf_db_def delete_thread_by_id_def list_all_iff distinct_map_delete_where
      split: if_splits)

lemma db_ok_delete_rows: "db_ok cfg d \<Longrightarrow> db_ok cfg (delete_rows p q d)"
  by (auto simp: db_ok_def wf_db_def delete_rows_def list_all_iff distinct_map_delete_where)

lemma db_ok_threads: "db_ok cfg d \<Longrightarrow> distinct (map t_thread_id ts) \<Longrightarrow> db_ok cfg (d\<lparr>threads := ts\<rparr>)"
  by (simp add: db_ok_def wf_db_def)

text \<open>The row of a new run; its parameters carry no retry counter.\<close>

lemma new_run_row_params:
  "params_ok (params_of (new_run_row c now st corr res a job))"
  "retries (new_run_row c now st corr res a job) = 0"
proof -
  let ?d = "dict_update (to_execution_params c job)
    [(''trace'', trace_params corr (j_user job) (ji_thread_id (j_identity job)) a)]"
  have params: "params_of (new_run_row c now st corr res a job) = bind_dict ?d"
    by (simp add: new_run_row_def params_of_def)
  have keys: "fst ` set ?d =
      {''graph_id'', ''user'', ''execution'', ''behavior'', ''run_metadata'', ''trace''}"
    by (auto simp: keys_dict_update to_execution_params_def)
  have wf: "wf_dict ?d"
    by (rule wf_dict_dict_update) (simp add: wf_dict_def to_execution_params_def)
  have nul: "CHR 0x00 \<notin> set k" if "k \<in> fst ` set ?d" for k
    using that unfolding keys by auto
  have none: "map_of ?d ''_retry_count'' = None"
    unfolding map_of_eq_None_iff keys by simp
  show "params_ok (params_of (new_run_row c now st corr res a job))"
    unfolding params by (rule params_ok_bind [OF wf nul]) (use none in auto)
  show "retries (new_run_row c now st corr res a job) = 0"
  proof -
    have "map_of (bind_dict ?d) ''_retry_count'' = None"
      by (subst map_of_bind_dict [OF wf nul]) (simp_all only: none option.map)
    then show ?thesis by (simp only: retries_def params option.case)
  qed
qed

lemma row_ok_new:
  "0 \<le> BG_JOB_MAX_RETRIES cfg \<Longrightarrow> row_ok cfg (new_run_row c now Pending corr res a job)"
  unfolding row_ok_def by (simp add: new_run_row_params) (simp add: new_run_row_def lease_ok_def)

lemma update_thread_metadata_threads:
  assumes "update_thread_metadata now tid aid gid uid inp d = Inr d'" and "distinct (map t_thread_id (threads d))"
  shows "runs d' = runs d \<and> distinct (map t_thread_id (threads d'))"
  using assms
  by (auto simp: update_thread_metadata_def Let_def lookup_thread_def first_where_None_iff
      map_key_update_where split: option.splits if_splits)

lemma set_thread_status_threads:
  "set_thread_status now tid st d = Inr d' \<Longrightarrow>
   runs d' = runs d \<and> map t_thread_id (threads d') = map t_thread_id (threads d)"
  by (auto simp: set_thread_status_def Let_def map_key_update_where split: if_splits dest!: bind_res_InrD)

lemma prepare_run_db:
  assumes "prepare_run env now rid tid rq u st v2 (d, q) = (res, d', q')"
  shows "d' = d \<or> (\<exists>a cc d1 d2 r.
    update_thread_metadata now tid (a_assistant_id a) (a_graph_id a) (Some (identity u)) (rc_input rq) d = Inr d1
    \<and> set_thread_status now tid ''busy'' d1 = Inr d2
    \<and> d' = d2\<lparr>runs := runs d2 @ [new_run_row (pe_codec env) now st (pe_correlation env) r a
         (build_job (pe_default_durability env) rid tid a u v2 rq (merged_config a cc))]\<rparr>)"
  using assms unfolding prepare_run_def Let_def
  by (auto split: sum.splits option.splits if_splits prod.splits dest!: bind_res_InrD) blast+

lemma db_ok_create:
  assumes "db_ok cfg d" and "rid \<notin> r_run_id ` set (runs d)" and "0 \<le> BG_JOB_MAX_RETRIES cfg"
    and "prepare_run env now rid tid rq u Pending v2 (d, q) = (res, d', q')"
  shows "db_ok cfg d' \<and> r_run_id ` set (runs d') \<subseteq> insert rid (r_run_id ` set (runs d))"
  using prepare_run_db [OF assms(4)]
proof (elim disjE exE conjE)
  assume "d' = d"
  with assms(1) show ?thesis by auto
next
  fix a cc d1 d2 r
  assume d1: "update_thread_metadata now tid (a_assistant_id a) (a_graph_id a) (Some (identity u)) (rc_input rq) d = Inr d1"
    and d2: "set_thread_status now tid ''busy'' d1 = Inr d2"
    and d': "d' = d2\<lparr>runs := runs d2 @ [new_run_row (pe_codec env) now Pending (pe_correlation env) r a
         (build_job (pe_default_durability env) rid tid a u v2 rq (merged_config a cc))]\<rparr>"
  have wf: "wf_db d" using assms(1) by (simp add: db_ok_def)
  from update_thread_metadata_threads [OF d1] set_thread_status_threads [OF d2] wf
  have "runs d2 = runs d" "distinct (map t_thread_id (threads d2))"
    by (auto simp: wf_db_def)
  moreover have "r_run_id (new_run_row (pe_codec env) now Pending (pe_correlation env) r a
      (build_job (pe_default_durability env) rid tid a u v2 rq (merged_config a cc))) = rid"
    by (simp add: new_run_row_def build_job_def)
  moreover have "lease_ok x" if "row_ok cfg x" for x using that by (simp add: row_ok_def)
  ultimately show ?thesis
    using assms(1,2) row_ok_new [OF assms(3)] wf by (auto simp: d' db_ok_def wf_db_def)
qed

lemma sys_inv_eq: "sys_inv cfg s \<longleftrightarrow>
    db_ok cfg (sys_db s) \<and> r_run_id ` set (runs (sys_db s)) \<subseteq> set (sys_used s)"
  by (auto simp: sys_inv_def db_ok_def)

subsection \<open>Rows only change as their transaction says\<close>

definition frozen :: "run_row \<Rightarrow> run_row \<Rightarrow> bool" where
  "frozen r r' =
     (r_status r' = r_status r \<and> r_output r' = r_output r \<and> r_error_message r' = r_error_message r)"

definition evolves :: "db \<Rightarrow> db \<Rightarrow> bool" where
  "evolves d d' =
     (\<forall>rid r'. lookup_run d' rid = Some r' \<longrightarrow>
        (\<exists>r. lookup_run d rid = Some r \<and> (terminal (r_status r) \<longrightarrow> frozen r r')
           \<and> (r_execution_params r \<noteq> None \<longrightarrow> r_execution_params r' \<noteq> None)))"

lemma evolves_refl [simp]: "evolves d d"
  by (auto simp: evolves_def frozen_def)

lemma evolves_trans: "evolves d d' \<Longrightarrow> evolves d' d'' \<Longrightarrow> evolves d d''"
  unfolding evolves_def frozen_def by (metis (no_types, lifting))

lemma evolves_lookup_eq: "(\<And>rid. lookup_run d' rid = lookup_run d rid) \<Longrightarrow> evolves d d'"
  by (auto simp: evolves_def frozen_def)

lemma evolves_update:
  assumes "\<And>r. r_run_id (f r) = r_run_id r"
    and "\<And>r. p r \<Longrightarrow> terminal (r_status r) \<Longrightarrow> frozen r (f r)"
    and "\<And>r. r_execution_params r \<noteq> None \<Longrightarrow> r_execution_params (f r) \<noteq> None"
  shows "evolves d (d\<lparr>runs := update_where p f (runs d)\<rparr>)"
  using assms(2,3) by (auto simp: evolves_def lookup_run_update_where [OF assms(1)] frozen_def)

lemma evolves_thread_status: "evolves d d' \<Longrightarrow> evolves d (set_thread_status_if_no_active_runs now tids st uid d')"
  by (simp add: evolves_def)

lemma evolves_start: "start_run now rid uid d = (b, d') \<Longrightarrow> evolves d d'"
  by (auto simp: start_run_def Let_def active_not_terminal split: if_splits intro!: evolves_update)

lemma evolves_heartbeat: "heartbeat_step dur now rid w ok d = (h, d') \<Longrightarrow> evolves d d'"
  by (auto simp: heartbeat_step_def Let_def frozen_def split: if_splits intro!: evolves_update)

lemma evolves_release: "evolves d (release_lease rid w d)"
  by (auto simp: release_lease_def frozen_def intro!: evolves_update)

lemma evolves_interrupt: "interrupt_unowned_run now rid tid uid d = (b, d') \<Longrightarrow> evolves d d'"
  by (auto simp: interrupt_unowned_run_def Let_def active_not_terminal split: if_splits
      intro!: evolves_update evolves_thread_status)

lemma evolves_requeue: "requeue_drained_runs rs rids (d, q) = (d', q') \<Longrightarrow> evolves d d'"
  by (auto simp: requeue_drained_runs_def Let_def requeue_values_def terminal_iff intro!: evolves_update)

lemma evolves_finalize: "finalize_run now rid tid uid st ts outp err d = Inr (b, d') \<Longrightarrow> evolves d d'"
  by (auto simp: finalize_run_def Let_def active_not_terminal finalize_values_def split: if_splits dest!: bind_res_InrD
      intro!: evolves_update evolves_thread_status)

lemma evolves_claim: "claim_run c dur now rid w d = (out, d') \<Longrightarrow> evolves d d'"
  by (auto simp: claim_run_def Let_def acquire_values_def terminal_iff split: if_splits intro!: evolves_update)

text \<open>Only a row without parameters makes a worker fail it.\<close>

lemma claim_missing:
  assumes "wf_db d" and "claim_run c dur now rid w d = (MissingParams, d')"
  shows "\<exists>r. lookup_run d rid = Some r \<and> r_execution_params r = None"
proof -
  let ?p = "\<lambda>r. r_run_id r = rid \<and> r_status r = Pending \<and> r_claimed_by r = None"
  from assms obtain r where "lookup_run d rid = Some r" "r_status r = Pending" "r_claimed_by r = None"
    by (auto simp: claim_run_def Let_def select_run_Nil_iff split: if_splits)
  with lookup_run_SomeD [OF this(1)] have r: "lookup_run d rid = Some r" "?p r" by auto
  have "lookup_run (d\<lparr>runs := update_where ?p (acquire_values w (now + dur)) (runs d)\<rparr>) rid = Some (acquire_values w (now + dur) r)"
    using r by (simp add: lookup_acquire_update)
  then have "r_execution_params (acquire_values w (now + dur) r) = None"
    using assms(2) by (auto simp: claim_run_def Let_def split: if_splits option.splits sum.splits)
  then show ?thesis using r by (simp add: acquire_values_def)
qed

lemma lookup_fail_missing: "x \<noteq> rid \<Longrightarrow> lookup_run (fail_missing rid w d) x = lookup_run d x"
  unfolding fail_missing_def
  by (subst lookup_run_update_where) (auto simp: missing_params_values_def dest: lookup_run_SomeD intro!: map_option_idI)

lemma ids_fail_missing: "r_run_id ` set (runs (fail_missing rid w d)) = r_run_id ` set (runs d)"
proof -
  have "map r_run_id (runs (fail_missing rid w d)) = map r_run_id (runs d)"
    unfolding fail_missing_def by (simp add: map_key_update_where missing_params_values_def)
  then show ?thesis by (metis set_map)
qed

lemma recovered_row_params: "r_execution_params r \<noteq> None \<Longrightarrow> r_execution_params (recovered_row cfg now r) \<noteq> None"
  by (auto simp: recovered_row_def recover_values_def Let_def split: sum.splits)

lemma evolves_recover:
  assumes "wf_db d" and "recover_crashed_runs cfg now locked rids d = Inr (x, d')"
  shows "evolves d d'"
  unfolding evolves_def lookup_recover_crashed [OF assms(2,1)]
  by (auto simp: frozen_def crashed_def terminal_iff recovered_row_params split: if_splits)

lemma lookup_delete_where:
  "lookup_run (d\<lparr>runs := delete_where p (runs d)\<rparr>) rid = Some r' \<Longrightarrow> wf_db d \<Longrightarrow> lookup_run d rid = Some r'"
  by (auto simp: lookup_run_eq dest!: lookup_run_SomeD)

lemma evolves_delete:
  assumes "wf_db d" and "delete_thread_by_id tid uid d = (rids, d')"
  shows "evolves d d'"
proof (cases "d' = d")
  case False
  then have "runs d' = delete_where (\<lambda>r. r_thread_id r = tid) (runs d)"
    using assms(2) by (auto simp: delete_thread_by_id_def split: if_splits)
  then have "lookup_run d' rid = Some r' \<Longrightarrow> lookup_run d rid = Some r'" for rid r'
    using assms(1) by (auto simp: lookup_run_eq dest!: lookup_run_SomeD)
  then show ?thesis by (auto simp: evolves_def frozen_def)
qed simp

lemma evolves_delete_rows: "wf_db d \<Longrightarrow> evolves d (delete_rows p q d)"
proof -
  assume wf: "wf_db d"
  have wf': "wf_db (delete_rows p q d)" using wf by (auto simp: wf_db_def delete_rows_def list_all_iff distinct_map_delete_where)
  have "lookup_run (delete_rows p q d) rid = Some r' \<Longrightarrow> lookup_run d rid = Some r'" for rid r'
    using wf wf' by (auto simp: lookup_run_eq) (auto simp: delete_rows_def)
  then show ?thesis by (auto simp: evolves_def frozen_def)
qed

lemma evolves_threads: "evolves d (d\<lparr>threads := ts\<rparr>)"
  by (auto simp: evolves_def frozen_def)

lemma evolves_ids: "evolves d d' \<Longrightarrow> r_run_id ` set (runs d') \<subseteq> r_run_id ` set (runs d)"
proof
  fix rid assume ev: "evolves d d'" and "rid \<in> r_run_id ` set (runs d')"
  then have "lookup_run d' rid \<noteq> None" by (simp add: lookup_run_None_iff)
  with ev have "lookup_run d rid \<noteq> None" unfolding evolves_def by blast
  then show "rid \<in> r_run_id ` set (runs d)" by (simp add: lookup_run_None_iff)
qed

text \<open>A creation leaves every other run alone.\<close>

lemma find_append: "find P (xs @ ys) = (case find P xs of None \<Rightarrow> find P ys | Some x \<Rightarrow> Some x)"
  by (induction xs) auto

lemma lookup_create:
  assumes "db_ok cfg d" and "prepare_run env now rid tid rq u st v2 (d, q) = (res, d', q')" and "rid' \<noteq> rid"
  shows "lookup_run d' rid' = lookup_run d rid'"
  using prepare_run_db [OF assms(2)]
proof (elim disjE exE conjE)
  fix a cc d1 d2 r
  assume d1: "update_thread_metadata now tid (a_assistant_id a) (a_graph_id a) (Some (identity u)) (rc_input rq) d = Inr d1"
    and d2: "set_thread_status now tid ''busy'' d1 = Inr d2"
    and d': "d' = d2\<lparr>runs := runs d2 @ [new_run_row (pe_codec env) now st (pe_correlation env) r a
         (build_job (pe_default_durability env) rid tid a u v2 rq (merged_config a cc))]\<rparr>"
  have "runs d2 = runs d"
    using update_thread_metadata_threads [OF d1] set_thread_status_threads [OF d2] assms(1)
    by (auto simp: db_ok_def wf_db_def)
  then show ?thesis
    using assms(3) by (auto simp: d' lookup_run_def first_where_def find_append new_run_row_def build_job_def
        split: option.splits)
qed simp

subsection \<open>Steps of the system\<close>

definition failing_from :: "sys \<Rightarrow> sys \<Rightarrow> bool" where
  "failing_from s s' \<longleftrightarrow>
     (\<forall>(rid, w) \<in> set (sys_failing s'). (rid, w) \<in> set (sys_failing s)
        \<or> (\<exists>r. lookup_run (sys_db s) rid = Some r \<and> r_execution_params r = None))"

lemma step_cases:
  assumes "sys_step c cfg dur s s'" and "db_ok cfg (sys_db s)"
  shows "failing_from s s' \<and>
    ((evolves (sys_db s) (sys_db s') \<and> db_ok cfg (sys_db s') \<and> sys_used s' = sys_used s)
    \<or> (\<exists>env now rid tid rq u v2 res q. rid \<notin> set (sys_used s) \<and> sys_used s' = rid # sys_used s
         \<and> prepare_run env now rid tid rq u Pending v2 (sys_db s, sys_queue s) = (res, sys_db s', q))
    \<or> (\<exists>rid w. (rid, w) \<in> set (sys_failing s) \<and> sys_db s' = fail_missing rid w (sys_db s) \<and> sys_used s' = sys_used s))"
proof -
  have wf: "wf_db (sys_db s)" using assms(2) by (simp add: db_ok_def)
  from assms(1) show ?thesis
  proof cases
    case create
    have "failing_from s s'" using create by (auto simp: failing_from_def)
    moreover have "\<exists>env now rid tid rq u v2 res q. rid \<notin> set (sys_used s) \<and> sys_used s' = rid # sys_used s
         \<and> prepare_run env now rid tid rq u Pending v2 (sys_db s, sys_queue s) = (res, sys_db s', q)"
      using create by (simp, blast)
    ultimately show ?thesis by blast
  next
    case (claim now rid w out d)
    have "failing_from s s'" using claim(1) claim_missing [OF wf, of c dur now rid w] claim(2)
      by (auto simp: failing_from_def split: if_splits)
    then show ?thesis using claim evolves_claim [OF claim(2)] db_ok_claim [OF assms(2) claim(2)] by simp
  next
    case (fail rid w)
    have "failing_from s s'" using fail(1) set_remove1_subset [of "(rid, w)" "sys_failing s"] by (auto simp: failing_from_def)
    then show ?thesis using fail by auto
  qed (use assms(2) wf in \<open>auto simp: failing_from_def intro: evolves_start evolves_heartbeat evolves_release evolves_interrupt
        evolves_requeue evolves_finalize evolves_recover evolves_delete evolves_delete_rows evolves_threads
        db_ok_start db_ok_heartbeat db_ok_release db_ok_interrupt db_ok_requeue db_ok_finalize
        db_ok_recover db_ok_delete db_ok_delete_rows db_ok_threads\<close>)
qed

lemma sys_inv_step:
  assumes "sys_step c cfg dur s s'" and "sys_inv cfg s" and "0 \<le> BG_JOB_MAX_RETRIES cfg"
  shows "sys_inv cfg s'"
proof -
  have ok: "db_ok cfg (sys_db s)" and ids: "r_run_id ` set (runs (sys_db s)) \<subseteq> set (sys_used s)"
    using assms(2) by (auto simp: sys_inv_eq)
  from conjunct2 [OF step_cases [OF assms(1) ok]] show ?thesis
  proof (elim disjE exE conjE)
    assume "evolves (sys_db s) (sys_db s')" "db_ok cfg (sys_db s')" "sys_used s' = sys_used s"
    with ids evolves_ids [of "sys_db s" "sys_db s'"] show ?thesis by (auto simp: sys_inv_eq)
  next
    fix env now rid tid rq u v2 res q
    assume rid: "rid \<notin> set (sys_used s)" "sys_used s' = rid # sys_used s"
      and prep: "prepare_run env now rid tid rq u Pending v2 (sys_db s, sys_queue s) = (res, sys_db s', q)"
    then show ?thesis
      using db_ok_create [OF ok _ assms(3) prep] ids by (auto simp: sys_inv_eq)
  next
    fix rid w
    assume "sys_db s' = fail_missing rid w (sys_db s)" "sys_used s' = sys_used s"
    then show ?thesis using db_ok_fail [OF ok, of rid w] ids by (simp add: sys_inv_eq ids_fail_missing)
  qed
qed

lemma sys_inv_steps:
  assumes "(sys_step c cfg dur)\<^sup>*\<^sup>* s s'" and "sys_inv cfg s" and "0 \<le> BG_JOB_MAX_RETRIES cfg"
  shows "sys_inv cfg s'"
  using assms(1) by (induction rule: rtranclp_induct) (auto intro: assms(2,3) sys_inv_step)

definition settled :: "run_id \<Rightarrow> run_row \<Rightarrow> sys \<Rightarrow> bool" where
  "settled rid r s \<longleftrightarrow>
     rid \<in> set (sys_used s) \<and> rid \<notin> fst ` set (sys_failing s)
     \<and> (\<forall>r'. lookup_run (sys_db s) rid = Some r' \<longrightarrow> frozen r r' \<and> r_execution_params r' \<noteq> None)"

lemma settled_step:
  assumes "sys_step c cfg dur s s'" and "sys_inv cfg s" and "settled rid r s" and "terminal (r_status r)"
  shows "settled rid r s'"
proof -
  have ok: "db_ok cfg (sys_db s)" using assms(2) by (simp add: sys_inv_eq)
  note cases = step_cases [OF assms(1) ok]
  have failing: "rid \<notin> fst ` set (sys_failing s')"
  proof
    assume "rid \<in> fst ` set (sys_failing s')"
    then obtain w where "(rid, w) \<in> set (sys_failing s')" by auto
    with conjunct1 [OF cases] have "(rid, w) \<in> set (sys_failing s) \<or> (\<exists>r. lookup_run (sys_db s) rid = Some r \<and> r_execution_params r = None)"
      unfolding failing_from_def by blast
    with assms(3) show False by (force simp: settled_def)
  qed
  from conjunct2 [OF cases] show ?thesis
  proof (elim disjE exE conjE)
    assume ev: "evolves (sys_db s) (sys_db s')" "sys_used s' = sys_used s"
    have "frozen r r' \<and> r_execution_params r' \<noteq> None" if "lookup_run (sys_db s') rid = Some r'" for r'
    proof -
      from ev(1) that obtain r0 where r0: "lookup_run (sys_db s) rid = Some r0" "terminal (r_status r0) \<longrightarrow> frozen r0 r'"
        "r_execution_params r0 \<noteq> None \<longrightarrow> r_execution_params r' \<noteq> None" unfolding evolves_def by blast
      with assms(3) have "frozen r r0" "r_execution_params r0 \<noteq> None" by (auto simp: settled_def)
      with r0 assms(4) show ?thesis by (simp add: frozen_def)
    qed
    with ev failing assms(3) show ?thesis by (simp add: settled_def)
  next
    fix env now rid0 tid rq u v2 res q
    assume "rid0 \<notin> set (sys_used s)" "sys_used s' = rid0 # sys_used s"
      and prep: "prepare_run env now rid0 tid rq u Pending v2 (sys_db s, sys_queue s) = (res, sys_db s', q)"
    with assms(3) have "rid \<noteq> rid0" by (auto simp: settled_def)
    from lookup_create [OF ok prep this] assms(3) failing \<open>sys_used s' = _\<close> show ?thesis
      by (simp add: settled_def)
  next
    fix rid0 w
    assume f: "(rid0, w) \<in> set (sys_failing s)" "sys_db s' = fail_missing rid0 w (sys_db s)" "sys_used s' = sys_used s"
    then have "rid \<noteq> rid0" using assms(3) by (force simp: settled_def)
    from lookup_fail_missing [OF this] f assms(3) failing show ?thesis by (simp add: settled_def)
  qed
qed

lemma settled_steps:
  assumes "(sys_step c cfg dur)\<^sup>*\<^sup>* s s'" and "sys_inv cfg s" and "0 \<le> BG_JOB_MAX_RETRIES cfg"
    and "settled rid r s" and "terminal (r_status r)"
  shows "settled rid r s'"
  using assms(1)
proof (induction rule: rtranclp_induct)
  case (step y z)
  have "sys_inv cfg y" using sys_inv_steps [OF step.hyps(1) assms(2,3)] .
  from settled_step [OF step.hyps(2) this step.IH assms(5)] show ?case .
qed (rule assms(4))

subsection \<open>Properties of the run store\<close>

definition fresh_sys :: "sys \<Rightarrow> bool" where
  "fresh_sys s \<longleftrightarrow> runs (sys_db s) = [] \<and> distinct (map t_thread_id (threads (sys_db s)))"

lemma fresh_sys_inv: "fresh_sys s \<Longrightarrow> sys_inv cfg s"
  by (simp add: fresh_sys_def sys_inv_def wf_db_def)

text \<open>
  Claim C1.  A settled run stays settled.  In every interleaving of the transactions of the API, the
  workers and the reaper and of the deletions, at any clock readings, once a run that was stored
  with its parameters (every run the server creates is) and that no worker is about to fail for
  missing them has a final status, its status, output and error message never change again; the
  row can only be deleted.
\<close>

theorem settled_runs_stay_settled:
  assumes "(sys_step c cfg dur)\<^sup>*\<^sup>* s s'" and "sys_inv cfg s" and "0 \<le> BG_JOB_MAX_RETRIES cfg"
    and "lookup_run (sys_db s) rid = Some r" and "terminal (r_status r)"
    and "r_execution_params r \<noteq> None" and "rid \<notin> fst ` set (sys_failing s)"
    and "lookup_run (sys_db s') rid = Some r'"
  shows "r_status r' = r_status r \<and> r_output r' = r_output r \<and> r_error_message r' = r_error_message r"
proof -
  have "rid \<in> set (sys_used s)"
    using assms(2) lookup_run_SomeD [OF assms(4)] by (auto simp: sys_inv_def)
  then have "settled rid r s" using assms(4,6,7) by (simp add: settled_def frozen_def)
  from settled_steps [OF assms(1-3) this assms(5)] assms(8) show ?thesis
    by (simp add: settled_def frozen_def)
qed

definition example_sys :: "run_row list \<Rightarrow> sys" where
  "example_sys rs = \<lparr>sys_db = example_db rs, sys_queue = [], sys_used = map r_run_id rs, sys_failing = []\<rparr>"

definition example_settings :: reaper_settings where
  "example_settings = \<lparr>BG_JOB_MAX_RETRIES = 3, STUCK_PENDING_THRESHOLD_SECONDS = 60\<rparr>"

lemma example_row_ok:
  "lease_ok (example_run rid st w l) \<Longrightarrow> row_ok example_settings (example_run rid st w l)"
  by (simp add: row_ok_def params_ok_def wf_dict_def params_of_def retries_def example_run_def example_settings_def)

lemma example_sys_inv: "lease_ok (example_run rid st w l) \<Longrightarrow> sys_inv example_settings (example_sys [example_run rid st w l])"
  using wf_example_db example_row_ok [of rid st w l]
  by (simp add: sys_inv_def example_sys_def) (simp add: example_db_def)

theorem settled_runs_stay_settled_witness:
  "\<exists>s'. sys_step plain_codec example_settings 30 (example_sys [example_run ''r1'' Success None None]) s' \<and>
     sys_db s' = snd (start_run 9 ''r1'' ''alice'' (example_db [example_run ''r1'' Success None None])) \<and>
     (\<forall>r'. lookup_run (sys_db s') ''r1'' = Some r' \<longrightarrow> r_status r' = Success)"
proof -
  let ?s = "example_sys [example_run ''r1'' Success None None]"
  let ?s' = "?s\<lparr>sys_db := snd (start_run 9 ''r1'' ''alice'' (sys_db ?s))\<rparr>"
  have step: "sys_step plain_codec example_settings 30 ?s ?s'"
    by (rule sys_step.start [OF prod.collapse [symmetric]])
  have inv: "sys_inv example_settings ?s" by (rule example_sys_inv) (simp add: lease_ok_def example_run_def)
  have look: "lookup_run (sys_db ?s) ''r1'' = Some (example_run ''r1'' Success None None)"
    by (simp add: example_sys_def) (simp add: example_run_def)
  have "r_status r' = Success" if "lookup_run (sys_db ?s') ''r1'' = Some r'" for r'
    using settled_runs_stay_settled [OF r_into_rtranclp [of "sys_step plain_codec example_settings 30", OF step] inv _ look _ _ _ that]
    by (simp add: example_settings_def terminal_iff example_run_def example_sys_def)
  then show ?thesis using step by (intro exI [of _ ?s']) (simp add: example_sys_def)
qed

text \<open>
  A run without parameters is the exception: a late write can settle it between the two
  transactions of the worker that claimed it, whose second one asks for the claim only.
\<close>

lemma missing_params_overwrite:
  "runs (fail_missing ''r1'' ''w1'' (example_db [(example_run ''r1'' Interrupted (Some ''w1'') (Some 40))\<lparr>r_execution_params := None\<rparr>]))
   = [(example_run ''r1'' Error None None)\<lparr>r_execution_params := None,
        r_error_message := Some ''Run missing execution_params (data corruption or pre-migration row)''\<rparr>]"
  by (simp add: fail_missing_def missing_params_values_def example_db_def example_run_def)

text \<open>
  Claim C7.  Ownership and retry budget of every run that can arise.  Starting without runs, in
  every reachable state run ids are unique, the two lease columns of a run are set together, a
  pending run has no owner, and a run that is still active has used no more than the configured
  number of retries.
\<close>

theorem reachable_runs_ok:
  assumes "(sys_step c cfg dur)\<^sup>*\<^sup>* s s'" and "fresh_sys s" and "0 \<le> BG_JOB_MAX_RETRIES cfg"
  shows "distinct (map r_run_id (runs (sys_db s'))) \<and>
    (\<forall>r \<in> set (runs (sys_db s')).
       (r_claimed_by r = None \<longleftrightarrow> r_lease_expires_at r = None) \<and>
       (r_status r = Pending \<longrightarrow> r_claimed_by r = None) \<and>
       (is_active r \<longrightarrow> retries r \<le> BG_JOB_MAX_RETRIES cfg))"
  using sys_inv_steps [OF assms(1) fresh_sys_inv [OF assms(2)] assms(3)]
  by (auto simp: sys_inv_def wf_db_def list_all_iff row_ok_def lease_ok_def)

theorem reachable_runs_ok_witness:
  "\<exists>s'. (sys_step plain_codec example_settings 30)\<^sup>*\<^sup>* (example_sys []) s' \<and> length (runs (sys_db s')) = 1 \<and>
     (\<forall>r \<in> set (runs (sys_db s')). r_status r = Pending \<longrightarrow> r_claimed_by r = None)"
proof -
  obtain job d' q' where p: "prepare_run (example_env RedisUp) 10 ''r2'' ''t1'' example_request example_user Pending False
      (example_db [], []) = (Inr job, d', q')" using example_prepared by blast
  let ?s' = "(example_sys [])\<lparr>sys_db := d', sys_queue := q', sys_used := ''r2'' # sys_used (example_sys [])\<rparr>"
  have step: "sys_step plain_codec example_settings 30 (example_sys []) ?s'"
    by (rule sys_step.create [where env = "example_env RedisUp"])
      (use p in \<open>simp_all add: example_sys_def example_env_def\<close>)
  have "length (runs d') = 1"
    using p by (rule prepare_run_InrD) (simp add: example_db_def)
  moreover note reachable_runs_ok [OF r_into_rtranclp [of "sys_step plain_codec example_settings 30", OF step]]
  ultimately show ?thesis using step
    by (intro exI [of _ ?s']) (auto simp: fresh_sys_def example_sys_def example_settings_def example_db_def)
qed

lemma recover_all_total:
  "\<forall>row \<in> set rows. params_ok (params_of row) \<Longrightarrow> \<exists>st'. recover_all cfg now rows st = Inr st'"
proof (induction rows arbitrary: st)
  case (Cons row rows)
  then have "\<exists>st1. recover_one cfg now row st = Inr st1"
    by (simp add: recover_one_def Let_def retry_count_ok)
  with Cons show ?case by auto
qed simp

text \<open>
  Claim C6.  Recovery of crashed runs.  On the databases that can arise the reaper's transaction
  does not fail; a crashed run it was told about and could lock is charged one retry, loses its
  owner and lease, and goes back to pending, or to error exactly when the budget is exceeded;
  every other run is left as it is.
\<close>

theorem crashed_runs_recovered:
  assumes "db_ok cfg d"
  shows "\<exists>x d'. recover_crashed_runs cfg now locked rids d = Inr (x, d') \<and>
    (\<forall>rid r. lookup_run d rid = Some r \<longrightarrow>
       (if rid \<in> set rids \<and> crashed now r \<and> \<not> locked rid
        then \<exists>r'. lookup_run d' rid = Some r' \<and> retries r' = retries r + 1 \<and>
               r_claimed_by r' = None \<and> r_lease_expires_at r' = None \<and>
               r_status r' = (if retries r + 1 > BG_JOB_MAX_RETRIES cfg then Error else Pending)
        else lookup_run d' rid = Some r))"
proof -
  have wf: "wf_db d" and ok: "\<And>r. r \<in> set (runs d) \<Longrightarrow> params_ok (params_of r)"
    using assms by (auto simp: db_ok_def list_all_iff row_ok_def)
  have "\<exists>st'. recover_all cfg now
      (select_where (\<lambda>r. r_run_id r \<in> set rids \<and> crashed now r \<and> \<not> locked (r_run_id r)) (runs d))
      \<lparr>rec_retryable = [], rec_exhausted = [], rec_threads = [], rec_db = d\<rparr> = Inr st'"
    using ok by (intro recover_all_total) simp
  then obtain x d' where rec: "recover_crashed_runs cfg now locked rids d = Inr (x, d')"
    by (auto simp: recover_crashed_runs_def)
  have "if rid \<in> set rids \<and> crashed now r \<and> \<not> locked rid
        then \<exists>r'. lookup_run d' rid = Some r' \<and> retries r' = retries r + 1 \<and>
               r_claimed_by r' = None \<and> r_lease_expires_at r' = None \<and>
               r_status r' = (if retries r + 1 > BG_JOB_MAX_RETRIES cfg then Error else Pending)
        else lookup_run d' rid = Some r" if r: "lookup_run d rid = Some r" for rid r
  proof -
    have "params_ok (params_of r)" using ok lookup_run_SomeD [OF r] by blast
    with r show ?thesis
      using retries_recovered [of r cfg now]
      by (simp add: lookup_recover_crashed [OF rec wf]) (simp add: recovered_row_eq recover_values_def Let_def)
  qed
  with rec show ?thesis by blast
qed

theorem crashed_runs_recovered_witness:
  "\<exists>x d' r'. recover_crashed_runs example_settings 50 (\<lambda>_. False) [''r1'']
       (example_db [example_run ''r1'' Running (Some ''w1'') (Some 40)]) = Inr (x, d') \<and>
     lookup_run d' ''r1'' = Some r' \<and> r_status r' = Pending \<and> r_claimed_by r' = None \<and> retries r' = 2"
proof -
  let ?r = "example_run ''r1'' Running (Some ''w1'') (Some 40)"
  have "lease_ok ?r" by (simp add: lease_ok_def example_run_def)
  then have ok: "db_ok example_settings (example_db [?r])"
    using wf_example_db example_row_ok by (simp add: db_ok_def) (simp add: example_db_def)
  have look: "lookup_run (example_db [?r]) ''r1'' = Some ?r" by simp (simp add: example_run_def)
  from crashed_runs_recovered [OF ok, of 50 "\<lambda>_. False" "[''r1'']"] look show ?thesis
    by (fastforce simp: crashed_def lease_expired_def example_run_def retries_def params_of_def example_settings_def)
qed

text \<open>The five keys a worker rebuilds the job from are in the row as they were dumped.\<close>

definition job_keys :: "string set" where
  "job_keys = {''graph_id'', ''user'', ''execution'', ''behavior'', ''run_metadata''}"

definition carries :: "codec \<Rightarrow> run_job \<Rightarrow> run_row \<Rightarrow> bool" where
  "carries c job r \<longleftrightarrow>
     r_execution_params r \<noteq> None \<and> params_ok (params_of r) \<and>
     (\<forall>k \<in> job_keys. map_of (params_of r) k = map_of (to_execution_params c job) k) \<and>
     r_run_id r = ji_run_id (j_identity job) \<and> r_thread_id r = ji_thread_id (j_identity job)"

definition storable :: "codec \<Rightarrow> run_job \<Rightarrow> bool" where
  "storable c job \<longleftrightarrow> no_nul (JObj (to_execution_params c job)) \<and> wf_json (JObj (to_execution_params c job))"

lemma storable_value:
  assumes "storable c job" and "map_of (to_execution_params c job) k = Some v"
  shows "strip_null_bytes n v = v"
proof -
  have "(k, v) \<in> set (to_execution_params c job)" using assms(2) by (rule map_of_SomeD)
  with assms(1) have "no_nul v" "wf_json v" by (auto simp: storable_def)
  then show ?thesis by (rule strip_null_bytes_id)
qed

lemma carries_loads: "lossless_codec c \<Longrightarrow> carries c job r \<Longrightarrow> from_run_orm c r = Inr job"
  by (rule lossless_codec.from_run_orm_params [where params = "params_of r"])
    (auto simp: carries_def job_keys_def params_of_def)

lemma bind_keeps:
  assumes "storable c job" and "wf_dict d" and "\<And>k. k \<in> fst ` set d \<Longrightarrow> CHR 0x00 \<notin> set k"
    and "map_of d k = map_of (to_execution_params c job) k"
  shows "map_of (bind_dict d) k = map_of (to_execution_params c job) k"
proof -
  have "map_of (bind_dict d) k = map_option (strip_null_bytes 1) (map_of (to_execution_params c job) k)"
    using map_of_bind_dict [OF assms(2,3)] assms(4) by simp
  then show ?thesis
    using storable_value [OF assms(1), of k] by (cases "map_of (to_execution_params c job) k") simp_all
qed

lemma carries_new: "storable c job \<Longrightarrow> carries c job (new_run_row c now st corr res a job)"
proof -
  assume st: "storable c job"
  let ?d = "dict_update (to_execution_params c job)
    [(''trace'', trace_params corr (j_user job) (ji_thread_id (j_identity job)) a)]"
  have params: "params_of (new_run_row c now st corr res a job) = bind_dict ?d" for st
    by (simp add: new_run_row_def params_of_def)
  have wf: "wf_dict ?d" by (rule wf_dict_dict_update) (simp add: wf_dict_def to_execution_params_def)
  have keys: "CHR 0x00 \<notin> set k" if "k \<in> fst ` set ?d" for k
    using that by (auto simp: keys_dict_update to_execution_params_def)
  have "map_of (bind_dict ?d) k = map_of (to_execution_params c job) k" if "k \<in> job_keys" for k
  proof -
    have "map_of ?d k = map_of (to_execution_params c job) k"
      using that by (intro map_of_dict_update_other) (auto simp: job_keys_def)
    then show ?thesis by (rule bind_keeps [OF st wf, rotated]) (rule keys)
  qed
  moreover have "params_ok (bind_dict ?d)"
    using new_run_row_params(1) [of c now st corr res a job] unfolding params .
  ultimately show ?thesis
    unfolding carries_def params by (simp add: new_run_row_def)
qed

lemma carries_recovered:
  assumes "storable c job" and "carries c job r"
  shows "carries c job (recovered_row cfg now r)"
proof -
  have ok: "params_ok (params_of r)" using assms(2) by (simp add: carries_def)
  let ?p = "AList.update ''_retry_count'' (JInt (retries r + 1)) (params_of r)"
  have wf: "wf_dict ?p" using ok by (simp add: params_ok_def)
  have keys: "CHR 0x00 \<notin> set k" if "k \<in> fst ` set ?p" for k
    using that params_ok_keys [OF ok, of k] by (auto simp: dom_update)
  have "map_of (bind_dict ?p) k = map_of (to_execution_params c job) k" if k: "k \<in> job_keys" for k
  proof -
    have "map_of ?p k = map_of (to_execution_params c job) k"
      using k assms(2) by (auto simp: carries_def job_keys_def)
    then show ?thesis by (rule bind_keeps [OF assms(1) wf, rotated]) (rule keys)
  qed
  then show ?thesis
    using assms(2) bump_params(1) [OF ok]
    by (simp add: carries_def recovered_row_eq [OF ok]) (simp add: recover_values_def Let_def)
qed

text \<open>
  A job survives its storage and every crash.  With models whose validation inverts
  their dump, a job free of NUL bytes that was stored with its run is loaded back by the worker
  exactly as it was submitted, also after any number of recoveries, each of which rewrites the
  stored parameters with a new retry count.
\<close>

theorem job_survives_recoveries:
  assumes "lossless_codec c" and "storable c job"
  shows "from_run_orm c ((recovered_row cfg t ^^ n) (new_run_row c now status corr res a job)) = Inr job"
proof -
  have "carries c job ((recovered_row cfg t ^^ n) (new_run_row c now status corr res a job))"
    by (induction n) (simp_all add: carries_new [OF assms(2)] carries_recovered [OF assms(2)])
  then show ?thesis by (rule carries_loads [OF assms(1)])
qed

theorem job_survives_recoveries_witness:
  "from_run_orm plain_codec ((recovered_row example_settings 99 ^^ 2)
      (new_run_row plain_codec 10 Pending ''c'' ''a1''
         \<lparr>a_assistant_id = ''a1'', a_graph_id = ''g'', a_config = None, a_context = None, a_user_id = ''alice''\<rparr>
         example_job)) = Inr example_job"
  by (rule job_survives_recoveries [OF plain.lossless_codec_axioms])
    (simp add: storable_def to_execution_params_def plain_codec_def example_job_def example_user_def json_of_opt_def)

text \<open>
  A run whose submission failed is not lost.  When preparation reports an error the
  queue is unchanged, and either nothing was committed or only the push to Redis failed; in that
  case the reaper lists the run as stuck as soon as it is older than the threshold, and queues
  it when Redis accepts the push.
\<close>

theorem unsubmitted_run_recoverable:
  assumes "prepare_run env now rid tid rq u Pending v2 (d, q) = (Inl e, d', q')"
  shows "q' = q \<and> (d' = d \<or>
    e = RedisError \<and>
    (\<forall>later. now + STUCK_PENDING_THRESHOLD_SECONDS cfg < later \<longrightarrow>
       rid \<in> set (snd (find_recoverable cfg later d')) \<and>
       (\<forall>q2. rid \<in> set q2 \<or> rid \<in> set (missing_from_queue RedisUp (snd (find_recoverable cfg later d')) q2))))"
proof -
  have "q' = q \<and> (d' = d \<or> e = RedisError)"
    using assms unfolding prepare_run_def Let_def
    by (auto simp: worker_submit_def split: sum.splits option.splits if_splits prod.splits)
  then show ?thesis using prepare_run_db [OF assms]
  proof (elim conjE disjE exE)
    fix a cc d1 d2 r
    assume e: "q' = q" "e = RedisError" and d': "d' = d2\<lparr>runs := runs d2 @ [new_run_row (pe_codec env) now Pending (pe_correlation env) r a
         (build_job (pe_default_durability env) rid tid a u v2 rq (merged_config a cc))]\<rparr>"
    then have "rid \<in> set (snd (find_recoverable cfg later d'))"
      if "now + STUCK_PENDING_THRESHOLD_SECONDS cfg < later" for later
      using that by (simp add: find_recoverable_def select_where_def new_run_row_def build_job_def)
    with e show ?thesis by (simp add: missing_from_queue_def)
  qed simp_all
qed

lemma prepare_run_redis_down:
  "prepare_run (example_env RedisUp) now rid tid rq u st v2 (d, q) = (Inr job, d', q') \<Longrightarrow>
   prepare_run (example_env RedisDown) now rid tid rq u st v2 (d, q) = (Inl RedisError, d', q)"
  unfolding prepare_run_def Let_def example_env_def prep_env.select_convs
  by (auto simp: worker_submit_def split: sum.splits prod.splits)

theorem unsubmitted_run_recoverable_witness:
  "\<exists>d'. prepare_run (example_env RedisDown) 10 ''r2'' ''t1'' example_request example_user Pending False
          (example_db [], []) = (Inl RedisError, d', []) \<and> d' \<noteq> example_db [] \<and>
        ''r2'' \<in> set (snd (find_recoverable example_settings 100 d'))"
proof -
  obtain job d' q' where up: "prepare_run (example_env RedisUp) 10 ''r2'' ''t1'' example_request example_user Pending False
      (example_db [], []) = (Inr job, d', q')" using example_prepared by blast
  then have p: "prepare_run (example_env RedisDown) 10 ''r2'' ''t1'' example_request example_user Pending False
      (example_db [], []) = (Inl RedisError, d', [])"
    by (rule prepare_run_redis_down)
  have "runs d' \<noteq> runs (example_db [])" using up by (rule prepare_run_InrD) (simp add: example_db_def)
  with unsubmitted_run_recoverable [OF p, of example_settings] p show ?thesis
    by (auto simp: example_settings_def)
qed

end
