(* ===== verification/Cron.thy ===== *)
theory Cron
  imports Run_System
begin

text \<open>
  Cron jobs: \<^verbatim>\<open>usecase/cron/service.py\<close> (creation, update, deletion, search, the claim of due
  crons and the advance of their next run) and \<^verbatim>\<open>usecase/cron/scheduler.py\<close> (the run request
  built from a cron and one tick of the scheduler).  The cron expression library and the time
  zone database are the two functions of a \<open>cron_env\<close>; the interface \<open>cron_library\<close> states what
  the code relies on: the next occurrence lies strictly after the base.
\<close>

record cron_row =
  c_cron_id :: string
  c_assistant_id :: string
  c_thread_id :: "thread_id option"
  c_user_id :: user_id
  c_schedule :: string
  c_payload :: dict
  c_metadata :: dict
  c_on_run_completed :: "string option"
  c_enabled :: bool
  c_end_time :: "time option"
  c_next_run_date :: "time option"
  c_claimed_until :: "time option"
  c_created_at :: time
  c_updated_at :: time

text \<open>
  The run related fields of a request are a dictionary without the fields that are \<open>None\<close>.
\<close>

record cron_create =
  cq_assistant_id :: string
  cq_schedule :: string
  cq_fields :: dict
  cq_metadata :: "dict option"
  cq_on_run_completed :: "string option"
  cq_end_time :: "time option"
  cq_enabled :: "bool option"

record cron_update =
  cu_schedule :: "string option"
  cu_fields :: dict
  cu_metadata :: "dict option"
  cu_on_run_completed :: "string option"
  cu_end_time :: "time option"
  cu_enabled :: "bool option"

record cron_env =
  ce_next :: "string \<Rightarrow> string option \<Rightarrow> time \<Rightarrow> time option"
  ce_zone_ok :: "string \<Rightarrow> bool"
  CRON_ALLOW_SECONDS_SCHEDULE :: bool
  CRON_MAX_PER_USER :: nat
  CRON_CLAIM_DURATION_SECONDS :: int
  CRON_TICK_BATCH_SIZE :: nat

subsection \<open>Schedules\<close>

definition payload_fields :: "string list" where
  "payload_fields =
     [''input'', ''config'', ''context'', ''interrupt_before'', ''interrupt_after'', ''webhook'',
      ''multitask_strategy'', ''stream_mode'', ''stream_subgraphs'', ''timezone'', ''durability'',
      ''checkpoint_during'']"

definition build_payload :: "dict \<Rightarrow> dict" where
  "build_payload flds =
     List.map_filter
       (\<lambda>f. case map_of flds f of None \<Rightarrow> None | Some JNull \<Rightarrow> None | Some v \<Rightarrow> Some (f, v)) payload_fields"

text \<open>\<open>str.split()\<close> without arguments: the number of words.\<close>

fun word_count :: "bool \<Rightarrow> string \<Rightarrow> nat" where
  "word_count inside [] = 0"
| "word_count inside (c # cs) =
     (if py_space c then word_count False cs
      else (if inside then 0 else 1) + word_count True cs)"

definition is_seconds_cron :: "string \<Rightarrow> bool" where
  "is_seconds_cron schedule = (word_count False schedule = 6)"

definition is_valid_schedule :: "cron_env \<Rightarrow> time \<Rightarrow> string \<Rightarrow> bool" where
  "is_valid_schedule env now schedule = (ce_next env schedule None now \<noteq> None)"

definition resolve_timezone :: "cron_env \<Rightarrow> string option \<Rightarrow> string option" where
  "resolve_timezone env tz = (case tz of None \<Rightarrow> None | Some z \<Rightarrow> if ce_zone_ok env z then Some z else None)"

definition compute_next_run :: "cron_env \<Rightarrow> string \<Rightarrow> time \<Rightarrow> string option \<Rightarrow> time result" where
  "compute_next_run env schedule now tz =
     (case ce_next env schedule (resolve_timezone env tz) now of
        None \<Rightarrow> Inl ValueError | Some t \<Rightarrow> Inr t)"

definition payload_timezone :: "dict \<Rightarrow> string option" where
  "payload_timezone payload = (case map_of payload ''timezone'' of Some (JStr z) \<Rightarrow> Some z | _ \<Rightarrow> None)"

definition should_delete_stateless_thread :: "cron_row \<Rightarrow> bool" where
  "should_delete_stateless_thread c = (c_thread_id c = None \<and> c_on_run_completed c \<noteq> Some ''keep'')"

subsection \<open>\<open>CronService\<close>\<close>

definition check_schedule :: "cron_env \<Rightarrow> time \<Rightarrow> string \<Rightarrow> unit result" where
  "check_schedule env now schedule =
     (if is_seconds_cron schedule \<and> \<not> CRON_ALLOW_SECONDS_SCHEDULE env then Inl (HTTPException 422)
      else if \<not> is_valid_schedule env now schedule then Inl (HTTPException 422) else Inr ())"

definition check_timezone :: "cron_env \<Rightarrow> dict \<Rightarrow> unit result" where
  "check_timezone env flds =
     (case payload_timezone flds of
        Some z \<Rightarrow> if ce_zone_ok env z then Inr () else Inl (HTTPException 422)
      | None \<Rightarrow> Inr ())"

definition create_cron ::
  "cron_env \<Rightarrow> prep_env \<Rightarrow> time \<Rightarrow> string \<Rightarrow> cron_create \<Rightarrow> user_id \<Rightarrow> thread_id option \<Rightarrow> cron_row list
   \<Rightarrow> (cron_row \<times> cron_row list) result"
where
  "create_cron env penv now new_id rq uid tid crons =
     bind_res (check_schedule env now (cq_schedule rq)) (\<lambda>_.
     bind_res (check_timezone env (cq_fields rq)) (\<lambda>_.
     if CRON_MAX_PER_USER env > 0
        \<and> length (select_where (\<lambda>c. c_user_id c = uid) crons) \<ge> CRON_MAX_PER_USER env
     then Inl (HTTPException 429)
     else
       (let resolved = resolve_assistant_id (pe_uuid5 penv) (pe_graphs penv) (cq_assistant_id rq)
        in case first_where (\<lambda>a. a_assistant_id a = resolved \<and> (a_user_id a = uid \<or> a_user_id a = ''system''))
                  (pe_assistants penv) of
             None \<Rightarrow> Inl (HTTPException 404)
           | Some a \<Rightarrow>
               if a_graph_id a \<notin> set (pe_graphs penv) then Inl (HTTPException 404)
               else
                 (let tz = payload_timezone (cq_fields rq)
                  in bind_res (compute_next_run env (cq_schedule rq) now tz) (\<lambda>first_occ.
                     bind_res (if cq_enabled rq \<noteq> Some False
                               then compute_next_run env (cq_schedule rq) first_occ tz
                               else Inr first_occ) (\<lambda>next_run.
                     let row = \<lparr>c_cron_id = new_id, c_assistant_id = resolved, c_thread_id = tid,
                           c_user_id = uid, c_schedule = cq_schedule rq,
                           c_payload = bind_dict (build_payload (cq_fields rq)),
                           c_metadata = bind_dict (case cq_metadata rq of None \<Rightarrow> [] | Some m \<Rightarrow> m),
                           c_on_run_completed = cq_on_run_completed rq,
                           c_enabled = (case cq_enabled rq of None \<Rightarrow> True | Some b \<Rightarrow> b),
                           c_end_time = cq_end_time rq, c_next_run_date = Some next_run,
                           c_claimed_until = None, c_created_at = now, c_updated_at = now\<rparr>
                     in Inr (row, crons @ [row])))))))"

definition get_cron_or_404 :: "string \<Rightarrow> user_id \<Rightarrow> cron_row list \<Rightarrow> cron_row result" where
  "get_cron_or_404 cid uid crons =
     (case first_where (\<lambda>c. c_cron_id c = cid \<and> c_user_id c = uid) crons of
        None \<Rightarrow> Inl (HTTPException 404) | Some c \<Rightarrow> Inr c)"

definition needs_recompute :: "time \<Rightarrow> cron_update \<Rightarrow> cron_row \<Rightarrow> bool" where
  "needs_recompute now rq c =
     (cu_schedule rq \<noteq> None \<or> payload_timezone (cu_fields rq) \<noteq> None
      \<or> (cu_enabled rq = Some True
         \<and> (case c_next_run_date c of None \<Rightarrow> False | Some t \<Rightarrow> t \<le> now)))"

definition update_cron_values :: "time \<Rightarrow> cron_update \<Rightarrow> dict \<Rightarrow> time option \<Rightarrow> cron_row \<Rightarrow> cron_row" where
  "update_cron_values now rq payload next_run c =
     c\<lparr>c_updated_at := now,
       c_schedule := (case cu_schedule rq of None \<Rightarrow> c_schedule c | Some s \<Rightarrow> s),
       c_end_time := (case cu_end_time rq of None \<Rightarrow> c_end_time c | Some t \<Rightarrow> Some t),
       c_on_run_completed := (case cu_on_run_completed rq of None \<Rightarrow> c_on_run_completed c | Some x \<Rightarrow> Some x),
       c_enabled := (case cu_enabled rq of None \<Rightarrow> c_enabled c | Some b \<Rightarrow> b),
       c_metadata := (case cu_metadata rq of None \<Rightarrow> c_metadata c | Some m \<Rightarrow> bind_dict m),
       c_payload := (if build_payload (cu_fields rq) = [] then c_payload c else bind_dict payload),
       c_next_run_date := (case next_run of None \<Rightarrow> c_next_run_date c | Some t \<Rightarrow> Some t)\<rparr>"

definition update_cron ::
  "cron_env \<Rightarrow> time \<Rightarrow> string \<Rightarrow> cron_update \<Rightarrow> user_id \<Rightarrow> cron_row list \<Rightarrow> (cron_row \<times> cron_row list) result"
where
  "update_cron env now cid rq uid crons =
     bind_res (get_cron_or_404 cid uid crons) (\<lambda>cron.
     bind_res (check_timezone env (cu_fields rq)) (\<lambda>_.
     bind_res (case cu_schedule rq of None \<Rightarrow> Inr () | Some s \<Rightarrow> check_schedule env now s) (\<lambda>_.
     let payload = dict_update (c_payload cron) (build_payload (cu_fields rq))
     in bind_res
          (if needs_recompute now rq cron
           then bind_res (compute_next_run env
                    (case cu_schedule rq of None \<Rightarrow> c_schedule cron | Some s \<Rightarrow> s) now (payload_timezone payload))
                  (\<lambda>t. Inr (Some t))
           else Inr None) (\<lambda>next_run.
        let p = (\<lambda>c. c_cron_id c = cid \<and> c_user_id c = uid);
            crons' = update_where p (update_cron_values now rq payload next_run) crons
        in case first_where p crons' of
             None \<Rightarrow> Inl (HTTPException 404) | Some c \<Rightarrow> Inr (c, crons')))))"

definition delete_cron :: "string \<Rightarrow> user_id \<Rightarrow> cron_row list \<Rightarrow> cron_row list result" where
  "delete_cron cid uid crons =
     bind_res (get_cron_or_404 cid uid crons) (\<lambda>_. Inr (delete_where (\<lambda>c. c_cron_id c = cid) crons))"

text \<open>
  The filters of \<open>search_crons\<close> and \<open>count_crons\<close>; \<open>contains\<close> is the JSONB operator \<open>@>\<close>.
\<close>

definition cron_matches ::
  "(dict \<Rightarrow> dict \<Rightarrow> bool) \<Rightarrow> user_id \<Rightarrow> string option \<Rightarrow> thread_id option \<Rightarrow> dict option \<Rightarrow> bool option
   \<Rightarrow> cron_row \<Rightarrow> bool"
where
  "cron_matches contains uid aid tid md enabled c =
     (c_user_id c = uid
      \<and> (case aid of None \<Rightarrow> True | Some a \<Rightarrow> c_assistant_id c = a)
      \<and> (case tid of None \<Rightarrow> True | Some t \<Rightarrow> c_thread_id c = Some t)
      \<and> (case md of None \<Rightarrow> True | Some [] \<Rightarrow> True | Some m \<Rightarrow> contains (c_metadata c) m)
      \<and> (case enabled of None \<Rightarrow> True | Some b \<Rightarrow> c_enabled c = b))"

definition count_crons ::
  "(dict \<Rightarrow> dict \<Rightarrow> bool) \<Rightarrow> user_id \<Rightarrow> string option \<Rightarrow> thread_id option \<Rightarrow> dict option \<Rightarrow> cron_row list \<Rightarrow> nat"
where
  "count_crons contains uid aid tid md crons =
     length (select_where (cron_matches contains uid aid tid md None) crons)"

text \<open>Claiming the due crons; \<open>locked\<close> are the rows other transactions hold.\<close>

definition claimable :: "time \<Rightarrow> cron_row \<Rightarrow> bool" where
  "claimable now c =
     (c_enabled c \<and> (case c_next_run_date c of None \<Rightarrow> False | Some t \<Rightarrow> t \<le> now)
      \<and> (case c_claimed_until c of None \<Rightarrow> True | Some t \<Rightarrow> t \<le> now))"

definition get_due_crons ::
  "cron_env \<Rightarrow> time \<Rightarrow> (string \<Rightarrow> bool) \<Rightarrow> cron_row list \<Rightarrow> cron_row list \<times> cron_row list"
where
  "get_due_crons env now locked crons =
     (let ids = map c_cron_id (take (CRON_TICK_BATCH_SIZE env)
            (sort_key (\<lambda>c. the (c_next_run_date c))
              (select_where (\<lambda>c. claimable now c \<and> \<not> locked (c_cron_id c)) crons)))
      in if ids = [] then ([], crons)
         else
           (let crons' = update_where (\<lambda>c. c_cron_id c \<in> set ids)
                  (\<lambda>c. c\<lparr>c_claimed_until := Some (now + CRON_CLAIM_DURATION_SECONDS env), c_updated_at := now\<rparr>) crons
            in (select_where (\<lambda>c. c_cron_id c \<in> set ids) crons', crons')))"

definition advance_next_run :: "cron_env \<Rightarrow> time \<Rightarrow> cron_row \<Rightarrow> cron_row list \<Rightarrow> cron_row list result" where
  "advance_next_run env now cron crons =
     (let p = (\<lambda>c. c_cron_id c = c_cron_id cron)
      in if (case c_end_time cron of None \<Rightarrow> False | Some e \<Rightarrow> now \<ge> e)
         then Inr (update_where p
                (\<lambda>c. c\<lparr>c_enabled := False, c_claimed_until := None, c_updated_at := now\<rparr>) crons)
         else bind_res (compute_next_run env (c_schedule cron) now (payload_timezone (c_payload cron))) (\<lambda>t.
                Inr (update_where p
                  (\<lambda>c. c\<lparr>c_next_run_date := Some t, c_claimed_until := None, c_updated_at := now\<rparr>) crons)))"

subsection \<open>The scheduler\<close>

text \<open>A stored field read back as a typed field of \<open>RunCreate\<close>.\<close>

definition typed_field :: "(json \<Rightarrow> 'a option) \<Rightarrow> dict \<Rightarrow> string \<Rightarrow> 'a option result" where
  "typed_field f payload k =
     (case map_of payload k of
        None \<Rightarrow> Inr None
      | Some JNull \<Rightarrow> Inr None
      | Some j \<Rightarrow> (case f j of None \<Rightarrow> Inl ValueError | Some x \<Rightarrow> Inr (Some x)))"

definition build_run_create :: "cron_row \<Rightarrow> run_create result" where
  "build_run_create c =
     (let p = c_payload c in
      bind_res (typed_field obj_of_json p ''input'') (\<lambda>inp.
      bind_res (typed_field obj_of_json p ''config'') (\<lambda>cfg.
      bind_res (typed_field obj_of_json p ''context'') (\<lambda>ctx.
      bind_res (typed_field obj_of_json p ''checkpoint'') (\<lambda>cp.
      bind_res (typed_field sol_of_json p ''interrupt_before'') (\<lambda>ib.
      bind_res (typed_field sol_of_json p ''interrupt_after'') (\<lambda>ia.
      bind_res (typed_field bool_of_json p ''stream_subgraphs'') (\<lambda>sg.
      bind_res (typed_field sol_of_json p ''stream_mode'') (\<lambda>sm.
      bind_res (typed_field str_of_json p ''multitask_strategy'') (\<lambda>ms.
      bind_res (typed_field durability_of_json p ''durability'') (\<lambda>du.
      bind_res (typed_field bool_of_json p ''checkpoint_during'') (\<lambda>cd.
        validate_input_command_exclusivity
          \<lparr>rc_assistant_id = c_assistant_id c, rc_input = inp, rc_config = cfg, rc_context = ctx,
           rc_checkpoint = cp, rc_checkpoint_id = None, rc_durability = du, rc_checkpoint_during = cd,
           rc_stream_mode = sm, rc_multitask_strategy = ms, rc_command = None,
           rc_interrupt_before = ib, rc_interrupt_after = ia, rc_stream_subgraphs = sg,
           rc_metadata = None\<rparr>))))))))))))"

definition validate_cron_user :: "user_id \<Rightarrow> bool" where
  "validate_cron_user uid = (uid \<noteq> [])"

definition cron_user :: "user_id \<Rightarrow> user" where
  "cron_user uid =
     \<lparr>identity = uid, is_authenticated = True, permissions = [], display_name = ''cron-scheduler'',
      org_id = None, email = None\<rparr>"

record cron_state =
  cs_crons :: "cron_row list"
  cs_db :: db
  cs_queue :: queue
  cs_cleanups :: "(run_id \<times> thread_id \<times> user_id) list"

text \<open>
  \<open>_fire_cron\<close> at the time \<open>now\<close>, with \<open>rid\<close> and \<open>fresh_tid\<close> the generated ids.  An exception
  raised outside its handlers is the error result; the tick logs it and goes on.
\<close>

definition fire_cron ::
  "cron_env \<Rightarrow> prep_env \<Rightarrow> time \<Rightarrow> run_id \<Rightarrow> thread_id \<Rightarrow> cron_row \<Rightarrow> cron_state \<Rightarrow> cron_state result"
where
  "fire_cron env penv now rid fresh_tid cron s =
     (let p = (\<lambda>c. c_cron_id c = c_cron_id cron)
      in if \<not> validate_cron_user (c_user_id cron)
         then Inr (s\<lparr>cs_crons := update_where p
                (\<lambda>c. c\<lparr>c_enabled := False, c_claimed_until := None, c_updated_at := now\<rparr>) (cs_crons s)\<rparr>)
         else
           bind_res (build_run_create cron) (\<lambda>rq.
           let tid = (case c_thread_id cron of Some t \<Rightarrow> if t = [] then fresh_tid else t | None \<Rightarrow> fresh_tid)
           in case prepare_run penv now rid tid rq (cron_user (c_user_id cron)) Pending False (cs_db s, cs_queue s) of
                (Inr job, d, q) \<Rightarrow>
                  (let s = s\<lparr>cs_db := d, cs_queue := q,
                        cs_cleanups := (if should_delete_stateless_thread cron
                          then cs_cleanups s @ [(rid, tid, c_user_id cron)] else cs_cleanups s)\<rparr>
                   in bind_res (advance_next_run env now cron (cs_crons s)) (\<lambda>crons. Inr (s\<lparr>cs_crons := crons\<rparr>)))
              | (Inl e, d, q) \<Rightarrow>
                  (let d = (if should_delete_stateless_thread cron
                            then snd (delete_thread_by_id tid (c_user_id cron) d) else d)
                   in Inr (s\<lparr>cs_db := d, cs_queue := q,
                        cs_crons := update_where p
                          (\<lambda>c. c\<lparr>c_claimed_until := None, c_updated_at := now\<rparr>) (cs_crons s)\<rparr>))))"

text \<open>One tick: claim, then fire each claimed cron, skipping over the ones that raise.\<close>

fun fire_all ::
  "cron_env \<Rightarrow> prep_env \<Rightarrow> time \<Rightarrow> (run_id \<times> thread_id) list \<Rightarrow> cron_row list \<Rightarrow> cron_state \<Rightarrow> cron_state"
where
  "fire_all env penv now ((rid, tid) # ids) (cron # crons) s =
     fire_all env penv now ids crons
       (case fire_cron env penv now rid tid cron s of Inl _ \<Rightarrow> s | Inr s' \<Rightarrow> s')"
| "fire_all env penv now _ _ s = s"

definition cron_tick ::
  "cron_env \<Rightarrow> prep_env \<Rightarrow> time \<Rightarrow> (string \<Rightarrow> bool) \<Rightarrow> (run_id \<times> thread_id) list \<Rightarrow> cron_state \<Rightarrow> cron_state"
where
  "cron_tick env penv now locked ids s =
     (case get_due_crons env now locked (cs_crons s) of
        (due, crons) \<Rightarrow> fire_all env penv now ids due (s\<lparr>cs_crons := crons\<rparr>))"

subsection \<open>What the schedule promises\<close>

locale cron_library =
  fixes env :: cron_env
  assumes next_later: "ce_next env sch tz t = Some t' \<Longrightarrow> t < t'"
begin

lemma compute_next_later: "compute_next_run env sch now tz = Inr t \<Longrightarrow> now < t"
  by (auto simp: compute_next_run_def dest: next_later split: option.splits)

lemma advanced_row:
  assumes "advance_next_run env now cron crons = Inr crons'" and "c' \<in> set crons'"
    and "c_cron_id c' = c_cron_id cron"
  shows "c_claimed_until c' = None \<and> (c_enabled c' \<longrightarrow> (\<exists>t. c_next_run_date c' = Some t \<and> now < t))"
  using assms
  by (auto simp: advance_next_run_def Let_def compute_next_later split: if_splits
      dest!: bind_res_InrD elim!: in_update_whereE)

text \<open>A cron that was advanced is not due again before its next occurrence.\<close>

lemma advanced_not_due:
  assumes "advance_next_run env now cron crons = Inr crons'" and "c' \<in> set crons'"
    and "c_cron_id c' = c_cron_id cron" and "claimable later c'"
  shows "now < later"
  using advanced_row [OF assms(1-3)] assms(4)
  by (auto simp: claimable_def split: option.splits)

lemma created_next_run:
  assumes "create_cron env penv now new_id rq uid tid crons = Inr (row, crons')"
  shows "\<exists>t. c_next_run_date row = Some t \<and> now < t"
proof -
  from assms obtain f t where f: "compute_next_run env (cq_schedule rq) now (payload_timezone (cq_fields rq)) = Inr f"
    and t: "(if cq_enabled rq \<noteq> Some False
       then compute_next_run env (cq_schedule rq) f (payload_timezone (cq_fields rq)) else Inr f) = Inr t"
    and row: "c_next_run_date row = Some t"
    by (auto simp: create_cron_def Let_def split: option.splits if_splits dest!: bind_res_InrD)
  have "now < f" using compute_next_later [OF f] .
  moreover have "f \<le> t" using t by (auto split: if_splits dest!: compute_next_later)
  ultimately show ?thesis using row by auto
qed

end

text \<open>
  Two schedules written out, every minute and every second, in the zone UTC; times count
  seconds.
\<close>

definition every_minute_env :: cron_env where
  "every_minute_env =
     \<lparr>ce_next = (\<lambda>sch tz t.
        if sch = ''* * * * *'' then Some ((t div 60 + 1) * 60)
        else if sch = ''* * * * * *'' then Some (t + 1) else None),
      ce_zone_ok = (\<lambda>z. z = ''UTC''), CRON_ALLOW_SECONDS_SCHEDULE = True, CRON_MAX_PER_USER = 10,
      CRON_CLAIM_DURATION_SECONDS = 300, CRON_TICK_BATCH_SIZE = 2\<rparr>"

lemma next_minute: "t < (t div 60 + 1) * (60::int)"
  by presburger

interpretation minutely: cron_library every_minute_env
  by unfold_locales (auto simp: every_minute_env_def next_minute split: if_splits)

subsection \<open>Lemmas\<close>

lemma length_due:
  assumes "get_due_crons env now locked crons = (due, crons')" and "distinct (map c_cron_id crons)"
  shows "length due \<le> CRON_TICK_BATCH_SIZE env"
proof -
  let ?sel = "take (CRON_TICK_BATCH_SIZE env) (sort_key (\<lambda>c. the (c_next_run_date c))
      (select_where (\<lambda>c. claimable now c \<and> \<not> locked (c_cron_id c)) crons))"
  let ?f = "\<lambda>c. c\<lparr>c_claimed_until := Some (now + CRON_CLAIM_DURATION_SECONDS env), c_updated_at := now\<rparr>"
  have due: "due = [] \<or> due = select_where (\<lambda>c. c_cron_id c \<in> c_cron_id ` set ?sel)
      (update_where (\<lambda>c. c_cron_id c \<in> c_cron_id ` set ?sel) ?f crons)"
    using assms(1) by (auto simp: get_due_crons_def Let_def split: if_splits)
  let ?due = "select_where (\<lambda>c. c_cron_id c \<in> c_cron_id ` set ?sel)
      (update_where (\<lambda>c. c_cron_id c \<in> c_cron_id ` set ?sel) ?f crons)"
  have "distinct (map c_cron_id ?due)"
    unfolding select_where_def
    by (rule distinct_map_filter) (subst map_key_update_where, simp, rule assms(2))
  from distinct_card [OF this] have "length ?due = card (set (map c_cron_id ?due))"
    by (simp only: length_map)
  also have "\<dots> \<le> card (c_cron_id ` set ?sel)"
    by (intro card_mono) auto
  also have "\<dots> \<le> length ?sel"
    using card_image_le [of "set ?sel" c_cron_id] card_length [of ?sel] by simp
  also have "\<dots> \<le> CRON_TICK_BATCH_SIZE env" by simp
  finally have "length ?due \<le> CRON_TICK_BATCH_SIZE env" .
  with due show ?thesis by auto
qed

lemma due_row:
  assumes "get_due_crons env now locked crons = (due, crons')" and "distinct (map c_cron_id crons)"
    and "c' \<in> set due"
  obtains c where "c \<in> set crons" "claimable now c" "\<not> locked (c_cron_id c)"
    "c' = c\<lparr>c_claimed_until := Some (now + CRON_CLAIM_DURATION_SECONDS env), c_updated_at := now\<rparr>"
    "c' \<in> set crons'"
proof -
  let ?sel = "take (CRON_TICK_BATCH_SIZE env) (sort_key (\<lambda>c. the (c_next_run_date c))
      (select_where (\<lambda>c. claimable now c \<and> \<not> locked (c_cron_id c)) crons))"
  let ?f = "\<lambda>c. c\<lparr>c_claimed_until := Some (now + CRON_CLAIM_DURATION_SECONDS env), c_updated_at := now\<rparr>"
  have due: "due = select_where (\<lambda>c. c_cron_id c \<in> c_cron_id ` set ?sel) crons'"
    and crons': "crons' = update_where (\<lambda>c. c_cron_id c \<in> c_cron_id ` set ?sel) ?f crons"
    using assms(1,3) by (auto simp: get_due_crons_def Let_def split: if_splits)
  from assms(3) due have in': "c' \<in> set crons'" and id: "c_cron_id c' \<in> c_cron_id ` set ?sel" by auto
  then obtain c where c: "c \<in> set crons" "c' = ?f c"
    by (auto simp: crons' elim!: in_update_whereE)
  from id obtain x where x: "x \<in> set ?sel" "c_cron_id x = c_cron_id c" using c(2) by auto
  have "x \<in> set crons" "claimable now x" "\<not> locked (c_cron_id x)"
    using x(1) set_take_sort_key [of "CRON_TICK_BATCH_SIZE env" "\<lambda>c. the (c_next_run_date c)"
        "select_where (\<lambda>c. claimable now c \<and> \<not> locked (c_cron_id c)) crons"] by auto
  moreover from this x(2) c(1) assms(2) have "x = c" by (metis unique_key)
  ultimately show ?thesis using that c in' by blast
qed

subsection \<open>What the scheduler guarantees\<close>

lemma due_ids_distinct:
  assumes "get_due_crons env now locked crons = (due, crons')" and "distinct (map c_cron_id crons)"
  shows "distinct (map c_cron_id crons')"
  using assms by (auto simp: get_due_crons_def Let_def map_key_update_where split: if_splits)

text \<open>
  Claim C38.  A due cron is claimed by one scheduler.  A claim returns at most the batch size of
  crons; each was enabled, due, unclaimed and not locked; and until the claim expires no other
  scheduler, in its own transaction on the resulting table, gets any of them again.
\<close>

theorem cron_claim_exclusive:
  assumes "get_due_crons env now locked crons = (due, crons')" and "distinct (map c_cron_id crons)"
    and "get_due_crons env' now' locked' crons' = (due', crons'')" and "now' < now + CRON_CLAIM_DURATION_SECONDS env"
  shows "length due \<le> CRON_TICK_BATCH_SIZE env \<and>
    (\<forall>c \<in> set due. \<exists>c0 \<in> set crons. c_cron_id c0 = c_cron_id c \<and> claimable now c0 \<and> \<not> locked (c_cron_id c0) \<and>
       c_enabled c0 \<and> (\<exists>t \<le> now. c_next_run_date c0 = Some t)) \<and>
    c_cron_id ` set due \<inter> c_cron_id ` set due' = {}"
proof -
  have dist': "distinct (map c_cron_id crons')" by (rule due_ids_distinct [OF assms(1,2)])
  have "c_cron_id c \<noteq> c_cron_id c'" if c: "c \<in> set due" and c': "c' \<in> set due'" for c c'
  proof
    assume same: "c_cron_id c = c_cron_id c'"
    from assms(1,2) c obtain c0 where
      c_eq: "c = c0\<lparr>c_claimed_until := Some (now + CRON_CLAIM_DURATION_SECONDS env), c_updated_at := now\<rparr>"
      and "c \<in> set crons'" by (rule due_row)
    from assms(3) dist' c' obtain c1 where
      c1: "c1 \<in> set crons'" "claimable now' c1" and
      "c' = c1\<lparr>c_claimed_until := Some (now' + CRON_CLAIM_DURATION_SECONDS env'), c_updated_at := now'\<rparr>"
      by (rule due_row)
    then have "c_cron_id c1 = c_cron_id c" using same by simp
    then have "c1 = c" using unique_key [OF dist' c1(1) \<open>c \<in> set crons'\<close>] by simp
    then show False using c1(2) assms(4) by (simp add: c_eq claimable_def)
  qed
  moreover have "\<exists>c0 \<in> set crons. c_cron_id c0 = c_cron_id c \<and> claimable now c0 \<and> \<not> locked (c_cron_id c0) \<and>
      c_enabled c0 \<and> (\<exists>t \<le> now. c_next_run_date c0 = Some t)"
    if "c \<in> set due" for c
    using assms(1,2) that by (rule due_row) (auto simp: claimable_def split: option.splits)
  ultimately show ?thesis using length_due [OF assms(1,2)] by auto
qed


definition example_cron :: cron_row where
  "example_cron = \<lparr>c_cron_id = ''c1'', c_assistant_id = ''a1'', c_thread_id = Some ''t1'', c_user_id = ''alice'',
     c_schedule = ''* * * * *'', c_payload = [(''input'', JObj [])], c_metadata = [], c_on_run_completed = None, c_enabled = True,
     c_end_time = None, c_next_run_date = Some 60, c_claimed_until = None, c_created_at = 0, c_updated_at = 0\<rparr>"

lemma example_due:
  "get_due_crons every_minute_env 70 (\<lambda>_. False) [example_cron] =
     ([example_cron\<lparr>c_claimed_until := Some 370, c_updated_at := 70\<rparr>],
      [example_cron\<lparr>c_claimed_until := Some 370, c_updated_at := 70\<rparr>])"
  by (simp add: get_due_crons_def Let_def example_cron_def every_minute_env_def claimable_def select_where_def)

theorem cron_claim_exclusive_witness:
  "c_cron_id ` set (fst (get_due_crons every_minute_env 70 (\<lambda>_. False) [example_cron])) = {''c1''} \<and>
   ''c1'' \<notin> c_cron_id ` set (fst (get_due_crons every_minute_env 80 (\<lambda>_. False)
              (snd (get_due_crons every_minute_env 70 (\<lambda>_. False) [example_cron]))))"
proof -
  obtain due' crons'' where d': "get_due_crons every_minute_env 80 (\<lambda>_. False)
      [example_cron\<lparr>c_claimed_until := Some 370, c_updated_at := 70\<rparr>] = (due', crons'')" by force
  from cron_claim_exclusive [OF example_due _ d'] show ?thesis
    unfolding example_due snd_conv d' by (simp add: every_minute_env_def example_cron_def)
qed

text \<open>
  A cron that fired is not due again before its next occurrence.  With a schedule
  library whose next occurrence lies after the given time, a successful firing commits the
  prepared run and queue, releases the claim, and the cron cannot be claimed at any time up to
  and including the firing; a cron past its end time is disabled.
\<close>

theorem fired_cron_not_due:
  assumes "cron_library env" and "validate_cron_user (c_user_id cron)" and "build_run_create cron = Inr rq"
    and "prepare_run penv now rid (case c_thread_id cron of Some t \<Rightarrow> if t = [] then fresh else t | None \<Rightarrow> fresh) rq
           (cron_user (c_user_id cron)) Pending False (cs_db s, cs_queue s) = (Inr job, d, q)"
    and "fire_cron env penv now rid fresh cron s = Inr s'"
  shows "cs_db s' = d \<and> cs_queue s' = q \<and>
    (\<forall>c \<in> set (cs_crons s'). c_cron_id c = c_cron_id cron \<longrightarrow> c_claimed_until c = None \<and>
       (\<forall>later. claimable later c \<longrightarrow> now < later) \<and>
       ((case c_end_time cron of None \<Rightarrow> False | Some e \<Rightarrow> e \<le> now) \<longrightarrow> \<not> c_enabled c))"
proof -
  from assms(2-5) obtain crons' where adv: "advance_next_run env now cron (cs_crons s) = Inr crons'"
    and s': "cs_db s' = d" "cs_queue s' = q" "cs_crons s' = crons'"
    by (auto simp: fire_cron_def Let_def dest!: bind_res_InrD)
  have "\<not> c_enabled c" if "c \<in> set crons'" "c_cron_id c = c_cron_id cron"
    "case c_end_time cron of None \<Rightarrow> False | Some e \<Rightarrow> e \<le> now" for c
    using that adv by (auto simp: advance_next_run_def Let_def elim!: in_update_whereE split: option.splits if_splits)
  then show ?thesis
    using s' cron_library.advanced_row [OF assms(1) adv] cron_library.advanced_not_due [OF assms(1) adv] by blast
qed

lemma example_cron_request:
  obtains rq cc where "build_run_create example_cron = Inr rq" "rc_command rq = None" "rc_assistant_id rq = ''a1''"
    "request_config rq = Inr cc"
  by (simp add: build_run_create_def typed_field_def example_cron_def validate_input_command_exclusivity_def
      obj_of_json_def request_config_def strip_pinned_config_keys_def dict_filter_def get_or_def Let_def)

theorem fired_cron_not_due_witness:
  "\<exists>s'. fire_cron every_minute_env (example_env RedisUp) 70 ''r2'' ''t9'' example_cron
          \<lparr>cs_crons = [example_cron], cs_db = example_db [], cs_queue = [], cs_cleanups = []\<rparr> = Inr s' \<and>
        cs_queue s' = [''r2''] \<and> (\<forall>c \<in> set (cs_crons s'). c_cron_id c = ''c1'' \<longrightarrow> \<not> claimable 70 c)"
proof -
  let ?s = "\<lparr>cs_crons = [example_cron], cs_db = example_db [], cs_queue = [], cs_cleanups = []\<rparr> :: cron_state"
  obtain rq cc where rq: "build_run_create example_cron = Inr rq" "rc_command rq = None" "rc_assistant_id rq = ''a1''"
    "request_config rq = Inr cc" by (rule example_cron_request)
  have tid: "(case c_thread_id example_cron of Some t \<Rightarrow> if t = [] then ''t9'' else t | None \<Rightarrow> ''t9'') = ''t1''"
    and ids: "c_user_id example_cron = ''alice''" "c_cron_id example_cron = ''c1''"
    by (simp_all add: example_cron_def)
  obtain job d q where prep: "prepare_run (example_env RedisUp) 70 ''r2'' ''t1'' rq (cron_user ''alice'') Pending False
      (cs_db ?s, cs_queue ?s) = (Inr job, d, q)"
    using example_prepared_gen [OF rq(2-4), of "cron_user ''alice''" 70 "''r2''" Pending False "[]" "[]"]
    by (auto simp: cron_user_def)
  have q: "q = [''r2'']" using prep by (rule prepare_run_InrD) simp
  have "\<exists>s'. fire_cron every_minute_env (example_env RedisUp) 70 ''r2'' ''t9'' example_cron ?s = Inr s'"
    using prep rq(1) by (simp add: fire_cron_def tid ids validate_cron_user_def Let_def)
      (simp add: advance_next_run_def example_cron_def compute_next_run_def resolve_timezone_def payload_timezone_def
        every_minute_env_def)
  then obtain s' where s': "fire_cron every_minute_env (example_env RedisUp) 70 ''r2'' ''t9'' example_cron ?s = Inr s'" by blast
  from fired_cron_not_due [OF minutely.cron_library_axioms _ rq(1) _ s'] prep s' q show ?thesis
    unfolding tid ids by (fastforce simp: validate_cron_user_def)
qed

text \<open>
  A cron whose run was committed but not queued stays due.  When Redis rejects the
  push of the prepared run, the firing releases the claim without advancing the schedule, so the
  same occurrence is claimable at once, although its run exists and the reaper will queue it: the
  occurrence can run twice.
\<close>

theorem unqueued_cron_fires_again:
  assumes "validate_cron_user (c_user_id cron)" and "build_run_create cron = Inr rq" and "c_thread_id cron = Some tid"
    and "tid \<noteq> []" and "prepare_run penv now rid tid rq (cron_user (c_user_id cron)) Pending False (cs_db s, cs_queue s) = (Inl e, d, q)"
    and "c \<in> set (cs_crons s)" and "c_cron_id c = c_cron_id cron" and "c_enabled c"
    and "c_next_run_date c = Some t" and "t \<le> now"
  shows "\<exists>s'. fire_cron env penv now rid fresh cron s = Inr s' \<and> cs_db s' = d \<and>
    (\<exists>c' \<in> set (cs_crons s'). c_cron_id c' = c_cron_id c \<and> claimable now c')"
proof -
  let ?f = "\<lambda>c. c\<lparr>c_claimed_until := None, c_updated_at := now\<rparr>"
  let ?crons = "update_where (\<lambda>c. c_cron_id c = c_cron_id cron) ?f (cs_crons s)"
  have "\<not> should_delete_stateless_thread cron" using assms(3) by (simp add: should_delete_stateless_thread_def)
  then have "fire_cron env penv now rid fresh cron s = Inr (s\<lparr>cs_db := d, cs_queue := q, cs_crons := ?crons\<rparr>)"
    using assms(1-5) by (simp add: fire_cron_def Let_def)
  moreover have "?f c \<in> set ?crons" using assms(6,7) by (auto simp: in_update_where)
  moreover have "claimable now (?f c)" "c_cron_id (?f c) = c_cron_id c" using assms(8-10) by (simp_all add: claimable_def)
  ultimately show ?thesis by (auto intro: bexI [of _ "?f c"])
qed

theorem unqueued_cron_fires_again_witness:
  "\<exists>d s'. fire_cron every_minute_env (example_env RedisDown) 70 ''r2'' ''t9'' example_cron
            \<lparr>cs_crons = [example_cron], cs_db = example_db [], cs_queue = [], cs_cleanups = []\<rparr> = Inr s' \<and>
          cs_db s' = d \<and> runs d \<noteq> [] \<and> (\<exists>c' \<in> set (cs_crons s'). c_cron_id c' = ''c1'' \<and> claimable 70 c')"
proof -
  let ?s = "\<lparr>cs_crons = [example_cron], cs_db = example_db [], cs_queue = [], cs_cleanups = []\<rparr> :: cron_state"
  obtain rq cc where rq: "build_run_create example_cron = Inr rq" "rc_command rq = None" "rc_assistant_id rq = ''a1''"
    "request_config rq = Inr cc" by (rule example_cron_request)
  obtain job d q where up: "prepare_run (example_env RedisUp) 70 ''r2'' ''t1'' rq (cron_user ''alice'') Pending False
      (example_db [], []) = (Inr job, d, q)"
    using example_prepared_gen [OF rq(2-4), of "cron_user ''alice''" 70 "''r2''" Pending False "[]" "[]"]
    by (auto simp: cron_user_def)
  then have runs: "runs d \<noteq> []" by (rule prepare_run_InrD) simp
  have prep: "prepare_run (example_env RedisDown) 70 ''r2'' ''t1'' rq (cron_user (c_user_id example_cron)) Pending False
      (cs_db ?s, cs_queue ?s) = (Inl RedisError, d, [])"
    using prepare_run_redis_down [OF up] by (simp add: example_cron_def)
  from unqueued_cron_fires_again [where cron = example_cron and c = example_cron and t = 60 and env = every_minute_env
      and fresh = "''t9''", OF _ rq(1) _ _ prep] runs
  show ?thesis by (auto simp: validate_cron_user_def example_cron_def)
qed

end
