(* ===== verification/Thread_TTL.thy ===== *)
theory Thread_TTL
  imports Run_Status "HOL-Library.List_Lexorder" "HOL-Library.Char_ord"
begin

text \<open>
  Thread retention (\<^verbatim>\<open>usecase/thread_ttl.py\<close>): the claim query over expired \<open>thread_ttl\<close>
  rows, the two strategies with the pruning statements over the checkpoint tables, one claimed
  batch, and the sweep loop of the background task and of \<^verbatim>\<open>POST /threads/prune\<close>.  A time to
  live is an integer number of the clock's units.
\<close>

datatype strategy = DeleteThread | KeepLatest

record ttl_row =
  l_thread_id :: thread_id
  l_strategy :: strategy
  l_ttl :: int
  l_expires_at :: time

record checkpoint_row =
  cp_thread :: thread_id
  cp_ns :: string
  cp_id :: string
  cp_versions :: "(string \<times> string) list"

record write_row =
  wr_thread :: thread_id
  wr_ns :: string
  wr_checkpoint :: string
  wr_task :: string

record blob_row =
  bl_thread :: thread_id
  bl_ns :: string
  bl_channel :: string
  bl_version :: string

record ttl_store =
  ts_db :: db
  ts_ttl :: "ttl_row list"
  ts_checkpoints :: "checkpoint_row list"
  ts_writes :: "write_row list"
  ts_blobs :: "blob_row list"

definition CLAIM_BATCH :: nat where "CLAIM_BATCH = 100"

subsection \<open>Pruning\<close>

definition ids_in :: "thread_id \<Rightarrow> string \<Rightarrow> checkpoint_row list \<Rightarrow> string list" where
  "ids_in tid ns cps = map cp_id (filter (\<lambda>c. cp_thread c = tid \<and> cp_ns c = ns) cps)"

definition has_prunable_history :: "thread_id \<Rightarrow> checkpoint_row list \<Rightarrow> bool" where
  "has_prunable_history tid cps =
     list_ex (\<lambda>c. cp_thread c = tid \<and> length (ids_in tid (cp_ns c) cps) > 1) cps"

definition prune_checkpoints :: "thread_id \<Rightarrow> checkpoint_row list \<Rightarrow> checkpoint_row list" where
  "prune_checkpoints tid cps =
     delete_where (\<lambda>c. cp_thread c = tid \<and> cp_id c \<noteq> Max (set (ids_in tid (cp_ns c) cps))) cps"

definition prune_writes :: "thread_id \<Rightarrow> checkpoint_row list \<Rightarrow> write_row list \<Rightarrow> write_row list" where
  "prune_writes tid cps ws =
     delete_where (\<lambda>w. wr_thread w = tid
       \<and> \<not> list_ex (\<lambda>c. cp_thread c = wr_thread w \<and> cp_ns c = wr_ns w \<and> cp_id c = wr_checkpoint w) cps) ws"

definition prune_blobs :: "thread_id \<Rightarrow> checkpoint_row list \<Rightarrow> blob_row list \<Rightarrow> blob_row list" where
  "prune_blobs tid cps bs =
     delete_where (\<lambda>b. bl_thread b = tid
       \<and> \<not> list_ex (\<lambda>c. cp_thread c = bl_thread b \<and> cp_ns c = bl_ns b
              \<and> (bl_channel b, bl_version b) \<in> set (cp_versions c)) cps) bs"

definition prune_checkpoint_history :: "thread_id \<Rightarrow> ttl_store \<Rightarrow> ttl_store" where
  "prune_checkpoint_history tid s =
     (if \<not> has_prunable_history tid (ts_checkpoints s) then s
      else
        (let cps = prune_checkpoints tid (ts_checkpoints s)
         in s\<lparr>ts_checkpoints := cps, ts_writes := prune_writes tid cps (ts_writes s),
              ts_blobs := prune_blobs tid cps (ts_blobs s)\<rparr>))"

text \<open>The checkpointer's \<open>adelete_thread\<close> and the delete of the thread row with its cascades.\<close>

definition delete_checkpoints :: "thread_id \<Rightarrow> ttl_store \<Rightarrow> ttl_store" where
  "delete_checkpoints tid s =
     s\<lparr>ts_checkpoints := delete_where (\<lambda>c. cp_thread c = tid) (ts_checkpoints s),
       ts_writes := delete_where (\<lambda>w. wr_thread w = tid) (ts_writes s),
       ts_blobs := delete_where (\<lambda>b. bl_thread b = tid) (ts_blobs s)\<rparr>"

definition delete_thread_row :: "thread_id \<Rightarrow> ttl_store \<Rightarrow> ttl_store" where
  "delete_thread_row tid s =
     s\<lparr>ts_db := (ts_db s)\<lparr>threads := delete_where (\<lambda>t. t_thread_id t = tid) (threads (ts_db s)),
                          runs := delete_where (\<lambda>r. r_thread_id r = tid) (runs (ts_db s))\<rparr>,
       ts_ttl := delete_where (\<lambda>l. l_thread_id l = tid) (ts_ttl s)\<rparr>"

datatype ttl_outcome = Deleted | Pruned | Failed

text \<open>\<open>_apply_strategy\<close>; \<open>fails\<close> says that the checkpointer raises for the thread.\<close>

definition apply_strategy :: "(thread_id \<Rightarrow> bool) \<Rightarrow> time \<Rightarrow> ttl_row \<Rightarrow> ttl_store \<Rightarrow> ttl_outcome \<times> ttl_store" where
  "apply_strategy fails now l s =
     (let tid = l_thread_id l
      in if fails tid then (Failed, s)
         else if l_strategy l = KeepLatest then
           (let s = prune_checkpoint_history tid s
            in (Pruned, s\<lparr>ts_ttl := update_where (\<lambda>x. l_thread_id x = tid)
                  (\<lambda>x. x\<lparr>l_expires_at := now + l_ttl l\<rparr>) (ts_ttl s)\<rparr>))
         else (Deleted, delete_thread_row tid (delete_checkpoints tid s)))"

subsection \<open>Claims\<close>

definition has_active_runs :: "thread_id \<Rightarrow> db \<Rightarrow> bool" where
  "has_active_runs tid d = list_ex (\<lambda>r. r_thread_id r = tid \<and> is_active r) (runs d)"

text \<open>
  \<open>_expired_claim_stmt\<close>: the join with the thread row, the caller's filter (the user's own
  threads and an authorisation filter), the excluded ids and the rows other transactions lock.
\<close>

definition expired_claim ::
  "time \<Rightarrow> nat \<Rightarrow> (thread_row \<Rightarrow> bool) option \<Rightarrow> thread_id list \<Rightarrow> (thread_id \<Rightarrow> bool) \<Rightarrow> ttl_store \<Rightarrow> ttl_row list"
where
  "expired_claim now limit scope excluded locked s =
     take limit (sort_key l_expires_at
       (select_where (\<lambda>l. l_expires_at l \<le> now
          \<and> list_ex (\<lambda>t. t_thread_id t = l_thread_id l
                \<and> (case scope of None \<Rightarrow> True | Some p \<Rightarrow> p t)) (threads (ts_db s))
          \<and> \<not> has_active_runs (l_thread_id l) (ts_db s)
          \<and> l_thread_id l \<notin> set excluded \<and> \<not> locked (l_thread_id l)) (ts_ttl s)))"

record batch =
  ba_deleted :: nat
  ba_pruned :: nat
  ba_failed :: "thread_id list"
  ba_store :: ttl_store

definition batch_item :: "(thread_id \<Rightarrow> bool) \<Rightarrow> time \<Rightarrow> ttl_row \<Rightarrow> batch \<Rightarrow> batch" where
  "batch_item fails now l b =
     (case apply_strategy fails now l (ba_store b) of
        (Failed, s) \<Rightarrow> b\<lparr>ba_failed := ba_failed b @ [l_thread_id l]\<rparr>
      | (Deleted, s) \<Rightarrow> b\<lparr>ba_deleted := ba_deleted b + 1, ba_store := s\<rparr>
      | (Pruned, s) \<Rightarrow> b\<lparr>ba_pruned := ba_pruned b + 1, ba_store := s\<rparr>)"

definition process_expired_batch ::
  "(thread_id \<Rightarrow> bool) \<Rightarrow> time \<Rightarrow> ttl_row list \<Rightarrow> ttl_store \<Rightarrow> nat \<times> batch"
where
  "process_expired_batch fails now rows s =
     (length rows,
      fold (batch_item fails now) rows \<lparr>ba_deleted = 0, ba_pruned = 0, ba_failed = [], ba_store = s\<rparr>)"

text \<open>
  The sweep.  The environment of the \<open>n\<close>-th batch is its clock, the locked rows, the failing
  threads and what other transactions did since the last batch.
\<close>

record sweep_env =
  se_now :: time
  se_locked :: "thread_id \<Rightarrow> bool"
  se_fails :: "thread_id \<Rightarrow> bool"
  se_others :: "ttl_store \<Rightarrow> ttl_store"

record totals =
  to_claimed :: nat
  to_deleted :: nat
  to_pruned :: nat
  to_failed :: "thread_id list"
  to_store :: ttl_store

function sweep ::
  "nat \<Rightarrow> (thread_row \<Rightarrow> bool) option \<Rightarrow> (nat \<Rightarrow> sweep_env) \<Rightarrow> nat \<Rightarrow> totals \<Rightarrow> totals"
where
  "sweep sweep_limit scope env n t =
     (if to_claimed t < sweep_limit then
        (let e = env n;
             s = se_others e (to_store t);
             limit = min CLAIM_BATCH (sweep_limit - to_claimed t);
             rows = expired_claim (se_now e) limit scope (to_failed t) (se_locked e) s;
             (claimed, b) = process_expired_batch (se_fails e) (se_now e) rows s
         in if claimed = 0 then t\<lparr>to_store := s\<rparr>
            else sweep sweep_limit scope env (Suc n)
              \<lparr>to_claimed = to_claimed t + claimed, to_deleted = to_deleted t + ba_deleted b,
               to_pruned = to_pruned t + ba_pruned b, to_failed = to_failed t @ ba_failed b,
               to_store = ba_store b\<rparr>)
      else t)"
  by pat_completeness auto
termination
  by (relation "measure (\<lambda>(sweep_limit, scope, env, n, t). sweep_limit - to_claimed t)") auto

declare sweep.simps [simp del]

definition sweep_start :: "ttl_store \<Rightarrow> totals" where
  "sweep_start s = \<lparr>to_claimed = 0, to_deleted = 0, to_pruned = 0, to_failed = [], to_store = s\<rparr>"

text \<open>The sweeper's tick (without scope) and the prune endpoint (the user's own threads).\<close>

definition ttl_tick :: "nat option \<Rightarrow> (nat \<Rightarrow> sweep_env) \<Rightarrow> ttl_store \<Rightarrow> totals" where
  "ttl_tick sweep_limit env s =
     (case sweep_limit of
        None \<Rightarrow> sweep_start s
      | Some l \<Rightarrow> sweep l None env 0 (sweep_start s))"

definition prune_expired_threads_for_user ::
  "nat option \<Rightarrow> user_id \<Rightarrow> (thread_row \<Rightarrow> bool) option \<Rightarrow> (nat \<Rightarrow> sweep_env) \<Rightarrow> ttl_store \<Rightarrow> nat \<times> nat"
where
  "prune_expired_threads_for_user sweep_limit uid auth_filter env s =
     (let t = sweep (case sweep_limit of None \<Rightarrow> 10000 | Some l \<Rightarrow> l)
            (Some (\<lambda>t. t_user_id t = uid \<and> (case auth_filter of None \<Rightarrow> True | Some f \<Rightarrow> f t))) env 0 (sweep_start s)
      in (to_deleted t, to_pruned t))"

subsection \<open>Lemmas on pruning\<close>

lemma ids_in_mem: "c \<in> set cps \<Longrightarrow> cp_thread c = tid \<Longrightarrow> cp_id c \<in> set (ids_in tid (cp_ns c) cps)"
  by (auto simp: ids_in_def)

lemma latest_kept:
  assumes "c \<in> set cps" and "cp_thread c = tid"
    and "\<And>c'. c' \<in> set cps \<Longrightarrow> cp_thread c' = tid \<Longrightarrow> cp_ns c' = cp_ns c \<Longrightarrow> cp_id c' \<le> cp_id c"
  shows "c \<in> set (prune_checkpoints tid cps)"
proof -
  have "Max (set (ids_in tid (cp_ns c) cps)) = cp_id c"
    using assms ids_in_mem [OF assms(1,2)] by (intro Max_eqI) (auto simp: ids_in_def)
  with assms(1) show ?thesis by (simp add: prune_checkpoints_def)
qed

lemma kept_is_latest:
  assumes "c \<in> set (prune_checkpoints tid cps)" and "cp_thread c = tid" and "c' \<in> set cps"
    and "cp_thread c' = tid" and "cp_ns c' = cp_ns c"
  shows "cp_id c' \<le> cp_id c"
proof -
  have "cp_id c = Max (set (ids_in tid (cp_ns c) cps))"
    using assms(1,2) by (auto simp: prune_checkpoints_def)
  moreover have "cp_id c' \<in> set (ids_in tid (cp_ns c) cps)"
    using ids_in_mem [OF assms(3,4)] assms(5) by simp
  ultimately show ?thesis by simp
qed

lemma prune_history_other_thread:
  assumes "cp_thread c \<noteq> tid"
  shows "c \<in> set (ts_checkpoints (prune_checkpoint_history tid s)) \<longleftrightarrow> c \<in> set (ts_checkpoints s)"
  using assms by (auto simp: prune_checkpoint_history_def prune_checkpoints_def Let_def)

lemma referenced_blob_kept:
  assumes "b \<in> set bs" and "c \<in> set cps" and "cp_thread c = bl_thread b" "cp_ns c = bl_ns b"
    and "(bl_channel b, bl_version b) \<in> set (cp_versions c)"
  shows "b \<in> set (prune_blobs tid cps bs)"
  using assms by (auto simp: prune_blobs_def list_ex_iff)

lemma prune_subset: "set (prune_checkpoints tid cps) \<subseteq> set cps"
  by (auto simp: prune_checkpoints_def)

subsection \<open>Lemmas on the sweep\<close>

lemma claimed_rows:
  assumes "l \<in> set (expired_claim now limit scope excluded locked s)"
  shows "l \<in> set (ts_ttl s)" "l_expires_at l \<le> now" "\<not> has_active_runs (l_thread_id l) (ts_db s)"
    "l_thread_id l \<notin> set excluded" "\<not> locked (l_thread_id l)"
  using assms set_take_sort_key [of limit l_expires_at] by (force simp: expired_claim_def)+

lemma length_claim: "length (expired_claim now limit scope excluded locked s) \<le> limit"
  by (simp add: expired_claim_def)

lemma batch_counts:
  fixes b :: batch
  shows "ba_deleted (fold (batch_item fails now) rows b) + ba_pruned (fold (batch_item fails now) rows b)
      + length (ba_failed (fold (batch_item fails now) rows b))
    = ba_deleted b + ba_pruned b + length (ba_failed b) + length rows"
proof (induction rows arbitrary: b)
  case (Cons l rows)
  have "ba_deleted (batch_item fails now l b) + ba_pruned (batch_item fails now l b)
      + length (ba_failed (batch_item fails now l b)) = Suc (ba_deleted b + ba_pruned b + length (ba_failed b))"
    by (auto simp: batch_item_def split: prod.splits ttl_outcome.splits)
  with Cons show ?case by simp
qed simp

lemma sweep_bound:
  "to_claimed t \<le> sweep_limit \<Longrightarrow> to_claimed (sweep sweep_limit scope env n t) \<le> sweep_limit"
proof (induction sweep_limit scope env n t rule: sweep.induct)
  case (1 sweep_limit scope env n t)
  show ?case
  proof (cases "to_claimed t < sweep_limit")
    case True
    let ?s = "se_others (env n) (to_store t)"
    let ?rows = "expired_claim (se_now (env n)) (min CLAIM_BATCH (sweep_limit - to_claimed t)) scope
        (to_failed t) (se_locked (env n)) ?s"
    have len: "length ?rows \<le> sweep_limit - to_claimed t"
      using length_claim [of "se_now (env n)" "min CLAIM_BATCH (sweep_limit - to_claimed t)"] by force
    show ?thesis
    proof (cases "?rows = []")
      case empty: True
      with "1.prems" show ?thesis
        by (subst sweep.simps) (simp add: Let_def process_expired_batch_def)
    next
      case False
      obtain b where b: "process_expired_batch (se_fails (env n)) (se_now (env n)) ?rows ?s = (length ?rows, b)"
        by (simp add: process_expired_batch_def)
      have "to_claimed (sweep sweep_limit scope env (Suc n)
          \<lparr>to_claimed = to_claimed t + length ?rows, to_deleted = to_deleted t + ba_deleted b,
           to_pruned = to_pruned t + ba_pruned b, to_failed = to_failed t @ ba_failed b,
           to_store = ba_store b\<rparr>) \<le> sweep_limit"
        by (rule "1.IH" [OF True refl refl refl refl b [symmetric]]) (use False True len in auto)
      with True False b show ?thesis
        by (subst sweep.simps) (simp add: Let_def)
    qed
  next
    case False
    with "1.prems" show ?thesis by (subst sweep.simps) simp
  qed
qed

text \<open>What a batch leaves of a thread that it did not claim.\<close>

definition thread_view :: "thread_id \<Rightarrow> ttl_store \<Rightarrow>
  thread_row list \<times> run_row list \<times> checkpoint_row list \<times> write_row list \<times> blob_row list \<times> ttl_row list" where
  "thread_view tid s =
     (filter (\<lambda>t. t_thread_id t = tid) (threads (ts_db s)), filter (\<lambda>r. r_thread_id r = tid) (runs (ts_db s)),
      filter (\<lambda>c. cp_thread c = tid) (ts_checkpoints s), filter (\<lambda>w. wr_thread w = tid) (ts_writes s),
      filter (\<lambda>b. bl_thread b = tid) (ts_blobs s), filter (\<lambda>l. l_thread_id l = tid) (ts_ttl s))"

lemma filter_delete_where:
  "(\<And>x. P x \<Longrightarrow> \<not> p x) \<Longrightarrow> filter P (delete_where p xs) = filter P xs"
  by (induction xs) (auto simp: delete_where_def)

lemma filter_update_where:
  "(\<And>x. p x \<Longrightarrow> \<not> P x \<and> \<not> P (f x)) \<Longrightarrow> filter P (update_where p f xs) = filter P xs"
  by (induction xs) auto

lemma thread_view_prune: "tid \<noteq> x \<Longrightarrow> thread_view tid (prune_checkpoint_history x s) = thread_view tid s"
  by (auto simp: thread_view_def prune_checkpoint_history_def prune_checkpoints_def prune_writes_def
      prune_blobs_def Let_def intro!: filter_delete_where)

lemma thread_view_delete:
  "tid \<noteq> x \<Longrightarrow> thread_view tid (delete_thread_row x (delete_checkpoints x s)) = thread_view tid s"
  by (auto simp: thread_view_def delete_thread_row_def delete_checkpoints_def intro!: filter_delete_where)

lemma thread_view_ttl:
  "tid \<noteq> x \<Longrightarrow> thread_view tid (s\<lparr>ts_ttl := update_where (\<lambda>l. l_thread_id l = x)
     (\<lambda>l. l\<lparr>l_expires_at := t\<rparr>) (ts_ttl s)\<rparr>) = thread_view tid s"
  by (simp add: thread_view_def) (rule filter_update_where, auto)

lemma thread_view_item:
  assumes "tid \<noteq> l_thread_id l"
  shows "thread_view tid (ba_store (batch_item fails now l b)) = thread_view tid (ba_store b)"
  using assms
  by (auto simp: batch_item_def apply_strategy_def Let_def thread_view_prune thread_view_delete
      thread_view_ttl split: if_splits)

lemma thread_view_batch:
  "tid \<notin> l_thread_id ` set rows \<Longrightarrow>
   thread_view tid (ba_store (fold (batch_item fails now) rows b)) = thread_view tid (ba_store b)"
  by (induction rows arbitrary: b) (auto simp: thread_view_item)

subsection \<open>What retention guarantees\<close>

lemma unprunable_single:
  assumes "\<not> has_prunable_history tid cps" and "c \<in> set cps" "cp_thread c = tid"
    and "c' \<in> set cps" "cp_thread c' = tid" "cp_ns c' = cp_ns c"
  shows "cp_id c' = cp_id c"
proof -
  have "length (ids_in tid (cp_ns c) cps) \<le> 1"
    using assms(1-3) by (auto simp: has_prunable_history_def list_ex_iff not_less)
  then obtain y where "set (ids_in tid (cp_ns c) cps) \<subseteq> {y}"
    by (cases "ids_in tid (cp_ns c) cps") auto
  with ids_in_mem [OF assms(2,3)] ids_in_mem [OF assms(4,5)] assms(6) show ?thesis by auto
qed

text \<open>
  Pruning keeps exactly what resuming the thread needs.  Of every namespace of the
  pruned thread the latest checkpoint remains and no other does; every blob a remaining
  checkpoint refers to and every pending write of one remain; and nothing of another thread is
  touched.
\<close>

theorem keep_latest_correct:
  assumes "s' = prune_checkpoint_history tid s"
  shows "(\<forall>c \<in> set (ts_checkpoints s). cp_thread c = tid \<longrightarrow>
       (c \<in> set (ts_checkpoints s') \<longleftrightarrow>
        (\<forall>c' \<in> set (ts_checkpoints s). cp_thread c' = tid \<and> cp_ns c' = cp_ns c \<longrightarrow> cp_id c' \<le> cp_id c))) \<and>
    set (ts_checkpoints s') \<subseteq> set (ts_checkpoints s) \<and>
    (\<forall>b \<in> set (ts_blobs s). (\<exists>c \<in> set (ts_checkpoints s'). cp_thread c = bl_thread b \<and> cp_ns c = bl_ns b \<and>
       (bl_channel b, bl_version b) \<in> set (cp_versions c)) \<longrightarrow> b \<in> set (ts_blobs s')) \<and>
    (\<forall>w \<in> set (ts_writes s). (\<exists>c \<in> set (ts_checkpoints s'). cp_thread c = wr_thread w \<and> cp_ns c = wr_ns w \<and>
       cp_id c = wr_checkpoint w) \<longrightarrow> w \<in> set (ts_writes s')) \<and>
    (\<forall>tid'. tid' \<noteq> tid \<longrightarrow> thread_view tid' s' = thread_view tid' s)"
proof (cases "has_prunable_history tid (ts_checkpoints s)")
  case False
  then have "s' = s" using assms by (simp add: prune_checkpoint_history_def)
  moreover have "cp_id c' \<le> cp_id c" if "c \<in> set (ts_checkpoints s)" "cp_thread c = tid"
    "c' \<in> set (ts_checkpoints s)" "cp_thread c' = tid" "cp_ns c' = cp_ns c" for c c'
    using unprunable_single [OF False that] by simp
  ultimately show ?thesis by simp
next
  case True
  let ?cps = "prune_checkpoints tid (ts_checkpoints s)"
  have s': "ts_checkpoints s' = ?cps" "ts_blobs s' = prune_blobs tid ?cps (ts_blobs s)"
    "ts_writes s' = prune_writes tid ?cps (ts_writes s)"
    using True assms by (simp_all add: prune_checkpoint_history_def Let_def)
  have "w \<in> set (prune_writes tid ?cps (ts_writes s))"
    if "w \<in> set (ts_writes s)" "c \<in> set ?cps" "cp_thread c = wr_thread w" "cp_ns c = wr_ns w" "cp_id c = wr_checkpoint w" for w c
    using that by (auto simp: prune_writes_def list_ex_iff)
  moreover have "thread_view tid' s' = thread_view tid' s" if "tid' \<noteq> tid" for tid'
    using thread_view_prune [OF that] assms by simp
  moreover have "c \<in> set ?cps \<longleftrightarrow>
      (\<forall>c' \<in> set (ts_checkpoints s). cp_thread c' = tid \<and> cp_ns c' = cp_ns c \<longrightarrow> cp_id c' \<le> cp_id c)"
    if "c \<in> set (ts_checkpoints s)" "cp_thread c = tid" for c
    using latest_kept [OF that] kept_is_latest [of c tid "ts_checkpoints s"] that by blast
  ultimately show ?thesis
    unfolding s' using prune_subset referenced_blob_kept by blast
qed

definition example_checkpoint :: "string \<Rightarrow> checkpoint_row" where
  "example_checkpoint i = \<lparr>cp_thread = ''t1'', cp_ns = [], cp_id = i, cp_versions = [(''messages'', i)]\<rparr>"

definition example_store :: ttl_store where
  "example_store = \<lparr>ts_db = example_db [example_run ''r1'' Running None None],
     ts_ttl = [\<lparr>l_thread_id = ''t1'', l_strategy = KeepLatest, l_ttl = 60, l_expires_at = 5\<rparr>],
     ts_checkpoints = [example_checkpoint ''1'', example_checkpoint ''2''], ts_writes = [], ts_blobs = []\<rparr>"

theorem keep_latest_correct_witness:
  "example_checkpoint ''2'' \<in> set (ts_checkpoints (prune_checkpoint_history ''t1'' example_store)) \<and>
   example_checkpoint ''1'' \<notin> set (ts_checkpoints (prune_checkpoint_history ''t1'' example_store))"
proof -
  have mem: "example_checkpoint ''1'' \<in> set (ts_checkpoints example_store)" "example_checkpoint ''2'' \<in> set (ts_checkpoints example_store)"
    and sel: "cp_thread (example_checkpoint i) = ''t1''" "cp_id (example_checkpoint i) = i" "cp_ns (example_checkpoint i) = []" for i
    by (simp_all add: example_store_def example_checkpoint_def)
  have le: "''1'' \<le> ''2''" "\<not> ''2'' \<le> ''1''" by code_simp+
  show ?thesis
    using keep_latest_correct [where tid = "''t1''" and s = example_store, OF refl, THEN conjunct1, rule_format, OF mem(1) sel(1)]
      keep_latest_correct [where tid = "''t1''" and s = example_store, OF refl, THEN conjunct1, rule_format, OF mem(2) sel(1)] mem le
    by (auto simp: sel) (auto simp: example_store_def sel)
qed

text \<open>
  A claimed batch spares every thread it must not touch.  Whatever the strategies and
  failures, a thread with an active run, a thread whose time has not come, an excluded or locked
  one keeps its row, runs, checkpoints, writes, blobs and retention row; and every claimed thread
  is counted once, as deleted, pruned or failed.
\<close>

theorem retention_spares_active:
  assumes "rows = expired_claim now limit scope excluded locked s"
    and "process_expired_batch fails now rows s = (n, b)"
    and "has_active_runs tid (ts_db s) \<or> tid \<in> set excluded \<or> locked tid \<or>
      (\<forall>l \<in> set (ts_ttl s). l_thread_id l = tid \<longrightarrow> now < l_expires_at l)"
  shows "thread_view tid (ba_store b) = thread_view tid s \<and>
    ba_deleted b + ba_pruned b + length (ba_failed b) = n \<and> n \<le> limit"
proof -
  have "tid \<notin> l_thread_id ` set rows"
    using assms(3) claimed_rows [of _ now limit scope excluded locked s] assms(1) by fastforce
  then show ?thesis
    using assms(1,2) thread_view_batch [of tid rows fails now]
      batch_counts [of fails now rows "\<lparr>ba_deleted = 0, ba_pruned = 0, ba_failed = [], ba_store = s\<rparr>"]
      length_claim [of now limit scope excluded locked s]
    by (auto simp: process_expired_batch_def)
qed

theorem retention_spares_active_witness:
  "thread_view ''t1'' (ba_store (snd (process_expired_batch (\<lambda>_. False) 9
       (expired_claim 9 10 None [] (\<lambda>_. False) example_store) example_store))) = thread_view ''t1'' example_store"
proof -
  have "has_active_runs ''t1'' (ts_db example_store)"
    by (simp add: has_active_runs_def example_store_def example_db_def example_run_def is_active_iff)
  then show ?thesis
    using retention_spares_active [OF refl prod.collapse [symmetric]] by blast
qed

text \<open>
  A sweep stays within its limit.  However many threads have expired, however batches
  fail and whatever other transactions do between batches, one tick of the sweeper claims at most
  the configured number of threads.
\<close>

theorem sweep_within_limit: "to_claimed (ttl_tick (Some limit) env s) \<le> limit"
  by (simp add: ttl_tick_def sweep_bound sweep_start_def)

end
