(* ===== verification/Policy.thy ===== *)
theory Policy
  imports Json
begin

text \<open>
  Authorisation decisions: the vocabulary of \<^verbatim>\<open>domain/policy.py\<close>, the engines of
  \<^verbatim>\<open>auth/policy.py\<close> and \<^verbatim>\<open>auth/opa_policy.py\<close>, the tool interceptor of
  \<^verbatim>\<open>auth/tool_authz.py\<close> and the list views of the hub that apply an access filter
  (\<^verbatim>\<open>hub/services.py\<close>).  The answer of the OPA sidecar is an argument.
\<close>

record resource_ref =
  res_type :: string
  res_id :: string
  res_owner_id :: "string option"

record access_filter =
  f_allow_all :: bool
  f_owner_id :: "string option"
  f_object_ids :: "string list option"

record policy_engine =
  pe_check :: "user \<Rightarrow> string \<Rightarrow> resource_ref \<Rightarrow> dict option \<Rightarrow> bool result"
  pe_require :: "user \<Rightarrow> string \<Rightarrow> resource_ref \<Rightarrow> dict option \<Rightarrow> unit result"
  pe_access_filter :: "user \<Rightarrow> string \<Rightarrow> string \<Rightarrow> dict option \<Rightarrow> access_filter result"

definition all_filter :: access_filter where
  "all_filter = \<lparr>f_allow_all = True, f_owner_id = None, f_object_ids = None\<rparr>"

definition owner_filter :: "string \<Rightarrow> access_filter" where
  "owner_filter uid = \<lparr>f_allow_all = False, f_owner_id = Some uid, f_object_ids = None\<rparr>"

definition ids_filter :: "string list \<Rightarrow> access_filter" where
  "ids_filter ids = \<lparr>f_allow_all = False, f_owner_id = None, f_object_ids = Some ids\<rparr>"

definition is_admin :: "user \<Rightarrow> bool" where
  "is_admin u = (''admin'' \<in> set (permissions u))"

definition require_of :: "bool result \<Rightarrow> unit result" where
  "require_of r = bind_res r (\<lambda>b. if b then Inr () else Inl (HTTPException 403))"

subsection \<open>\<open>LocalPolicyEngine\<close>\<close>

definition local_check :: "user \<Rightarrow> string \<Rightarrow> resource_ref \<Rightarrow> dict option \<Rightarrow> bool result" where
  "local_check u perm r ctx = Inr (Some (identity u) = res_owner_id r \<or> is_admin u)"

definition local_access_filter :: "user \<Rightarrow> string \<Rightarrow> string \<Rightarrow> dict option \<Rightarrow> access_filter result" where
  "local_access_filter u perm ty ctx = Inr (if is_admin u then all_filter else owner_filter (identity u))"

definition local_engine :: policy_engine where
  "local_engine = \<lparr>pe_check = local_check,
     pe_require = (\<lambda>u perm r ctx. require_of (local_check u perm r ctx)),
     pe_access_filter = local_access_filter\<rparr>"

subsection \<open>\<open>CompositePolicyEngine\<close>\<close>

text \<open>\<open>asyncio.gather\<close> over calls: the first exception, or all the results in order.\<close>

fun gather :: "'a result list \<Rightarrow> 'a list result" where
  "gather [] = Inr []"
| "gather (r # rs) = bind_res r (\<lambda>x. bind_res (gather rs) (\<lambda>xs. Inr (x # xs)))"

definition composite_check ::
  "policy_engine list \<Rightarrow> user \<Rightarrow> string \<Rightarrow> resource_ref \<Rightarrow> dict option \<Rightarrow> bool result"
where
  "composite_check es u perm r ctx =
     bind_res (gather (map (\<lambda>e. pe_check e u perm r ctx) es)) (\<lambda>bs. Inr (list_all (\<lambda>b. b) bs))"

fun composite_require ::
  "policy_engine list \<Rightarrow> user \<Rightarrow> string \<Rightarrow> resource_ref \<Rightarrow> dict option \<Rightarrow> unit result"
where
  "composite_require [] u perm r ctx = Inr ()"
| "composite_require (e # es) u perm r ctx =
     bind_res (pe_require e u perm r ctx) (\<lambda>_. composite_require es u perm r ctx)"

text \<open>The composition of the filters, as a list of ids for the intersection of the id sets.\<close>

definition compose_filters :: "access_filter list \<Rightarrow> access_filter" where
  "compose_filters fs =
     (if list_all f_allow_all fs then all_filter
      else
        (case List.map_filter f_object_ids fs of
           ids # rest \<Rightarrow> ids_filter (filter (\<lambda>x. list_all (\<lambda>s. x \<in> set s) rest) ids)
         | [] \<Rightarrow>
             (case remdups (List.map_filter f_owner_id fs) of
                [uid] \<Rightarrow> owner_filter uid
              | _ \<Rightarrow> ids_filter [])))"

definition composite_access_filter ::
  "policy_engine list \<Rightarrow> user \<Rightarrow> string \<Rightarrow> string \<Rightarrow> dict option \<Rightarrow> access_filter result"
where
  "composite_access_filter es u perm ty ctx =
     bind_res (gather (map (\<lambda>e. pe_access_filter e u perm ty ctx) es)) (\<lambda>fs. Inr (compose_filters fs))"

definition composite_engine :: "policy_engine list \<Rightarrow> policy_engine result" where
  "composite_engine es =
     (if es = [] then Inl ValueError
      else Inr \<lparr>pe_check = composite_check es, pe_require = composite_require es,
                pe_access_filter = composite_access_filter es\<rparr>)"

subsection \<open>\<open>OpaPolicyEngine\<close>\<close>

text \<open>
  The sidecar as a function from the rule and the input document to its result, \<open>None\<close> when it
  cannot be reached or answers garbage.
\<close>

type_synonym opa = "string \<Rightarrow> dict \<Rightarrow> json option"

datatype decision = Decided json | Fallback

definition opa_decide :: "bool \<Rightarrow> opa \<Rightarrow> string \<Rightarrow> dict \<Rightarrow> decision result" where
  "opa_decide fail_closed opa rule doc =
     (case opa rule doc of
        Some j \<Rightarrow> Inr (Decided j)
      | None \<Rightarrow> if fail_closed then Inl (HTTPException 503) else Inr Fallback)"

definition opt_str :: "string option \<Rightarrow> json" where
  "opt_str s = (case s of None \<Rightarrow> JNull | Some x \<Rightarrow> JStr x)"

definition subject_doc :: "user \<Rightarrow> json" where
  "subject_doc u =
     JObj [(''identity'', JStr (identity u)), (''permissions'', JList (map JStr (permissions u)))]"

definition opa_input :: "user \<Rightarrow> string \<Rightarrow> resource_ref \<Rightarrow> dict option \<Rightarrow> dict" where
  "opa_input u perm r ctx =
     [(''subject'', subject_doc u), (''permission'', JStr perm),
      (''resource'', JObj [(''type'', JStr (res_type r)), (''id'', JStr (res_id r)),
                           (''owner_id'', opt_str (res_owner_id r))]),
      (''context'', JObj (case ctx of None \<Rightarrow> [] | Some c \<Rightarrow> c))]"

definition opa_check ::
  "bool \<Rightarrow> opa \<Rightarrow> user \<Rightarrow> string \<Rightarrow> resource_ref \<Rightarrow> dict option \<Rightarrow> bool result"
where
  "opa_check fail_closed opa u perm r ctx =
     bind_res (opa_decide fail_closed opa ''allow'' (opa_input u perm r ctx)) (\<lambda>dec.
       case dec of Fallback \<Rightarrow> local_check u perm r None | Decided j \<Rightarrow> Inr (json_truthy j))"

text \<open>
  A filter result that is not an object has no \<open>get\<close> and raises; ids that are no strings match
  no row and are left out.
\<close>

definition opa_filter_of :: "json \<Rightarrow> access_filter result" where
  "opa_filter_of j =
     (case j of
        JObj d \<Rightarrow>
          bind_res
            (case map_of d ''object_ids'' of
               None \<Rightarrow> Inr None
             | Some v \<Rightarrow>
                 if \<not> json_truthy v then Inr None
                 else (case v of
                         JList xs \<Rightarrow> Inr (Some (List.map_filter (\<lambda>x. case x of JStr s \<Rightarrow> Some s | _ \<Rightarrow> None) xs))
                       | JStr s \<Rightarrow> Inr (Some (map (\<lambda>c. [c]) s))
                       | JObj kvs \<Rightarrow> Inr (Some (map fst kvs))
                       | _ \<Rightarrow> Inl TypeError))
            (\<lambda>ids. Inr \<lparr>f_allow_all = (case map_of d ''allow_all'' of None \<Rightarrow> False | Some v \<Rightarrow> json_truthy v),
                       f_owner_id = (case map_of d ''owner_id'' of Some (JStr s) \<Rightarrow> Some s | _ \<Rightarrow> None),
                       f_object_ids = ids\<rparr>)
      | _ \<Rightarrow> Inl AttributeError)"

definition opa_access_filter ::
  "bool \<Rightarrow> opa \<Rightarrow> user \<Rightarrow> string \<Rightarrow> string \<Rightarrow> dict option \<Rightarrow> access_filter result"
where
  "opa_access_filter fail_closed opa u perm ty ctx =
     bind_res (opa_decide fail_closed opa ''filter''
         [(''subject'', subject_doc u), (''permission'', JStr perm),
          (''resource'', JObj [(''type'', JStr ty)]),
          (''context'', JObj (case ctx of None \<Rightarrow> [] | Some c \<Rightarrow> c))]) (\<lambda>dec.
       case dec of Fallback \<Rightarrow> local_access_filter u perm ty None | Decided j \<Rightarrow> opa_filter_of j)"

definition opa_engine :: "bool \<Rightarrow> opa \<Rightarrow> policy_engine" where
  "opa_engine fail_closed opa = \<lparr>pe_check = opa_check fail_closed opa,
     pe_require = (\<lambda>u perm r ctx. require_of (opa_check fail_closed opa u perm r ctx)),
     pe_access_filter = opa_access_filter fail_closed opa\<rparr>"

subsection \<open>Clients of an engine\<close>

text \<open>\<open>PolicyToolInterceptor\<close>: the tool call goes through only after \<open>require\<close>.\<close>

definition tool_user :: "user_id option \<Rightarrow> user" where
  "tool_user uid =
     \<lparr>identity = (if truthy_str uid then the uid else ''system''), is_authenticated = True,
      permissions = [], display_name = [], org_id = None, email = None\<rparr>"

definition intercept_tool_call ::
  "policy_engine \<Rightarrow> user_id option \<Rightarrow> string \<Rightarrow> string \<Rightarrow> (unit \<Rightarrow> 'r result) \<Rightarrow> 'r result"
where
  "intercept_tool_call e uid server tool handler =
     bind_res (pe_require e (tool_user uid) ''execute''
         \<lparr>res_type = ''mcp_tool'', res_id = server @ ''/'' @ tool, res_owner_id = None\<rparr> None)
       (\<lambda>_. handler ())"

text \<open>Rows of a hub table: name and owner.  \<open>SkillService.list_mine\<close> and its MCP counterpart.\<close>

record hub_row =
  h_name :: string
  h_user_id :: user_id

definition skill_visible :: "user \<Rightarrow> access_filter \<Rightarrow> hub_row \<Rightarrow> bool" where
  "skill_visible u f row =
     (if f_allow_all f then True
      else case f_object_ids f of
             Some ids \<Rightarrow> h_name row \<in> set ids
           | None \<Rightarrow> h_user_id row = (if truthy_str (f_owner_id f) then the (f_owner_id f) else identity u))"

definition skill_list_mine :: "policy_engine \<Rightarrow> user \<Rightarrow> hub_row list \<Rightarrow> hub_row list result" where
  "skill_list_mine e u rows =
     bind_res (pe_access_filter e u ''search'' ''skill'' None) (\<lambda>f. Inr (filter (skill_visible u f) rows))"

definition connection_list_mine :: "policy_engine \<Rightarrow> user \<Rightarrow> hub_row list \<Rightarrow> hub_row list result" where
  "connection_list_mine e u rows =
     bind_res (pe_access_filter e u ''search'' ''mcp_connection'' None) (\<lambda>f.
       Inr (filter (\<lambda>row. h_user_id row =
         (if f_allow_all f then identity u
          else if truthy_str (f_owner_id f) then the (f_owner_id f) else identity u)) rows))"

subsection \<open>The contract of an engine\<close>

locale lawful_engine =
  fixes e :: policy_engine
  assumes require_iff_check: "pe_require e u perm r ctx = Inr () \<longleftrightarrow> pe_check e u perm r ctx = Inr True"
begin

text \<open>No tool runs without an allowing decision of the engine.\<close>

lemma intercepted:
  assumes "intercept_tool_call e uid server tool handler = Inr y"
  shows "pe_check e (tool_user uid) ''execute''
      \<lparr>res_type = ''mcp_tool'', res_id = server @ ''/'' @ tool, res_owner_id = None\<rparr> None = Inr True
    \<and> handler () = Inr y"
  using assms require_iff_check unfolding intercept_tool_call_def
  by (auto dest!: bind_res_InrD)

end

lemma require_of_Inr: "require_of r = Inr () \<longleftrightarrow> r = Inr True"
  by (cases r) (auto simp: require_of_def)

interpretation local_pe: lawful_engine local_engine
  by unfold_locales (simp add: local_engine_def require_of_Inr)

interpretation opa_pe: lawful_engine "opa_engine fail_closed opa" for fail_closed opa
  by unfold_locales (simp add: opa_engine_def require_of_Inr)

lemma gather_all_true:
  "bind_res (gather rs) (\<lambda>bs. Inr (list_all (\<lambda>b. b) bs)) = Inr True \<longleftrightarrow> (\<forall>r \<in> set rs. r = Inr True)"
proof (induction rs)
  case (Cons r rs)
  show ?case
  proof (cases r)
    case (Inr b)
    with Cons show ?thesis by (cases "gather rs") auto
  qed simp
qed simp

lemma composite_require_Inr:
  "composite_require es u perm r ctx = Inr () \<longleftrightarrow> (\<forall>e \<in> set es. pe_require e u perm r ctx = Inr ())"
proof (induction es)
  case (Cons e es)
  then show ?case by (cases "pe_require e u perm r ctx") auto
qed simp

text \<open>The composition of lawful engines is lawful.\<close>

lemma composite_lawful:
  assumes "\<And>e. e \<in> set es \<Longrightarrow> lawful_engine e" and "composite_engine es = Inr c"
  shows "lawful_engine c"
proof
  fix u perm r ctx
  have "pe_require e u perm r ctx = Inr () \<longleftrightarrow> pe_check e u perm r ctx = Inr True" if "e \<in> set es" for e
    using assms(1) [OF that] by (rule lawful_engine.require_iff_check)
  then show "pe_require c u perm r ctx = Inr () \<longleftrightarrow> pe_check c u perm r ctx = Inr True"
    using assms(2)
    by (auto simp: composite_engine_def composite_require_Inr composite_check_def gather_all_true
        split: if_splits)
qed

lemma map_filter_Nil_iff: "List.map_filter f xs = [] \<longleftrightarrow> (\<forall>x \<in> set xs. f x = None)"
  by (induction xs) (auto simp: map_filter_simps split: option.splits)

lemma set_map_filter_Some: "y \<in> set (List.map_filter f xs) \<longleftrightarrow> (\<exists>x \<in> set xs. f x = Some y)"
  by (auto simp: map_filter_def) (force simp: image_iff)

subsection \<open>What the policy layer guarantees\<close>

text \<open>
  Claim C39.  A composed policy is a conjunction.  For lawful engines, \<open>require\<close> on the
  composition succeeds exactly when every engine's own check allows, \<open>check\<close> answers yes exactly
  then, and a tool call goes through the interceptor only if every engine allowed it.
\<close>

theorem composite_policy_conjunction:
  assumes "composite_engine es = Inr c" and "\<forall>e \<in> set es. lawful_engine e"
  shows "(pe_require c u perm r ctx = Inr () \<longleftrightarrow> (\<forall>e \<in> set es. pe_check e u perm r ctx = Inr True)) \<and>
    (pe_check c u perm r ctx = Inr True \<longleftrightarrow> (\<forall>e \<in> set es. pe_check e u perm r ctx = Inr True)) \<and>
    (intercept_tool_call c uid server tool handler = Inr y \<longrightarrow>
       (\<forall>e \<in> set es. pe_check e (tool_user uid) ''execute''
          \<lparr>res_type = ''mcp_tool'', res_id = server @ ''/'' @ tool, res_owner_id = None\<rparr> None = Inr True))"
proof -
  have law: "lawful_engine c" by (rule composite_lawful [OF _ assms(1)]) (use assms(2) in blast)
  have check: "pe_check c u perm r ctx = Inr True \<longleftrightarrow> (\<forall>e \<in> set es. pe_check e u perm r ctx = Inr True)" for u perm r ctx
    using assms(1) by (auto simp: composite_engine_def composite_check_def gather_all_true split: if_splits)
  have "pe_require c u perm r ctx = Inr () \<longleftrightarrow> (\<forall>e \<in> set es. pe_check e u perm r ctx = Inr True)"
    using lawful_engine.require_iff_check [OF law] check by simp
  moreover have "intercept_tool_call c uid server tool handler = Inr y \<longrightarrow>
       (\<forall>e \<in> set es. pe_check e (tool_user uid) ''execute''
          \<lparr>res_type = ''mcp_tool'', res_id = server @ ''/'' @ tool, res_owner_id = None\<rparr> None = Inr True)"
    using lawful_engine.intercepted [OF law, of uid server tool handler y] check by blast
  ultimately show ?thesis using check by blast
qed

theorem composite_policy_conjunction_witness:
  "\<exists>c. composite_engine [local_engine, opa_engine True (\<lambda>_ _. Some (JBool False))] = Inr c \<and>
     pe_require c \<lparr>identity = ''alice'', is_authenticated = True, permissions = [], display_name = [],
                   org_id = None, email = None\<rparr> ''read''
       \<lparr>res_type = ''skill'', res_id = ''s'', res_owner_id = Some ''alice''\<rparr> None \<noteq> Inr ()"
proof -
  let ?es = "[local_engine, opa_engine True (\<lambda>_ _. Some (JBool False))]"
  obtain c where c: "composite_engine ?es = Inr c" by (simp add: composite_engine_def)
  have law: "\<forall>e \<in> set ?es. lawful_engine e"
    using local_pe.lawful_engine_axioms opa_pe.lawful_engine_axioms by simp
  let ?u = "\<lparr>identity = ''alice'', is_authenticated = True, permissions = [], display_name = [], org_id = None, email = None\<rparr>"
  let ?r = "\<lparr>res_type = ''skill'', res_id = ''s'', res_owner_id = Some ''alice''\<rparr>"
  have "pe_check (opa_engine True (\<lambda>_ _. Some (JBool False))) ?u ''read'' ?r None \<noteq> Inr True"
    by (simp add: opa_engine_def opa_check_def opa_decide_def)
  then have "pe_require c ?u ''read'' ?r None \<noteq> Inr ()"
    using composite_policy_conjunction [OF c law, of ?u "''read''" ?r None] by auto
  with c show ?thesis by blast
qed

text \<open>The filters the engines of the code return, and lists of them that do not mix owners with ids.\<close>

definition plain_filter :: "access_filter \<Rightarrow> bool" where
  "plain_filter f \<longleftrightarrow> f = all_filter \<or> (\<exists>o'. o' \<noteq> [] \<and> f = owner_filter o') \<or> (\<exists>ids. f = ids_filter ids)"

definition unmixed :: "access_filter list \<Rightarrow> bool" where
  "unmixed fs \<longleftrightarrow> (\<forall>f \<in> set fs. f_object_ids f = None) \<or> (\<forall>f \<in> set fs. f_owner_id f = None)"

lemma skill_visible_simps [simp]:
  "skill_visible u all_filter row"
  "o' \<noteq> [] \<Longrightarrow> skill_visible u (owner_filter o') row \<longleftrightarrow> h_user_id row = o'"
  "skill_visible u (ids_filter ids) row \<longleftrightarrow> h_name row \<in> set ids"
  by (simp_all add: skill_visible_def all_filter_def owner_filter_def ids_filter_def truthy_str_def)

lemma plain_filterE:
  assumes "plain_filter f"
  obtains (all) "f = all_filter" | (own) o' where "o' \<noteq> []" "f = owner_filter o'" | (ids) ids where "f = ids_filter ids"
  using assms by (auto simp: plain_filter_def)

lemma plain_selectors [simp]:
  "f_object_ids all_filter = None" "f_object_ids (owner_filter o') = None" "f_object_ids (ids_filter ids) = Some ids"
  "f_owner_id all_filter = None" "f_owner_id (owner_filter o') = Some o'" "f_owner_id (ids_filter ids) = None"
  "f_allow_all all_filter" "\<not> f_allow_all (owner_filter o')" "\<not> f_allow_all (ids_filter ids)"
  by (simp_all add: all_filter_def owner_filter_def ids_filter_def)

lemma compose_ids:
  assumes "\<forall>f \<in> set fs. plain_filter f" and "\<forall>f \<in> set fs. f_owner_id f = None" and "\<not> list_all f_allow_all fs"
  shows "skill_visible u (compose_filters fs) row \<longleftrightarrow> (\<forall>f \<in> set fs. skill_visible u f row)"
proof -
  have vis: "skill_visible u f row \<longleftrightarrow> (\<forall>ids. f_object_ids f = Some ids \<longrightarrow> h_name row \<in> set ids)" if "f \<in> set fs" for f
    using bspec [OF assms(1) that] bspec [OF assms(2) that] by (auto elim!: plain_filterE)
  obtain ids rest where ids: "List.map_filter f_object_ids fs = ids # rest"
  proof (cases "List.map_filter f_object_ids fs")
    case Nil
    then have "\<forall>f \<in> set fs. f_object_ids f = None" by (simp add: map_filter_Nil_iff)
    then have "list_all f_allow_all fs" using assms(1,2) by (fastforce simp: list_all_iff elim!: plain_filterE)
    with assms(3) show thesis by simp
  qed (rule that)
  have sets: "x \<in> set (ids # rest) \<longleftrightarrow> (\<exists>f \<in> set fs. f_object_ids f = Some x)" for x
    unfolding ids [symmetric] by (rule set_map_filter_Some)
  have "skill_visible u (compose_filters fs) row \<longleftrightarrow> (\<forall>x \<in> set (ids # rest). h_name row \<in> set x)"
    using assms(3) ids by (auto simp: compose_filters_def list_all_iff)
  also have "\<dots> \<longleftrightarrow> (\<forall>f \<in> set fs. skill_visible u f row)" unfolding Ball_def sets using vis by blast
  finally show ?thesis .
qed

lemma compose_owners:
  assumes "\<forall>f \<in> set fs. plain_filter f" and "\<forall>f \<in> set fs. f_object_ids f = None" and "\<not> list_all f_allow_all fs"
  shows "skill_visible u (compose_filters fs) row \<longleftrightarrow> (\<forall>f \<in> set fs. skill_visible u f row)"
proof -
  have vis: "skill_visible u f row \<longleftrightarrow> (\<forall>o'. f_owner_id f = Some o' \<longrightarrow> h_user_id row = o')" if "f \<in> set fs" for f
    using bspec [OF assms(1) that] bspec [OF assms(2) that] by (auto elim!: plain_filterE)
  let ?os = "remdups (List.map_filter f_owner_id fs)"
  have sets: "x \<in> set ?os \<longleftrightarrow> (\<exists>f \<in> set fs. f_owner_id f = Some x)" for x
    by (simp add: set_map_filter_Some)
  have all: "(\<forall>f \<in> set fs. skill_visible u f row) \<longleftrightarrow> (\<forall>x \<in> set ?os. h_user_id row = x)"
    unfolding Ball_def sets using vis by blast
  have ne: "?os \<noteq> []"
  proof
    assume "?os = []"
    then have "\<forall>f \<in> set fs. f_owner_id f = None" by (simp add: map_filter_Nil_iff)
    then have "list_all f_allow_all fs" using assms(1,2) by (fastforce simp: list_all_iff elim!: plain_filterE)
    with assms(3) show False by simp
  qed
  have comp: "compose_filters fs = (case ?os of [uid] \<Rightarrow> owner_filter uid | _ \<Rightarrow> ids_filter [])"
    using assms(2,3) map_filter_Nil_iff [of f_object_ids fs] by (simp add: compose_filters_def)
  show ?thesis
  proof (cases ?os)
    case Nil
    with ne show ?thesis by simp
  next
    case (Cons x xs)
    have x: "x \<noteq> []" using Cons sets [of x] assms(1) by (auto elim!: plain_filterE)
    show ?thesis
    proof (cases xs)
      case Nil
      with Cons x comp all show ?thesis by simp
    next
      case (Cons y ys)
      have "x \<noteq> y" using distinct_remdups [of "List.map_filter f_owner_id fs"] \<open>?os = x # xs\<close> Cons by simp
      with \<open>?os = x # xs\<close> Cons comp all show ?thesis by auto
    qed
  qed
qed

text \<open>
  Composing list filters intersects them.  When the engines' filters are of one kind,
  owners or ids, besides unrestricted ones, a row is listed under the composed filter exactly
  when every engine's own filter lists it.
\<close>

theorem composed_filter_intersects:
  assumes "\<forall>f \<in> set fs. plain_filter f" and "unmixed fs"
  shows "skill_visible u (compose_filters fs) row \<longleftrightarrow> (\<forall>f \<in> set fs. skill_visible u f row)"
proof (cases "list_all f_allow_all fs")
  case True
  then have "\<forall>f \<in> set fs. skill_visible u f row" by (simp add: list_all_iff skill_visible_def)
  with True show ?thesis by (simp add: compose_filters_def)
next
  case False
  with assms compose_ids [of fs u row] compose_owners [of fs u row] show ?thesis by (auto simp: unmixed_def)
qed

theorem composed_filter_intersects_witness:
  "\<forall>u. skill_visible u (compose_filters [ids_filter [''a'', ''b''], ids_filter [''b'']]) \<lparr>h_name = ''b'', h_user_id = ''x''\<rparr> \<and>
   \<not> skill_visible u (compose_filters [ids_filter [''a'', ''b''], ids_filter [''b'']]) \<lparr>h_name = ''a'', h_user_id = ''x''\<rparr>"
proof -
  have ok: "\<forall>f \<in> set [ids_filter [''a'', ''b''], ids_filter [''b'']]. plain_filter f"
    "unmixed [ids_filter [''a'', ''b''], ids_filter [''b'']]"
    by (auto simp: plain_filter_def unmixed_def)
  show ?thesis
    using composed_filter_intersects [OF ok, of _ "\<lparr>h_name = ''b'', h_user_id = ''x''\<rparr>"]
      composed_filter_intersects [OF ok, of _ "\<lparr>h_name = ''a'', h_user_id = ''x''\<rparr>"] by simp
qed

text \<open>
  Mixed filters widen access.  When one engine restricts a listing to the caller's
  own rows and another to a set of ids, the composition keeps only the ids: for any owner and
  any listed row of somebody else the row becomes visible although the owner filter hides it.
  And an engine that narrows connections to no ids at all still lists the caller's own ones.
\<close>

theorem mixed_filters_widen:
  assumes "o' \<noteq> []" and "h_user_id row \<noteq> o'"
  shows "skill_visible u (compose_filters [owner_filter o', ids_filter [h_name row]]) row \<and>
    \<not> skill_visible u (owner_filter o') row \<and>
    (\<forall>e. pe_access_filter e u ''search'' ''mcp_connection'' None = Inr (ids_filter []) \<longrightarrow>
       connection_list_mine e u [\<lparr>h_name = n, h_user_id = identity u\<rparr>] = Inr [\<lparr>h_name = n, h_user_id = identity u\<rparr>])"
  using assms by (simp add: compose_filters_def map_filter_simps connection_list_mine_def truthy_str_def)

theorem mixed_filters_widen_witness:
  "skill_visible \<lparr>identity = ''alice'', is_authenticated = True, permissions = [], display_name = [], org_id = None, email = None\<rparr>
     (compose_filters [owner_filter ''alice'', ids_filter [''s'']]) \<lparr>h_name = ''s'', h_user_id = ''bob''\<rparr>"
  using mixed_filters_widen [of "''alice''" "\<lparr>h_name = ''s'', h_user_id = ''bob''\<rparr>"] by simp

end
