(* ===== verification/Auth.thy ===== *)
theory Auth
  imports Json
begin

text \<open>
  Authorisation handlers: the compilation of a handler's filter dictionary into a predicate over
  the metadata column (\<^verbatim>\<open>auth/filters.py\<close>) and the resolution and interpretation of handlers
  (\<^verbatim>\<open>auth/handlers.py\<close>).  The JSONB containment operator \<open>@>\<close> of the database is the argument
  \<open>contains\<close>; the handlers themselves are user code.
\<close>

definition MAX_FILTER_DEPTH :: nat where "MAX_FILTER_DEPTH = 2"

subsection \<open>Filters\<close>

datatype clause =
    MetaContains string json
  | FieldContains string "json list"
  | AndClause "clause list"
  | OrClause "clause list"

definition compile_field :: "string \<Rightarrow> json \<Rightarrow> clause result" where
  "compile_field key value =
     (case value of
        JObj [(op, operand)] \<Rightarrow>
          if op = ''$eq'' then Inr (MetaContains key operand)
          else if op = ''$contains''
          then Inr (FieldContains key (case operand of JList xs \<Rightarrow> xs | _ \<Rightarrow> [operand]))
          else Inl (HTTPException 500)
      | JObj _ \<Rightarrow> Inl (HTTPException 500)
      | _ \<Rightarrow> Inr (MetaContains key value))"

definition bool_op :: "string \<Rightarrow> bool" where
  "bool_op k = (k = ''$or'' \<or> k = ''$and'')"

definition good_branch :: "json \<Rightarrow> bool" where
  "good_branch b = (case b of JObj d \<Rightarrow> d \<noteq> [] | _ \<Rightarrow> False)"

definition branch_dict :: "json \<Rightarrow> dict" where
  "branch_dict b = (case b of JObj d \<Rightarrow> d | _ \<Rightarrow> [])"

text \<open>\<open>_compile\<close> with \<open>_compile_bool_op\<close> written into it.\<close>

function compile_filters :: "nat \<Rightarrow> dict \<Rightarrow> clause list result" where
  "compile_filters depth fs =
     map_res (\<lambda>kv.
       if bool_op (fst kv) then
         (if MAX_FILTER_DEPTH \<le> depth then Inl (HTTPException 500)
          else case snd kv of
                 JList bs \<Rightarrow>
                   if length bs < 2 \<or> \<not> list_all good_branch bs then Inl (HTTPException 500)
                   else bind_res (map_res (\<lambda>b. bind_res (compile_filters (Suc depth) (branch_dict b))
                                            (\<lambda>cs. Inr (AndClause cs))) bs)
                          (\<lambda>compiled. Inr (if fst kv = ''$or'' then OrClause compiled else AndClause compiled))
               | _ \<Rightarrow> Inl (HTTPException 500))
       else compile_field (fst kv) (snd kv)) fs"
  by pat_completeness auto
termination
  by (relation "measure (\<lambda>(depth, _). MAX_FILTER_DEPTH - depth)") auto

declare compile_filters.simps [simp del]

definition unwrap_metadata_envelope :: "dict \<Rightarrow> dict" where
  "unwrap_metadata_envelope fs =
     (case map_of fs ''metadata'' of
        Some (JObj envelope) \<Rightarrow> dict_update envelope (dict_filter (\<lambda>k. k \<noteq> ''metadata'') fs)
      | _ \<Rightarrow> fs)"

definition build_metadata_filter :: "dict option \<Rightarrow> clause option result" where
  "build_metadata_filter filters =
     (case filters of
        None \<Rightarrow> Inr None
      | Some [] \<Rightarrow> Inr None
      | Some fs \<Rightarrow>
          bind_res (compile_filters 0 (unwrap_metadata_envelope fs)) (\<lambda>clauses.
            Inr (case clauses of [] \<Rightarrow> None | [c] \<Rightarrow> Some c | cs \<Rightarrow> Some (AndClause cs))))"

text \<open>The rows a clause selects; a missing field gives NULL, which selects nothing.\<close>

fun eval_clause :: "(json \<Rightarrow> json \<Rightarrow> bool) \<Rightarrow> dict \<Rightarrow> clause \<Rightarrow> bool" where
  "eval_clause contains md (MetaContains k v) = contains (JObj md) (JObj [(k, v)])"
| "eval_clause contains md (FieldContains k items) =
     (case map_of md k of None \<Rightarrow> False | Some v \<Rightarrow> contains v (JList items))"
| "eval_clause contains md (AndClause cs) = (\<forall>c \<in> set cs. eval_clause contains md c)"
| "eval_clause contains md (OrClause cs) = (\<exists>c \<in> set cs. eval_clause contains md c)"

subsection \<open>What a filter means\<close>

definition sat_field :: "(json \<Rightarrow> json \<Rightarrow> bool) \<Rightarrow> dict \<Rightarrow> string \<Rightarrow> json \<Rightarrow> bool" where
  "sat_field contains md k v =
     (case v of
        JObj [(op, operand)] \<Rightarrow>
          if op = ''$contains''
          then (case map_of md k of
                  None \<Rightarrow> False
                | Some x \<Rightarrow> contains x (JList (case operand of JList xs \<Rightarrow> xs | _ \<Rightarrow> [operand])))
          else contains (JObj md) (JObj [(k, operand)])
      | _ \<Rightarrow> contains (JObj md) (JObj [(k, v)]))"

lemma branch_smaller:
  assumes "kv \<in> set fs" and "snd kv = JList bs" and "b \<in> set bs"
  shows "json_depth b < json_depth (JObj fs)"
  using json_depth_elem [OF assms(3)] json_depth_value [OF assms(1)] assms(2) by (metis order.strict_trans)

text \<open>
  The documented reading: keys are a conjunction, \<open>$or\<close> and \<open>$and\<close> combine their branches.
\<close>

function sat :: "(json \<Rightarrow> json \<Rightarrow> bool) \<Rightarrow> dict \<Rightarrow> json \<Rightarrow> bool" where
  "sat contains md f =
     (case f of
        JObj fs \<Rightarrow>
          list_all (\<lambda>kv.
            case snd kv of
              JList bs \<Rightarrow>
                if fst kv = ''$or'' then list_ex (\<lambda>b. sat contains md b) bs
                else if fst kv = ''$and'' then list_all (\<lambda>b. sat contains md b) bs
                else sat_field contains md (fst kv) (JList bs)
            | v \<Rightarrow> sat_field contains md (fst kv) v) fs
      | _ \<Rightarrow> False)"
  by pat_completeness auto
termination
  by (relation "measure (\<lambda>(_, _, f). json_depth f)") (auto simp del: json_depth.simps intro: branch_smaller)

declare sat.simps [simp del]

lemma compile_field_sat:
  assumes "compile_field k v = Inr c"
  shows "eval_clause contains md c \<longleftrightarrow> sat_field contains md k v"
  using assms
  by (auto simp: compile_field_def sat_field_def split: json.splits list.splits prod.splits if_splits)

lemma sat_bool_op:
  "sat contains md (JObj fs) =
     list_all (\<lambda>kv. if bool_op (fst kv) \<and> (\<exists>bs. snd kv = JList bs)
       then (if fst kv = ''$or'' then list_ex else list_all) (sat contains md) (case snd kv of JList bs \<Rightarrow> bs | _ \<Rightarrow> [])
       else sat_field contains md (fst kv) (snd kv)) fs"
  by (subst sat.simps) (auto simp: bool_op_def list_all_iff split: json.splits)

lemma list_all2_ball: "list_all2 P xs ys \<Longrightarrow> (\<And>x y. x \<in> set xs \<Longrightarrow> P x y \<Longrightarrow> Q y = R x) \<Longrightarrow> list_all Q ys = list_all R xs"
  by (induction rule: list_all2_induct) auto

lemma list_all2_bex: "list_all2 P xs ys \<Longrightarrow> (\<And>x y. x \<in> set xs \<Longrightarrow> P x y \<Longrightarrow> Q y = R x) \<Longrightarrow> list_ex Q ys = list_ex R xs"
  by (induction rule: list_all2_induct) auto

text \<open>A filter that compiles selects exactly the metadata its documented reading accepts.\<close>

lemma compile_filters_sat:
  "compile_filters depth fs = Inr cs \<Longrightarrow>
   list_all (eval_clause contains md) cs = sat contains md (JObj fs)"
proof (induction depth fs arbitrary: cs rule: compile_filters.induct)
  case (1 depth fs)
  let ?clause = "\<lambda>kv. if bool_op (fst kv) then
         (if MAX_FILTER_DEPTH \<le> depth then Inl (HTTPException 500)
          else case snd kv of
                 JList bs \<Rightarrow>
                   if length bs < 2 \<or> \<not> list_all good_branch bs then Inl (HTTPException 500)
                   else bind_res (map_res (\<lambda>b. bind_res (compile_filters (Suc depth) (branch_dict b))
                                            (\<lambda>cs. Inr (AndClause cs))) bs)
                          (\<lambda>compiled. Inr (if fst kv = ''$or'' then OrClause compiled else AndClause compiled))
               | _ \<Rightarrow> Inl (HTTPException 500))
       else compile_field (fst kv) (snd kv)"
  have "map_res ?clause fs = Inr cs"
    using "1.prems" by (subst (asm) compile_filters.simps)
  then have all2: "list_all2 (\<lambda>kv c. ?clause kv = Inr c) fs cs" by (rule map_res_InrD)
  have "eval_clause contains md c =
      (if bool_op (fst kv) \<and> (\<exists>bs. snd kv = JList bs)
       then (if fst kv = ''$or'' then list_ex else list_all) (sat contains md) (case snd kv of JList bs \<Rightarrow> bs | _ \<Rightarrow> [])
       else sat_field contains md (fst kv) (snd kv))"
    if kv: "kv \<in> set fs" and c: "?clause kv = Inr c" for kv c
  proof (cases "bool_op (fst kv)")
    case False
    with c show ?thesis by (simp add: compile_field_sat)
  next
    case True
    with c have room: "\<not> MAX_FILTER_DEPTH \<le> depth" by (auto split: if_splits)
    with c True obtain bs where bs: "snd kv = JList bs" "\<not> (length bs < 2 \<or> \<not> list_all good_branch bs)"
      by (auto split: json.splits if_splits)
    with c True room obtain compiled where
      comp: "map_res (\<lambda>b. bind_res (compile_filters (Suc depth) (branch_dict b)) (\<lambda>cs. Inr (AndClause cs))) bs = Inr compiled"
      and c': "c = (if fst kv = ''$or'' then OrClause compiled else AndClause compiled)"
      by (auto dest!: bind_res_InrD)
    have branches: "eval_clause contains md d = sat contains md b"
      if "b \<in> set bs" and d: "bind_res (compile_filters (Suc depth) (branch_dict b)) (\<lambda>cs. Inr (AndClause cs)) = Inr d" for b d
    proof -
      have "good_branch b" using bs(2) that(1) by (auto simp: list_all_iff)
      then have "b = JObj (branch_dict b)" by (auto simp: good_branch_def branch_dict_def split: json.splits)
      moreover from d obtain ds where ds: "compile_filters (Suc depth) (branch_dict b) = Inr ds" "d = AndClause ds"
        by (auto dest!: bind_res_InrD)
      ultimately show ?thesis
        using "1.IH" [OF kv True room bs that(1) ds(1)] by (simp add: list_all_iff)
    qed
    note all2' = map_res_InrD [OF comp]
    have "list_ex (eval_clause contains md) compiled = list_ex (sat contains md) bs"
      "list_all (eval_clause contains md) compiled = list_all (sat contains md) bs"
      using list_all2_bex [OF all2' branches] list_all2_ball [OF all2' branches] by auto
    with c' bs True show ?thesis by (auto simp: list_ex_iff list_all_iff)
  qed
  then show ?case unfolding sat_bool_op by (rule list_all2_ball [OF all2])
qed

subsection \<open>Handlers\<close>

type_synonym 'h registry = "((string \<times> string) \<times> 'h list) list"

record 'h auth =
  au_handlers :: "'h registry"
  au_global_handlers :: "'h list"
  au_handler_cache :: "((string \<times> string) \<times> 'h) list"

definition handler_keys :: "string \<Rightarrow> string \<Rightarrow> (string \<times> string) list" where
  "handler_keys resource action =
     [(resource, action), (resource, ''*''), (''*'', action), (''*'', ''*'')]"

fun first_handler :: "'h registry \<Rightarrow> (string \<times> string) list \<Rightarrow> 'h option" where
  "first_handler hs [] = None"
| "first_handler hs (k # ks) =
     (case map_of hs k of
        Some (h # rest) \<Rightarrow> Some (last (h # rest))
      | _ \<Rightarrow> first_handler hs ks)"

definition lookup_handler :: "'h auth \<Rightarrow> string \<Rightarrow> string \<Rightarrow> 'h option" where
  "lookup_handler a resource action =
     (case first_handler (au_handlers a) (handler_keys resource action) of
        Some h \<Rightarrow> Some h
      | None \<Rightarrow> if au_global_handlers a = [] then None else Some (last (au_global_handlers a)))"

definition get_handler :: "string \<Rightarrow> string \<Rightarrow> 'h auth \<Rightarrow> 'h option \<times> 'h auth" where
  "get_handler resource action a =
     (case map_of (au_handler_cache a) (resource, action) of
        Some h \<Rightarrow> (Some h, a)
      | None \<Rightarrow>
          (case lookup_handler a resource action of
             None \<Rightarrow> (None, a)
           | Some h \<Rightarrow> (Some h, a\<lparr>au_handler_cache := AList.update (resource, action) h (au_handler_cache a)\<rparr>)))"

text \<open>What calling a handler did.\<close>

datatype handler_outcome = Returned json | RaisedHTTP nat | RaisedAssertion | RaisedOther py_error

text \<open>\<open>result in (None, True)\<close> compares with \<open>==\<close>, so the number one counts as true.\<close>

definition interpret_result :: "handler_outcome \<Rightarrow> dict option result" where
  "interpret_result r =
     (case r of
        RaisedHTTP s \<Rightarrow> Inl (HTTPException s)
      | RaisedAssertion \<Rightarrow> Inl (HTTPException 403)
      | RaisedOther e \<Rightarrow> Inl e
      | Returned v \<Rightarrow>
          if v = JNull \<or> v = JBool True \<or> v = JInt 1 \<or> v = JFloat 1 then Inr None
          else if v = JBool False then Inl (HTTPException 403)
          else (case v of JObj d \<Rightarrow> Inr (Some d) | _ \<Rightarrow> Inl (HTTPException 500)))"

definition handle_event ::
  "('h \<Rightarrow> handler_outcome) \<Rightarrow> 'h auth option \<Rightarrow> (string \<times> string) option
   \<Rightarrow> dict option result \<times> 'h auth option"
where
  "handle_event call auth ctx =
     (case (ctx, auth) of
        (Some (resource, action), Some a) \<Rightarrow>
          (case get_handler resource action a of
             (None, a') \<Rightarrow> (Inr None, Some a')
           | (Some h, a') \<Rightarrow> (interpret_result (call h), Some a'))
      | _ \<Rightarrow> (Inr None, auth))"

text \<open>
  \<open>_dispatch\<close> of \<^verbatim>\<open>usecase/authenticated.py\<close>: a handler may also change the value it is given; \<open>call\<close>
  returns what it did and the value afterwards.
\<close>

definition dispatch ::
  "('h \<Rightarrow> dict \<Rightarrow> handler_outcome \<times> dict) \<Rightarrow> 'h auth option \<Rightarrow> string \<Rightarrow> string \<Rightarrow> dict
   \<Rightarrow> (dict option \<times> dict) result \<times> 'h auth option"
where
  "dispatch call auth resource action value =
     (case handle_event (\<lambda>h. fst (call h value)) auth (Some (resource, action)) of
        (Inl e, auth') \<Rightarrow> (Inl e, auth')
      | (Inr filters, auth') \<Rightarrow>
          (Inr (filters,
             case auth of
               None \<Rightarrow> value
             | Some a \<Rightarrow> (case fst (get_handler resource action a) of None \<Rightarrow> value | Some h \<Rightarrow> snd (call h value))),
           auth'))"

text \<open>The condition a handler's filter adds to a query over a metadata column.\<close>

definition auth_filter :: "(json \<Rightarrow> json \<Rightarrow> bool) \<Rightarrow> dict option \<Rightarrow> (json \<Rightarrow> bool) result" where
  "auth_filter contains filters =
     bind_res (build_metadata_filter filters) (\<lambda>c.
       Inr (\<lambda>md. case c of None \<Rightarrow> True
                  | Some cl \<Rightarrow> eval_clause contains (case md of JObj d \<Rightarrow> d | _ \<Rightarrow> []) cl))"

definition cache_coherent :: "'h auth \<Rightarrow> bool" where
  "cache_coherent a =
     (\<forall>resource action h. map_of (au_handler_cache a) (resource, action) = Some h \<longrightarrow>
        lookup_handler a resource action = Some h)"

lemma lookup_handler_cache [simp]:
  "lookup_handler (a\<lparr>au_handler_cache := c\<rparr>) resource action = lookup_handler a resource action"
  by (simp add: lookup_handler_def split: option.splits)

lemma get_handler_coherent:
  assumes "cache_coherent a"
  shows "fst (get_handler resource action a) = lookup_handler a resource action"
    and "cache_coherent (snd (get_handler resource action a))"
  using assms
  by (auto simp: get_handler_def cache_coherent_def update_conv' split: option.splits)

subsection \<open>What authorisation guarantees\<close>

text \<open>
  A handler's filter selects what it says.  Whatever the semantics of JSON
  containment, a filter dictionary that compiles (its metadata envelope unwrapped) selects
  exactly the rows whose metadata satisfies the documented reading: all its fields, any branch of
  \<open>$or\<close>, every branch of \<open>$and\<close>.  It compiles to no condition at all only when nothing is left after unwrapping.
\<close>

theorem filter_selects_documented:
  assumes "build_metadata_filter (Some fs) = Inr c" and "fs \<noteq> []"
  shows "(case c of
      None \<Rightarrow> unwrap_metadata_envelope fs = []
    | Some cl \<Rightarrow> eval_clause contains md cl \<longleftrightarrow> sat contains md (JObj (unwrap_metadata_envelope fs)))"
proof -
  let ?fs = "unwrap_metadata_envelope fs"
  obtain cs where cs: "compile_filters 0 ?fs = Inr cs"
    and c: "c = (case cs of [] \<Rightarrow> None | [x] \<Rightarrow> Some x | _ \<Rightarrow> Some (AndClause cs))"
    using assms by (cases fs) (auto simp: build_metadata_filter_def dest!: bind_res_InrD split: list.splits)
  have sat: "list_all (eval_clause contains md) cs = sat contains md (JObj ?fs)"
    by (rule compile_filters_sat [OF cs])
  have "length cs = length ?fs"
    using cs by (subst (asm) compile_filters.simps) (auto dest!: map_res_InrD list_all2_lengthD)
  then show ?thesis
    using c sat by (auto simp: list_all_iff split: list.splits)
qed

theorem filter_selects_documented_witness:
  "\<exists>cl. build_metadata_filter (Some [(''$or'', JList [JObj [(''owner'', JStr ''a'')], JObj [(''team'', JStr ''x'')]])]) = Inr (Some cl) \<and>
     eval_clause (=) [(''team'', JStr ''x'')] cl"
proof -
  let ?fs = "[(''$or'', JList [JObj [(''owner'', JStr ''a'')], JObj [(''team'', JStr ''x'')]])]"
  have un: "unwrap_metadata_envelope ?fs = ?fs" by (simp add: unwrap_metadata_envelope_def)
  obtain cl where cl: "build_metadata_filter (Some ?fs) = Inr (Some cl)"
    by (simp add: build_metadata_filter_def un compile_filters.simps bool_op_def MAX_FILTER_DEPTH_def good_branch_def
        branch_dict_def compile_field_def)
  have "sat (=) [(''team'', JStr ''x'')] (JObj ?fs)"
    by (simp add: sat.simps sat_field_def)
  with filter_selects_documented [OF cl, where contains = "(=)" and md = "[(''team'', JStr ''x'')]"] cl un show ?thesis by auto
qed

lemma get_handler_registry:
  "au_handlers (snd (get_handler resource action a)) = au_handlers a"
  "au_global_handlers (snd (get_handler resource action a)) = au_global_handlers a"
  by (auto simp: get_handler_def split: option.splits)

lemma lookup_after_get: "lookup_handler (snd (get_handler resource action a)) r x = lookup_handler a r x"
  by (auto simp: get_handler_def split: option.splits)

text \<open>
  The handler cache never changes which handler decides.  Starting from an empty
  cache, after any sequence of events the handler found for an event is the one a fresh lookup
  gives: the most specific registered handler, the last one registered for its key, and a global
  handler only when no key matches.
\<close>

theorem handler_cache_transparent:
  assumes "au_handler_cache a = []"
    and "a' = fold (\<lambda>(r, x) b. snd (get_handler r x b)) events a"
  shows "fst (get_handler resource action a') = lookup_handler a resource action \<and>
    (\<forall>h hs. map_of (au_handlers a) (resource, action) = Some (hs @ [h]) \<longrightarrow>
       fst (get_handler resource action a') = Some h)"
proof -
  have "cache_coherent b \<Longrightarrow> cache_coherent (fold (\<lambda>(r, x) b. snd (get_handler r x b)) evs b) \<and>
      lookup_handler (fold (\<lambda>(r, x) b. snd (get_handler r x b)) evs b) resource action = lookup_handler b resource action"
    for evs and b :: "'a auth"
    by (induction evs arbitrary: b) (auto simp: lookup_after_get get_handler_coherent(2))
  moreover have "cache_coherent a" using assms(1) by (simp add: cache_coherent_def)
  ultimately have "cache_coherent a'" "lookup_handler a' resource action = lookup_handler a resource action"
    using assms(2) by auto
  then have eq: "fst (get_handler resource action a') = lookup_handler a resource action"
    by (simp add: get_handler_coherent(1))
  moreover have "lookup_handler a resource action = Some h"
    if "map_of (au_handlers a) (resource, action) = Some (hs @ [h])" for h hs
    using that by (cases hs) (auto simp: lookup_handler_def handler_keys_def)
  ultimately show ?thesis by simp
qed

theorem handler_cache_transparent_witness:
  "fst (get_handler ''threads'' ''read'' (fold (\<lambda>(r, x) b. snd (get_handler r x b)) [(''threads'', ''read''), (''runs'', ''read'')]
      \<lparr>au_handlers = [((''threads'', ''read''), [1 :: nat, 2]), ((''*'', ''*''), [3])], au_global_handlers = [], au_handler_cache = []\<rparr>))
   = Some 2"
  using handler_cache_transparent [OF _ refl, of "\<lparr>au_handlers = [((''threads'', ''read''), [1 :: nat, 2]), ((''*'', ''*''), [3])],
      au_global_handlers = [], au_handler_cache = []\<rparr>" "''threads''" "''read''" "[(''threads'', ''read''), (''runs'', ''read'')]"]
  by (metis append_Cons append_Nil auth.select_convs(1,3) map_of_Cons_code(2))

end
