(* ===== verification/Circuit_Breaker.thy ===== *)
theory Circuit_Breaker
  imports Json
begin

text \<open>
  The circuit breaker (\<^verbatim>\<open>infra/circuit_breaker.py\<close>) with its two storages.  Times are integers
  in the clock's unit and \<open>sec\<close> is one second in it; a stored pair is the failure count and the
  time until which the breaker is open (0 when it is not).
\<close>

type_synonym breaker_entry = "nat \<times> time"

subsection \<open>Storages\<close>

type_synonym memory_storage = "(string \<times> breaker_entry) list"

definition memory_get :: "time \<Rightarrow> string \<Rightarrow> memory_storage \<Rightarrow> breaker_entry" where
  "memory_get now name st = (case map_of st name of None \<Rightarrow> (0, 0) | Some e \<Rightarrow> e)"

definition memory_set :: "time \<Rightarrow> string \<Rightarrow> breaker_entry \<Rightarrow> memory_storage \<Rightarrow> memory_storage" where
  "memory_set now name e st = AList.update name e st"

definition memory_clear :: "time \<Rightarrow> string \<Rightarrow> memory_storage \<Rightarrow> memory_storage" where
  "memory_clear now name st = AList.delete name st"

text \<open>
  Redis: an entry with the time at which it expires.  \<open>set_state\<close> keeps an entry for the
  remaining open time, but at least one second, and a closed entry for one second.
\<close>

type_synonym redis_storage = "(string \<times> breaker_entry \<times> time) list"

definition entry_ttl :: "int \<Rightarrow> time \<Rightarrow> time \<Rightarrow> int" where
  "entry_ttl sec now open_until =
     (if open_until > now then max sec (((open_until - now) div sec) * sec) else sec)"

definition redis_get :: "time \<Rightarrow> string \<Rightarrow> redis_storage \<Rightarrow> breaker_entry" where
  "redis_get now name st =
     (case map_of st name of
        None \<Rightarrow> (0, 0)
      | Some (e, expires) \<Rightarrow> if now < expires then e else (0, 0))"

definition redis_set :: "int \<Rightarrow> time \<Rightarrow> string \<Rightarrow> breaker_entry \<Rightarrow> redis_storage \<Rightarrow> redis_storage" where
  "redis_set sec now name e st = AList.update name (e, now + entry_ttl sec now (snd e)) st"

definition redis_clear :: "time \<Rightarrow> string \<Rightarrow> redis_storage \<Rightarrow> redis_storage" where
  "redis_clear now name st = AList.delete name st"

subsection \<open>The breaker\<close>

record 's storage =
  sto_get :: "time \<Rightarrow> string \<Rightarrow> 's \<Rightarrow> breaker_entry"
  sto_set :: "time \<Rightarrow> string \<Rightarrow> breaker_entry \<Rightarrow> 's \<Rightarrow> 's"
  sto_clear :: "time \<Rightarrow> string \<Rightarrow> 's \<Rightarrow> 's"

definition memory_ops :: "memory_storage storage" where
  "memory_ops = \<lparr>sto_get = memory_get, sto_set = memory_set, sto_clear = memory_clear\<rparr>"

definition redis_ops :: "int \<Rightarrow> redis_storage storage" where
  "redis_ops sec = \<lparr>sto_get = redis_get, sto_set = redis_set sec, sto_clear = redis_clear\<rparr>"

record breaker =
  br_name :: string
  br_fail_max :: nat
  br_cooldown :: int

definition new_breaker :: "string \<Rightarrow> nat \<Rightarrow> int \<Rightarrow> breaker result" where
  "new_breaker name fail_max cooldown =
     (if fail_max < 1 then Inl ValueError
      else Inr \<lparr>br_name = name, br_fail_max = fail_max, br_cooldown = cooldown\<rparr>)"

record snapshot =
  sn_failures :: nat
  sn_open :: bool
  sn_open_for :: int

definition state_snapshot :: "'s storage \<Rightarrow> breaker \<Rightarrow> time \<Rightarrow> 's \<Rightarrow> snapshot" where
  "state_snapshot ops b now st =
     (case sto_get ops now (br_name b) st of
        (failures, open_until) \<Rightarrow>
          \<lparr>sn_failures = failures, sn_open = (open_until > now), sn_open_for = max 0 (open_until - now)\<rparr>)"

datatype 'r call_result = CircuitOpen | CallFailed | CallReturned 'r

text \<open>
  \<open>call\<close>, started at \<open>now\<close>; the function returns at \<open>later\<close>, \<open>None\<close> when it raises, and
  \<open>others\<close> is what concurrent calls did to the storage meanwhile.
\<close>

definition breaker_call ::
  "'s storage \<Rightarrow> breaker \<Rightarrow> time \<Rightarrow> time \<Rightarrow> ('s \<Rightarrow> 's) \<Rightarrow> 'r option \<Rightarrow> 's \<Rightarrow> 'r call_result \<times> 's"
where
  "breaker_call ops b now later others outcome st =
     (let open_until = snd (sto_get ops now (br_name b) st)
      in if open_until > now then (CircuitOpen, st)
         else
           (let st = others st
            in case outcome of
                 Some r \<Rightarrow> (CallReturned r, sto_clear ops later (br_name b) st)
               | None \<Rightarrow>
                   (let failures = fst (sto_get ops later (br_name b) st) + 1;
                        new_open = (if failures \<ge> br_fail_max b \<or> open_until > 0
                                    then later + br_cooldown b else 0)
                    in (CallFailed, sto_set ops later (br_name b) (failures, new_open) st))))"

subsection \<open>What the breaker relies on\<close>

text \<open>
  Reading what was written: always within \<open>keep\<close> time units, which depends on the entry and is
  unbounded for process memory.
\<close>

locale breaker_storage =
  fixes ops :: "'s storage"
    and keeps :: "time \<Rightarrow> breaker_entry \<Rightarrow> time \<Rightarrow> bool"
  assumes get_set: "keeps t e t' \<Longrightarrow> sto_get ops t' n (sto_set ops t n e st) = e"
    and get_clear: "sto_get ops t' n (sto_clear ops t n st) = (0, 0)"
begin

text \<open>An open breaker rejects without calling, and leaves the state alone.\<close>

lemma open_rejects:
  "now < snd (sto_get ops now (br_name b) st) \<Longrightarrow>
   breaker_call ops b now later others outcome st = (CircuitOpen, st)"
  by (simp add: breaker_call_def Let_def)

text \<open>A success closes the breaker.\<close>

lemma success_closes:
  assumes "breaker_call ops b now later others (Some r) st = (CallReturned r, st')"
  shows "sto_get ops t (br_name b) st' = (0, 0)"
  using assms by (auto simp: breaker_call_def Let_def get_clear split: if_splits)

text \<open>The failure that reaches the threshold opens the breaker for the cooldown.\<close>

lemma threshold_opens:
  assumes "breaker_call ops b now later others None st = (CallFailed, st')"
    and "br_fail_max b \<le> fst (sto_get ops later (br_name b) (others st)) + 1"
    and "keeps later (fst (sto_get ops later (br_name b) (others st)) + 1, later + br_cooldown b) t"
    and "t < later + br_cooldown b"
  shows "breaker_call ops b t t' others' outcome st' = (CircuitOpen, st')"
proof (rule open_rejects)
  have "st' = sto_set ops later (br_name b)
      (fst (sto_get ops later (br_name b) (others st)) + 1, later + br_cooldown b) (others st)"
    using assms(1,2) by (auto simp: breaker_call_def Let_def split: if_splits)
  then show "t < snd (sto_get ops t (br_name b) st')"
    using get_set [OF assms(3)] assms(4) by simp
qed

text \<open>A run of failures, at the given times, without other callers.\<close>

fun failures_at :: "breaker \<Rightarrow> time list \<Rightarrow> 's \<Rightarrow> 's" where
  "failures_at b [] st = st"
| "failures_at b (t # ts) st = failures_at b ts (snd (breaker_call ops b t t id (None :: unit option) st))"

lemma failures_counted:
  assumes "sorted ts" and "n + length ts < br_fail_max b"
    and keep: "\<And>k t t'. t \<in> set ts \<Longrightarrow> t' \<in> set ts \<union> {now} \<Longrightarrow> t \<le> t' \<Longrightarrow> keeps t (k, 0) t'"
    and "\<And>t'. t' \<in> set ts \<union> {now} \<Longrightarrow> sto_get ops t' (br_name b) st = (n, 0)"
    and "\<And>t. t \<in> set ts \<Longrightarrow> 0 \<le> t \<and> t \<le> now"
  shows "sto_get ops now (br_name b) (failures_at b ts st) = (n + length ts, 0)"
  using assms
proof (induction ts arbitrary: n st)
  case (Cons t ts)
  have st: "sto_get ops t (br_name b) st = (n, 0)" using Cons.prems(4) by simp
  let ?st = "sto_set ops t (br_name b) (Suc n, 0) st"
  have "snd (breaker_call ops b t t id (None :: unit option) st) = ?st"
    using st Cons.prems(2) Cons.prems(5) [of t] by (auto simp: breaker_call_def Let_def)
  moreover have "sto_get ops now (br_name b) (failures_at b ts ?st) = (Suc n + length ts, 0)"
  proof (rule Cons.IH)
    show "sto_get ops t' (br_name b) ?st = (Suc n, 0)" if "t' \<in> set ts \<union> {now}" for t'
    proof (rule get_set, rule Cons.prems(3))
      show "t \<le> t'" using that Cons.prems(1,5) by auto
    qed (use that in auto)
  qed (use Cons.prems in auto)
  ultimately show ?case by simp
qed simp

end

interpretation mem_breaker: breaker_storage memory_ops "\<lambda>_ _ _. True"
  by unfold_locales
    (simp_all add: memory_ops_def memory_get_def memory_set_def memory_clear_def update_conv' delete_conv')

interpretation redis_breaker: breaker_storage "redis_ops sec"
  "\<lambda>t e t'. t' < t + entry_ttl sec t (snd e)" for sec
  by unfold_locales
    (simp_all add: redis_ops_def redis_get_def redis_set_def redis_clear_def update_conv' delete_conv')

subsection \<open>When the breaker trips\<close>

text \<open>
  The breaker trips after the configured number of consecutive failures and recovers
  on success.  With the in-process storage, failures at any times accumulate, however far apart;
  the one that reaches the limit makes every call within the cooldown fail fast, without calling
  and without changing the state; and after a successful call the count starts from zero.
\<close>

theorem memory_breaker_trips:
  assumes "memory_get t0 (br_name b) st = (0, 0)" and "sorted ts" and "\<forall>t \<in> set ts. 0 \<le> t \<and> t \<le> t0" and "0 \<le> t0"
    and "Suc (length ts) = br_fail_max b" and "t0 \<le> t" and "t < t0 + br_cooldown b"
    and "breaker_call memory_ops b t0 t0 id (None :: unit option) (mem_breaker.failures_at b ts st) = (res, st')"
  shows "res = CallFailed \<and> breaker_call memory_ops b t t' others outcome st' = (CircuitOpen, st') \<and>
    (\<forall>later r st2. breaker_call memory_ops b later later id (Some r) st' = (CallReturned r, st2) \<longrightarrow>
       memory_get later (br_name b) st2 = (0, 0))"
proof -
  let ?st = "mem_breaker.failures_at b ts st"
  have get: "sto_get memory_ops x (br_name b) st = (0, 0)" for x
    using assms(1) by (simp add: memory_ops_def memory_get_def)
  have cnt: "sto_get memory_ops t0 (br_name b) ?st = (length ts, 0)"
    using mem_breaker.failures_counted [OF assms(2), where n = 0 and now = t0] get assms(3,5) by auto
  then have res: "res = CallFailed" using assms(4,8) by (auto simp: breaker_call_def Let_def)
  have "breaker_call memory_ops b t t' others outcome st' = (CircuitOpen, st')"
    by (rule mem_breaker.threshold_opens [OF assms(8) [unfolded res]]) (use cnt assms(5,7) in simp_all)
  moreover have "memory_get later (br_name b) st2 = (0, 0)"
    if "breaker_call memory_ops b later later id (Some r) st' = (CallReturned r, st2)" for later r and st2
    using mem_breaker.success_closes [OF that] by (simp add: memory_ops_def)
  ultimately show ?thesis using res by blast
qed

theorem memory_breaker_trips_witness:
  "\<exists>st'. breaker_call memory_ops \<lparr>br_name = ''x'', br_fail_max = 2, br_cooldown = 30\<rparr> 9 9 id (None :: unit option)
        (mem_breaker.failures_at \<lparr>br_name = ''x'', br_fail_max = 2, br_cooldown = 30\<rparr> [1] []) = (CallFailed, st') \<and>
     breaker_call memory_ops \<lparr>br_name = ''x'', br_fail_max = 2, br_cooldown = 30\<rparr> 20 20 id (Some ()) st' = (CircuitOpen, st')"
proof -
  let ?b = "\<lparr>br_name = ''x'', br_fail_max = 2, br_cooldown = 30\<rparr>"
  obtain res st' where call: "breaker_call memory_ops ?b 9 9 id (None :: unit option) (mem_breaker.failures_at ?b [1] []) = (res, st')"
    by force
  from memory_breaker_trips [OF _ _ _ _ _ _ _ call, where t = 20 and t' = 20 and others = id and outcome = "Some ()"] call
  show ?thesis by (auto simp: memory_get_def)
qed

text \<open>Failures at least a second apart, on the shared storage.\<close>

fun spaced :: "int \<Rightarrow> time list \<Rightarrow> bool" where
  "spaced sec (t # t' # ts) = (t + sec \<le> t' \<and> spaced sec (t' # ts))"
| "spaced sec _ = True"

lemma redis_one_failure:
  assumes "0 < sec" and "2 \<le> br_fail_max b" and "0 \<le> t" and "redis_get t (br_name b) st = (0, 0)"
    and "breaker_call (redis_ops sec) b t t id (None :: unit option) st = (res, st')"
  shows "res = CallFailed" and "t + sec \<le> x \<Longrightarrow> redis_get x (br_name b) st' = (0, 0)"
  using assms by (auto simp: breaker_call_def redis_ops_def redis_set_def redis_get_def entry_ttl_def Let_def update_conv'
      split: if_splits)

lemma redis_forgets:
  assumes "0 < sec" and "2 \<le> br_fail_max b" and "spaced sec (ts @ [now])" and "\<forall>t \<in> set ts. 0 \<le> t"
    and "\<And>x. hd (ts @ [now]) \<le> x \<Longrightarrow> redis_get x (br_name b) st = (0, 0)"
  shows "redis_get now (br_name b) (redis_breaker.failures_at sec b ts st) = (0, 0)"
  using assms(3-)
proof (induction ts arbitrary: st)
  case (Cons t ts)
  obtain res st' where call: "breaker_call (redis_ops sec) b t t id (None :: unit option) st = (res, st')" by force
  have gap: "t + sec \<le> hd (ts @ [now])" and rest: "spaced sec (ts @ [now])"
    using Cons.prems(1) by (cases ts; simp)+
  have "redis_get x (br_name b) st' = (0, 0)" if "hd (ts @ [now]) \<le> x" for x
    using redis_one_failure(2) [OF assms(1,2) _ _ call, of x] Cons.prems(2,3) gap that by simp
  with Cons.IH [OF rest] Cons.prems(2) call show ?case by simp
qed simp

text \<open>
  The shared breaker does not trip on slow failures.  With the Redis storage a closed
  entry lives for one second, so failures that are at least a second apart are each counted as
  the first one: for a limit of two or more, after any number of them the next call is still let
  through and counted from zero.
\<close>

theorem redis_breaker_never_trips_on_slow_failures:
  assumes "0 < sec" and "2 \<le> br_fail_max b" and "spaced sec (ts @ [now])" and "\<forall>t \<in> set (ts @ [now]). 0 \<le> t"
    and "map_of st (br_name b) = None"
  shows "fst (breaker_call (redis_ops sec) b now now id (None :: unit option) (redis_breaker.failures_at sec b ts st)) = CallFailed \<and>
    sn_failures (state_snapshot (redis_ops sec) b now (redis_breaker.failures_at sec b ts st)) = 0"
proof -
  let ?st = "redis_breaker.failures_at sec b ts st"
  have get: "redis_get now (br_name b) ?st = (0, 0)"
    by (rule redis_forgets [OF assms(1-3)]) (use assms(4,5) in \<open>simp_all add: redis_get_def\<close>)
  obtain res st' where call: "breaker_call (redis_ops sec) b now now id (None :: unit option) ?st = (res, st')" by force
  have "res = CallFailed" using redis_one_failure(1) [OF assms(1,2) _ get call] assms(4) by simp
  with call get show ?thesis by (simp add: state_snapshot_def redis_ops_def)
qed

theorem redis_breaker_never_trips_on_slow_failures_witness:
  "fst (breaker_call (redis_ops 1000) \<lparr>br_name = ''x'', br_fail_max = 3, br_cooldown = 30000\<rparr> 9000 9000 id (None :: unit option)
     (redis_breaker.failures_at 1000 \<lparr>br_name = ''x'', br_fail_max = 3, br_cooldown = 30000\<rparr>
        [1000, 2000, 3500, 5000, 7000] [])) = CallFailed"
  using redis_breaker_never_trips_on_slow_failures [of 1000 "\<lparr>br_name = ''x'', br_fail_max = 3, br_cooldown = 30000\<rparr>"
      "[1000, 2000, 3500, 5000, 7000]" 9000 "[]"] by simp

end
