(* ===== verification/Shop.thy ===== *)
theory Shop
  imports Event_Ids "HOL-Library.Sublist" Complex_Main
begin

text \<open>
  The shop: the in-memory backend (\<^verbatim>\<open>shop/backends.py\<close>), the business gates and the tools of
  the staff-facing agent (\<^verbatim>\<open>graphs/merchant_agent/gates.py\<close>, \<^verbatim>\<open>tools.py\<close>) and of the storefront
  agent (\<^verbatim>\<open>graphs/shopping_agent/gates.py\<close>, \<^verbatim>\<open>tools.py\<close>).  Prices, which the code keeps as
  floats, are rationals, infinities or NaN, so only the rounding of floats is not modelled; the texts of tool
  messages are not modelled, only their kind (a result, a gate that refused, an error).  A
  dictionary of the backend is a map from its keys, except the orders, whose insertion order
  \<open>analytics_query\<close> exposes and which are therefore an association list.
\<close>

subsection \<open>Floats\<close>

datatype py_float = Fin rat | PosInf | NegInf | NaN

text \<open>Every comparison with NaN is false.\<close>

fun f_less :: "py_float \<Rightarrow> py_float \<Rightarrow> bool" where
  "f_less (Fin a) (Fin b) = (a < b)"
| "f_less NaN y = False"
| "f_less x NaN = False"
| "f_less NegInf y = (y \<noteq> NegInf)"
| "f_less x PosInf = (x \<noteq> PosInf)"
| "f_less PosInf y = False"
| "f_less x NegInf = False"

definition f_le :: "py_float \<Rightarrow> py_float \<Rightarrow> bool" where
  "f_le x y = (f_less x y \<or> (x = y \<and> x \<noteq> NaN))"

fun f_minus :: "py_float \<Rightarrow> py_float \<Rightarrow> py_float" where
  "f_minus (Fin a) (Fin b) = Fin (a - b)"
| "f_minus NaN y = NaN"
| "f_minus x NaN = NaN"
| "f_minus PosInf y = (if y = PosInf then NaN else PosInf)"
| "f_minus NegInf y = (if y = NegInf then NaN else NegInf)"
| "f_minus (Fin a) y = (if y = PosInf then NegInf else PosInf)"

fun f_abs :: "py_float \<Rightarrow> py_float" where
  "f_abs (Fin a) = Fin \<bar>a\<bar>"
| "f_abs NaN = NaN"
| "f_abs x = PosInf"

definition f_sign :: "bool \<Rightarrow> py_float" where
  "f_sign negative = (if negative then NegInf else PosInf)"

text \<open>Division by zero raises, whatever the dividend; this is the quotient for any other divisor.\<close>

fun f_quotient :: "py_float \<Rightarrow> py_float \<Rightarrow> py_float" where
  "f_quotient (Fin a) (Fin b) = Fin (a / b)"
| "f_quotient NaN y = NaN"
| "f_quotient x NaN = NaN"
| "f_quotient (Fin a) y = Fin 0"
| "f_quotient x (Fin b) = f_sign ((x = NegInf) \<noteq> (b < 0))"
| "f_quotient x y = NaN"

text \<open>A product with a positive number.\<close>

fun f_scaled :: "py_float \<Rightarrow> rat \<Rightarrow> py_float" where
  "f_scaled (Fin a) k = Fin (a * k)"
| "f_scaled x k = x"

subsection \<open>Data\<close>

record product =
  pr_id :: string
  pr_name :: string
  pr_price :: py_float
  pr_description :: string

record cart_line =
  cl_product_id :: string
  cl_quantity :: int

record order =
  or_id :: string
  or_lines :: "cart_line list"
  or_status :: string

record staged_change =
  sc_id :: string
  sc_kind :: string
  sc_target :: string
  sc_old_price :: py_float
  sc_new_price :: py_float
  sc_status :: string

record shop =
  sh_carts :: "string \<rightharpoonup> cart_line list"
  sh_orders :: "(string \<times> order list) list"
  sh_order_seq :: nat
  sh_changes :: "string \<rightharpoonup> staged_change list"
  sh_change_seq :: nat
  sh_catalog :: "product list"

definition demo_catalog :: "product list" where
  "demo_catalog =
     [ \<lparr>pr_id = ''coffee-maker-01'', pr_name = ''Acme Drip Coffee Maker'', pr_price = Fin (7999 / 100),
         pr_description = ''12-cup drip coffee maker, programmable timer.''\<rparr>,
       \<lparr>pr_id = ''coffee-maker-02'', pr_name = ''Acme Espresso Machine'', pr_price = Fin 249,
         pr_description = ''15-bar pump espresso machine with steam wand.''\<rparr>,
       \<lparr>pr_id = ''kettle-01'', pr_name = ''Acme Gooseneck Kettle'', pr_price = Fin (455 / 10),
         pr_description = ''1L gooseneck kettle, +-1C temperature control.''\<rparr>,
       \<lparr>pr_id = ''grinder-01'', pr_name = ''Acme Burr Grinder'', pr_price = Fin 99,
         pr_description = ''Conical burr grinder, 40 grind settings.''\<rparr>,
       \<lparr>pr_id = ''beans-01'', pr_name = ''Acme Single-Origin Beans 1kg'', pr_price = Fin 22,
         pr_description = ''Washed Ethiopian Yirgacheffe, medium roast.''\<rparr>,
       \<lparr>pr_id = ''scale-01'', pr_name = ''Acme Coffee Scale'', pr_price = Fin 35,
         pr_description = ''0.1g precision scale with brew timer.''\<rparr> ]"

definition new_shop :: shop where
  "new_shop =
     \<lparr>sh_carts = Map.empty, sh_orders = [], sh_order_seq = 0, sh_changes = Map.empty,
      sh_change_seq = 0, sh_catalog = demo_catalog\<rparr>"

text \<open>\<open>" ".join\<close> and \<open>f"{n:04d}"\<close>.\<close>

fun join_sp :: "string list \<Rightarrow> string" where
  "join_sp [] = []"
| "join_sp [w] = w"
| "join_sp (w # v # ws) = w @ '' '' @ join_sp (v # ws)"

definition pad4 :: "nat \<Rightarrow> string" where
  "pad4 n = replicate (4 - length (dec n)) (CHR ''0'') @ dec n"

text \<open>\<open>xs[:limit]\<close> and \<open>xs[-limit:]\<close> for an integer limit.\<close>

definition py_head :: "int \<Rightarrow> 'a list \<Rightarrow> 'a list" where
  "py_head l xs = (if 0 \<le> l then take (nat l) xs else take (length xs - nat (- l)) xs)"

definition py_tail :: "int \<Rightarrow> 'a list \<Rightarrow> 'a list" where
  "py_tail l xs = (if 0 < l then drop (length xs - nat l) xs else drop (nat (- l)) xs)"

subsection \<open>The backend\<close>

definition search_products :: "shop \<Rightarrow> string \<Rightarrow> int \<Rightarrow> product list" where
  "search_products s query limit =
     (let terms = py_words (py_lower query)
      in if terms = [] then py_head limit (sh_catalog s)
         else py_head limit
                (filter (\<lambda>p. \<exists>t \<in> set terms.
                           sublist t (py_lower (pr_name p @ '' '' @ pr_description p)))
                   (sh_catalog s)))"

definition get_listing :: "shop \<Rightarrow> string \<Rightarrow> product option" where
  "get_listing s pid = find (\<lambda>p. pr_id p = pid) (sh_catalog s)"

definition cart_of :: "shop \<Rightarrow> string \<Rightarrow> cart_line list" where
  "cart_of s uid = (case sh_carts s uid of Some ls \<Rightarrow> ls | None \<Rightarrow> [])"

text \<open>\<open>dict.setdefault\<close>: the read of a cart creates it.\<close>

definition get_cart :: "string \<Rightarrow> shop \<Rightarrow> cart_line list \<times> shop" where
  "get_cart uid s = (cart_of s uid, s\<lparr>sh_carts := (sh_carts s)(uid \<mapsto> cart_of s uid)\<rparr>)"

fun add_line :: "string \<Rightarrow> int \<Rightarrow> cart_line list \<Rightarrow> cart_line list" where
  "add_line pid q [] = [\<lparr>cl_product_id = pid, cl_quantity = q\<rparr>]"
| "add_line pid q (l # ls) =
     (if cl_product_id l = pid then l\<lparr>cl_quantity := cl_quantity l + q\<rparr> # ls
      else l # add_line pid q ls)"

definition add_to_cart :: "string \<Rightarrow> string \<Rightarrow> int \<Rightarrow> shop \<Rightarrow> cart_line list \<times> shop" where
  "add_to_cart uid pid q s =
     (let (ls, s1) = get_cart uid s; ls' = add_line pid q ls
      in (ls', s1\<lparr>sh_carts := (sh_carts s1)(uid \<mapsto> ls')\<rparr>))"

fun alist_append :: "string \<Rightarrow> 'a \<Rightarrow> (string \<times> 'a list) list \<Rightarrow> (string \<times> 'a list) list" where
  "alist_append k v [] = [(k, [v])]"
| "alist_append k v ((k', vs) # ps) =
     (if k' = k then (k', vs @ [v]) # ps else (k', vs) # alist_append k v ps)"

definition checkout :: "string \<Rightarrow> shop \<Rightarrow> order \<times> shop" where
  "checkout uid s =
     (let (ls, s1) = get_cart uid s;
          n = sh_order_seq s1 + 1;
          new = \<lparr>or_id = ''order-'' @ pad4 n, or_lines = ls, or_status = ''processing''\<rparr>
      in (new, s1\<lparr>sh_order_seq := n, sh_orders := alist_append uid new (sh_orders s1),
                  sh_carts := (sh_carts s1)(uid \<mapsto> [])\<rparr>))"

definition get_orders :: "shop \<Rightarrow> string \<Rightarrow> int \<Rightarrow> order list" where
  "get_orders s uid limit =
     py_tail limit (case map_of (sh_orders s) uid of Some xs \<Rightarrow> xs | None \<Rightarrow> [])"

definition changes_of :: "shop \<Rightarrow> string \<Rightarrow> staged_change list" where
  "changes_of s uid = (case sh_changes s uid of Some cs \<Rightarrow> cs | None \<Rightarrow> [])"

text \<open>The sequence number is consumed even when the product is unknown.\<close>

definition stage_price_change ::
  "string \<Rightarrow> string \<Rightarrow> py_float \<Rightarrow> shop \<Rightarrow> staged_change result \<times> shop" where
  "stage_price_change uid pid new_price s =
     (let s1 = s\<lparr>sh_change_seq := sh_change_seq s + 1\<rparr>
      in case get_listing s1 pid of
           None \<Rightarrow> (Inl KeyError, s1)
         | Some p \<Rightarrow>
             let c = \<lparr>sc_id = ''change-'' @ pad4 (sh_change_seq s1), sc_kind = ''price_change'',
                      sc_target = pid, sc_old_price = pr_price p, sc_new_price = new_price,
                      sc_status = ''pending''\<rparr>
             in (Inr c, s1\<lparr>sh_changes := (sh_changes s1)(uid \<mapsto> changes_of s1 uid @ [c])\<rparr>))"

definition get_pending_changes :: "shop \<Rightarrow> string \<Rightarrow> staged_change list" where
  "get_pending_changes s uid = filter (\<lambda>c. sc_status c = ''pending'') (changes_of s uid)"

definition is_pending_change :: "string \<Rightarrow> staged_change \<Rightarrow> bool" where
  "is_pending_change cid c \<longleftrightarrow> sc_id c = cid \<and> sc_status c = ''pending''"

definition find_change :: "shop \<Rightarrow> string \<Rightarrow> string \<Rightarrow> staged_change result" where
  "find_change s uid cid =
     (case find (is_pending_change cid) (changes_of s uid) of
        Some c \<Rightarrow> Inr c | None \<Rightarrow> Inl KeyError)"

text \<open>The first element that satisfies a predicate is mutated in place.\<close>

fun update_first :: "('a \<Rightarrow> bool) \<Rightarrow> ('a \<Rightarrow> 'a) \<Rightarrow> 'a list \<Rightarrow> 'a list" where
  "update_first P f [] = []"
| "update_first P f (x # xs) = (if P x then f x # xs else x # update_first P f xs)"

definition mark_change :: "string \<Rightarrow> string \<Rightarrow> string \<Rightarrow> shop \<Rightarrow> shop" where
  "mark_change st uid cid s =
     s\<lparr>sh_changes := (sh_changes s)(uid \<mapsto>
         update_first (is_pending_change cid) (sc_status_update (\<lambda>_. st)) (changes_of s uid))\<rparr>"

definition set_price :: "string \<Rightarrow> py_float \<Rightarrow> product list \<Rightarrow> product list" where
  "set_price pid x cat = update_first (\<lambda>p. pr_id p = pid) (pr_price_update (\<lambda>_. x)) cat"

definition apply_change :: "string \<Rightarrow> string \<Rightarrow> shop \<Rightarrow> staged_change result \<times> shop" where
  "apply_change uid cid s =
     (case find_change s uid cid of
        Inl e \<Rightarrow> (Inl e, s)
      | Inr c \<Rightarrow>
          let s1 = (if sc_kind c = ''price_change''
                    then s\<lparr>sh_catalog := set_price (sc_target c) (sc_new_price c) (sh_catalog s)\<rparr>
                    else s)
          in (Inr (c\<lparr>sc_status := ''applied''\<rparr>), mark_change ''applied'' uid cid s1))"

definition discard_change :: "string \<Rightarrow> string \<Rightarrow> shop \<Rightarrow> bool result \<times> shop" where
  "discard_change uid cid s =
     (case find_change s uid cid of
        Inl e \<Rightarrow> (Inl e, s)
      | Inr c \<Rightarrow> (Inr True, mark_change ''discarded'' uid cid s))"

definition analytics_rows :: "shop \<Rightarrow> int \<Rightarrow> (string \<times> int) list" where
  "analytics_rows s max_rows =
     py_head max_rows
       [(cl_product_id l, cl_quantity l). (u, os) \<leftarrow> sh_orders s, ord \<leftarrow> os, l \<leftarrow> or_lines ord]"

subsection \<open>Gates\<close>

text \<open>A gate returns the reason of a refusal or nothing; the reason's text is not modelled.\<close>

definition check_listing_provenance :: "string list \<Rightarrow> string \<Rightarrow> bool" where
  "check_listing_provenance seen pid \<longleftrightarrow> pid \<in> set seen"

definition check_change_provenance :: "string list \<Rightarrow> string \<Rightarrow> bool" where
  "check_change_provenance staged cid \<longleftrightarrow> cid \<in> set staged"

definition check_price_move :: "py_float \<Rightarrow> py_float \<Rightarrow> py_float \<Rightarrow> bool result" where
  "check_price_move old_price new_price max_move_pct =
     (if f_le new_price (Fin 0) then Inr False
      else if old_price = Fin 0 then Inl ZeroDivisionError
      else
        (let move_pct = f_scaled (f_quotient (f_abs (f_minus new_price old_price)) old_price) 100
         in Inr (\<not> f_less max_move_pct move_pct)))"

definition check_provenance :: "string list \<Rightarrow> string \<Rightarrow> bool" where
  "check_provenance seen pid \<longleftrightarrow> pid \<in> set seen"

definition check_quantity :: "int \<Rightarrow> int \<Rightarrow> bool" where
  "check_quantity quantity cap = (if quantity \<le> 0 then False else if quantity > cap then False else True)"

definition check_cart_size :: "nat \<Rightarrow> int \<Rightarrow> bool" where
  "check_cart_size line_count max_lines \<longleftrightarrow> \<not> int line_count \<ge> max_lines"

subsection \<open>The staff-facing tools\<close>

text \<open>
  What a tool call returns: a message (\<open>Said\<close>), a structured refusal that names its gate, a
  structured success or error, a pause at \<open>interrupt\<close>, or an exception.  A call that pauses is
  executed again from its start when the approval arrives, so a call is a function of the answer
  that \<open>interrupt\<close> finds: none yet, or the boolean the reviewer gave.
\<close>

datatype tool_reply =
    Said
  | Ok_Result
  | Blocked string
  | Tool_Error
  | Interrupted
  | Raised py_error

record merchant_session =
  ms_seen_listing_ids :: "string list"
  ms_staged_change_ids :: "string list"
  ms_analytics_calls :: int

record merchant_context =
  mc_max_price_move_pct :: py_float
  mc_enable_analytics :: bool
  mc_analytics_max_rows :: int
  mc_analytics_max_calls_per_turn :: int

type_synonym merchant_state = "merchant_session \<times> shop"

definition tool_get_listing :: "string \<Rightarrow> merchant_state \<Rightarrow> tool_reply \<times> merchant_state" where
  "tool_get_listing pid st =
     (case get_listing (snd st) pid of
        None \<Rightarrow> (Said, st)
      | Some p \<Rightarrow>
          (Said, ((fst st)\<lparr>ms_seen_listing_ids := ms_seen_listing_ids (fst st) @ [pr_id p]\<rparr>, snd st)))"

definition tool_stage_price_change ::
  "merchant_context \<Rightarrow> string \<Rightarrow> string \<Rightarrow> py_float \<Rightarrow> merchant_state \<Rightarrow> tool_reply \<times> merchant_state" where
  "tool_stage_price_change ctx uid pid new_price st =
     (let (ms, s) = st in
      if \<not> check_listing_provenance (ms_seen_listing_ids ms) pid then (Said, st)
      else case get_listing s pid of
        None \<Rightarrow> (Said, st)
      | Some p \<Rightarrow>
          (case check_price_move (pr_price p) new_price (mc_max_price_move_pct ctx) of
             Inl e \<Rightarrow> (Raised e, st)
           | Inr ok \<Rightarrow>
               if \<not> ok then (Said, st)
               else case stage_price_change uid pid new_price s of
                 (Inl e, s') \<Rightarrow> (Raised e, (ms, s'))
               | (Inr c, s') \<Rightarrow>
                   (Said, (ms\<lparr>ms_staged_change_ids := ms_staged_change_ids ms @ [sc_id c]\<rparr>, s'))))"

definition tool_apply_change ::
  "merchant_context \<Rightarrow> string \<Rightarrow> string \<Rightarrow> bool option \<Rightarrow> merchant_state \<Rightarrow> tool_reply \<times> merchant_state" where
  "tool_apply_change ctx uid cid approval st =
     (let (ms, s) = st in
      if \<not> check_change_provenance (ms_staged_change_ids ms) cid then (Said, st)
      else case find (\<lambda>c. sc_id c = cid) (get_pending_changes s uid) of
        None \<Rightarrow> (Said, st)
      | Some c \<Rightarrow>
          (case (if sc_kind c = ''price_change''
                 then check_price_move (sc_old_price c) (sc_new_price c) (mc_max_price_move_pct ctx)
                 else Inr True) of
             Inl e \<Rightarrow> (Raised e, st)
           | Inr ok \<Rightarrow>
               if \<not> ok then (Blocked ''guardrail'', st)
               else case approval of
                 None \<Rightarrow> (Interrupted, st)
               | Some a \<Rightarrow>
                   if \<not> a then (Said, st)
                   else case apply_change uid cid s of
                     (Inl e, s') \<Rightarrow> (Raised e, (ms, s'))
                   | (Inr c', s') \<Rightarrow> (Said, (ms, s'))))"

definition tool_discard_change ::
  "string \<Rightarrow> string \<Rightarrow> merchant_state \<Rightarrow> tool_reply \<times> merchant_state" where
  "tool_discard_change uid cid st =
     (let (ms, s) = st in
      if \<not> check_change_provenance (ms_staged_change_ids ms) cid then (Said, st)
      else case discard_change uid cid s of
        (Inl e, s') \<Rightarrow> (Raised e, (ms, s'))
      | (Inr b, s') \<Rightarrow> (Said, (ms, s')))"

text \<open>The wall-clock budget is an argument: whether the query ended in time.\<close>

definition tool_analytics_query ::
  "merchant_context \<Rightarrow> string \<Rightarrow> bool \<Rightarrow> merchant_state \<Rightarrow> tool_reply \<times> merchant_state" where
  "tool_analytics_query ctx query in_time st =
     (let (ms, s) = st in
      if \<not> mc_enable_analytics ctx then (Blocked ''config'', st)
      else if ms_analytics_calls ms \<ge> mc_analytics_max_calls_per_turn ctx then (Blocked ''budget'', st)
      else
        let normalized = join_sp (py_words query)
        in if take 6 (py_lower normalized) \<noteq> ''select'' \<or> CHR '';'' \<in> set normalized
           then (Blocked ''read_only'', st)
           else if \<not> in_time then (Blocked ''budget'', st)
           else (Ok_Result, (ms\<lparr>ms_analytics_calls := ms_analytics_calls ms + 1\<rparr>, s)))"

datatype merchant_call =
    Get_Listing string
  | Stage_Price_Change string py_float
  | Get_Pending_Changes
  | Apply_Change string "bool option"
  | Discard_Change string
  | Analytics_Query string bool

fun merchant_tool ::
  "merchant_context \<Rightarrow> string \<Rightarrow> merchant_call \<Rightarrow> merchant_state \<Rightarrow> tool_reply \<times> merchant_state" where
  "merchant_tool ctx uid (Get_Listing pid) st = tool_get_listing pid st"
| "merchant_tool ctx uid (Stage_Price_Change pid x) st = tool_stage_price_change ctx uid pid x st"
| "merchant_tool ctx uid Get_Pending_Changes st = (Said, st)"
| "merchant_tool ctx uid (Apply_Change cid a) st = tool_apply_change ctx uid cid a st"
| "merchant_tool ctx uid (Discard_Change cid) st = tool_discard_change uid cid st"
| "merchant_tool ctx uid (Analytics_Query q t) st = tool_analytics_query ctx q t st"

fun merchant_run ::
  "merchant_context \<Rightarrow> string \<Rightarrow> merchant_call list \<Rightarrow> merchant_state \<Rightarrow> merchant_state" where
  "merchant_run ctx uid [] st = st"
| "merchant_run ctx uid (c # cs) st = merchant_run ctx uid cs (snd (merchant_tool ctx uid c st))"

subsection \<open>The storefront tools\<close>

record shopping_context =
  cx_max_quantity_per_line :: int
  cx_max_cart_lines :: int

type_synonym shopping_state = "string list \<times> shop"

definition tool_search_products :: "string \<Rightarrow> shopping_state \<Rightarrow> tool_reply \<times> shopping_state" where
  "tool_search_products query st =
     (let products = search_products (snd st) query 5
      in (Ok_Result, (fst st @ map pr_id products, snd st)))"

definition tool_get_cart :: "string \<Rightarrow> shopping_state \<Rightarrow> tool_reply \<times> shopping_state" where
  "tool_get_cart uid st = (Ok_Result, (fst st, snd (get_cart uid (snd st))))"

definition tool_add_to_cart ::
  "shopping_context \<Rightarrow> string \<Rightarrow> string \<Rightarrow> int \<Rightarrow> shopping_state \<Rightarrow> tool_reply \<times> shopping_state" where
  "tool_add_to_cart ctx uid pid quantity st =
     (let (seen, s) = st; (ls, s1) = get_cart uid s in
      if \<not> check_provenance seen pid then (Blocked ''provenance'', (seen, s1))
      else if \<not> check_quantity quantity (cx_max_quantity_per_line ctx)
      then (Blocked ''quantity_limit'', (seen, s1))
      else if \<not> check_cart_size (length ls) (cx_max_cart_lines ctx)
      then (Blocked ''cart_size'', (seen, s1))
      else (Ok_Result, (seen, snd (add_to_cart uid pid quantity s1))))"

definition tool_checkout ::
  "string \<Rightarrow> bool option \<Rightarrow> shopping_state \<Rightarrow> tool_reply \<times> shopping_state" where
  "tool_checkout uid approval st =
     (let (ls, s1) = get_cart uid (snd st) in
      if ls = [] then (Blocked ''empty_cart'', (fst st, s1))
      else case approval of
        None \<Rightarrow> (Interrupted, (fst st, s1))
      | Some a \<Rightarrow> (Ok_Result, (fst st, s1)))"

datatype shopping_call =
    Search_Products string
  | Get_Cart
  | Add_To_Cart string int
  | Checkout "bool option"

fun shopping_tool ::
  "shopping_context \<Rightarrow> string \<Rightarrow> shopping_call \<Rightarrow> shopping_state \<Rightarrow> tool_reply \<times> shopping_state" where
  "shopping_tool ctx uid (Search_Products q) st = tool_search_products q st"
| "shopping_tool ctx uid Get_Cart st = tool_get_cart uid st"
| "shopping_tool ctx uid (Add_To_Cart pid n) st = tool_add_to_cart ctx uid pid n st"
| "shopping_tool ctx uid (Checkout a) st = tool_checkout uid a st"

fun shopping_run ::
  "shopping_context \<Rightarrow> string \<Rightarrow> shopping_call list \<Rightarrow> shopping_state \<Rightarrow> shopping_state" where
  "shopping_run ctx uid [] st = st"
| "shopping_run ctx uid (c # cs) st = shopping_run ctx uid cs (snd (shopping_tool ctx uid c st))"


subsection \<open>Lemmas on the backend\<close>

lemma set_update_first: "x \<in> set (update_first P f xs) \<Longrightarrow> x \<in> set xs \<or> (\<exists>y \<in> set xs. P y \<and> x = f y)"
  by (induction xs) (auto split: if_splits)

lemma update_first_keep: "x \<in> set xs \<Longrightarrow> \<not> P x \<Longrightarrow> x \<in> set (update_first P f xs)"
  by (induction xs) auto

lemma update_first_find: "find P xs = Some x \<Longrightarrow> f x \<in> set (update_first P f xs)"
  by (induction xs) (auto split: if_splits)

lemma map_update_first: "(\<And>x. k (f x) = k x) \<Longrightarrow> map k (update_first P f xs) = map k xs"
  by (induction xs) auto

lemma find_filter_conj: "find P (filter Q xs) = find (\<lambda>x. P x \<and> Q x) xs"
  by (induction xs) auto

lemma find_pending:
  "find (\<lambda>c. sc_id c = cid) (get_pending_changes s uid) = find (is_pending_change cid) (changes_of s uid)"
  by (simp add: get_pending_changes_def find_filter_conj is_pending_change_def [abs_def])

lemma find_SomeD: "find P xs = Some x \<Longrightarrow> x \<in> set xs \<and> P x"
  by (auto simp: find_Some_iff)

lemma price_move_ok:
  assumes "check_price_move (Fin old) new (Fin cap) = Inr True" and "0 < old" and "new \<noteq> NaN"
  shows "\<exists>x. new = Fin x \<and> 0 < x \<and> \<bar>x - old\<bar> / old * 100 \<le> cap"
  using assms by (cases new) (auto simp: check_price_move_def f_le_def f_sign_def Let_def not_less split: if_splits)

lemma changes_of_simps [simp]:
  "changes_of (sh_catalog_update f s) uid = changes_of s uid"
  "changes_of (sh_change_seq_update g s) uid = changes_of s uid"
  "changes_of (mark_change st uid cid s) uid =
     update_first (is_pending_change cid) (sc_status_update (\<lambda>_. st)) (changes_of s uid)"
  "sh_catalog (mark_change st uid cid s) = sh_catalog s"
  by (simp_all add: changes_of_def mark_change_def)

lemma get_listing_change_seq [simp]: "get_listing (sh_change_seq_update g s) pid = get_listing s pid"
  by (simp add: get_listing_def)

lemma stage_price_change_eff:
  assumes "stage_price_change uid pid x s = (r, s')"
  shows "sh_catalog s' = sh_catalog s"
    and "\<And>p. get_listing s pid = Some p \<Longrightarrow>
           \<exists>c. r = Inr c \<and> changes_of s' uid = changes_of s uid @ [c] \<and> sc_kind c = ''price_change'' \<and>
               sc_target c = pid \<and> sc_old_price c = pr_price p \<and> sc_new_price c = x \<and>
               sc_status c = ''pending''"
    and "get_listing s pid = None \<Longrightarrow> r = Inl KeyError \<and> changes_of s' uid = changes_of s uid"
  using assms
  by (auto simp: stage_price_change_def Let_def changes_of_def split: option.splits)

lemma set_price_set:
  "p \<in> set (set_price pid x cat) \<Longrightarrow> p \<in> set cat \<or> pr_id p = pid \<and> pr_price p = x"
  by (auto simp: set_price_def dest!: set_update_first)

lemma set_price_ids: "map pr_id (set_price pid x cat) = map pr_id cat"
  by (simp add: set_price_def map_update_first)

text \<open>What a successful application does; a failed one changes nothing.\<close>

lemma apply_change_eff:
  assumes "apply_change uid cid s = (Inr c', s')"
  obtains c where "find (is_pending_change cid) (changes_of s uid) = Some c"
    and "sh_catalog s' = (if sc_kind c = ''price_change''
           then set_price (sc_target c) (sc_new_price c) (sh_catalog s) else sh_catalog s)"
    and "changes_of s' uid =
           update_first (is_pending_change cid) (sc_status_update (\<lambda>_. ''applied'')) (changes_of s uid)"
  using assms
  by (auto simp: apply_change_def find_change_def Let_def split: option.splits)

lemma apply_change_failed: "apply_change uid cid s = (Inl e, s') \<Longrightarrow> s' = s"
  by (auto simp: apply_change_def Let_def split: sum.splits)

lemma apply_change_pending:
  "find (is_pending_change cid) (changes_of s uid) = Some c \<Longrightarrow> \<exists>c' s'. apply_change uid cid s = (Inr c', s')"
  by (simp add: apply_change_def find_change_def Let_def)

subsection \<open>The staff-facing agent\<close>

lemma merchant_tool_catalog:
  assumes "merchant_tool ctx uid call st = (r, st')"
  shows "sh_catalog (snd st') = sh_catalog (snd st) \<or>
         (\<exists>cid c. call = Apply_Change cid (Some True) \<and> cid \<in> set (ms_staged_change_ids (fst st)) \<and>
            find (is_pending_change cid) (changes_of (snd st) uid) = Some c \<and>
            sc_kind c = ''price_change'' \<and>
            check_price_move (sc_old_price c) (sc_new_price c) (mc_max_price_move_pct ctx) = Inr True \<and>
            sh_catalog (snd st') = set_price (sc_target c) (sc_new_price c) (sh_catalog (snd st)) \<and>
            changes_of (snd st') uid =
              update_first (is_pending_change cid) (sc_status_update (\<lambda>_. ''applied'')) (changes_of (snd st) uid))"
proof (cases call)
  case (Get_Listing pid)
  then show ?thesis using assms by (auto simp: tool_get_listing_def split: option.splits)
next
  case (Stage_Price_Change pid x)
  then show ?thesis using assms
    by (auto simp: tool_stage_price_change_def Let_def split: prod.splits option.splits sum.splits if_splits
        dest: stage_price_change_eff(1))
next
  case Get_Pending_Changes
  then show ?thesis using assms by simp
next
  case (Apply_Change cid a)
  then show ?thesis using assms
    by (auto simp: tool_apply_change_def Let_def find_pending check_change_provenance_def
        split: prod.splits option.splits sum.splits if_splits bool.splits
        elim!: apply_change_eff dest: apply_change_failed)
next
  case (Discard_Change cid)
  then show ?thesis using assms
    by (auto simp: tool_discard_change_def discard_change_def Let_def
        split: prod.splits sum.splits if_splits)
next
  case (Analytics_Query q t)
  then show ?thesis using assms
    by (auto simp: tool_analytics_query_def Let_def split: prod.splits if_splits)
qed


text \<open>
  The changes a session has staged stay within the cap, and every price of the catalogue is an
  original one or that of an applied change of the list.
\<close>

definition positive_price :: "py_float \<Rightarrow> bool" where
  "positive_price x \<longleftrightarrow> (\<exists>y. x = Fin y \<and> 0 < y)"

lemma positive_price_simps [simp]: "positive_price (Fin x) \<longleftrightarrow> 0 < x" "\<not> positive_price NaN"
  by (simp_all add: positive_price_def)

definition within_cap :: "rat \<Rightarrow> py_float \<Rightarrow> py_float \<Rightarrow> bool" where
  "within_cap cap old new \<longleftrightarrow> (\<exists>x y. old = Fin x \<and> new = Fin y \<and> 0 < x \<and> 0 < y \<and> \<bar>y - x\<bar> / x * 100 \<le> cap)"

definition change_ok :: "rat \<Rightarrow> staged_change \<Rightarrow> bool" where
  "change_ok cap c \<longleftrightarrow> sc_kind c = ''price_change'' \<and> within_cap cap (sc_old_price c) (sc_new_price c)"

definition price_justified :: "product list \<Rightarrow> staged_change list \<Rightarrow> product \<Rightarrow> bool" where
  "price_justified cat0 cs p \<longleftrightarrow> p \<in> set cat0 \<or>
     (\<exists>c \<in> set cs. sc_status c = ''applied'' \<and> sc_target c = pr_id p \<and> sc_new_price c = pr_price p)"

definition merchant_inv :: "rat \<Rightarrow> product list \<Rightarrow> string \<Rightarrow> merchant_state \<Rightarrow> bool" where
  "merchant_inv cap cat0 uid st \<longleftrightarrow>
     map pr_id (sh_catalog (snd st)) = map pr_id cat0 \<and>
     (\<forall>p \<in> set (sh_catalog (snd st)). positive_price (pr_price p)) \<and>
     (\<forall>c \<in> set (changes_of (snd st) uid). change_ok cap c) \<and>
     (\<forall>p \<in> set (sh_catalog (snd st)). price_justified cat0 (changes_of (snd st) uid) p)"

definition asks_nan :: "merchant_call \<Rightarrow> bool" where
  "asks_nan call \<longleftrightarrow> (\<exists>pid. call = Stage_Price_Change pid NaN)"

lemma merchant_tool_changes:
  assumes "merchant_tool ctx uid call st = (r, st')"
  shows "(\<exists>cid stat. changes_of (snd st') uid =
             update_first (is_pending_change cid) (sc_status_update (\<lambda>_. stat)) (changes_of (snd st) uid)) \<or>
         changes_of (snd st') uid = changes_of (snd st) uid \<or>
         (\<exists>p x c. call = Stage_Price_Change (pr_id p) x \<and> get_listing (snd st) (pr_id p) = Some p \<and>
            check_price_move (pr_price p) x (mc_max_price_move_pct ctx) = Inr True \<and>
            changes_of (snd st') uid = changes_of (snd st) uid @ [c] \<and> sc_kind c = ''price_change'' \<and>
            sc_old_price c = pr_price p \<and> sc_new_price c = x)"
proof (cases call)
  case (Get_Listing pid)
  then show ?thesis using assms by (auto simp: tool_get_listing_def split: option.splits)
next
  case (Stage_Price_Change pid x)
  obtain ms s where st: "st = (ms, s)" by force
  show ?thesis
  proof (cases "get_listing s pid")
    case None
    then show ?thesis using assms Stage_Price_Change st
      by (auto simp: tool_stage_price_change_def split: if_splits)
  next
    case (Some p)
    then have "pr_id p = pid" by (auto simp: get_listing_def dest!: find_SomeD)
    obtain r1 s1 where "stage_price_change uid pid x s = (r1, s1)" by force
    with stage_price_change_eff(2) [OF this Some] show ?thesis
      using assms Stage_Price_Change st Some \<open>pr_id p = pid\<close>
      by (fastforce simp: tool_stage_price_change_def split: sum.splits if_splits)
  qed
next
  case Get_Pending_Changes
  then show ?thesis using assms by simp
next
  case (Apply_Change cid a)
  then have "changes_of (snd st') uid =
               update_first (is_pending_change cid) (sc_status_update (\<lambda>_. ''applied'')) (changes_of (snd st) uid) \<or>
             changes_of (snd st') uid = changes_of (snd st) uid"
    using assms
    by (auto simp: tool_apply_change_def Let_def split: prod.splits option.splits sum.splits if_splits
        elim!: apply_change_eff dest: apply_change_failed)
  then show ?thesis by blast
next
  case (Discard_Change cid)
  then have "changes_of (snd st') uid =
               update_first (is_pending_change cid) (sc_status_update (\<lambda>_. ''discarded'')) (changes_of (snd st) uid) \<or>
             changes_of (snd st') uid = changes_of (snd st) uid"
    using assms
    by (auto simp: tool_discard_change_def discard_change_def Let_def
        split: prod.splits sum.splits if_splits)
  then show ?thesis by blast
next
  case (Analytics_Query q t)
  then show ?thesis using assms
    by (auto simp: tool_analytics_query_def Let_def split: prod.splits if_splits)
qed

lemma merchant_tool_changes_ok:
  assumes "merchant_tool ctx uid call st = (r, st')" and "mc_max_price_move_pct ctx = Fin cap" and "\<not> asks_nan call"
    and "\<forall>p \<in> set (sh_catalog (snd st)). positive_price (pr_price p)"
    and "\<forall>c \<in> set (changes_of (snd st) uid). change_ok cap c"
    and "c \<in> set (changes_of (snd st') uid)"
  shows "change_ok cap c"
  using merchant_tool_changes [OF assms(1)]
proof (elim disjE exE conjE)
  fix p x c'
  assume call: "call = Stage_Price_Change (pr_id p) x" and "get_listing (snd st) (pr_id p) = Some p"
    and ok: "check_price_move (pr_price p) x (mc_max_price_move_pct ctx) = Inr True"
    and new: "changes_of (snd st') uid = changes_of (snd st) uid @ [c']" "sc_kind c' = ''price_change''"
      "sc_old_price c' = pr_price p" "sc_new_price c' = x"
  then have "positive_price (pr_price p)" using assms(4) by (auto simp: get_listing_def dest!: find_SomeD)
  then obtain old where old: "pr_price p = Fin old" "0 < old" by (auto simp: positive_price_def)
  have "x \<noteq> NaN" using assms(3) call by (auto simp: asks_nan_def)
  with price_move_ok [of old x cap] ok old assms(2) obtain y where "x = Fin y" "0 < y" "\<bar>y - old\<bar> / old * 100 \<le> cap" by auto
  then have "change_ok cap c'" using new old by (simp add: change_ok_def within_cap_def)
  with new assms(5,6) show ?thesis by auto
qed (use assms(5,6) in \<open>auto simp: change_ok_def dest!: set_update_first\<close>)

text \<open>An applied change stays in the list: only pending ones are altered.\<close>

lemma merchant_tool_applied:
  assumes "merchant_tool ctx uid call st = (r, st')" and "c \<in> set (changes_of (snd st) uid)"
    and "sc_status c = ''applied''"
  shows "c \<in> set (changes_of (snd st') uid)"
  using merchant_tool_changes [OF assms(1)] assms(2,3)
  by (auto simp: is_pending_change_def intro!: update_first_keep)

lemma merchant_inv_tool:
  assumes step: "merchant_tool ctx uid call st = (r, st')"
    and cap: "mc_max_price_move_pct ctx = Fin cap" and "\<not> asks_nan call"
    and inv: "merchant_inv cap cat0 uid st"
  shows "merchant_inv cap cat0 uid st'"
proof -
  let ?cs = "changes_of (snd st) uid" and ?cs' = "changes_of (snd st') uid"
  have keep: "price_justified cat0 ?cs' p" if "price_justified cat0 ?cs p" for p
    using that merchant_tool_applied [OF step] by (auto simp: price_justified_def)
  have ok: "\<forall>c \<in> set ?cs'. change_ok cap c"
    using merchant_tool_changes_ok [OF step cap assms(3)] inv by (auto simp: merchant_inv_def)
  show ?thesis using merchant_tool_catalog [OF step]
  proof (elim disjE exE conjE)
    assume "sh_catalog (snd st') = sh_catalog (snd st)"
    then show ?thesis using inv ok keep by (auto simp: merchant_inv_def)
  next
    fix cid c
    assume c: "find (is_pending_change cid) ?cs = Some c"
      and cat: "sh_catalog (snd st') = set_price (sc_target c) (sc_new_price c) (sh_catalog (snd st))"
      and cs': "?cs' = update_first (is_pending_change cid) (sc_status_update (\<lambda>_. ''applied'')) ?cs"
    have "c \<in> set ?cs" using find_SomeD [OF c] by simp
    then have pos: "positive_price (sc_new_price c)" using inv by (auto simp: merchant_inv_def change_ok_def within_cap_def positive_price_def)
    have app: "c\<lparr>sc_status := ''applied''\<rparr> \<in> set ?cs'"
      using update_first_find [OF c, of "sc_status_update (\<lambda>_. ''applied'')"] cs' by simp
    have "price_justified cat0 ?cs' p \<and> positive_price (pr_price p)" if "p \<in> set (sh_catalog (snd st'))" for p
      using set_price_set [OF that [unfolded cat]]
    proof
      assume "p \<in> set (sh_catalog (snd st))"
      then show ?thesis using inv keep by (simp add: merchant_inv_def)
    next
      assume p: "pr_id p = sc_target c \<and> pr_price p = sc_new_price c"
      then have "price_justified cat0 ?cs' p"
        unfolding price_justified_def by (intro disjI2 bexI [OF _ app]) simp
      then show ?thesis using p pos by simp
    qed
    then show ?thesis using inv ok cat by (auto simp: merchant_inv_def set_price_ids)
  qed
qed

lemma merchant_inv_run:
  assumes "mc_max_price_move_pct ctx = Fin cap"
  shows "merchant_inv cap cat0 uid st \<Longrightarrow> \<forall>call \<in> set calls. \<not> asks_nan call \<Longrightarrow>
    merchant_inv cap cat0 uid (merchant_run ctx uid calls st)"
proof (induction calls arbitrary: st)
  case (Cons call calls)
  then have "merchant_inv cap cat0 uid (snd (merchant_tool ctx uid call st))"
    using merchant_inv_tool [OF prod.collapse [symmetric] assms] by simp
  with Cons show ?case by simp
qed simp

subsection \<open>The storefront agent\<close>

text \<open>
  The cart of the user: every line once, with a positive quantity, of a product that a search of
  the session returned, and no more lines than the configured limit.
\<close>

definition cart_inv :: "shopping_context \<Rightarrow> string \<Rightarrow> shopping_state \<Rightarrow> bool" where
  "cart_inv ctx uid st \<longleftrightarrow>
     distinct (map cl_product_id (cart_of (snd st) uid)) \<and>
     (\<forall>l \<in> set (cart_of (snd st) uid). 0 < cl_quantity l \<and> cl_product_id l \<in> set (fst st)) \<and>
     int (length (cart_of (snd st) uid)) \<le> max 0 (cx_max_cart_lines ctx)"

lemma cart_of_get_cart [simp]: "cart_of (snd (get_cart uid s)) u = cart_of s u"
  by (simp add: get_cart_def cart_of_def split: option.splits)

lemma cart_of_add [simp]:
  "cart_of (snd (add_to_cart uid pid q s)) u = (if u = uid then add_line pid q (cart_of s uid) else cart_of s u)"
  by (simp add: add_to_cart_def get_cart_def cart_of_def Let_def)

lemma ids_add_line:
  "map cl_product_id (add_line pid q ls) =
     (if pid \<in> cl_product_id ` set ls then map cl_product_id ls else map cl_product_id ls @ [pid])"
  by (induction ls) auto

lemma add_line_quantity:
  "l \<in> set (add_line pid q ls) \<Longrightarrow> 0 < q \<Longrightarrow> \<forall>k \<in> set ls. 0 < cl_quantity k \<Longrightarrow> 0 < cl_quantity l"
  by (induction ls) (auto split: if_splits)

lemma length_add_line: "length (add_line pid q ls) \<le> length ls + 1"
  by (induction ls) auto

lemma add_line_id: "l \<in> set (add_line pid q ls) \<Longrightarrow> cl_product_id l = pid \<or> cl_product_id l \<in> cl_product_id ` set ls"
  by (induction ls) (auto split: if_splits)

lemma tool_add_to_cart_cases:
  assumes "tool_add_to_cart ctx uid pid q st = (r, st')"
  obtains (refused) gate where "r = Blocked gate" "fst st' = fst st" "\<And>u. cart_of (snd st') u = cart_of (snd st) u"
  | (added) "r = Ok_Result" "fst st' = fst st" "pid \<in> set (fst st)" "0 < q" "q \<le> cx_max_quantity_per_line ctx"
      "int (length (cart_of (snd st) uid)) < cx_max_cart_lines ctx"
      "\<And>u. cart_of (snd st') u = (if u = uid then add_line pid q (cart_of (snd st) uid) else cart_of (snd st) u)"
proof -
  obtain seen s where st: "st = (seen, s)" by force
  have cart: "fst (get_cart uid s) = cart_of s uid" by (simp add: get_cart_def)
  show thesis
  proof (cases r)
    case (Blocked g)
    then show thesis using assms refused [of g]
      by (auto simp: st tool_add_to_cart_def case_prod_beta Let_def split: if_splits)
  next
    case Ok_Result
    then show thesis using assms added cart
      by (auto simp: st tool_add_to_cart_def case_prod_beta Let_def check_provenance_def
          check_quantity_def check_cart_size_def split: if_splits)
  qed (use assms in \<open>auto simp: st tool_add_to_cart_def case_prod_beta Let_def split: if_splits\<close>)
qed

lemma cart_inv_tool:
  assumes "cart_inv ctx uid st" and "shopping_tool ctx uid call st = (r, st')"
  shows "cart_inv ctx uid st'"
proof (cases call)
  case (Add_To_Cart pid q)
  then have "tool_add_to_cart ctx uid pid q st = (r, st')" using assms(2) by simp
  then show ?thesis
  proof (cases rule: tool_add_to_cart_cases)
    case (refused gate)
    then show ?thesis using assms(1) by (simp add: cart_inv_def)
  next
    case added
    then show ?thesis using assms(1) length_add_line [of pid q "cart_of (snd st) uid"]
      by (fastforce simp: cart_inv_def ids_add_line dest: add_line_id intro: add_line_quantity)
  qed
qed (use assms in \<open>auto simp: cart_inv_def tool_search_products_def tool_get_cart_def tool_checkout_def
       Let_def case_prod_beta split: if_splits option.splits\<close>)

lemma cart_inv_run: "cart_inv ctx uid st \<Longrightarrow> cart_inv ctx uid (shopping_run ctx uid calls st)"
  by (induction calls arbitrary: st) (simp, metis cart_inv_tool shopping_run.simps(2) prod.collapse)

lemma shopping_tool_catalog:
  "sh_catalog (snd (snd (shopping_tool ctx uid call st))) = sh_catalog (snd st) \<and>
   sh_orders (snd (snd (shopping_tool ctx uid call st))) = sh_orders (snd st)"
  by (cases call)
    (auto simp: tool_search_products_def tool_get_cart_def tool_checkout_def tool_add_to_cart_def
      add_to_cart_def get_cart_def Let_def case_prod_beta split: option.splits)

lemma shopping_run_catalog:
  "sh_catalog (snd (shopping_run ctx uid calls st)) = sh_catalog (snd st) \<and>
   sh_orders (snd (shopping_run ctx uid calls st)) = sh_orders (snd st)"
  by (induction calls arbitrary: st) (auto simp: shopping_tool_catalog)

subsection \<open>What the agents can and cannot do\<close>

text \<open>
  Claim C40.  No price moves without an approved, staged change within the cap.  The claim is about
  the calls of one user in one session, whose list of changes starts empty, on a shop whose prices
  are positive numbers, with a finite cap, and as long as no call asks for the price NaN, which the
  gate lets through (see \<open>nan_price_applied\<close>).  A single tool call changes the catalogue only when it is an
  approved application of a change that the session knows and that is still pending, and then only
  the price of the change's product.  Over any sequence of calls, product ids never change, every
  price stays a positive number, and every price is an original one or that of an applied change of
  the user whose move, from the price at staging, is within the configured percentage.
\<close>

theorem price_changes_gated:
  assumes "\<forall>p \<in> set (sh_catalog s). positive_price (pr_price p)" and "changes_of s uid = []"
    and "mc_max_price_move_pct ctx = Fin cap" and "\<forall>call \<in> set calls. \<not> asks_nan call"
    and "st = merchant_run ctx uid calls (ms, s)" and "merchant_tool ctx uid call st = (r, st')"
  shows "(sh_catalog (snd st') \<noteq> sh_catalog (snd st) \<longrightarrow>
      (\<exists>cid c. call = Apply_Change cid (Some True) \<and> cid \<in> set (ms_staged_change_ids (fst st)) \<and>
         c \<in> set (changes_of (snd st) uid) \<and> is_pending_change cid c \<and>
         sh_catalog (snd st') = set_price (sc_target c) (sc_new_price c) (sh_catalog (snd st)))) \<and>
    map pr_id (sh_catalog (snd st)) = map pr_id (sh_catalog s) \<and>
    (\<forall>p \<in> set (sh_catalog (snd st)). positive_price (pr_price p) \<and>
       (p \<in> set (sh_catalog s) \<or>
        (\<exists>c \<in> set (changes_of (snd st) uid). sc_status c = ''applied'' \<and> sc_target c = pr_id p \<and>
           sc_new_price c = pr_price p \<and> within_cap cap (sc_old_price c) (sc_new_price c))))"
proof -
  have "merchant_inv cap (sh_catalog s) uid (ms, s)"
    using assms(1,2) by (simp add: merchant_inv_def price_justified_def)
  then have inv: "merchant_inv cap (sh_catalog s) uid st"
    unfolding assms(5) using assms(4) by (rule merchant_inv_run [OF assms(3)])
  have prices: "positive_price (pr_price p) \<and> (p \<in> set (sh_catalog s) \<or>
        (\<exists>c \<in> set (changes_of (snd st) uid). sc_status c = ''applied'' \<and> sc_target c = pr_id p \<and>
           sc_new_price c = pr_price p \<and> within_cap cap (sc_old_price c) (sc_new_price c)))"
    if "p \<in> set (sh_catalog (snd st))" for p
    using inv that unfolding merchant_inv_def price_justified_def change_ok_def by metis
  have "sh_catalog (snd st') \<noteq> sh_catalog (snd st) \<longrightarrow>
      (\<exists>cid c. call = Apply_Change cid (Some True) \<and> cid \<in> set (ms_staged_change_ids (fst st)) \<and>
         c \<in> set (changes_of (snd st) uid) \<and> is_pending_change cid c \<and>
         sh_catalog (snd st') = set_price (sc_target c) (sc_new_price c) (sh_catalog (snd st)))"
    using merchant_tool_catalog [OF assms(6)] find_SomeD by metis
  with prices inv show ?thesis by (simp add: merchant_inv_def)
qed

definition demo_session :: merchant_session where
  "demo_session = \<lparr>ms_seen_listing_ids = [], ms_staged_change_ids = [], ms_analytics_calls = 0\<rparr>"

definition demo_context :: merchant_context where
  "demo_context = \<lparr>mc_max_price_move_pct = Fin 20, mc_enable_analytics = True, mc_analytics_max_rows = 50,
     mc_analytics_max_calls_per_turn = 3\<rparr>"

definition demo_staged :: merchant_state where
  "demo_staged = merchant_run demo_context ''staff''
     [Get_Listing ''scale-01'', Stage_Price_Change ''scale-01'' (Fin 40)] (demo_session, new_shop)"

theorem price_changes_gated_witness:
  "list_all (\<lambda>p. positive_price (pr_price p)) (sh_catalog (snd demo_staged)) \<and>
   (\<exists>c. c \<in> set (changes_of (snd demo_staged) ''staff'') \<and> is_pending_change ''change-0001'' c \<and>
      sh_catalog (snd (snd (merchant_tool demo_context ''staff'' (Apply_Change ''change-0001'' (Some True)) demo_staged)))
        = set_price (sc_target c) (sc_new_price c) (sh_catalog (snd demo_staged)))"
proof -
  have pos: "\<forall>p \<in> set (sh_catalog new_shop). positive_price (pr_price p)" and none: "changes_of new_shop ''staff'' = []"
    by (simp_all add: new_shop_def demo_catalog_def changes_of_def)
  have cap: "mc_max_price_move_pct demo_context = Fin 20" by (simp add: demo_context_def)
  have numbers: "\<forall>call \<in> set [Get_Listing ''scale-01'', Stage_Price_Change ''scale-01'' (Fin 40)]. \<not> asks_nan call"
    by (simp add: asks_nan_def)
  have moved: "sh_catalog (snd (snd (merchant_tool demo_context ''staff'' (Apply_Change ''change-0001'' (Some True)) demo_staged)))
      \<noteq> sh_catalog (snd demo_staged)"
    by code_simp
  show ?thesis
    using price_changes_gated [OF pos none cap numbers demo_staged_def prod.collapse [symmetric],
        of "Apply_Change ''change-0001'' (Some True)"] moved
    unfolding list_all_iff by blast
qed

text \<open>
  The storefront agent's cart obeys the gates and the agent never places an order.
  Starting with an empty cart, after any sequence of tool calls the cart has each product once,
  only products that a search of the session returned, positive quantities, and no more lines
  than configured; the catalogue and the recorded orders are untouched, approved checkouts
  included.
\<close>

theorem cart_gates_hold:
  assumes "cart_of s uid = []" and "st = shopping_run ctx uid calls (seen, s)"
  shows "distinct (map cl_product_id (cart_of (snd st) uid)) \<and>
    (\<forall>l \<in> set (cart_of (snd st) uid). 0 < cl_quantity l \<and> cl_product_id l \<in> set (fst st)) \<and>
    int (length (cart_of (snd st) uid)) \<le> max 0 (cx_max_cart_lines ctx) \<and>
    sh_catalog (snd st) = sh_catalog s \<and> sh_orders (snd st) = sh_orders s"
proof -
  have "cart_inv ctx uid (seen, s)" using assms(1) by (simp add: cart_inv_def)
  then have "cart_inv ctx uid st" unfolding assms(2) by (rule cart_inv_run)
  then show ?thesis
    using shopping_run_catalog [of ctx uid calls "(seen, s)"] by (simp add: cart_inv_def assms(2))
qed

theorem cart_gates_hold_witness:
  "cart_of (snd (shopping_run \<lparr>cx_max_quantity_per_line = 5, cx_max_cart_lines = 20\<rparr> ''bob''
      [Add_To_Cart ''kettle-01'' 2, Checkout (Some True)] ([''kettle-01''], new_shop))) ''bob''
     = [\<lparr>cl_product_id = ''kettle-01'', cl_quantity = 2\<rparr>] \<and>
   sh_orders (snd (shopping_run \<lparr>cx_max_quantity_per_line = 5, cx_max_cart_lines = 20\<rparr> ''bob''
      [Add_To_Cart ''kettle-01'' 2, Checkout (Some True)] ([''kettle-01''], new_shop))) = []"
  using cart_gates_hold [of new_shop "''bob''", OF _ refl,
      of "\<lparr>cx_max_quantity_per_line = 5, cx_max_cart_lines = 20\<rparr>" "[Add_To_Cart ''kettle-01'' 2, Checkout (Some True)]" "[''kettle-01'']"]
  by (simp add: new_shop_def cart_of_def tool_add_to_cart_def tool_checkout_def add_to_cart_def get_cart_def
      check_provenance_def check_quantity_def check_cart_size_def Let_def)

text \<open>
  The quantity gate bounds a call, not a cart line.  With the cap of five units per
  line, two accepted additions of five give a line of ten; and when the cart is full, adding to
  a line it already has is refused although it would add no line.
\<close>

theorem quantity_gate_is_per_call:
  "shopping_run \<lparr>cx_max_quantity_per_line = 5, cx_max_cart_lines = 20\<rparr> ''bob''
     [Add_To_Cart ''kettle-01'' 5, Add_To_Cart ''kettle-01'' 5] ([''kettle-01''], new_shop)
   = ([''kettle-01''], new_shop\<lparr>sh_carts := [''bob'' \<mapsto> [\<lparr>cl_product_id = ''kettle-01'', cl_quantity = 10\<rparr>]]\<rparr>) \<and>
   fst (shopping_tool \<lparr>cx_max_quantity_per_line = 5, cx_max_cart_lines = 1\<rparr> ''bob'' (Add_To_Cart ''kettle-01'' 1)
     ([''kettle-01''], new_shop\<lparr>sh_carts := [''bob'' \<mapsto> [\<lparr>cl_product_id = ''kettle-01'', cl_quantity = 1\<rparr>]]\<rparr>))
   = Blocked ''cart_size''"
  by (simp add: new_shop_def cart_of_def tool_add_to_cart_def add_to_cart_def get_cart_def
      check_provenance_def check_quantity_def check_cart_size_def Let_def)

text \<open>
  The cap is measured from the price at staging.  Two changes staged from the same
  listing both pass the re-check at application, whatever was applied in between: with a cap of
  20 percent and a listed price of 35, applying 42 and then 28 moves the price by a third in one
  step.
\<close>

theorem staged_cap_ignores_current_price:
  "map pr_price (filter (\<lambda>p. pr_id p = ''scale-01'') (sh_catalog (snd (merchant_run demo_context ''staff''
      [Get_Listing ''scale-01'', Stage_Price_Change ''scale-01'' (Fin 42), Stage_Price_Change ''scale-01'' (Fin 28),
       Apply_Change ''change-0001'' (Some True)] (demo_session, new_shop))))) = [Fin 42] \<and>
   map pr_price (filter (\<lambda>p. pr_id p = ''scale-01'') (sh_catalog (snd (merchant_run demo_context ''staff''
      [Get_Listing ''scale-01'', Stage_Price_Change ''scale-01'' (Fin 42), Stage_Price_Change ''scale-01'' (Fin 28),
       Apply_Change ''change-0001'' (Some True), Apply_Change ''change-0002'' (Some True)] (demo_session, new_shop))))) = [Fin 28]"
  by code_simp

text \<open>
  The price NaN passes the gate: it is not at most zero and its move is not above the cap.  Once
  applied, every later price of the product passes too.
\<close>

lemma nan_price_applied:
  "map pr_price (filter (\<lambda>p. pr_id p = ''scale-01'') (sh_catalog (snd (merchant_run demo_context ''staff''
      [Get_Listing ''scale-01'', Stage_Price_Change ''scale-01'' NaN, Apply_Change ''change-0001'' (Some True)]
      (demo_session, new_shop))))) = [NaN] \<and>
   check_price_move NaN (Fin 1000000) (Fin 20) = Inr True"
  by code_simp

end
