(* ===== verification/Assistants.thy ===== *)
theory Assistants
  imports Run_Job Auth "HOL-Library.List_Lexorder" "HOL-Library.Char_ord" "HOL-Library.Product_Lexorder"
begin

text \<open>
  The assistant service (\<^verbatim>\<open>usecase/assistant_service.py\<close>), its request models
  (\<^verbatim>\<open>domain/assistants.py\<close>), the sort resolution of \<^verbatim>\<open>controller/http/routers/assistants.py\<close> and the
  default assistants of \<^verbatim>\<open>repo/graphs/langgraph_service.py\<close>, over the tables \<^verbatim>\<open>assistant\<close> and
  \<^verbatim>\<open>assistant_versions\<close> with their unique indexes and the cascading foreign key.  The
  authorisation of an action, JSONB containment and equality, the digest of the unique index, the
  case folding of \<open>ILIKE\<close>, the collation and the graph registry are fields of an environment.
\<close>

subsection \<open>Tables\<close>

record assistant_orm =
  o_assistant_id :: string
  o_name :: string
  o_description :: "string option"
  o_graph_id :: string
  o_config :: json
  o_context :: json
  o_user_id :: user_id
  o_version :: int
  o_metadata :: json
  o_created_at :: time
  o_updated_at :: time

record assistant_version =
  av_assistant_id :: string
  av_version :: int
  av_graph_id :: string
  av_config :: json
  av_context :: json
  av_created_at :: time
  av_metadata :: json
  av_name :: "string option"
  av_description :: "string option"

record assistant_db =
  assistants :: "assistant_orm list"
  versions :: "assistant_version list"

record assistant_env =
  ae_authorize :: "string \<Rightarrow> dict \<Rightarrow> (dict option \<times> dict) result"
  ae_contains :: "json \<Rightarrow> json \<Rightarrow> bool"
  ae_jsonb_eq :: "json \<Rightarrow> json \<Rightarrow> bool"
  ae_digest :: "json \<Rightarrow> string"
  ae_fold :: "char \<Rightarrow> char"
  ae_collate :: "string \<Rightarrow> string"
  ae_graphs :: "string list"
  ae_loadable :: "string \<Rightarrow> bool"

text \<open>
  \<open>to_pydantic\<close>: the response model wants three mappings; anything else fails its validation.
\<close>

definition to_pydantic :: "assistant_orm \<Rightarrow> assistant_orm result" where
  "to_pydantic a =
     (if is_dict (o_config a) \<and> is_dict (o_context a) \<and> is_dict (o_metadata a) then Inr a else Inl ValueError)"

subsection \<open>Requests\<close>

record assistant_create =
  ac_assistant_id :: "string option"
  ac_name :: "string option"
  ac_description :: "string option"
  ac_config :: "dict option"
  ac_context :: "dict option"
  ac_graph_id :: string
  ac_metadata :: "dict option"
  ac_if_exists :: "string option"

text \<open>The outer option is whether the field was supplied, the inner one whether it is null.\<close>

record assistant_update =
  up_name :: "string option option"
  up_description :: "string option option"
  up_config :: "dict option option"
  up_graph_id :: "string option option"
  up_context :: "dict option option"
  up_metadata :: "dict option option"

datatype sort_column = ByAssistantId | ByName | ByGraphId | ByCreatedAt | ByUpdatedAt

record assistant_search =
  as_name :: "string option"
  as_description :: "string option"
  as_graph_id :: "string option"
  as_limit :: "nat option"
  as_offset :: "nat option"
  as_metadata :: "dict option"
  as_sort_by :: "sort_column option"
  as_sort_order :: "string option"

definition supplied :: "'a option option \<Rightarrow> bool" where
  "supplied x = (x \<noteq> None)"

definition or_dict :: "dict option \<Rightarrow> dict" where
  "or_dict x = (case x of None \<Rightarrow> [] | Some d \<Rightarrow> d)"

definition dump_assistant_create :: "assistant_create \<Rightarrow> dict" where
  "dump_assistant_create rq =
     [(''assistant_id'', json_of_opt JStr (ac_assistant_id rq)), (''name'', json_of_opt JStr (ac_name rq)),
      (''description'', json_of_opt JStr (ac_description rq)), (''config'', json_of_opt JObj (ac_config rq)),
      (''context'', json_of_opt JObj (ac_context rq)), (''graph_id'', JStr (ac_graph_id rq)),
      (''metadata'', json_of_opt JObj (ac_metadata rq)), (''if_exists'', json_of_opt JStr (ac_if_exists rq))]"

definition dump_assistant_update :: "string \<Rightarrow> assistant_update \<Rightarrow> dict" where
  "dump_assistant_update aid rq =
     [(''name'', json_of_opt JStr (Option.bind (up_name rq) id)),
      (''description'', json_of_opt JStr (Option.bind (up_description rq) id)),
      (''config'', JObj (or_dict (Option.bind (up_config rq) id))),
      (''graph_id'', json_of_opt JStr (Option.bind (up_graph_id rq) id)),
      (''context'', JObj (or_dict (Option.bind (up_context rq) id))),
      (''metadata'', JObj (or_dict (Option.bind (up_metadata rq) id))),
      (''assistant_id'', JStr aid)]"

definition sort_column_str :: "sort_column \<Rightarrow> string" where
  "sort_column_str c =
     (case c of ByAssistantId \<Rightarrow> ''assistant_id'' | ByName \<Rightarrow> ''name'' | ByGraphId \<Rightarrow> ''graph_id''
      | ByCreatedAt \<Rightarrow> ''created_at'' | ByUpdatedAt \<Rightarrow> ''updated_at'')"

definition dump_assistant_search :: "assistant_search \<Rightarrow> dict" where
  "dump_assistant_search rq =
     [(''name'', json_of_opt JStr (as_name rq)), (''description'', json_of_opt JStr (as_description rq)),
      (''graph_id'', json_of_opt JStr (as_graph_id rq)),
      (''limit'', json_of_opt (\<lambda>n. JInt (int n)) (as_limit rq)), (''offset'', json_of_opt (\<lambda>n. JInt (int n)) (as_offset rq)),
      (''metadata'', json_of_opt JObj (as_metadata rq)),
      (''sort_by'', json_of_opt (\<lambda>c. JStr (sort_column_str c)) (as_sort_by rq)),
      (''sort_order'', json_of_opt JStr (as_sort_order rq))]"

subsection \<open>Helpers\<close>

definition py_replace_char :: "char \<Rightarrow> string \<Rightarrow> string \<Rightarrow> string" where
  "py_replace_char c r s = concat (map (\<lambda>x. if x = c then r else [x]) s)"

definition backslash :: char where "backslash = CHR 0x5C"

definition escape_like :: "string \<Rightarrow> string" where
  "escape_like v =
     py_replace_char (CHR ''_'') [backslash, CHR ''_'']
       (py_replace_char (CHR 0x25) [backslash, CHR 0x25]
         (py_replace_char backslash [backslash, backslash] v))"

text \<open>
  \<open>column ILIKE pattern ESCAPE '\'\<close> of the database: \<open>%\<close> matches any text, \<open>_\<close> any character, the
  escape character makes the next one literal, and characters compare up to case folding.
\<close>

function ilike :: "(char \<Rightarrow> char) \<Rightarrow> string \<Rightarrow> string \<Rightarrow> bool" where
  "ilike f [] s = (s = [])"
| "ilike f (c # p) s =
     (if c = backslash then
        (case p of
           [] \<Rightarrow> False
         | e # p' \<Rightarrow> (case s of [] \<Rightarrow> False | x # s' \<Rightarrow> f e = f x \<and> ilike f p' s'))
      else if c = CHR 0x25 then
        ilike f p s \<or> (case s of [] \<Rightarrow> False | _ # s' \<Rightarrow> ilike f (c # p) s')
      else
        (case s of [] \<Rightarrow> False | x # s' \<Rightarrow> (c = CHR ''_'' \<or> f c = f x) \<and> ilike f p s'))"
  by pat_completeness auto
termination
  by (relation "measure (\<lambda>(_, p, s). length p + length s)") auto

definition contains_pattern :: "string \<Rightarrow> string" where
  "contains_pattern v = CHR 0x25 # escape_like v @ [CHR 0x25]"

definition injected_metadata :: "dict option \<Rightarrow> dict \<Rightarrow> dict option" where
  "injected_metadata base value =
     (case map_of value ''metadata'' of
        Some (JObj d) \<Rightarrow> if d \<noteq> [] then Some (dict_update (or_dict base) d) else base
      | _ \<Rightarrow> base)"

definition configurable_key :: "dict \<Rightarrow> json" where
  "configurable_key config = (case map_of config ''configurable'' of None \<Rightarrow> JNull | Some c \<Rightarrow> c)"

definition visible_to :: "user_id \<Rightarrow> assistant_orm \<Rightarrow> bool" where
  "visible_to uid a = (o_user_id a = uid \<or> o_user_id a = ''system'')"

subsection \<open>Creation\<close>

text \<open>Some unique index of the table rejects the row: primary key, or owner, graph and configuration.\<close>

definition insert_conflict :: "assistant_env \<Rightarrow> assistant_orm \<Rightarrow> assistant_orm list \<Rightarrow> bool" where
  "insert_conflict env a rows =
     list_ex (\<lambda>b. o_assistant_id b = o_assistant_id a \<or>
        (o_user_id b = o_user_id a \<and> o_graph_id b = o_graph_id a \<and>
         ae_digest env (o_config b) = ae_digest env (o_config a))) rows"

definition resolve_create_conflict ::
  "assistant_env \<Rightarrow> user_id \<Rightarrow> assistant_orm \<Rightarrow> string option \<Rightarrow> assistant_db \<Rightarrow> assistant_orm result"
where
  "resolve_create_conflict env uid a if_exists d =
     (case first_where (\<lambda>b. o_user_id b = uid \<and>
              ((o_graph_id b = o_graph_id a \<and> ae_jsonb_eq env (o_config b) (o_config a)) \<or>
               o_assistant_id b = o_assistant_id a)) (assistants d) of
        Some b \<Rightarrow> if if_exists = Some ''do_nothing'' then to_pydantic b else Inl (HTTPException 409)
      | None \<Rightarrow> Inl (HTTPException 409))"

text \<open>Configuration and context kept in step with one another.\<close>

definition sync_create :: "dict \<Rightarrow> dict option \<Rightarrow> dict \<times> json" where
  "sync_create config context =
     (if json_truthy (configurable_key config) then (config, configurable_key config)
      else if or_dict context \<noteq> [] then
        (AList.update ''configurable'' (JObj (or_dict context)) config, JObj (or_dict context))
      else (config, json_of_opt JObj context))"

definition version_of :: "assistant_orm \<Rightarrow> time \<Rightarrow> assistant_version" where
  "version_of a now =
     \<lparr>av_assistant_id = o_assistant_id a, av_version = o_version a, av_graph_id = o_graph_id a,
      av_config = o_config a, av_context = o_context a, av_created_at = now,
      av_metadata = o_metadata a, av_name = Some (o_name a), av_description = o_description a\<rparr>"

definition new_assistant ::
  "time \<Rightarrow> string \<Rightarrow> user_id \<Rightarrow> assistant_create \<Rightarrow> dict option \<Rightarrow> dict \<times> json \<Rightarrow> assistant_orm"
where
  "new_assistant now new_id uid rq metadata cc =
     \<lparr>o_assistant_id = (if truthy_str (ac_assistant_id rq) then the (ac_assistant_id rq) else new_id),
      o_name = (if truthy_str (ac_name rq) then the (ac_name rq) else ''Assistant for '' @ ac_graph_id rq),
      o_description = ac_description rq, o_graph_id = ac_graph_id rq,
      o_config = process_bind_param (JObj (fst cc)), o_context = process_bind_param (snd cc),
      o_user_id = uid, o_version = 1, o_metadata = process_bind_param (JObj (or_dict metadata)),
      o_created_at = now, o_updated_at = now\<rparr>"

definition create_assistant ::
  "assistant_env \<Rightarrow> time \<Rightarrow> string \<Rightarrow> user_id \<Rightarrow> assistant_create \<Rightarrow> assistant_db
   \<Rightarrow> assistant_orm result \<times> assistant_db"
where
  "create_assistant env now new_id uid rq d =
     (case ae_authorize env ''create'' (dump_assistant_create rq) of
        Inl e \<Rightarrow> (Inl e, d)
      | Inr (_, value) \<Rightarrow>
          (let metadata = injected_metadata (ac_metadata rq) value;
               config = or_dict (ac_config rq)
           in if ac_graph_id rq \<notin> set (ae_graphs env) \<or> \<not> ae_loadable env (ac_graph_id rq)
              then (Inl (HTTPException 400), d)
              else if json_truthy (configurable_key config) \<and> or_dict (ac_context rq) \<noteq> []
              then (Inl (HTTPException 400), d)
              else
                (let a = new_assistant now new_id uid rq metadata (sync_create config (ac_context rq))
                 in if insert_conflict env a (assistants d)
                    then (resolve_create_conflict env uid a (ac_if_exists rq) d, d)
                    else (to_pydantic a,
                          d\<lparr>assistants := assistants d @ [a], versions := versions d @ [version_of a now]\<rparr>))))"

subsection \<open>Reads\<close>

definition list_assistants :: "assistant_env \<Rightarrow> user_id \<Rightarrow> assistant_db \<Rightarrow> assistant_orm list result" where
  "list_assistants env uid d =
     bind_res (ae_authorize env ''search'' []) (\<lambda>(filters, _).
     bind_res (auth_filter (ae_contains env) filters) (\<lambda>ok.
       map_res to_pydantic (select_where (\<lambda>a. visible_to uid a \<and> ok (o_metadata a)) (assistants d))))"

definition text_matches :: "assistant_env \<Rightarrow> string option \<Rightarrow> string option \<Rightarrow> bool" where
  "text_matches env wanted column =
     (if truthy_str wanted
      then (case column of None \<Rightarrow> False | Some c \<Rightarrow> ilike (ae_fold env) (contains_pattern (the wanted)) c)
      else True)"

definition search_matches :: "assistant_env \<Rightarrow> user_id \<Rightarrow> assistant_search \<Rightarrow> assistant_orm \<Rightarrow> bool" where
  "search_matches env uid rq a =
     (visible_to uid a \<and> text_matches env (as_name rq) (Some (o_name a)) \<and>
      text_matches env (as_description rq) (o_description a) \<and>
      (truthy_str (as_graph_id rq) \<longrightarrow> o_graph_id a = the (as_graph_id rq)) \<and>
      (or_dict (as_metadata rq) \<noteq> [] \<longrightarrow> ae_contains env (o_metadata a) (JObj (or_dict (as_metadata rq)))))"

text \<open>\<open>_resolve_sort\<close> of the router; a missing order is descending.\<close>

definition resolve_sort :: "assistant_search \<Rightarrow> sort_column \<times> bool" where
  "resolve_sort rq =
     (case as_sort_by rq of
        Some c \<Rightarrow> (c, as_sort_order rq = Some ''asc'')
      | None \<Rightarrow> (ByCreatedAt, False))"

text \<open>
  The sort key of a column: a text column compares by its collation key.  Equal keys are ordered
  by the assistant id in both directions.
\<close>

definition column_key :: "assistant_env \<Rightarrow> sort_column \<Rightarrow> assistant_orm \<Rightarrow> int \<times> string" where
  "column_key env c a =
     (case c of ByAssistantId \<Rightarrow> (0, ae_collate env (o_assistant_id a)) | ByName \<Rightarrow> (0, ae_collate env (o_name a))
      | ByGraphId \<Rightarrow> (0, ae_collate env (o_graph_id a)) | ByCreatedAt \<Rightarrow> (o_created_at a, [])
      | ByUpdatedAt \<Rightarrow> (o_updated_at a, []))"

definition search_assistants ::
  "assistant_env \<Rightarrow> user_id \<Rightarrow> assistant_search \<Rightarrow> assistant_db \<Rightarrow> assistant_orm list result"
where
  "search_assistants env uid rq d =
     bind_res (ae_authorize env ''search'' (dump_assistant_search rq)) (\<lambda>(filters, _).
     bind_res (auth_filter (ae_contains env) filters) (\<lambda>ok.
       let rows = select_where (\<lambda>a. search_matches env uid rq a \<and> ok (o_metadata a)) (assistants d);
           (column, asc) = resolve_sort rq;
           offset = (case as_offset rq of None \<Rightarrow> 0 | Some n \<Rightarrow> n);
           limit = (case as_limit rq of Some n \<Rightarrow> if n = 0 then 20 else n | None \<Rightarrow> 20)
       in map_res to_pydantic
            (page offset limit
              (order_rows (column_key env column) (\<lambda>a. ae_collate env (o_assistant_id a)) asc rows))))"

definition count_assistants :: "assistant_env \<Rightarrow> user_id \<Rightarrow> assistant_search \<Rightarrow> assistant_db \<Rightarrow> nat result" where
  "count_assistants env uid rq d =
     bind_res (ae_authorize env ''search'' (dump_assistant_search rq)) (\<lambda>(filters, _).
     bind_res (auth_filter (ae_contains env) filters) (\<lambda>ok.
       Inr (length (select_where (\<lambda>a. search_matches env uid rq a \<and> ok (o_metadata a)) (assistants d)))))"

definition read_owned_assistant :: "assistant_env \<Rightarrow> user_id \<Rightarrow> string \<Rightarrow> assistant_db \<Rightarrow> assistant_orm result" where
  "read_owned_assistant env uid aid d =
     bind_res (ae_authorize env ''read'' [(''assistant_id'', JStr aid)]) (\<lambda>(filters, _).
     bind_res (auth_filter (ae_contains env) filters) (\<lambda>ok.
       case first_where (\<lambda>a. o_assistant_id a = aid \<and> visible_to uid a \<and> ok (o_metadata a)) (assistants d) of
         None \<Rightarrow> Inl (HTTPException 404)
       | Some a \<Rightarrow> Inr a))"

definition get_assistant :: "assistant_env \<Rightarrow> user_id \<Rightarrow> string \<Rightarrow> assistant_db \<Rightarrow> assistant_orm result" where
  "get_assistant env uid aid d = bind_res (read_owned_assistant env uid aid d) to_pydantic"

subsection \<open>Updates\<close>

text \<open>The caller's own row that satisfies the handler's filter.\<close>

definition owned_row ::
  "assistant_env \<Rightarrow> (json \<Rightarrow> bool) \<Rightarrow> user_id \<Rightarrow> string \<Rightarrow> assistant_db \<Rightarrow> assistant_orm option"
where
  "owned_row env ok uid aid d =
     first_where (\<lambda>a. o_assistant_id a = aid \<and> o_user_id a = uid \<and> ok (o_metadata a)) (assistants d)"

definition as_config :: "json \<Rightarrow> dict" where
  "as_config j = (case j of JObj d \<Rightarrow> d | _ \<Rightarrow> [])"

definition or_empty :: "json \<Rightarrow> json" where
  "or_empty j = (if json_truthy j then j else JObj [])"

definition empty_when_supplied :: "string option option \<Rightarrow> bool" where
  "empty_when_supplied x = (case x of None \<Rightarrow> False | Some s \<Rightarrow> \<not> truthy_str s)"

text \<open>
  The new configuration and context of an update: whichever one the caller supplied wins and the
  other is derived from it; \<open>None\<close> when both are given.
\<close>

definition sync_update :: "assistant_update \<Rightarrow> assistant_orm \<Rightarrow> (dict \<times> json) option" where
  "sync_update rq a =
     (let config = (case up_config rq of Some c \<Rightarrow> or_dict c | None \<Rightarrow> as_config (o_config a));
          context = (case up_context rq of Some c \<Rightarrow> JObj (or_dict c) | None \<Rightarrow> or_empty (o_context a))
      in if supplied (up_config rq) \<and> supplied (up_context rq)
            \<and> json_truthy (configurable_key config) \<and> json_truthy context then None
         else if supplied (up_context rq) then Some (AList.update ''configurable'' context config, context)
         else if supplied (up_config rq) then Some (config, or_empty (configurable_key config))
         else if json_truthy (configurable_key config) then Some (config, configurable_key config)
         else if json_truthy context then Some (AList.update ''configurable'' context config, context)
         else Some (config, context))"

definition next_version :: "string \<Rightarrow> assistant_version list \<Rightarrow> int" where
  "next_version aid vs =
     (case map av_version (select_where (\<lambda>v. av_assistant_id v = aid) vs) of
        [] \<Rightarrow> 1
      | n # ns \<Rightarrow> (let m = fold max ns n in (if m = 0 then 1 else m) + 1))"

definition updated_version ::
  "time \<Rightarrow> assistant_update \<Rightarrow> dict option \<Rightarrow> dict \<times> json \<Rightarrow> assistant_orm \<Rightarrow> assistant_version list \<Rightarrow> assistant_version"
where
  "updated_version now rq metadata cc a vs =
     \<lparr>av_assistant_id = o_assistant_id a, av_version = next_version (o_assistant_id a) vs,
      av_graph_id = (case up_graph_id rq of Some (Some g) \<Rightarrow> g | _ \<Rightarrow> o_graph_id a),
      av_config = process_bind_param (JObj (fst cc)), av_context = process_bind_param (snd cc),
      av_created_at = now,
      av_metadata = process_bind_param (JObj (dict_update (as_config (o_metadata a)) (or_dict metadata))),
      av_name = Some (case up_name rq of Some (Some n) \<Rightarrow> n | _ \<Rightarrow> o_name a),
      av_description = (case up_description rq of Some desc \<Rightarrow> desc | None \<Rightarrow> o_description a)\<rparr>"

text \<open>The live row takes the content of a version.\<close>

definition apply_version :: "time \<Rightarrow> assistant_version \<Rightarrow> assistant_orm \<Rightarrow> assistant_orm" where
  "apply_version now v a =
     a\<lparr>o_name := (case av_name v of Some n \<Rightarrow> n | None \<Rightarrow> []), o_description := av_description v,
       o_graph_id := av_graph_id v, o_config := av_config v, o_context := av_context v,
       o_metadata := av_metadata v, o_version := av_version v, o_updated_at := now\<rparr>"

text \<open>
  \<open>UPDATE assistant\<close> of the caller's row; the unique index over owner, graph and configuration may
  reject it, and a NULL name violates the column's constraint.
\<close>

definition write_version ::
  "assistant_env \<Rightarrow> time \<Rightarrow> user_id \<Rightarrow> assistant_version \<Rightarrow> assistant_db \<Rightarrow> assistant_db result"
where
  "write_version env now uid v d =
     (let p = (\<lambda>a. o_assistant_id a = av_assistant_id v \<and> o_user_id a = uid)
      in if select_where p (assistants d) \<noteq> [] \<and>
            (av_name v = None \<or>
             list_ex (\<lambda>b. o_assistant_id b \<noteq> av_assistant_id v \<and> o_user_id b = uid \<and> o_graph_id b = av_graph_id v \<and>
                ae_digest env (o_config b) = ae_digest env (av_config v)) (assistants d))
         then Inl IntegrityError
         else Inr (d\<lparr>assistants := update_where p (apply_version now v) (assistants d)\<rparr>))"

text \<open>The row is read again with the same statement; an \<open>assert\<close> wants it to be there.\<close>

definition reread ::
  "assistant_env \<Rightarrow> (json \<Rightarrow> bool) \<Rightarrow> user_id \<Rightarrow> string \<Rightarrow> assistant_db \<Rightarrow> assistant_orm result"
where
  "reread env ok uid aid d =
     (case owned_row env ok uid aid d of None \<Rightarrow> Inl AssertionError | Some a \<Rightarrow> to_pydantic a)"

text \<open>
  The version row is committed first; \<open>between\<close> is what other transactions do before the live row
  is updated in a second commit.
\<close>

definition update_assistant ::
  "assistant_env \<Rightarrow> time \<Rightarrow> (assistant_db \<Rightarrow> assistant_db) \<Rightarrow> user_id \<Rightarrow> string \<Rightarrow> assistant_update \<Rightarrow> assistant_db
   \<Rightarrow> assistant_orm result \<times> assistant_db"
where
  "update_assistant env now between uid aid rq d =
     (case ae_authorize env ''update'' (dump_assistant_update aid rq) of
        Inl e \<Rightarrow> (Inl e, d)
      | Inr (filters, value) \<Rightarrow>
          (case auth_filter (ae_contains env) filters of
             Inl e \<Rightarrow> (Inl e, d)
           | Inr ok \<Rightarrow>
               (case owned_row env ok uid aid d of
                  None \<Rightarrow> (Inl (HTTPException 404), d)
                | Some a \<Rightarrow>
                    if empty_when_supplied (up_name rq) \<or> empty_when_supplied (up_graph_id rq)
                    then (Inl (HTTPException 422), d)
                    else
                      (case sync_update rq a of
                         None \<Rightarrow> (Inl (HTTPException 400), d)
                       | Some cc \<Rightarrow>
                           (let metadata = injected_metadata (Option.bind (up_metadata rq) id) value;
                                v = updated_version now rq metadata cc a (versions d);
                                d1 = between (d\<lparr>versions := versions d @ [v]\<rparr>)
                            in case write_version env now uid v d1 of
                                 Inl e \<Rightarrow> (Inl e, d1)
                               | Inr d2 \<Rightarrow> (reread env ok uid aid d2, d2))))))"

definition set_assistant_latest ::
  "assistant_env \<Rightarrow> time \<Rightarrow> user_id \<Rightarrow> string \<Rightarrow> int \<Rightarrow> assistant_db \<Rightarrow> assistant_orm result \<times> assistant_db"
where
  "set_assistant_latest env now uid aid version d =
     (case ae_authorize env ''update'' [(''assistant_id'', JStr aid), (''version'', JInt version)] of
        Inl e \<Rightarrow> (Inl e, d)
      | Inr (filters, _) \<Rightarrow>
          (case auth_filter (ae_contains env) filters of
             Inl e \<Rightarrow> (Inl e, d)
           | Inr ok \<Rightarrow>
               (case owned_row env ok uid aid d of
                  None \<Rightarrow> (Inl (HTTPException 404), d)
                | Some _ \<Rightarrow>
                    (case first_where (\<lambda>v. av_assistant_id v = aid \<and> av_version v = version) (versions d) of
                       None \<Rightarrow> (Inl (HTTPException 404), d)
                     | Some v \<Rightarrow>
                         (case write_version env now uid v d of
                            Inl e \<Rightarrow> (Inl e, d)
                          | Inr d2 \<Rightarrow> (reread env ok uid aid d2, d2))))))"

definition delete_assistant ::
  "assistant_env \<Rightarrow> user_id \<Rightarrow> string \<Rightarrow> assistant_db \<Rightarrow> unit result \<times> assistant_db"
where
  "delete_assistant env uid aid d =
     (case ae_authorize env ''delete'' [(''assistant_id'', JStr aid)] of
        Inl e \<Rightarrow> (Inl e, d)
      | Inr (filters, _) \<Rightarrow>
          (case auth_filter (ae_contains env) filters of
             Inl e \<Rightarrow> (Inl e, d)
           | Inr ok \<Rightarrow>
               (case owned_row env ok uid aid d of
                  None \<Rightarrow> (Inl (HTTPException 404), d)
                | Some _ \<Rightarrow>
                    (Inr (), d\<lparr>assistants := delete_where (\<lambda>a. o_assistant_id a = aid) (assistants d),
                               versions := delete_where (\<lambda>v. av_assistant_id v = aid) (versions d)\<rparr>))))"

subsection \<open>Versions, schemas and structure\<close>

definition version_view :: "user_id \<Rightarrow> string \<Rightarrow> assistant_version \<Rightarrow> assistant_orm" where
  "version_view uid aid v =
     \<lparr>o_assistant_id = aid, o_name = (case av_name v of Some n \<Rightarrow> n | None \<Rightarrow> []),
      o_description = av_description v, o_graph_id = av_graph_id v, o_config = or_empty (av_config v),
      o_context = or_empty (av_context v), o_user_id = uid, o_version = av_version v,
      o_metadata = or_empty (av_metadata v), o_created_at = av_created_at v, o_updated_at = av_created_at v\<rparr>"

definition list_assistant_versions ::
  "assistant_env \<Rightarrow> user_id \<Rightarrow> string \<Rightarrow> assistant_db \<Rightarrow> assistant_orm list result"
where
  "list_assistant_versions env uid aid d =
     bind_res (ae_authorize env ''search'' [(''assistant_id'', JStr aid), (''metadata'', JNull)]) (\<lambda>(filters, _).
     bind_res (auth_filter (ae_contains env) filters) (\<lambda>ok.
       case first_where (\<lambda>a. o_assistant_id a = aid \<and> visible_to uid a \<and> ok (o_metadata a)) (assistants d) of
         None \<Rightarrow> Inl (HTTPException 404)
       | Some _ \<Rightarrow>
           (case sort_key (\<lambda>v. - av_version v) (select_where (\<lambda>v. av_assistant_id v = aid) (versions d)) of
              [] \<Rightarrow> Inl (HTTPException 404)
            | vs \<Rightarrow> map_res to_pydantic (map (version_view uid aid) vs))))"

text \<open>
  What a loaded graph answers when asked for a schema; a schema that raises is reported as null.
\<close>

record graph_schemas =
  gs_input :: "json result"
  gs_output :: "json result"
  gs_state :: "json result"
  gs_config :: "json result"
  gs_context :: "json result"

definition schema_or_null :: "json result \<Rightarrow> json" where
  "schema_or_null r = (case r of Inl _ \<Rightarrow> JNull | Inr j \<Rightarrow> j)"

definition extract_graph_schemas :: "graph_schemas \<Rightarrow> dict" where
  "extract_graph_schemas g =
     [(''input_schema'', schema_or_null (gs_input g)), (''output_schema'', schema_or_null (gs_output g)),
      (''state_schema'', schema_or_null (gs_state g)), (''config_schema'', schema_or_null (gs_config g)),
      (''context_schema'', schema_or_null (gs_context g))]"

definition get_assistant_schemas ::
  "assistant_env \<Rightarrow> (string \<Rightarrow> graph_schemas result) \<Rightarrow> user_id \<Rightarrow> string \<Rightarrow> assistant_db \<Rightarrow> dict result"
where
  "get_assistant_schemas env load uid aid d =
     bind_res (read_owned_assistant env uid aid d) (\<lambda>a.
       case load (o_graph_id a) of
         Inl _ \<Rightarrow> Inl (HTTPException 400)
       | Inr g \<Rightarrow> Inr ((''graph_id'', JStr (o_graph_id a)) # extract_graph_schemas g))"

datatype xray = XrayFlag bool | XrayDepth int

datatype 'a drawn = Drawn 'a | NotImplemented | DrawFailed

definition strip_node_id :: "json \<Rightarrow> json" where
  "strip_node_id node =
     (case node of
        JObj n \<Rightarrow>
          (case map_of n ''data'' of
             Some (JObj data) \<Rightarrow> JObj (AList.update ''data'' (JObj (dict_filter (\<lambda>k. k \<noteq> ''id'') data)) n)
           | _ \<Rightarrow> node)
      | _ \<Rightarrow> node)"

definition strip_graph_ids :: "dict \<Rightarrow> dict" where
  "strip_graph_ids g =
     (case map_of g ''nodes'' of
        Some (JList ns) \<Rightarrow> AList.update ''nodes'' (JList (map strip_node_id ns)) g
      | _ \<Rightarrow> g)"

text \<open>An error of the handler itself leaves as it is; any other becomes a 400.\<close>

definition http_or_400 :: "'a result \<Rightarrow> 'a result" where
  "http_or_400 r = (case r of Inl (HTTPException s) \<Rightarrow> Inl (HTTPException s) | Inl _ \<Rightarrow> Inl (HTTPException 400) | Inr x \<Rightarrow> Inr x)"

definition get_assistant_graph ::
  "assistant_env \<Rightarrow> (string \<Rightarrow> (xray \<Rightarrow> dict drawn) result) \<Rightarrow> user_id \<Rightarrow> string \<Rightarrow> xray \<Rightarrow> assistant_db \<Rightarrow> dict result"
where
  "get_assistant_graph env load uid aid xr d =
     bind_res (read_owned_assistant env uid aid d) (\<lambda>a.
       http_or_400 (bind_res (load (o_graph_id a)) (\<lambda>draw.
         if (case xr of XrayDepth n \<Rightarrow> n \<le> 0 | XrayFlag _ \<Rightarrow> False) then Inl (HTTPException 422)
         else case draw xr of
                NotImplemented \<Rightarrow> Inl (HTTPException 422)
              | DrawFailed \<Rightarrow> Inl RuntimeError
              | Drawn g \<Rightarrow> Inr (strip_graph_ids g))))"

definition get_assistant_subgraphs ::
  "assistant_env \<Rightarrow> (string \<Rightarrow> (string option \<Rightarrow> bool \<Rightarrow> (string \<times> graph_schemas) list drawn) result)
   \<Rightarrow> user_id \<Rightarrow> string \<Rightarrow> string option \<Rightarrow> bool \<Rightarrow> assistant_db \<Rightarrow> dict result"
where
  "get_assistant_subgraphs env load uid aid namespace recurse d =
     bind_res (read_owned_assistant env uid aid d) (\<lambda>a.
       http_or_400 (bind_res (load (o_graph_id a)) (\<lambda>subgraphs.
         case subgraphs namespace recurse of
           NotImplemented \<Rightarrow> Inl (HTTPException 422)
         | DrawFailed \<Rightarrow> Inl RuntimeError
         | Drawn gs \<Rightarrow> Inr (dict_update [] (map (\<lambda>(ns, g). (ns, JObj (extract_graph_schemas g))) gs)))))"

subsection \<open>Default assistants\<close>

definition default_assistant :: "(string \<Rightarrow> string) \<Rightarrow> time \<Rightarrow> string \<Rightarrow> assistant_orm" where
  "default_assistant uuid5 now g =
     \<lparr>o_assistant_id = uuid5 g, o_name = g, o_description = Some (''Default assistant for graph '' @ [CHR 0x27] @ g @ [CHR 0x27]),
      o_graph_id = g, o_config = JObj [], o_context = JObj [], o_user_id = ''system'', o_version = 1,
      o_metadata = JObj [(''created_by'', JStr ''system'')], o_created_at = now, o_updated_at = now\<rparr>"

definition default_version :: "(string \<Rightarrow> string) \<Rightarrow> time \<Rightarrow> string \<Rightarrow> assistant_version" where
  "default_version uuid5 now g =
     (version_of (default_assistant uuid5 now g) now)\<lparr>av_config := JNull, av_context := JNull\<rparr>"

text \<open>
  One commit for all graphs of the registry: a rejected row fails the whole transaction.  The
  pending rows of the session are flushed before each query, so a later graph sees them.
\<close>

fun ensure_defaults ::
  "assistant_env \<Rightarrow> (string \<Rightarrow> string) \<Rightarrow> time \<Rightarrow> string list \<Rightarrow> assistant_db \<Rightarrow> assistant_db result"
where
  "ensure_defaults env uuid5 now [] d = Inr d"
| "ensure_defaults env uuid5 now (g # gs) d =
     (if list_ex (\<lambda>a. o_assistant_id a = uuid5 g) (assistants d) then ensure_defaults env uuid5 now gs d
      else if insert_conflict env (default_assistant uuid5 now g) (assistants d) then Inl IntegrityError
      else ensure_defaults env uuid5 now gs
             (d\<lparr>assistants := assistants d @ [default_assistant uuid5 now g],
                versions := versions d @ [default_version uuid5 now g]\<rparr>))"

definition ensure_default_assistants ::
  "assistant_env \<Rightarrow> (string \<Rightarrow> string) \<Rightarrow> time \<Rightarrow> assistant_db \<Rightarrow> unit result \<times> assistant_db"
where
  "ensure_default_assistants env uuid5 now d =
     (case ensure_defaults env uuid5 now (ae_graphs env) d of Inl e \<Rightarrow> (Inl e, d) | Inr d' \<Rightarrow> (Inr (), d'))"

subsection \<open>Reachable tables\<close>

text \<open>The operations that write, as one user may issue them.\<close>

datatype assistant_op =
    Create time string assistant_create
  | Update time string assistant_update
  | SetLatest time string int
  | Delete string

fun run_op :: "assistant_env \<Rightarrow> user_id \<Rightarrow> assistant_op \<Rightarrow> assistant_db \<Rightarrow> assistant_db" where
  "run_op env uid (Create now new_id rq) d = snd (create_assistant env now new_id uid rq d)"
| "run_op env uid (Update now aid rq) d = snd (update_assistant env now id uid aid rq d)"
| "run_op env uid (SetLatest now aid version) d = snd (set_assistant_latest env now uid aid version d)"
| "run_op env uid (Delete aid) d = snd (delete_assistant env uid aid d)"

text \<open>One operation of some user, or the start of the server, on the two tables.\<close>

inductive assistant_step :: "assistant_env \<Rightarrow> assistant_db \<Rightarrow> assistant_db \<Rightarrow> bool" for env where
  user_op: "assistant_step env d (run_op env uid op d)"
| defaults: "assistant_step env d (snd (ensure_default_assistants env uuid5 now d))"

definition versions_of :: "string \<Rightarrow> assistant_db \<Rightarrow> int list" where
  "versions_of aid d = map av_version (select_where (\<lambda>v. av_assistant_id v = aid) (versions d))"

text \<open>A live row shows the content of a version; a null section of the version reads as empty.\<close>

definition shows_version :: "assistant_version \<Rightarrow> assistant_orm \<Rightarrow> bool" where
  "shows_version v a =
     (av_assistant_id v = o_assistant_id a \<and> av_version v = o_version a \<and> av_name v = Some (o_name a) \<and>
      av_description v = o_description a \<and> av_graph_id v = o_graph_id a \<and>
      (av_config v = o_config a \<or> av_config v = JNull \<and> o_config a = JObj []) \<and>
      (av_context v = o_context a \<or> av_context v = JNull \<and> o_context a = JObj []) \<and>
      av_metadata v = o_metadata a)"

text \<open>The version numbers from one to \<open>n + 1\<close>.\<close>

definition up_to :: "nat \<Rightarrow> int list" where
  "up_to n = map int [1..<Suc (Suc n)]"

definition assistants_inv :: "assistant_db \<Rightarrow> bool" where
  "assistants_inv d =
     (distinct (map o_assistant_id (assistants d)) \<and>
      (\<forall>v \<in> set (versions d). av_assistant_id v \<in> o_assistant_id ` set (assistants d) \<and> av_name v \<noteq> None) \<and>
      (\<forall>a \<in> set (assistants d).
         (\<exists>n. versions_of (o_assistant_id a) d = up_to n) \<and>
         (\<exists>v \<in> set (versions d). shows_version v a)))"

subsection \<open>Lemmas\<close>

lemma up_to_0 [simp]: "up_to 0 = [1]"
  by (simp add: up_to_def)

lemma up_to_Suc [simp]: "up_to (Suc n) = up_to n @ [int (Suc (Suc n))]"
  by (simp add: up_to_def)

lemma up_to_max: "\<exists>ns. up_to n = 1 # ns \<and> fold max ns 1 = int (Suc n)"
proof (induction n)
  case (Suc n)
  then obtain ns where "up_to n = 1 # ns" "fold max ns 1 = int (Suc n)" by blast
  then show ?case by (intro exI [of _ "ns @ [int (Suc (Suc n))]"]) simp
qed simp

lemma next_version_range:
  assumes "versions_of aid d = up_to n"
  shows "next_version aid (versions d) = int (Suc (Suc n))"
proof -
  obtain ns where "map av_version (select_where (\<lambda>v. av_assistant_id v = aid) (versions d)) = 1 # ns"
    "fold max ns 1 = int (Suc n)"
    using up_to_max [of n] assms by (auto simp: versions_of_def)
  then show ?thesis by (simp add: next_version_def)
qed

lemma versions_of_append:
  "versions_of aid (d\<lparr>versions := versions d @ [v]\<rparr>) =
     versions_of aid d @ (if av_assistant_id v = aid then [av_version v] else [])"
  by (simp add: versions_of_def select_where_def)

lemma versions_of_assistants [simp]: "versions_of aid (d\<lparr>assistants := as\<rparr>) = versions_of aid d"
  by (simp add: versions_of_def)

lemma versions_of_none:
  "assistants_inv d \<Longrightarrow> aid \<notin> o_assistant_id ` set (assistants d) \<Longrightarrow> versions_of aid d = []"
  by (auto simp: assistants_inv_def versions_of_def select_where_def filter_empty_conv)

lemma inv_append_version:
  assumes "assistants_inv d" and "a \<in> set (assistants d)" and "av_assistant_id v = o_assistant_id a"
    and "av_version v = next_version (o_assistant_id a) (versions d)" and "av_name v \<noteq> None"
  shows "assistants_inv (d\<lparr>versions := versions d @ [v]\<rparr>)"
proof -
  obtain n where n: "versions_of (o_assistant_id a) d = up_to n"
    using assms(1,2) by (auto simp: assistants_inv_def)
  have "versions_of (o_assistant_id a) (d\<lparr>versions := versions d @ [v]\<rparr>) = up_to (Suc n)"
    using n next_version_range [OF n] assms(3,4) by (simp add: versions_of_append)
  moreover have "versions_of (o_assistant_id b) (d\<lparr>versions := versions d @ [v]\<rparr>) = versions_of (o_assistant_id b) d"
    if "o_assistant_id b \<noteq> o_assistant_id a" for b
    using that assms(3) by (simp add: versions_of_append)
  ultimately have "\<exists>n. versions_of (o_assistant_id b) (d\<lparr>versions := versions d @ [v]\<rparr>) = up_to n"
    if "b \<in> set (assistants d)" for b
    using that assms(1) unfolding assistants_inv_def by metis
  then show ?thesis
    using assms by (auto simp: assistants_inv_def)
qed

lemma apply_version_id [simp]:
  "o_assistant_id (apply_version now v a) = o_assistant_id a" "o_user_id (apply_version now v a) = o_user_id a"
  by (simp_all add: apply_version_def)

lemma shows_applied:
  "av_name v \<noteq> None \<Longrightarrow> av_assistant_id v = o_assistant_id a \<Longrightarrow> shows_version v (apply_version now v a)"
  by (auto simp: shows_version_def apply_version_def)

lemma inv_write_version:
  assumes "assistants_inv d" and "v \<in> set (versions d)" and "write_version env now uid v d = Inr d'"
  shows "assistants_inv d'"
proof -
  let ?p = "\<lambda>a. o_assistant_id a = av_assistant_id v \<and> o_user_id a = uid"
  have d': "d' = d\<lparr>assistants := update_where ?p (apply_version now v) (assistants d)\<rparr>"
    using assms(3) by (auto simp: write_version_def Let_def split: if_splits)
  have ids: "map o_assistant_id (update_where ?p (apply_version now v) (assistants d)) = map o_assistant_id (assistants d)"
    by (simp add: map_key_update_where)
  have name: "av_name v \<noteq> None" using assms(1,2) by (auto simp: assistants_inv_def)
  have "(\<exists>n. versions_of (o_assistant_id a) d = up_to n) \<and> (\<exists>v \<in> set (versions d). shows_version v a)"
    if a: "a \<in> set (update_where ?p (apply_version now v) (assistants d))" for a
    using a
  proof (cases rule: in_update_whereE)
    case (hit b)
    then have "shows_version v a" using name by (simp add: shows_applied)
    moreover have "\<exists>n. versions_of (o_assistant_id a) d = up_to n" using assms(1) hit(1,3) unfolding assistants_inv_def by (metis apply_version_id(1))
    ultimately show ?thesis using assms(2) by blast
  next
    case miss
    with assms(1) show ?thesis by (auto simp: assistants_inv_def)
  qed
  moreover have "o_assistant_id ` set (update_where ?p (apply_version now v) (assistants d)) = o_assistant_id ` set (assistants d)"
    using arg_cong [OF ids, of set] by simp
  ultimately show ?thesis
    using assms(1) ids unfolding d' assistants_inv_def by simp
qed

lemma inv_insert:
  assumes "assistants_inv d" and "o_assistant_id a \<notin> o_assistant_id ` set (assistants d)"
    and "shows_version v a" and "o_version a = 1"
  shows "assistants_inv (d\<lparr>assistants := assistants d @ [a], versions := versions d @ [v]\<rparr>)"
proof -
  have none: "versions_of (o_assistant_id a) d = []"
    by (rule versions_of_none [OF assms(1,2)])
  have v: "av_assistant_id v = o_assistant_id a" "av_version v = 1" "av_name v \<noteq> None"
    using assms(3,4) by (auto simp: shows_version_def)
  have vs: "versions_of aid (d\<lparr>assistants := assistants d @ [a], versions := versions d @ [v]\<rparr>) =
      versions_of aid d @ (if o_assistant_id a = aid then [1] else [])" for aid
    using v by (simp add: versions_of_def select_where_def)
  have "\<exists>n. versions_of (o_assistant_id b) (d\<lparr>assistants := assistants d @ [a], versions := versions d @ [v]\<rparr>) =
      up_to n" if "b \<in> insert a (set (assistants d))" for b
  proof (cases "o_assistant_id b = o_assistant_id a")
    case True
    then show ?thesis using none by (auto simp: vs intro!: exI [of _ 0])
  next
    case False
    with that assms(1) show ?thesis by (auto simp: vs assistants_inv_def)
  qed
  then show ?thesis
    using assms v by (auto simp: assistants_inv_def)
qed

lemma shows_version_of: "shows_version (version_of a now) a"
  by (simp add: shows_version_def version_of_def)

lemma insert_conflict_id: "\<not> insert_conflict env a rows \<Longrightarrow> o_assistant_id a \<notin> o_assistant_id ` set rows"
  by (auto simp: insert_conflict_def list_ex_iff)

lemma inv_create: "assistants_inv d \<Longrightarrow> assistants_inv (snd (create_assistant env now new_id uid rq d))"
  by (auto simp: create_assistant_def Let_def new_assistant_def [of _ _ _ _ _ "sync_create _ _"]
      intro!: inv_insert shows_version_of dest!: insert_conflict_id split: sum.splits prod.splits)

lemma inv_defaults:
  "assistants_inv d \<Longrightarrow> ensure_defaults env uuid5 now gs d = Inr d' \<Longrightarrow> assistants_inv d'"
proof (induction gs arbitrary: d)
  case (Cons g gs)
  have "assistants_inv (d\<lparr>assistants := assistants d @ [default_assistant uuid5 now g],
      versions := versions d @ [default_version uuid5 now g]\<rparr>)"
    if "\<not> insert_conflict env (default_assistant uuid5 now g) (assistants d)"
    using Cons.prems(1) insert_conflict_id [OF that]
    by (intro inv_insert) (auto simp: shows_version_def default_version_def default_assistant_def version_of_def)
  with Cons show ?case by (auto split: if_splits)
qed simp

lemma inv_delete:
  assumes "assistants_inv d"
  shows "assistants_inv (snd (delete_assistant env uid aid d))"
proof -
  let ?d = "d\<lparr>assistants := delete_where (\<lambda>a. o_assistant_id a = aid) (assistants d),
              versions := delete_where (\<lambda>v. av_assistant_id v = aid) (versions d)\<rparr>"
  have vs: "versions_of b ?d = versions_of b d" if "b \<noteq> aid" for b
  proof -
    have "(av_assistant_id v \<noteq> aid \<and> av_assistant_id v = b) = (av_assistant_id v = b)" for v :: assistant_version
      using that by auto
    then show ?thesis by (simp add: versions_of_def select_where_def delete_where_def)
  qed
  have "\<exists>n. versions_of (o_assistant_id a) ?d = up_to n" if "a \<in> set (assistants ?d)" for a
    using that vs [of "o_assistant_id a"] assms by (auto simp: assistants_inv_def)
  moreover have "\<exists>v \<in> set (versions ?d). shows_version v a" if "a \<in> set (assistants ?d)" for a
  proof -
    from that assms obtain v where "v \<in> set (versions d)" "shows_version v a" "o_assistant_id a \<noteq> aid"
      by (auto simp: assistants_inv_def)
    then show ?thesis by (intro bexI [of _ v]) (auto simp: shows_version_def)
  qed
  moreover have "av_assistant_id v \<in> o_assistant_id ` set (assistants ?d) \<and> av_name v \<noteq> None" if "v \<in> set (versions ?d)" for v
    using that assms by (auto simp: assistants_inv_def image_iff)
  ultimately have "assistants_inv ?d"
    using assms by (simp add: assistants_inv_def distinct_map_delete_where)
  with assms show ?thesis
    by (auto simp: delete_assistant_def split: sum.splits prod.splits option.splits)
qed

lemma owned_rowD:
  "owned_row env ok uid aid d = Some a \<Longrightarrow>
     a \<in> set (assistants d) \<and> o_assistant_id a = aid \<and> o_user_id a = uid \<and> ok (o_metadata a)"
  by (auto simp: owned_row_def dest!: first_where_SomeD)

lemma inv_update:
  assumes "assistants_inv d"
  shows "assistants_inv (snd (update_assistant env now id uid aid rq d))"
proof -
  have "assistants_inv (d\<lparr>versions := versions d @ [updated_version now rq metadata cc a (versions d)]\<rparr>)"
    if "owned_row env ok uid aid d = Some a" for ok a metadata cc
    using owned_rowD [OF that]
    by (intro inv_append_version [OF assms, of a]) (auto simp: updated_version_def)
  then show ?thesis
    using assms inv_write_version
    by (fastforce simp: update_assistant_def Let_def split: sum.splits prod.splits option.splits)
qed

lemma inv_latest:
  "assistants_inv d \<Longrightarrow> assistants_inv (snd (set_assistant_latest env now uid aid version d))"
  using inv_write_version
  by (fastforce simp: set_assistant_latest_def dest!: first_where_SomeD split: sum.splits prod.splits option.splits)

lemma inv_run_op: "assistants_inv d \<Longrightarrow> assistants_inv (run_op env uid op d)"
  by (cases op) (simp_all add: inv_create inv_update inv_latest inv_delete)

lemma inv_step: "assistant_step env d d' \<Longrightarrow> assistants_inv d \<Longrightarrow> assistants_inv d'"
  by (induction rule: assistant_step.induct)
     (auto simp: inv_run_op ensure_default_assistants_def dest: inv_defaults split: sum.splits)

lemma inv_steps: "(assistant_step env)\<^sup>*\<^sup>* d d' \<Longrightarrow> assistants_inv d \<Longrightarrow> assistants_inv d'"
  by (induction rule: rtranclp_induct) (auto intro: inv_step)

subsection \<open>Literal search\<close>

definition escape_char :: "char \<Rightarrow> string" where
  "escape_char c = (if c \<in> {backslash, CHR 0x25, CHR ''_''} then [backslash, c] else [c])"

lemma escape_like_single_pass: "escape_like v = concat (map escape_char v)"
  by (induction v) (auto simp: escape_like_def py_replace_char_def escape_char_def backslash_def)

lemma ilike_literal:
  "ilike f (escape_like v @ p) s \<longleftrightarrow>
     length v \<le> length s \<and> map f (take (length v) s) = map f v \<and> ilike f p (drop (length v) s)"
proof (induction v arbitrary: s)
  case Nil
  then show ?case by (simp add: escape_like_single_pass)
next
  case (Cons c v)
  have "escape_like (c # v) @ p = escape_char c @ (escape_like v @ p)"
    by (simp add: escape_like_single_pass)
  then show ?case
    by (cases s) (auto simp: escape_char_def Cons.IH backslash_def)
qed

lemma ilike_any: "ilike f (CHR 0x25 # p) s \<longleftrightarrow> (\<exists>k \<le> length s. ilike f p (drop k s))"
proof (induction s)
  case Nil
  then show ?case by (simp add: backslash_def)
next
  case (Cons x s)
  have "ilike f (CHR 0x25 # p) (x # s) \<longleftrightarrow> ilike f p (x # s) \<or> (\<exists>k \<le> length s. ilike f p (drop k s))"
    using Cons.IH by (simp add: backslash_def)
  also have "\<dots> \<longleftrightarrow> (\<exists>k \<le> length (x # s). ilike f p (drop k (x # s)))"
    by (metis Suc_le_mono drop0 drop_Suc_Cons le0 length_Cons not0_implies_Suc)
  finally show ?case .
qed

lemma ilike_rest: "ilike f [CHR 0x25] s"
  by (subst ilike_any) (auto intro: exI [of _ "length s"])

lemma ilike_contains:
  "ilike f (contains_pattern v) s \<longleftrightarrow> (\<exists>pre mid post. s = pre @ mid @ post \<and> map f mid = map f v)"
proof -
  have "ilike f (contains_pattern v) s \<longleftrightarrow>
      (\<exists>k \<le> length s. length v \<le> length s - k \<and> map f (take (length v) (drop k s)) = map f v)"
    unfolding contains_pattern_def ilike_any [of f "escape_like v @ [CHR 0x25]"] ilike_literal
    by (simp add: ilike_rest del: ilike.simps)
  also have "\<dots> \<longleftrightarrow> (\<exists>pre mid post. s = pre @ mid @ post \<and> map f mid = map f v)"
  proof
    assume "\<exists>k \<le> length s. length v \<le> length s - k \<and> map f (take (length v) (drop k s)) = map f v"
    then obtain k where "map f (take (length v) (drop k s)) = map f v" by blast
    then show "\<exists>pre mid post. s = pre @ mid @ post \<and> map f mid = map f v"
      by (intro exI [of _ "take k s"] exI [of _ "take (length v) (drop k s)"] exI [of _ "drop (length v) (drop k s)"])
         (simp only: append_take_drop_id simp_thms)
  next
    assume "\<exists>pre mid post. s = pre @ mid @ post \<and> map f mid = map f v"
    then obtain pre mid post where s: "s = pre @ mid @ post" "map f mid = map f v" by blast
    then have "length mid = length v" using map_eq_imp_length_eq by blast
    with s show "\<exists>k \<le> length s. length v \<le> length s - k \<and> map f (take (length v) (drop k s)) = map f v"
      by (intro exI [of _ "length pre"]) simp
  qed
  finally show ?thesis .
qed

subsection \<open>Whose rows an operation touches\<close>

definition same_for_others :: "user_id \<Rightarrow> assistant_db \<Rightarrow> assistant_db \<Rightarrow> bool" where
  "same_for_others uid d d' =
     (select_where (\<lambda>a. o_user_id a \<noteq> uid) (assistants d') = select_where (\<lambda>a. o_user_id a \<noteq> uid) (assistants d) \<and>
      (\<forall>a \<in> set (assistants d). o_user_id a \<noteq> uid \<longrightarrow>
         select_where (\<lambda>v. av_assistant_id v = o_assistant_id a) (versions d') =
         select_where (\<lambda>v. av_assistant_id v = o_assistant_id a) (versions d)))"

lemma same_for_others_refl [simp]: "same_for_others uid d d"
  by (simp add: same_for_others_def)

lemma same_after_version:
  assumes "assistants_inv d" and "a \<in> set (assistants d)" and "o_user_id a = uid" and "av_assistant_id v = o_assistant_id a"
  shows "same_for_others uid d (d\<lparr>versions := versions d @ [v]\<rparr>)"
proof -
  have "o_assistant_id b \<noteq> o_assistant_id a" if "b \<in> set (assistants d)" "o_user_id b \<noteq> uid" for b
    using assms(1,2,3) that unfolding assistants_inv_def by (metis inj_on_eq_iff distinct_map)
  with assms(4) show ?thesis
    by (fastforce simp: same_for_others_def select_where_def)
qed

lemma same_after_write:
  assumes "same_for_others uid d0 d" and "write_version env now uid v d = Inr d'"
  shows "same_for_others uid d0 d'"
  using assms select_update_where_other
    [of "\<lambda>a. o_assistant_id a = av_assistant_id v \<and> o_user_id a = uid" "\<lambda>a. o_user_id a \<noteq> uid" "apply_version now v"]
  by (auto simp: write_version_def Let_def same_for_others_def split: if_splits)

lemma same_after_insert:
  assumes "assistants_inv d" and "\<not> insert_conflict env a (assistants d)" and "o_user_id a = uid"
    and "av_assistant_id v = o_assistant_id a"
  shows "same_for_others uid d (d\<lparr>assistants := assistants d @ [a], versions := versions d @ [v]\<rparr>)"
  using assms insert_conflict_id [OF assms(2)] by (auto simp: same_for_others_def select_where_def)

lemma same_after_delete:
  assumes "assistants_inv d" and "a \<in> set (assistants d)" and "o_user_id a = uid" and "o_assistant_id a = aid"
  shows "same_for_others uid d (d\<lparr>assistants := delete_where (\<lambda>a. o_assistant_id a = aid) (assistants d),
           versions := delete_where (\<lambda>v. av_assistant_id v = aid) (versions d)\<rparr>)"
proof -
  have other: "o_assistant_id b \<noteq> aid" if "b \<in> set (assistants d)" "o_user_id b \<noteq> uid" for b
    using assms that unfolding assistants_inv_def by (metis inj_on_eq_iff distinct_map)
  then have "filter (\<lambda>b. o_assistant_id b \<noteq> aid \<and> o_user_id b \<noteq> uid) (assistants d) = filter (\<lambda>b. o_user_id b \<noteq> uid) (assistants d)"
    by (intro filter_cong) auto
  moreover have "filter (\<lambda>v. av_assistant_id v \<noteq> aid \<and> av_assistant_id v = b) (versions d) = filter (\<lambda>v. av_assistant_id v = b) (versions d)"
    if "b \<noteq> aid" for b
    using that by (intro filter_cong) auto
  ultimately show ?thesis
    using other by (auto simp: same_for_others_def select_where_def delete_where_def)
qed

lemma same_run_op:
  assumes "assistants_inv d"
  shows "same_for_others uid d (run_op env uid op d)"
proof (cases op)
  case (Create now new_id rq)
  then show ?thesis
    using same_after_insert [OF assms]
    by (auto simp: create_assistant_def Let_def new_assistant_def version_of_def split: sum.splits prod.splits)
next
  case (Update now aid rq)
  have "same_for_others uid d (d\<lparr>versions := versions d @ [updated_version now rq metadata cc a (versions d)]\<rparr>)"
    if "owned_row env ok uid aid d = Some a" for ok a metadata cc
    using owned_rowD [OF that] by (intro same_after_version [OF assms, of a]) (auto simp: updated_version_def)
  then show ?thesis
    using Update same_after_write by (fastforce simp: update_assistant_def Let_def split: sum.splits prod.splits option.splits)
next
  case (SetLatest now aid version)
  then show ?thesis
    using same_after_write [OF same_for_others_refl]
    by (fastforce simp: set_assistant_latest_def split: sum.splits prod.splits option.splits)
next
  case (Delete aid)
  then show ?thesis
    using same_after_delete [OF assms]
    by (auto simp: delete_assistant_def dest!: owned_rowD split: sum.splits prod.splits option.splits)
qed

subsection \<open>Rolling back\<close>

lemma unique_version:
  assumes "assistants_inv d" and "v \<in> set (versions d)" and "w \<in> set (versions d)"
    and "av_assistant_id v = av_assistant_id w" and "av_version v = av_version w"
  shows "v = w"
proof -
  let ?vs = "select_where (\<lambda>x. av_assistant_id x = av_assistant_id w) (versions d)"
  obtain n where "map av_version ?vs = up_to n"
    using assms(1,3) unfolding assistants_inv_def versions_of_def by fastforce
  then have "distinct (map av_version ?vs)"
    unfolding up_to_def by (simp only: distinct_map distinct_upt inj_on_of_nat simp_thms)
  moreover have "v \<in> set ?vs" "w \<in> set ?vs" using assms by auto
  ultimately show ?thesis using assms(5) by (meson distinct_map inj_on_eq_iff)
qed

lemma unique_assistant:
  "assistants_inv d \<Longrightarrow> a \<in> set (assistants d) \<Longrightarrow> b \<in> set (assistants d) \<Longrightarrow> o_assistant_id a = o_assistant_id b \<Longrightarrow> a = b"
  unfolding assistants_inv_def by (meson distinct_map inj_on_eq_iff)

lemma update_assistantD:
  assumes "update_assistant env now id uid aid rq d = (Inr a1, d1)" and "assistants_inv d"
    and "a \<in> set (assistants d)" and "o_assistant_id a = aid" and "o_user_id a = uid"
  obtains v where "set (versions d) \<subseteq> set (versions d1)" "apply_version now v a \<in> set (assistants d1)"
proof -
  obtain ok a' metadata cc where own: "owned_row env ok uid aid d = Some a'"
    and w: "write_version env now uid (updated_version now rq metadata cc a' (versions d))
              (d\<lparr>versions := versions d @ [updated_version now rq metadata cc a' (versions d)]\<rparr>) = Inr d1"
    using assms(1) by (auto simp: update_assistant_def Let_def split: sum.splits prod.splits option.splits if_splits)
  have "a' = a"
    using owned_rowD [OF own] assms(2-4) unique_assistant by metis
  with w owned_rowD [OF own] assms(3,4) have "apply_version now (updated_version now rq metadata cc a (versions d)) a \<in> set (assistants d1)"
      "set (versions d) \<subseteq> set (versions d1)"
    by (auto simp: write_version_def Let_def updated_version_def in_update_where split: if_splits)
  then show ?thesis by (rule that [rotated])
qed

lemma set_latestD:
  assumes "set_assistant_latest env now uid aid version d = (Inr a2, d2)" and "assistants_inv d"
    and "a \<in> set (assistants d)" and "o_assistant_id a = aid" and "o_user_id a = uid"
    and "v \<in> set (versions d)" and "av_assistant_id v = aid" and "av_version v = version"
  shows "a2 = apply_version now v a \<and> is_dict (av_config v) \<and> is_dict (av_context v)"
proof -
  obtain ok w where w: "first_where (\<lambda>v. av_assistant_id v = aid \<and> av_version v = version) (versions d) = Some w"
    and wr: "write_version env now uid w d = Inr d2" and rr: "reread env ok uid aid d2 = Inr a2"
    using assms(1) by (auto simp: set_assistant_latest_def split: sum.splits prod.splits option.splits)
  have "w = v"
    using first_where_SomeD [OF w] assms(2,6-8) unique_version by metis
  with wr have d2: "assistants d2 = update_where (\<lambda>a. o_assistant_id a = aid \<and> o_user_id a = uid) (apply_version now v) (assistants d)"
    using assms(7) by (auto simp: write_version_def Let_def split: if_splits)
  obtain x where x: "x \<in> set (assistants d2)" "o_assistant_id x = aid" "o_user_id x = uid" "to_pydantic x = Inr a2"
    using rr by (auto simp: reread_def dest!: owned_rowD split: option.splits)
  from x(1) obtain b where b: "b \<in> set (assistants d)" "o_assistant_id b = aid" "x = apply_version now v b"
    unfolding d2 by (cases rule: in_update_whereE) (use x(2,3) in auto)
  have "b = a" using b assms(2-4) unique_assistant by metis
  with x(4) b(3) show ?thesis by (auto simp: to_pydantic_def apply_version_def split: if_splits)
qed

subsection \<open>What the assistant service guarantees\<close>

text \<open>
  Claim C12.  Every assistant has a consistent history.  Starting from empty tables, after any
  sequence of operations of any users (rejected ones included) and of server starts, assistant ids
  are unique, no version outlives its assistant, the versions of an assistant are numbered
  consecutively from one in the order they were made, and its live row shows exactly the content
  of the version it names.
\<close>

theorem assistant_history_consistent:
  assumes "(assistant_step env)\<^sup>*\<^sup>* \<lparr>assistants = [], versions = []\<rparr> d"
  shows "distinct (map o_assistant_id (assistants d)) \<and>
    av_assistant_id ` set (versions d) \<subseteq> o_assistant_id ` set (assistants d) \<and>
    (\<forall>a \<in> set (assistants d). (\<exists>n. versions_of (o_assistant_id a) d = map int [1..<Suc (Suc n)]) \<and>
       (\<exists>v \<in> set (versions d). shows_version v a))"
  using inv_steps [OF assms]
  by (auto simp: assistants_inv_def up_to_def)

definition open_env :: assistant_env where
  "open_env = \<lparr>ae_authorize = (\<lambda>_ v. Inr (None, v)), ae_contains = (=), ae_jsonb_eq = (=),
     ae_digest = (\<lambda>j. case j of JObj d \<Rightarrow> concat (map fst d) | _ \<Rightarrow> []), ae_fold = id, ae_collate = id,
     ae_graphs = [''chat''], ae_loadable = (\<lambda>_. True)\<rparr>"

definition chat_request :: assistant_create where
  "chat_request = \<lparr>ac_assistant_id = Some ''a1'', ac_name = None, ac_description = None, ac_config = None,
     ac_context = Some [(''lang'', JStr ''en'')], ac_graph_id = ''chat'', ac_metadata = None, ac_if_exists = None\<rparr>"

definition rename_request :: assistant_update where
  "rename_request = \<lparr>up_name = Some (Some ''Bob''), up_description = None, up_config = None, up_graph_id = None,
     up_context = None, up_metadata = None\<rparr>"

definition example_tables :: assistant_db where
  "example_tables = run_op open_env ''u'' (Update 2 ''a1'' rename_request)
     (run_op open_env ''u'' (Create 1 ''x'' chat_request) \<lparr>assistants = [], versions = []\<rparr>)"

theorem assistant_history_consistent_witness:
  "map o_name (assistants example_tables) = [''Bob''] \<and> map o_version (assistants example_tables) = [2] \<and>
   distinct (map o_assistant_id (assistants example_tables))"
proof -
  have "(assistant_step open_env)\<^sup>*\<^sup>* \<lparr>assistants = [], versions = []\<rparr> example_tables"
    unfolding example_tables_def by (meson assistant_step.user_op r_into_rtranclp rtranclp.rtrancl_into_rtrancl)
  moreover have "map o_name (assistants example_tables) = [''Bob'']" "map o_version (assistants example_tables) = [2]"
    by code_simp+
  ultimately show ?thesis using assistant_history_consistent by blast
qed

text \<open>
  Claim C13.  Assistants of different users do not mix.  Whatever a user requests, on tables that
  can arise, the live rows and the version rows of every other owner (the system included) stay
  exactly as they were; and what the listing, the search and a read by id return are rows of the
  caller or of the system.
\<close>

theorem assistants_tenant_isolation:
  assumes "(assistant_step env)\<^sup>*\<^sup>* \<lparr>assistants = [], versions = []\<rparr> d" and "d' = run_op env uid op d"
  shows "select_where (\<lambda>a. o_user_id a \<noteq> uid) (assistants d') = select_where (\<lambda>a. o_user_id a \<noteq> uid) (assistants d) \<and>
    (\<forall>a \<in> set (assistants d). o_user_id a \<noteq> uid \<longrightarrow>
       select_where (\<lambda>v. av_assistant_id v = o_assistant_id a) (versions d') =
       select_where (\<lambda>v. av_assistant_id v = o_assistant_id a) (versions d)) \<and>
    (\<forall>rs. (list_assistants env uid d = Inr rs \<or> search_assistants env uid rq d = Inr rs \<or>
           get_assistant env uid aid d = Inr (hd rs) \<and> tl rs = [] \<and> rs \<noteq> []) \<longrightarrow>
       (\<forall>a \<in> set rs. a \<in> set (assistants d) \<and> (o_user_id a = uid \<or> o_user_id a = ''system'')))"
proof -
  have inv: "assistants_inv d"
    using inv_steps [OF assms(1)] by (simp add: assistants_inv_def)
  have pyd: "set rs \<subseteq> set xs" if "map_res to_pydantic xs = Inr rs" for xs rs
    using map_res_InrD [OF that] by (induction rule: list_all2_induct) (auto simp: to_pydantic_def split: if_splits)
  have listed: "a \<in> set (assistants d) \<and> visible_to uid a" if "list_assistants env uid d = Inr rs" "a \<in> set rs" for rs a
    using that by (auto simp: list_assistants_def dest!: bind_res_InrD pyd split: prod.splits)
  have searched: "a \<in> set (assistants d) \<and> visible_to uid a" if "search_assistants env uid rq d = Inr rs" "a \<in> set rs" for rs a
    using that
    by (auto simp: search_assistants_def Let_def page_def order_rows_def search_matches_def
        dest!: bind_res_InrD pyd in_set_takeD in_set_dropD subsetD split: prod.splits if_splits)
  have got: "a \<in> set (assistants d) \<and> visible_to uid a" if "get_assistant env uid aid d = Inr a" for a
    using that
    by (auto simp: get_assistant_def read_owned_assistant_def to_pydantic_def
        dest!: bind_res_InrD first_where_SomeD split: prod.splits option.splits if_splits)
  have "a \<in> set (assistants d) \<and> visible_to uid a"
    if "list_assistants env uid d = Inr rs \<or> search_assistants env uid rq d = Inr rs \<or>
        get_assistant env uid aid d = Inr (hd rs) \<and> tl rs = [] \<and> rs \<noteq> []" "a \<in> set rs" for rs a
    using that listed searched got by (cases rs) auto
  with same_run_op [OF inv, of uid env op] assms(2) show ?thesis
    unfolding same_for_others_def visible_to_def by blast
qed

theorem assistants_tenant_isolation_witness:
  "map o_name (select_where (\<lambda>a. o_user_id a \<noteq> ''eve'') (assistants (run_op open_env ''eve'' (Delete ''a1'') example_tables))) = [''Bob''] \<and>
   list_assistants open_env ''eve'' example_tables = Inr []"
proof -
  have reach: "(assistant_step open_env)\<^sup>*\<^sup>* \<lparr>assistants = [], versions = []\<rparr> example_tables"
    unfolding example_tables_def by (meson assistant_step.user_op r_into_rtranclp rtranclp.rtrancl_into_rtrancl)
  have "map o_name (select_where (\<lambda>a. o_user_id a \<noteq> ''eve'') (assistants example_tables)) = [''Bob'']"
    "list_assistants open_env ''eve'' example_tables = Inr []"
    by code_simp+
  with assistants_tenant_isolation [OF reach refl, of "''eve''" "Delete ''a1''"] show ?thesis by metis
qed

text \<open>
  Setting an earlier version as the latest undoes an update.  When an update of the
  caller's assistant succeeded and the version it had before is then set as the latest, the
  returned row is the one before the update, up to its modification time.
\<close>

theorem version_rollback_restores:
  assumes "(assistant_step env)\<^sup>*\<^sup>* \<lparr>assistants = [], versions = []\<rparr> d"
    and "a \<in> set (assistants d)" and "o_assistant_id a = aid" and "o_user_id a = uid"
    and "update_assistant env t1 id uid aid rq d = (Inr a1, d1)"
    and "set_assistant_latest env t2 uid aid (o_version a) d1 = (Inr a2, d2)"
  shows "a2 = a\<lparr>o_updated_at := t2\<rparr>"
proof -
  have inv: "assistants_inv d"
    using inv_steps [OF assms(1)] by (simp add: assistants_inv_def)
  have inv1: "assistants_inv d1"
    using inv_update [OF inv, of env t1 uid aid rq] assms(5) by simp
  obtain v where v: "v \<in> set (versions d)" "shows_version v a"
    using inv assms(2) by (auto simp: assistants_inv_def)
  obtain w where w: "set (versions d) \<subseteq> set (versions d1)" "apply_version t1 w a \<in> set (assistants d1)"
    using update_assistantD [OF assms(5) inv assms(2-4)] by blast
  have "a2 = apply_version t2 v (apply_version t1 w a)" "is_dict (av_config v)" "is_dict (av_context v)"
    using set_latestD [OF assms(6) inv1 w(2)] w(1) v assms(3,4) by (auto simp: shows_version_def)
  with v(2) show ?thesis by (auto simp: apply_version_def shows_version_def is_dict_def)
qed

theorem version_rollback_restores_witness:
  "\<exists>a1 a2 d1 d2. update_assistant open_env 3 id ''u'' ''a1'' (rename_request\<lparr>up_name := Some (Some ''Eve'')\<rparr>) example_tables = (Inr a1, d1) \<and>
     o_name a1 = ''Eve'' \<and> set_assistant_latest open_env 4 ''u'' ''a1'' 2 d1 = (Inr a2, d2) \<and> o_name a2 = ''Bob''"
proof -
  let ?rq = "rename_request\<lparr>up_name := Some (Some ''Eve'')\<rparr>"
  let ?u = "update_assistant open_env 3 id ''u'' ''a1'' ?rq example_tables"
  let ?s = "set_assistant_latest open_env 4 ''u'' ''a1'' 2 (snd ?u)"
  have reach: "(assistant_step open_env)\<^sup>*\<^sup>* \<lparr>assistants = [], versions = []\<rparr> example_tables"
    unfolding example_tables_def by (meson assistant_step.user_op r_into_rtranclp rtranclp.rtrancl_into_rtrancl)
  let ?a = "hd (assistants example_tables)"
  have ex: "?a \<in> set (assistants example_tables)" "o_assistant_id ?a = ''a1''" "o_user_id ?a = ''u''" "o_version ?a = 2"
    "o_name ?a = ''Bob''"
    by code_simp+
  have "\<not> isl (fst ?u)" "o_name (projr (fst ?u)) = ''Eve''" "\<not> isl (fst ?s)"
    by code_simp+
  then obtain a1 a2 where u: "?u = (Inr a1, snd ?u)" "o_name a1 = ''Eve''" and s: "?s = (Inr a2, snd ?s)"
    by (metis prod.collapse sum.collapse(2))
  have "a2 = ?a\<lparr>o_updated_at := 4\<rparr>"
    by (rule version_rollback_restores [OF reach ex(1-3) u(1)]) (use s ex(4) in simp)
  then have "o_name a2 = ''Bob''" using ex(5) by simp
  with u s show ?thesis by metis
qed

text \<open>
  The text filters of the assistant search are literal.  Whatever the caller types,
  wildcards and backslashes included, a name or description is selected exactly when it contains
  the typed text up to case; an absent or empty filter selects everything, and a missing
  description never matches a filter.
\<close>

theorem search_text_is_literal:
  "text_matches env wanted column \<longleftrightarrow>
     (case wanted of
        None \<Rightarrow> True
      | Some w \<Rightarrow> w = [] \<or>
          (\<exists>c pre mid post. column = Some c \<and> c = pre @ mid @ post \<and> map (ae_fold env) mid = map (ae_fold env) w))"
  by (auto simp: text_matches_def truthy_str_def ilike_contains split: option.splits)

lemma bind_JNull [simp]: "process_bind_param JNull = JNull"
  by (simp add: process_bind_param_def strip_null_bytes.simps [of 0 JNull])

text \<open>
  A null context makes the listing fail.  A creation whose context is explicitly null
  and whose configuration has no configurable section commits its rows and is answered with an
  error; from then on the owner's unfiltered listing fails as a whole.
\<close>

theorem null_context_breaks_listing:
  assumes "ae_authorize env ''create'' (dump_assistant_create rq) = Inr (filters, value)"
    and "ae_authorize env ''search'' [] = Inr (None, value')"
    and "ac_graph_id rq \<in> set (ae_graphs env)" and "ae_loadable env (ac_graph_id rq)"
    and "ac_context rq = None" and "\<not> json_truthy (configurable_key (or_dict (ac_config rq)))"
    and "\<not> insert_conflict env (new_assistant now new_id uid rq (injected_metadata (ac_metadata rq) value)
           (or_dict (ac_config rq), JNull)) (assistants d)"
    and "create_assistant env now new_id uid rq d = (res, d')"
  shows "res = Inl ValueError \<and> length (assistants d') = Suc (length (assistants d)) \<and>
    list_assistants env uid d' = Inl ValueError"
proof -
  define a where "a = new_assistant now new_id uid rq (injected_metadata (ac_metadata rq) value) (or_dict (ac_config rq), JNull)"
  have sync: "sync_create (or_dict (ac_config rq)) (ac_context rq) = (or_dict (ac_config rq), JNull)"
    using assms(5,6) by (simp add: sync_create_def or_dict_def json_of_opt_def)
  have bad: "to_pydantic a = Inl ValueError"
    by (simp add: a_def to_pydantic_def new_assistant_def is_dict_def)
  have res: "res = to_pydantic a" "d' = d\<lparr>assistants := assistants d @ [a], versions := versions d @ [version_of a now]\<rparr>"
    using assms sync by (auto simp: create_assistant_def Let_def a_def or_dict_def)
  have "map_res to_pydantic (select_where (\<lambda>b. visible_to uid b) (assistants d')) = Inl ValueError"
  proof (rule map_res_error)
    show "a \<in> set (select_where (\<lambda>b. visible_to uid b) (assistants d'))"
      by (simp add: res(2) visible_to_def a_def new_assistant_def)
  qed (use bad in \<open>auto simp: to_pydantic_def split: if_splits\<close>)
  then show ?thesis
    using bad res assms(2) by (simp add: list_assistants_def auth_filter_def build_metadata_filter_def)
qed

theorem null_context_breaks_listing_witness:
  "list_assistants open_env ''u'' (run_op open_env ''u'' (Create 1 ''x'' (chat_request\<lparr>ac_context := None\<rparr>))
     \<lparr>assistants = [], versions = []\<rparr>) = Inl ValueError"
  unfolding run_op.simps
  by (rule null_context_breaks_listing [THEN conjunct2, THEN conjunct2, OF _ _ _ _ _ _ _ prod.collapse [symmetric]])
     (auto simp: open_env_def chat_request_def or_dict_def configurable_key_def insert_conflict_def)

end
