(* ===== verification/Threads.thy ===== *)
theory Threads
  imports Thread_TTL Auth Run_Preparation "HOL-Library.Product_Lexorder"
begin

text \<open>
  The thread endpoints (\<^verbatim>\<open>controller/http/routers/threads.py\<close>), their request models
  (\<^verbatim>\<open>domain/threads.py\<close>, \<^verbatim>\<open>domain/search_limit.py\<close>) and the conversion of checkpoint snapshots
  (\<^verbatim>\<open>usecase/thread_state_service.py\<close>, \<^verbatim>\<open>infra/serializers/langgraph.py\<close>).  The store is that of
  thread retention: threads, runs, retention rows and checkpoints.  The graph behind a thread is
  an argument: a function from the stored graph id and the configuration it is opened with.
\<close>

record thread_env =
  te_authorize :: "string \<Rightarrow> dict \<Rightarrow> (dict option \<times> dict) result"
  te_contains :: "json \<Rightarrow> json \<Rightarrow> bool"
  te_collate :: "string \<Rightarrow> string"
  te_ttl_config :: "(strategy \<times> int) option"
  te_max_search_limit :: int

subsection \<open>Requests\<close>

record ttl_spec =
  sp_default_ttl :: "int option"
  sp_strategy :: "strategy option"

record thread_create =
  tc_metadata :: "dict option"
  tc_initial_state :: "dict option"
  tc_thread_id :: "string option"
  tc_if_exists :: "string option"
  tc_ttl :: "ttl_spec option"

record thread_search =
  tq_metadata :: "dict option"
  tq_status :: "string option"
  tq_limit :: "int option"
  tq_offset :: "nat option"
  tq_order_by :: "string option"
  tq_sort_by :: "string option"
  tq_sort_order :: "string option"

definition or_empty_dict :: "dict option \<Rightarrow> dict" where
  "or_empty_dict x = (case x of None \<Rightarrow> [] | Some d \<Rightarrow> d)"

definition strategy_str :: "strategy \<Rightarrow> string" where
  "strategy_str x = (case x of DeleteThread \<Rightarrow> ''delete'' | KeepLatest \<Rightarrow> ''keep_latest'')"

definition dump_ttl :: "ttl_spec \<Rightarrow> json" where
  "dump_ttl t = JObj [(''default_ttl'', json_of_opt JInt (sp_default_ttl t)),
                      (''strategy'', json_of_opt (\<lambda>x. JStr (strategy_str x)) (sp_strategy t))]"

definition dump_thread_create :: "thread_create \<Rightarrow> dict" where
  "dump_thread_create rq =
     [(''metadata'', json_of_opt JObj (tc_metadata rq)), (''initial_state'', json_of_opt JObj (tc_initial_state rq)),
      (''thread_id'', json_of_opt JStr (tc_thread_id rq)), (''if_exists'', json_of_opt JStr (tc_if_exists rq)),
      (''ttl'', json_of_opt dump_ttl (tc_ttl rq))]"

definition dump_thread_search :: "thread_search \<Rightarrow> dict" where
  "dump_thread_search rq =
     [(''metadata'', json_of_opt JObj (tq_metadata rq)), (''status'', json_of_opt JStr (tq_status rq)),
      (''limit'', json_of_opt JInt (tq_limit rq)), (''offset'', json_of_opt (\<lambda>n. JInt (int n)) (tq_offset rq)),
      (''order_by'', json_of_opt JStr (tq_order_by rq)), (''sort_by'', json_of_opt JStr (tq_sort_by rq)),
      (''sort_order'', json_of_opt JStr (tq_sort_order rq))]"

definition DEFAULT_SEARCH_LIMIT :: int where "DEFAULT_SEARCH_LIMIT = 20"

definition effective_search_limit :: "int \<Rightarrow> int" where
  "effective_search_limit cap = min DEFAULT_SEARCH_LIMIT cap"

definition resolve_search_limit :: "int \<Rightarrow> int option \<Rightarrow> int result" where
  "resolve_search_limit cap value =
     (case value of
        None \<Rightarrow> Inr (effective_search_limit cap)
      | Some n \<Rightarrow> if n > cap then Inl (HTTPException 422) else Inr n)"

text \<open>
  The validators of \<open>ThreadSearchRequest\<close>; the request as the endpoint receives it has its limit
  resolved.
\<close>

definition validate_thread_search :: "int \<Rightarrow> thread_search \<Rightarrow> thread_search result" where
  "validate_thread_search cap rq =
     (if (case tq_limit rq of Some n \<Rightarrow> n < 1 | None \<Rightarrow> False) then Inl (HTTPException 422)
      else if (case tq_sort_by rq of Some c \<Rightarrow> c \<notin> {''thread_id'', ''status'', ''created_at'', ''updated_at''} | None \<Rightarrow> False)
           \<or> (case tq_sort_order rq of Some x \<Rightarrow> x \<notin> {''asc'', ''desc''} | None \<Rightarrow> False)
      then Inl (HTTPException 422)
      else
        bind_res (resolve_search_limit cap (tq_limit rq)) (\<lambda>limit.
          case tq_status rq of
            None \<Rightarrow> Inr (rq\<lparr>tq_limit := Some limit\<rparr>)
          | Some s \<Rightarrow> (case validate_thread_status s of
                        Inl _ \<Rightarrow> Inl (HTTPException 422)
                      | Inr _ \<Rightarrow> Inr (rq\<lparr>tq_limit := Some limit\<rparr>))))"

subsection \<open>Responses\<close>

definition coerce_dict :: "dict option \<Rightarrow> json \<Rightarrow> json" where
  "coerce_dict dflt md =
     (case md of
        JObj d \<Rightarrow> JObj d
      | JNull \<Rightarrow> JObj (or_empty_dict dflt)
      | _ \<Rightarrow> JObj [])"

definition serialize_thread :: "dict option \<Rightarrow> thread_row \<Rightarrow> thread_row" where
  "serialize_thread dflt t = t\<lparr>t_metadata := coerce_dict dflt (t_metadata t)\<rparr>"

subsection \<open>Creation\<close>

definition resolve_ttl_row ::
  "(strategy \<times> int) option \<Rightarrow> time \<Rightarrow> thread_id \<Rightarrow> ttl_spec option \<Rightarrow> ttl_row option result"
where
  "resolve_ttl_row config now tid requested =
     (let requested_ttl = Option.bind requested sp_default_ttl;
          requested_strategy = Option.bind requested sp_strategy;
          row = (\<lambda>ttl strat. \<lparr>l_thread_id = tid, l_strategy = strat, l_ttl = ttl, l_expires_at = now + ttl\<rparr>)
      in case config of
           None \<Rightarrow>
             (case requested of
                None \<Rightarrow> Inr None
              | Some _ \<Rightarrow>
                  (case requested_ttl of
                     None \<Rightarrow> Inl (HTTPException 422)
                   | Some ttl \<Rightarrow>
                       Inr (Some (row ttl (case requested_strategy of None \<Rightarrow> DeleteThread | Some x \<Rightarrow> x)))))
         | Some (strat, ttl) \<Rightarrow>
             Inr (Some (row (case requested_ttl of None \<Rightarrow> ttl | Some x \<Rightarrow> x)
                            (case requested_strategy of None \<Rightarrow> strat | Some x \<Rightarrow> x))))"

text \<open>
  What a handler adds to the metadata of a create or update: the \<^verbatim>\<open>metadata\<close> of the filter it
  returned, or else that of the value it was given.
\<close>

definition handler_metadata :: "dict option \<Rightarrow> dict \<Rightarrow> dict option \<Rightarrow> dict option" where
  "handler_metadata filters value metadata =
     (case Option.bind filters (\<lambda>f. map_of f ''metadata'') of
        Some (JObj m) \<Rightarrow> Some (dict_update (or_empty_dict metadata) m)
      | Some _ \<Rightarrow> metadata
      | None \<Rightarrow>
          (case map_of value ''metadata'' of
             Some (JObj m) \<Rightarrow> if m \<noteq> [] then Some (dict_update (or_empty_dict metadata) m) else metadata
           | _ \<Rightarrow> metadata))"

definition new_thread_metadata :: "user_id \<Rightarrow> dict option \<Rightarrow> dict" where
  "new_thread_metadata uid metadata =
     dict_setdefault ''thread_name'' (JStr [])
       (dict_setdefault ''graph_id'' JNull
         (dict_setdefault ''assistant_id'' JNull
           (AList.update ''owner'' (JStr uid) (or_empty_dict metadata))))"

definition create_thread ::
  "thread_env \<Rightarrow> time \<Rightarrow> thread_id \<Rightarrow> user_id \<Rightarrow> thread_create \<Rightarrow> ttl_store \<Rightarrow> thread_row result \<times> ttl_store"
where
  "create_thread env now new_id uid rq s =
     (case te_authorize env ''create'' (dump_thread_create rq) of
        Inl e \<Rightarrow> (Inl e, s)
      | Inr (filters, value) \<Rightarrow>
          (let tid = (if truthy_str (tc_thread_id rq) then the (tc_thread_id rq) else new_id)
           in case resolve_ttl_row (te_ttl_config env) now tid (tc_ttl rq) of
                Inl e \<Rightarrow> (Inl e, s)
              | Inr ttl \<Rightarrow>
                  (let metadata = new_thread_metadata uid (handler_metadata filters value (tc_metadata rq));
                       t = \<lparr>t_thread_id = tid, t_status = Idle, t_metadata = process_bind_param (JObj metadata),
                            t_user_id = uid, t_created_at = now, t_updated_at = now\<rparr>
                   in if first_where (\<lambda>x. t_thread_id x = tid) (threads (ts_db s)) = None
                      then (Inr (serialize_thread (Some metadata) t),
                            s\<lparr>ts_db := (ts_db s)\<lparr>threads := threads (ts_db s) @ [t]\<rparr>,
                              ts_ttl := ts_ttl s @ (case ttl of None \<Rightarrow> [] | Some l \<Rightarrow> [l])\<rparr>)
                      else
                        (case first_where (\<lambda>x. t_thread_id x = tid \<and> t_user_id x = uid) (threads (ts_db s)) of
                           Some x \<Rightarrow> (if tc_if_exists rq = Some ''do_nothing'' then Inr (serialize_thread None x)
                                     else Inl (HTTPException 409), s)
                         | None \<Rightarrow> (Inl (HTTPException 409), s)))))"

subsection \<open>Reads\<close>

definition list_threads :: "thread_env \<Rightarrow> user_id \<Rightarrow> ttl_store \<Rightarrow> thread_row list result" where
  "list_threads env uid s =
     bind_res (te_authorize env ''search'' []) (\<lambda>(filters, _).
     bind_res (auth_filter (te_contains env) filters) (\<lambda>ok.
       Inr (map (serialize_thread None)
              (select_where (\<lambda>t. t_user_id t = uid \<and> ok (t_metadata t)) (threads (ts_db s))))))"

definition get_thread :: "thread_env \<Rightarrow> user_id \<Rightarrow> thread_id \<Rightarrow> ttl_store \<Rightarrow> thread_row result" where
  "get_thread env uid tid s =
     bind_res (te_authorize env ''read'' [(''thread_id'', JStr tid)]) (\<lambda>(filters, _).
     bind_res (auth_filter (te_contains env) filters) (\<lambda>ok.
       case first_where (\<lambda>t. t_thread_id t = tid \<and> t_user_id t = uid \<and> ok (t_metadata t)) (threads (ts_db s)) of
         None \<Rightarrow> Inl (HTTPException 404)
       | Some t \<Rightarrow> Inr (serialize_thread None t)))"

datatype thread_column = CreatedAt | UpdatedAt | ThreadId | ThreadStatus

definition sort_field :: "string \<Rightarrow> thread_column option" where
  "sort_field c =
     (if c = ''created_at'' then Some CreatedAt else if c = ''updated_at'' then Some UpdatedAt
      else if c = ''thread_id'' then Some ThreadId else if c = ''status'' then Some ThreadStatus else None)"

text \<open>
  \<open>_resolve_sort\<close>: the new-style field wins; the legacy clause falls back to the default when its
  column is unknown.
\<close>

definition resolve_thread_sort :: "thread_search \<Rightarrow> thread_column \<times> bool" where
  "resolve_thread_sort rq =
     (case Option.bind (tq_sort_by rq) (\<lambda>c. if c = [] then None else sort_field c) of
        Some c \<Rightarrow> (c, py_lower (if truthy_str (tq_sort_order rq) then the (tq_sort_order rq) else ''desc'') = ''asc'')
      | None \<Rightarrow>
          (case (if truthy_str (tq_order_by rq) then py_words (py_strip (the (tq_order_by rq))) else []) of
             [] \<Rightarrow> (CreatedAt, False)
           | f # rest \<Rightarrow>
               (case sort_field (py_lower f) of
                  None \<Rightarrow> (CreatedAt, False)
                | Some c \<Rightarrow> (c, case rest of [] \<Rightarrow> False | x # _ \<Rightarrow> py_lower x = ''asc''))))"

fun thread_status_str :: "thread_status \<Rightarrow> string" where
  "thread_status_str Idle = ''idle''"
| "thread_status_str Busy = ''busy''"
| "thread_status_str ThreadInterrupted = ''interrupted''"
| "thread_status_str ThreadError = ''error''"

definition thread_key :: "thread_env \<Rightarrow> thread_column \<Rightarrow> thread_row \<Rightarrow> int \<times> string" where
  "thread_key env c t =
     (case c of CreatedAt \<Rightarrow> (t_created_at t, []) | UpdatedAt \<Rightarrow> (t_updated_at t, [])
      | ThreadId \<Rightarrow> (0, te_collate env (t_thread_id t))
      | ThreadStatus \<Rightarrow> (0, te_collate env (thread_status_str (t_status t))))"

definition thread_matches :: "thread_env \<Rightarrow> user_id \<Rightarrow> (json \<Rightarrow> bool) \<Rightarrow> thread_search \<Rightarrow> thread_row \<Rightarrow> bool" where
  "thread_matches env uid ok rq t =
     (t_user_id t = uid \<and> ok (t_metadata t) \<and>
      (truthy_str (tq_status rq) \<longrightarrow> thread_status_str (t_status t) = the (tq_status rq)) \<and>
      (or_empty_dict (tq_metadata rq) \<noteq> [] \<longrightarrow>
         te_contains env (t_metadata t) (JObj (or_empty_dict (tq_metadata rq)))))"

definition search_threads :: "thread_env \<Rightarrow> user_id \<Rightarrow> thread_search \<Rightarrow> ttl_store \<Rightarrow> thread_row list result" where
  "search_threads env uid rq0 s =
     bind_res (validate_thread_search (te_max_search_limit env) rq0) (\<lambda>rq.
     bind_res (te_authorize env ''search'' (dump_thread_search rq)) (\<lambda>(filters, _).
     bind_res (auth_filter (te_contains env) filters) (\<lambda>ok.
       let rows = select_where (thread_matches env uid ok rq) (threads (ts_db s));
           offset = (case tq_offset rq of None \<Rightarrow> 0 | Some n \<Rightarrow> n);
           limit = (case tq_limit rq of None \<Rightarrow> effective_search_limit (te_max_search_limit env) | Some n \<Rightarrow> n);
           (column, asc) = resolve_thread_sort rq
       in Inr (map (serialize_thread None)
                (page offset (nat limit)
                  (order_rows (thread_key env column) (\<lambda>t. te_collate env (t_thread_id t)) asc rows))))))"

subsection \<open>Updates and deletion\<close>

text \<open>
  \<open>update_thread\<close>: the patch is merged by the database.  The handler's filter is not applied.
\<close>

definition update_thread ::
  "thread_env \<Rightarrow> time \<Rightarrow> user_id \<Rightarrow> thread_id \<Rightarrow> dict option \<Rightarrow> ttl_store \<Rightarrow> thread_row result \<times> ttl_store"
where
  "update_thread env now uid tid metadata s =
     (case te_authorize env ''update'' [(''metadata'', json_of_opt JObj metadata), (''thread_id'', JStr tid)] of
        Inl e \<Rightarrow> (Inl e, s)
      | Inr (filters, value) \<Rightarrow>
          (let patch = or_empty_dict (handler_metadata filters value metadata);
               p = (\<lambda>t. t_thread_id t = tid \<and> t_user_id t = uid);
               f = (\<lambda>t. t\<lparr>t_metadata := (if patch = [] then t_metadata t
                                          else jsonb_shallow_merge (t_metadata t) [bind_dict patch]),
                         t_updated_at := now\<rparr>)
           in case first_where p (threads (ts_db s)) of
                None \<Rightarrow> (Inl (HTTPException 404), s)
              | Some t \<Rightarrow>
                  (Inr (serialize_thread None (f t)),
                   s\<lparr>ts_db := (ts_db s)\<lparr>threads := update_where p f (threads (ts_db s))\<rparr>\<rparr>)))"

text \<open>
  \<open>delete_thread\<close>: \<open>cancel\<close> is what cancelling a run and awaiting its task does to the store, and
  \<open>fails\<close> says that the checkpointer raises.  Checkpoints go first, so a failure leaves the row.
\<close>

definition delete_thread ::
  "thread_env \<Rightarrow> (run_id \<Rightarrow> ttl_store \<Rightarrow> ttl_store) \<Rightarrow> bool \<Rightarrow> user_id \<Rightarrow> thread_id \<Rightarrow> ttl_store
   \<Rightarrow> unit result \<times> ttl_store"
where
  "delete_thread env cancel fails uid tid s =
     (case te_authorize env ''delete'' [(''thread_id'', JStr tid)] of
        Inl e \<Rightarrow> (Inl e, s)
      | Inr (filters, _) \<Rightarrow>
          (case auth_filter (te_contains env) filters of
             Inl e \<Rightarrow> (Inl e, s)
           | Inr ok \<Rightarrow>
               (case first_where (\<lambda>t. t_thread_id t = tid \<and> t_user_id t = uid \<and> ok (t_metadata t)) (threads (ts_db s)) of
                  None \<Rightarrow> (Inl (HTTPException 404), s)
                | Some _ \<Rightarrow>
                    (let active = map r_run_id (select_where (\<lambda>r. r_thread_id r = tid \<and> r_user_id r = uid \<and> is_active r)
                                    (runs (ts_db s)));
                         s = fold cancel active s
                     in if fails then (Inl RuntimeError, s)
                        else (Inr (), delete_thread_row tid (delete_checkpoints tid s))))))"

definition prune_threads ::
  "thread_env \<Rightarrow> nat option \<Rightarrow> user_id \<Rightarrow> (nat \<Rightarrow> sweep_env) \<Rightarrow> ttl_store \<Rightarrow> (nat \<times> nat) result"
where
  "prune_threads env sweep_limit uid senv s =
     bind_res (te_authorize env ''delete'' []) (\<lambda>(filters, _).
     bind_res (auth_filter (te_contains env) filters) (\<lambda>ok.
       Inr (prune_expired_threads_for_user sweep_limit uid (Some (\<lambda>t. ok (t_metadata t))) senv s)))"

subsection \<open>Snapshots\<close>

datatype snap_time = NoTime | IsoTime string | AtTime time

record snap_info =
  si_values :: dict
  si_next :: "string list"
  si_metadata :: dict
  si_created_at :: snap_time
  si_interrupts :: "json result"
  si_config :: json
  si_parent_config :: json

text \<open>
  A task: its fields without the state (or the failure of their serialisation), and its state,
  which is absent, a plain configuration, or the snapshot of a subgraph.
\<close>

datatype graph_snapshot = Snapshot snap_info "(dict result \<times> task_state) list"
     and task_state = NoState | PlainState json | SubState graph_snapshot

record thread_checkpoint =
  tk_checkpoint_id :: "string option"
  tk_thread_id :: thread_id
  tk_checkpoint_ns :: "string option"

record state_info =
  th_values :: dict
  th_next :: "string list"
  th_interrupts :: "json list"
  th_metadata :: dict
  th_created_at :: "time option"
  th_checkpoint :: thread_checkpoint
  th_parent_checkpoint :: "thread_checkpoint option"
  th_checkpoint_id :: "string option"
  th_parent_checkpoint_id :: "string option"

datatype thread_state = ThreadState state_info "(dict \<times> state_view) list"
     and state_view = NullState | RawState task_state | ConvertedState thread_state

definition extract_created_at :: "(string \<Rightarrow> time option) \<Rightarrow> snap_time \<Rightarrow> time option" where
  "extract_created_at parse x =
     (case x of NoTime \<Rightarrow> None | IsoTime s \<Rightarrow> parse s | AtTime t \<Rightarrow> Some t)"

text \<open>The optional string fields of the checkpoint model reject any other value.\<close>

definition opt_str_field :: "json \<Rightarrow> string option result" where
  "opt_str_field j = (case j of JNull \<Rightarrow> Inr None | JStr s \<Rightarrow> Inr (Some s) | _ \<Rightarrow> Inl ValueError)"

definition configurable_section :: "dict \<Rightarrow> dict result" where
  "configurable_section c =
     (case map_of c ''configurable'' of None \<Rightarrow> Inr [] | Some (JObj cc) \<Rightarrow> Inr cc | Some _ \<Rightarrow> Inl AttributeError)"

definition create_checkpoint :: "json \<Rightarrow> thread_id \<Rightarrow> thread_checkpoint result" where
  "create_checkpoint config tid =
     (case config of
        JObj (kv # c) \<Rightarrow>
          bind_res (configurable_section (kv # c)) (\<lambda>cc.
          bind_res (opt_str_field (case map_of cc ''checkpoint_id'' of None \<Rightarrow> JNull | Some j \<Rightarrow> j)) (\<lambda>cid.
          bind_res (opt_str_field (case map_of cc ''checkpoint_ns'' of None \<Rightarrow> JStr [] | Some j \<Rightarrow> j)) (\<lambda>ns.
            Inr \<lparr>tk_checkpoint_id = cid, tk_thread_id = tid, tk_checkpoint_ns = ns\<rparr>)))
      | _ \<Rightarrow> Inr \<lparr>tk_checkpoint_id = None, tk_thread_id = tid, tk_checkpoint_ns = Some []\<rparr>)"

definition extract_interrupts :: "json result \<Rightarrow> json list" where
  "extract_interrupts r = (case r of Inr (JList xs) \<Rightarrow> xs | _ \<Rightarrow> [])"

text \<open>
  The two checkpoint ids repeat those of the checkpoints, which are strings or absent once these
  validated.
\<close>

definition state_of ::
  "(string \<Rightarrow> time option) \<Rightarrow> thread_id \<Rightarrow> snap_info \<Rightarrow> (dict \<times> state_view) list \<Rightarrow> thread_state result"
where
  "state_of parse tid i tasks =
     bind_res (create_checkpoint (si_config i) tid) (\<lambda>cp.
     bind_res (if json_truthy (si_parent_config i)
               then bind_res (create_checkpoint (si_parent_config i) tid) (\<lambda>p. Inr (Some p)) else Inr None) (\<lambda>parent.
       Inr (ThreadState
         \<lparr>th_values = si_values i, th_next = si_next i, th_interrupts = extract_interrupts (si_interrupts i),
          th_metadata = si_metadata i, th_created_at = extract_created_at parse (si_created_at i),
          th_checkpoint = cp, th_parent_checkpoint = parent, th_checkpoint_id = tk_checkpoint_id cp,
          th_parent_checkpoint_id = Option.bind parent tk_checkpoint_id\<rparr> tasks)))"

text \<open>
  \<open>convert_snapshot_to_thread_state\<close>: a task that does not serialise is skipped; with
  \<open>subgraphs\<close> a state that does not convert (a plain configuration never does) becomes null.
\<close>

fun convert_snapshot ::
  "(string \<Rightarrow> time option) \<Rightarrow> thread_id \<Rightarrow> bool \<Rightarrow> graph_snapshot \<Rightarrow> thread_state result"
and convert_task_state ::
  "(string \<Rightarrow> time option) \<Rightarrow> thread_id \<Rightarrow> bool \<Rightarrow> task_state \<Rightarrow> state_view"
where
  "convert_snapshot parse tid subgraphs (Snapshot i ts) =
     state_of parse tid i
       (concat (map (\<lambda>t. case fst t of
                          Inl _ \<Rightarrow> []
                        | Inr d \<Rightarrow> [(d, convert_task_state parse tid subgraphs (snd t))]) ts))"
| "convert_task_state parse tid subgraphs st =
     (case st of
        NoState \<Rightarrow> NullState
      | PlainState j \<Rightarrow> if subgraphs then NullState else RawState st
      | SubState s \<Rightarrow>
          if subgraphs
          then (case convert_snapshot parse tid subgraphs s of Inl _ \<Rightarrow> NullState | Inr t \<Rightarrow> ConvertedState t)
          else RawState st)"

definition convert_snapshots ::
  "(string \<Rightarrow> time option) \<Rightarrow> thread_id \<Rightarrow> graph_snapshot list \<Rightarrow> thread_state list"
where
  "convert_snapshots parse tid ss =
     concat (map (\<lambda>s. case convert_snapshot parse tid False s of Inl _ \<Rightarrow> [] | Inr t \<Rightarrow> [t]) ss)"

subsection \<open>State endpoints\<close>

text \<open>
  A loaded graph: reading the state of a configuration, writing to it, and enumerating its history
  (the snapshots yielded and the exception that ended the enumeration, if one did).  Opening a
  graph for a graph id and a configuration is an argument, and may fail.
\<close>

record agent =
  ag_get_state :: "dict \<Rightarrow> bool \<Rightarrow> ttl_store \<Rightarrow> graph_snapshot option result"
  ag_update_state :: "dict \<Rightarrow> json \<Rightarrow> string option \<Rightarrow> ttl_store \<Rightarrow> json result \<times> ttl_store"
  ag_history :: "dict \<Rightarrow> bool option \<Rightarrow> int \<Rightarrow> json \<Rightarrow> dict option \<Rightarrow> ttl_store \<Rightarrow> graph_snapshot list \<times> py_error option"

type_synonym loader = "json \<Rightarrow> dict \<Rightarrow> agent result"

definition get_thread_graph_id :: "user \<Rightarrow> thread_id \<Rightarrow> ttl_store \<Rightarrow> json result" where
  "get_thread_graph_id u tid s =
     (case first_where (\<lambda>t. t_thread_id t = tid \<and> t_user_id t = identity u) (threads (ts_db s)) of
        None \<Rightarrow> Inl (HTTPException 404)
      | Some t \<Rightarrow>
          if \<not> json_truthy (t_metadata t) then Inr JNull
          else (case t_metadata t of
                  JObj m \<Rightarrow> Inr (case map_of m ''graph_id'' of None \<Rightarrow> JNull | Some g \<Rightarrow> g)
                | _ \<Rightarrow> Inl AttributeError))"

text \<open>The outer handlers: an HTTP error passes, anything else becomes a 500.\<close>

definition http_or_500 :: "'a result \<Rightarrow> 'a result" where
  "http_or_500 r = (case r of Inl (HTTPException n) \<Rightarrow> r | Inl _ \<Rightarrow> Inl (HTTPException 500) | Inr x \<Rightarrow> r)"

definition empty_thread_state :: "thread_id \<Rightarrow> thread_state" where
  "empty_thread_state tid =
     ThreadState
       \<lparr>th_values = [], th_next = [], th_interrupts = [], th_metadata = [], th_created_at = None,
        th_checkpoint = \<lparr>tk_checkpoint_id = None, tk_thread_id = tid, tk_checkpoint_ns = Some []\<rparr>,
        th_parent_checkpoint = None, th_checkpoint_id = None, th_parent_checkpoint_id = None\<rparr> []"

text \<open>A query parameter that is set when it is not empty.\<close>

definition when_str :: "string \<Rightarrow> string option \<Rightarrow> dict" where
  "when_str k v = (if truthy_str v then [(k, JStr (the v))] else [])"

definition open_thread :: "loader \<Rightarrow> user \<Rightarrow> thread_id \<Rightarrow> json \<Rightarrow> dict \<Rightarrow> (agent \<times> dict) result" where
  "open_thread load u tid gid kvs =
     bind_res (create_thread_config tid (Some u) None) (\<lambda>cfg.
     bind_res (set_configurable kvs cfg) (\<lambda>cfg.
     bind_res (load gid cfg) (\<lambda>a. Inr (a, cfg))))"

definition read_state ::
  "loader \<Rightarrow> (string \<Rightarrow> time option) \<Rightarrow> user \<Rightarrow> thread_id \<Rightarrow> json \<Rightarrow> dict \<Rightarrow> bool \<Rightarrow> ttl_store \<Rightarrow> thread_state result"
where
  "read_state load parse u tid gid kvs subgraphs s =
     bind_res (open_thread load u tid gid kvs) (\<lambda>(a, cfg).
     bind_res (ag_get_state a cfg subgraphs s) (\<lambda>snap.
       case snap of
         None \<Rightarrow> Inl (HTTPException 404)
       | Some sn \<Rightarrow> convert_snapshot parse tid subgraphs sn))"

definition get_thread_state ::
  "loader \<Rightarrow> (string \<Rightarrow> time option) \<Rightarrow> user \<Rightarrow> thread_id \<Rightarrow> bool \<Rightarrow> string option \<Rightarrow> ttl_store \<Rightarrow> thread_state result"
where
  "get_thread_state load parse u tid subgraphs ns s =
     http_or_500
       (bind_res (get_thread_graph_id u tid s) (\<lambda>gid.
          if \<not> json_truthy gid then Inr (empty_thread_state tid)
          else read_state load parse u tid gid (when_str ''checkpoint_ns'' ns) subgraphs s))"

definition get_thread_state_at_checkpoint ::
  "loader \<Rightarrow> (string \<Rightarrow> time option) \<Rightarrow> user \<Rightarrow> thread_id \<Rightarrow> string \<Rightarrow> bool option \<Rightarrow> string option \<Rightarrow> ttl_store
   \<Rightarrow> thread_state result"
where
  "get_thread_state_at_checkpoint load parse u tid cid subgraphs ns s =
     http_or_500
       (bind_res (get_thread_graph_id u tid s) (\<lambda>gid.
          if \<not> json_truthy gid then Inl (HTTPException 404)
          else read_state load parse u tid gid ((''checkpoint_id'', JStr cid) # when_str ''checkpoint_ns'' ns)
                 (subgraphs = Some True) s))"

text \<open>The request model of the POST variant has its own checkpoint record, whose thread is not read.\<close>

definition get_thread_state_at_checkpoint_post ::
  "loader \<Rightarrow> (string \<Rightarrow> time option) \<Rightarrow> user \<Rightarrow> thread_id \<Rightarrow> string option \<Rightarrow> string option \<Rightarrow> bool option \<Rightarrow> ttl_store
   \<Rightarrow> thread_state result"
where
  "get_thread_state_at_checkpoint_post load parse u tid cid ns subgraphs s =
     (if \<not> truthy_str cid then Inl (HTTPException 400)
      else get_thread_state_at_checkpoint load parse u tid (the cid) subgraphs (if truthy_str ns then ns else None) s)"

subsubsection \<open>Writing a state\<close>

text \<open>The values of an update as validated: an object, a list of objects, or null.\<close>

datatype state_values = NoValues | DictValues dict | ListValues "dict list"

record state_update =
  su_values :: state_values
  su_checkpoint :: "dict option"
  su_checkpoint_id :: "string option"
  su_as_node :: "string option"
  su_subgraphs :: "bool option"
  su_checkpoint_ns :: "string option"

definition update_values :: "state_values \<Rightarrow> json" where
  "update_values v =
     (case v of
        NoValues \<Rightarrow> JNull
      | DictValues d \<Rightarrow> JObj d
      | ListValues [] \<Rightarrow> JNull
      | ListValues ds \<Rightarrow> JObj (fold (\<lambda>item merged. dict_update merged item) ds []))"

definition state_target :: "state_update \<Rightarrow> dict" where
  "state_target rq =
     when_str ''checkpoint_id'' (su_checkpoint_id rq)
     @ strip_pinned_config_keys SERVER_PINNED_CONFIG_KEYS (or_empty_dict (su_checkpoint rq))
     @ when_str ''checkpoint_ns'' (su_checkpoint_ns rq)"

definition updated_checkpoint :: "thread_id \<Rightarrow> json \<Rightarrow> dict result" where
  "updated_checkpoint tid updated =
     (case updated of
        JObj c \<Rightarrow>
          bind_res (configurable_section c) (\<lambda>cc.
            Inr [(''checkpoint_id'', case map_of cc ''checkpoint_id'' of None \<Rightarrow> JNull | Some j \<Rightarrow> j),
                 (''thread_id'', JStr tid),
                 (''checkpoint_ns'', case map_of cc ''checkpoint_ns'' of None \<Rightarrow> JStr [] | Some j \<Rightarrow> j)])
      | _ \<Rightarrow> Inl (HTTPException 500))"

datatype state_reply = StateRead thread_state | StateWritten dict

definition write_state ::
  "loader \<Rightarrow> user \<Rightarrow> thread_id \<Rightarrow> state_update \<Rightarrow> ttl_store \<Rightarrow> dict result \<times> ttl_store"
where
  "write_state load u tid rq s =
     (case get_thread_graph_id u tid s of
        Inl e \<Rightarrow> (Inl e, s)
      | Inr gid \<Rightarrow>
          if \<not> json_truthy gid then (Inl (HTTPException 400), s)
          else
            (case open_thread load u tid gid (state_target rq) of
               Inl e \<Rightarrow> (Inl e, s)
             | Inr (a, cfg) \<Rightarrow>
                 (case ag_update_state a cfg (update_values (su_values rq)) (su_as_node rq) s of
                    (Inl e, s') \<Rightarrow> (Inl e, s')
                  | (Inr updated, s') \<Rightarrow> (updated_checkpoint tid updated, s'))))"

definition update_thread_state ::
  "loader \<Rightarrow> (string \<Rightarrow> time option) \<Rightarrow> user \<Rightarrow> thread_id \<Rightarrow> state_update \<Rightarrow> ttl_store \<Rightarrow> state_reply result \<times> ttl_store"
where
  "update_thread_state load parse u tid rq s =
     (if su_values rq = NoValues \<and> su_as_node rq = None \<and> su_checkpoint_id rq = None
         \<and> or_empty_dict (su_checkpoint rq) = []
      then (bind_res (get_thread_state load parse u tid (su_subgraphs rq = Some True) (su_checkpoint_ns rq) s)
              (\<lambda>st. Inr (StateRead st)), s)
      else
        (case write_state load u tid rq s of
           (r, s') \<Rightarrow> (http_or_500 (bind_res r (\<lambda>d. Inr (StateWritten d))), s')))"

subsubsection \<open>History\<close>

record history_request =
  hq_limit :: "int option"
  hq_before :: json
  hq_metadata :: "dict option"
  hq_checkpoint :: "dict option"
  hq_subgraphs :: "bool option"
  hq_checkpoint_ns :: "string option"

definition history_target :: "history_request \<Rightarrow> dict" where
  "history_target rq =
     (let ns = (\<lambda>d. case hq_checkpoint_ns rq of None \<Rightarrow> d | Some x \<Rightarrow> dict_setdefault ''checkpoint_ns'' (JStr x) d)
      in if or_empty_dict (hq_checkpoint rq) = [] then ns []
         else ns (strip_pinned_config_keys SERVER_PINNED_CONFIG_KEYS (or_empty_dict (hq_checkpoint rq))))"

definition before_config :: "json \<Rightarrow> json" where
  "before_config before =
     (case before of
        JStr cid \<Rightarrow> JObj [(''configurable'', JObj [(''checkpoint_id'', JStr cid)])]
      | JObj d \<Rightarrow> if map_of d ''configurable'' \<noteq> None then JObj d else JObj [(''configurable'', JObj d)]
      | _ \<Rightarrow> JNull)"

text \<open>
  The enumeration with the \<^verbatim>\<open>subgraphs\<close> flag, and again without it when that raises a
  \<open>TypeError\<close>: what the first had yielded stays in the list.
\<close>

definition collect_history ::
  "agent \<Rightarrow> dict \<Rightarrow> bool \<Rightarrow> int \<Rightarrow> json \<Rightarrow> dict option \<Rightarrow> ttl_store \<Rightarrow> graph_snapshot list result"
where
  "collect_history a cfg subgraphs limit before metadata s =
     (case ag_history a cfg (Some subgraphs) limit before metadata s of
        (xs, None) \<Rightarrow> Inr xs
      | (xs, Some TypeError) \<Rightarrow>
          (case ag_history a cfg None limit before metadata s of
             (ys, None) \<Rightarrow> Inr (xs @ ys)
           | (ys, Some e) \<Rightarrow> Inl e)
      | (xs, Some e) \<Rightarrow> Inl e)"

definition history_states ::
  "loader \<Rightarrow> (string \<Rightarrow> time option) \<Rightarrow> user \<Rightarrow> thread_id \<Rightarrow> history_request \<Rightarrow> ttl_store \<Rightarrow> thread_state list result"
where
  "history_states load parse u tid rq s =
     (let limit = (case hq_limit rq of None \<Rightarrow> 10 | Some n \<Rightarrow> if n = 0 then 10 else n)
      in if limit < 1 \<or> limit > 1000 then Inl (HTTPException 422)
         else
           bind_res (get_thread_graph_id u tid s) (\<lambda>gid.
             if \<not> json_truthy gid then Inr []
             else
               bind_res (open_thread load u tid gid (history_target rq)) (\<lambda>(a, cfg).
               bind_res (collect_history a cfg (hq_subgraphs rq = Some True) limit (before_config (hq_before rq))
                           (hq_metadata rq) s) (\<lambda>snaps.
                 Inr (convert_snapshots parse tid snaps)))))"

text \<open>\<open>missing\<close> says of an exception that its text mentions a missing checkpoint.\<close>

definition get_thread_history_post ::
  "loader \<Rightarrow> (string \<Rightarrow> time option) \<Rightarrow> (py_error \<Rightarrow> bool) \<Rightarrow> user \<Rightarrow> thread_id \<Rightarrow> history_request \<Rightarrow> ttl_store
   \<Rightarrow> thread_state list result"
where
  "get_thread_history_post load parse missing u tid rq s =
     (case history_states load parse u tid rq s of
        Inl (HTTPException n) \<Rightarrow> Inl (HTTPException n)
      | Inl e \<Rightarrow> if missing e then Inr [] else Inl (HTTPException 500)
      | Inr xs \<Rightarrow> Inr xs)"

definition get_thread_history_get ::
  "(string \<Rightarrow> json option) \<Rightarrow> loader \<Rightarrow> (string \<Rightarrow> time option) \<Rightarrow> (py_error \<Rightarrow> bool) \<Rightarrow> user \<Rightarrow> thread_id
   \<Rightarrow> int \<Rightarrow> string option \<Rightarrow> bool option \<Rightarrow> string option \<Rightarrow> string option \<Rightarrow> ttl_store \<Rightarrow> thread_state list result"
where
  "get_thread_history_get loads load parse missing u tid limit before subgraphs ns metadata s =
     (if limit < 1 \<or> limit > 1000 then Inl (HTTPException 422)
      else
        bind_res (if truthy_str metadata
                  then (case loads (the metadata) of
                          Some (JObj m) \<Rightarrow> Inr (Some m) | _ \<Rightarrow> Inl (HTTPException 422))
                  else Inr None) (\<lambda>md.
          get_thread_history_post load parse missing u tid
            \<lparr>hq_limit = Some limit, hq_before = json_of_opt JStr before, hq_metadata = md, hq_checkpoint = None,
             hq_subgraphs = subgraphs, hq_checkpoint_ns = ns\<rparr> s))"

subsection \<open>The configuration a state endpoint opens\<close>

text \<open>A configuration pinned to the thread and the caller.\<close>

definition pinned_to :: "thread_id \<Rightarrow> user \<Rightarrow> dict \<Rightarrow> bool" where
  "pinned_to tid u cfg =
     (cfg_key cfg ''thread_id'' = Some (JStr tid) \<and> cfg_key cfg ''user_id'' = Some (JStr (identity u))
      \<and> cfg_key cfg ''langgraph_auth_user'' = Some (JUser u))"

definition unpinned :: "dict \<Rightarrow> bool" where
  "unpinned kvs = (fst ` set kvs \<inter> set SERVER_PINNED_CONFIG_KEYS = {})"

lemma unpinned_strip [simp]: "unpinned (strip_pinned_config_keys SERVER_PINNED_CONFIG_KEYS d)"
  by (auto simp: unpinned_def keys_strip_pinned)

lemma unpinned_Nil [simp]: "unpinned []"
  by (simp add: unpinned_def)

lemma unpinned_Cons: "unpinned (kv # d) \<longleftrightarrow> fst kv \<notin> set SERVER_PINNED_CONFIG_KEYS \<and> unpinned d"
  by (auto simp: unpinned_def)

lemma unpinned_append: "unpinned (d @ e) \<longleftrightarrow> unpinned d \<and> unpinned e"
  by (auto simp: unpinned_def)

lemma free_checkpoint_keys:
  "''checkpoint_ns'' \<notin> set SERVER_PINNED_CONFIG_KEYS" "''checkpoint_id'' \<notin> set SERVER_PINNED_CONFIG_KEYS"
  by (simp_all add: SERVER_PINNED_CONFIG_KEYS_def SERVER_PINNED_IDENTITY_KEYS_def)

lemma unpinned_when_str [simp]:
  "unpinned (when_str ''checkpoint_ns'' v)" "unpinned (when_str ''checkpoint_id'' v)"
  by (simp_all add: when_str_def unpinned_Cons free_checkpoint_keys)

lemma unpinned_setdefault: "unpinned d \<Longrightarrow> k \<notin> set SERVER_PINNED_CONFIG_KEYS \<Longrightarrow> unpinned (dict_setdefault k v d)"
  by (simp add: dict_setdefault_def unpinned_append unpinned_Cons)

lemma unpinned_targets [simp]: "unpinned (state_target rq)" "unpinned (history_target hq)"
  by (simp_all add: state_target_def history_target_def unpinned_append unpinned_setdefault
      free_checkpoint_keys Let_def split: option.splits)

lemma create_thread_config_pinned:
  "create_thread_config tid (Some u) None = Inr cfg \<Longrightarrow> pinned_to tid u cfg"
  unfolding create_thread_config_def Let_def pinned_to_def
  using inject_user_context_cfg_key [of u _ cfg]
  by (auto simp: SERVER_PINNED_IDENTITY_KEYS_def cfg_key_def)

lemma set_configurable_pinned:
  assumes "set_configurable kvs cfg = Inr cfg'" and "unpinned kvs" and "pinned_to tid u cfg"
  shows "pinned_to tid u cfg'"
proof -
  have "map_of (rev kvs) k = None" if "k \<in> set SERVER_PINNED_CONFIG_KEYS" for k
    using assms(2) that by (auto simp: unpinned_def map_of_eq_None_iff)
  then show ?thesis
    using assms(3) by (simp add: pinned_to_def set_configurable_InrD(1) [OF assms(1)]
        SERVER_PINNED_CONFIG_KEYS_def SERVER_PINNED_IDENTITY_KEYS_def)
qed

lemma open_thread_pinned:
  "open_thread load u tid gid kvs = Inr (a, cfg) \<Longrightarrow> unpinned kvs \<Longrightarrow>
   load gid cfg = Inr a \<and> pinned_to tid u cfg"
  by (auto simp: open_thread_def dest!: bind_res_InrD
      intro: set_configurable_pinned create_thread_config_pinned)

text \<open>
  Two graphs that cannot be told apart by configurations pinned to the thread and the caller, and
  two ways of opening graphs with the same relation.
\<close>

definition same_agent :: "thread_id \<Rightarrow> user \<Rightarrow> agent \<Rightarrow> agent \<Rightarrow> bool" where
  "same_agent tid u a b =
     (\<forall>cfg. pinned_to tid u cfg \<longrightarrow>
        ag_get_state a cfg = ag_get_state b cfg \<and> ag_update_state a cfg = ag_update_state b cfg
        \<and> ag_history a cfg = ag_history b cfg)"

definition same_when_pinned :: "thread_id \<Rightarrow> user \<Rightarrow> loader \<Rightarrow> loader \<Rightarrow> bool" where
  "same_when_pinned tid u load load' =
     (\<forall>gid cfg. pinned_to tid u cfg \<longrightarrow> rel_sum (=) (same_agent tid u) (load gid cfg) (load' gid cfg))"

lemma same_collect:
  "ag_history a cfg = ag_history b cfg \<Longrightarrow> collect_history a cfg = collect_history b cfg"
  unfolding collect_history_def [abs_def] by (simp cong: option.case_cong py_error.case_cong prod.case_cong)

lemma same_open:
  assumes "same_when_pinned tid u load load'" and "unpinned kvs"
  shows "(\<exists>e. open_thread load u tid gid kvs = Inl e \<and> open_thread load' u tid gid kvs = Inl e) \<or>
    (\<exists>a b cfg. open_thread load u tid gid kvs = Inr (a, cfg) \<and> open_thread load' u tid gid kvs = Inr (b, cfg)
       \<and> ag_get_state a cfg = ag_get_state b cfg \<and> ag_update_state a cfg = ag_update_state b cfg
       \<and> collect_history a cfg = collect_history b cfg)"
proof (cases "bind_res (create_thread_config tid (Some u) None) (set_configurable kvs)")
  case (Inl e)
  then show ?thesis
    by (auto simp: open_thread_def bind_res_def split: sum.splits)
next
  case (Inr cfg)
  then have p: "pinned_to tid u cfg"
    by (auto dest!: bind_res_InrD intro: set_configurable_pinned create_thread_config_pinned assms(2))
  have o: "open_thread l u tid gid kvs = bind_res (l gid cfg) (\<lambda>a. Inr (a, cfg))" for l
    using Inr by (auto simp: open_thread_def bind_res_def split: sum.splits)
  from p assms(1) have "rel_sum (=) (same_agent tid u) (load gid cfg) (load' gid cfg)"
    by (simp add: same_when_pinned_def)
  then show ?thesis
    using p by (auto simp: o same_agent_def intro!: same_collect dest!: spec [of _ cfg] elim!: rel_sum.cases)
qed

lemma same_read_state:
  assumes "same_when_pinned tid u load load'" and "unpinned kvs"
  shows "read_state load parse u tid gid kvs sub s = read_state load' parse u tid gid kvs sub s"
  using same_open [OF assms, of gid] by (auto simp: read_state_def)

lemma same_write_state:
  assumes "same_when_pinned tid u load load'"
  shows "write_state load u tid rq s = write_state load' u tid rq s"
proof (cases "get_thread_graph_id u tid s")
  case (Inr gid)
  with same_open [OF assms unpinned_targets(1), of gid rq] show ?thesis
    by (auto simp: write_state_def)
qed (simp add: write_state_def)

lemma same_history:
  assumes "same_when_pinned tid u load load'"
  shows "history_states load parse u tid rq s = history_states load' parse u tid rq s"
proof (cases "get_thread_graph_id u tid s")
  case (Inr gid)
  from same_open [OF assms unpinned_targets(2), of gid rq] show ?thesis
    by (elim disjE exE conjE) (simp_all add: history_states_def Let_def Inr)
qed (simp add: history_states_def Let_def)

text \<open>
  Claim C9.  Every state and history endpoint opens and queries the thread's graph only with
  configurations pinned to the thread of the URL and to the caller: two servers whose graphs agree
  on those configurations (and differ arbitrarily on all others) answer every request alike,
  whatever checkpoint, namespace or \<^verbatim>\<open>thread_id\<close> the body names.
\<close>

theorem thread_state_pinned:
  assumes "same_when_pinned tid u load load'"
  shows "get_thread_state load parse u tid sub ns s = get_thread_state load' parse u tid sub ns s
    \<and> update_thread_state load parse u tid rq s = update_thread_state load' parse u tid rq s
    \<and> get_thread_state_at_checkpoint load parse u tid cid osub ns s
        = get_thread_state_at_checkpoint load' parse u tid cid osub ns s
    \<and> get_thread_state_at_checkpoint_post load parse u tid ocid ns osub s
        = get_thread_state_at_checkpoint_post load' parse u tid ocid ns osub s
    \<and> get_thread_history_post load parse missing u tid hq s
        = get_thread_history_post load' parse missing u tid hq s
    \<and> get_thread_history_get loads load parse missing u tid limit before osub ns md s
        = get_thread_history_get loads load' parse missing u tid limit before osub ns md s"
proof -
  note same = same_read_state [OF assms] same_write_state [OF assms] same_history [OF assms]
  have get: "get_thread_state load parse u tid sub ns s = get_thread_state load' parse u tid sub ns s" for sub ns
    by (simp add: get_thread_state_def same cong: if_cong)
  have cp: "get_thread_state_at_checkpoint load parse u tid cid osub ns s
      = get_thread_state_at_checkpoint load' parse u tid cid osub ns s" for cid ns
    by (simp add: get_thread_state_at_checkpoint_def same unpinned_Cons free_checkpoint_keys cong: if_cong)
  show ?thesis
    by (simp add: get cp same get_thread_state_at_checkpoint_post_def update_thread_state_def
        get_thread_history_get_def get_thread_history_post_def cong: if_cong)
qed
definition alice_user :: user where
  "alice_user = \<lparr>identity = ''alice'', is_authenticated = True, permissions = [], display_name = [],
                   org_id = None, email = None\<rparr>"

definition example_agent :: agent where
  "example_agent =
     \<lparr>ag_get_state = (\<lambda>cfg sub s. Inr None),
      ag_update_state = (\<lambda>cfg v n s. (Inr (JObj cfg),
        s\<lparr>ts_checkpoints := ts_checkpoints s @
            [\<lparr>cp_thread = (case cfg_key cfg ''thread_id'' of Some (JStr t) \<Rightarrow> t | _ \<Rightarrow> []), cp_ns = [],
              cp_id = ''c1'', cp_versions = []\<rparr>]\<rparr>)),
      ag_history = (\<lambda>cfg sub limit before md s. ([], None))\<rparr>"

definition two_tenants :: ttl_store where
  "two_tenants =
     \<lparr>ts_db = \<lparr>runs = [], threads =
        [\<lparr>t_thread_id = ''t1'', t_status = Idle, t_metadata = JObj [(''graph_id'', JStr ''g'')], t_user_id = ''alice'',
          t_created_at = 0, t_updated_at = 0\<rparr>,
         \<lparr>t_thread_id = ''t2'', t_status = Idle, t_metadata = JObj [(''team'', JStr ''red'')], t_user_id = ''bob'',
          t_created_at = 1, t_updated_at = 1\<rparr>]\<rparr>,
      ts_ttl = [], ts_checkpoints = [], ts_writes = [], ts_blobs = []\<rparr>"

definition strict_load :: loader where
  "strict_load = (\<lambda>gid cfg. if pinned_to ''t1'' alice_user cfg then Inr example_agent else Inl RuntimeError)"

theorem thread_state_pinned_witness:
  "same_when_pinned ''t1'' alice_user (\<lambda>gid cfg. Inr example_agent) strict_load
   \<and> (\<lambda>gid cfg. Inr example_agent) \<noteq> strict_load
   \<and> get_thread_state (\<lambda>gid cfg. Inr example_agent) (\<lambda>_. None) alice_user ''t1'' False None two_tenants
       = get_thread_state strict_load (\<lambda>_. None) alice_user ''t1'' False None two_tenants
   \<and> get_thread_state strict_load (\<lambda>_. None) alice_user ''t1'' False None two_tenants = Inl (HTTPException 404)"
proof (intro conjI)
  show same: "same_when_pinned ''t1'' alice_user (\<lambda>gid cfg. Inr example_agent) strict_load"
    by (simp add: same_when_pinned_def strict_load_def same_agent_def)
  show "(\<lambda>gid cfg. Inr example_agent) \<noteq> strict_load"
  proof
    assume "(\<lambda>gid cfg. Inr example_agent) = strict_load"
    then have "strict_load JNull [] = Inr example_agent" by metis
    then show False by (simp add: strict_load_def pinned_to_def cfg_key_def)
  qed
  show eq: "get_thread_state (\<lambda>gid cfg. Inr example_agent) (\<lambda>_. None) alice_user ''t1'' False None two_tenants
       = get_thread_state strict_load (\<lambda>_. None) alice_user ''t1'' False None two_tenants"
    by (rule thread_state_pinned [OF same, THEN conjunct1])
  show "get_thread_state strict_load (\<lambda>_. None) alice_user ''t1'' False None two_tenants = Inl (HTTPException 404)"
    unfolding eq [symmetric]
    by (simp add: get_thread_state_def get_thread_graph_id_def two_tenants_def alice_user_def first_where_def
        read_state_def open_thread_def create_thread_config_def inject_user_context_def set_configurable_def
        dict_setdefault_def when_str_def truthy_str_def example_agent_def http_or_500_def)
qed

subsection \<open>Tenants\<close>

text \<open>Everything the store holds of one thread.\<close>

definition slice ::
  "thread_id \<Rightarrow> ttl_store \<Rightarrow> thread_row list \<times> run_row list \<times> ttl_row list \<times> checkpoint_row list \<times> write_row list \<times> blob_row list"
where
  "slice tid s =
     (select_where (\<lambda>t. t_thread_id t = tid) (threads (ts_db s)), select_where (\<lambda>r. r_thread_id r = tid) (runs (ts_db s)),
      select_where (\<lambda>l. l_thread_id l = tid) (ts_ttl s), select_where (\<lambda>c. cp_thread c = tid) (ts_checkpoints s),
      select_where (\<lambda>w. wr_thread w = tid) (ts_writes s), select_where (\<lambda>b. bl_thread b = tid) (ts_blobs s))"

datatype thread_op =
    CreateThread time thread_id thread_create
  | UpdateThread time thread_id "dict option"
  | RemoveThread bool thread_id
  | WriteState thread_id state_update

definition thread_step ::
  "thread_env \<Rightarrow> loader \<Rightarrow> (string \<Rightarrow> time option) \<Rightarrow> (run_id \<Rightarrow> ttl_store \<Rightarrow> ttl_store) \<Rightarrow> user \<Rightarrow> thread_op
   \<Rightarrow> ttl_store \<Rightarrow> ttl_store"
where
  "thread_step env load parse cancel u op s =
     (case op of
        CreateThread now new_id rq \<Rightarrow> snd (create_thread env now new_id (identity u) rq s)
      | UpdateThread now tid md \<Rightarrow> snd (update_thread env now (identity u) tid md s)
      | RemoveThread fails tid \<Rightarrow> snd (delete_thread env cancel fails (identity u) tid s)
      | WriteState tid rq \<Rightarrow> snd (update_thread_state load parse u tid rq s))"

text \<open>
  What the endpoints rely on.  Cancelling a run touches the data of no thread the run does not
  belong to, and a graph's state update touches only the thread its configuration names: the
  checkpointer's tables are keyed by thread.
\<close>

definition cancel_local :: "(run_id \<Rightarrow> ttl_store \<Rightarrow> ttl_store) \<Rightarrow> bool" where
  "cancel_local cancel =
     (\<forall>rid s t. rid \<notin> r_run_id ` set (select_where (\<lambda>r. r_thread_id r = t) (runs (ts_db s))) \<longrightarrow>
        slice t (cancel rid s) = slice t s)"

definition agents_local :: "loader \<Rightarrow> bool" where
  "agents_local load =
     (\<forall>gid cfg a cfg' v n s tid t.
        load gid cfg = Inr a \<longrightarrow> cfg_key cfg' ''thread_id'' = Some (JStr tid) \<longrightarrow> t \<noteq> tid \<longrightarrow>
        slice t (snd (ag_update_state a cfg' v n s)) = slice t s)"

lemma slice_cancel:
  assumes "cancel_local cancel"
  shows "set rids \<inter> r_run_id ` set (select_where (\<lambda>r. r_thread_id r = t) (runs (ts_db s))) = {} \<Longrightarrow>
    slice t (fold cancel rids s) = slice t s"
proof (induction rids arbitrary: s)
  case (Cons rid rids)
  have one: "slice t (cancel rid s) = slice t s"
    using assms Cons.prems unfolding cancel_local_def by simp
  then have "select_where (\<lambda>r. r_thread_id r = t) (runs (ts_db (cancel rid s)))
      = select_where (\<lambda>r. r_thread_id r = t) (runs (ts_db s))"
    by (simp add: slice_def)
  with Cons.prems have "slice t (fold cancel rids (cancel rid s)) = slice t (cancel rid s)"
    by (intro Cons.IH) auto
  with one show ?case by simp
qed simp

lemma slice_delete_thread_row: "t \<noteq> tid \<Longrightarrow> slice t (delete_thread_row tid (delete_checkpoints tid s)) = slice t s"
  by (auto simp: slice_def delete_thread_row_def delete_checkpoints_def intro!: select_delete_other)

lemma owned_thread_id:
  assumes "wf_db d" and "t \<in> set (threads d)" and "t_user_id t \<noteq> uid"
    and "x \<in> set (threads d)" and "t_user_id x = uid"
  shows "t_thread_id t \<noteq> t_thread_id x"
  using assms unique_key [of t_thread_id "threads d" t x] by (auto simp: wf_db_def)

lemma run_thread_unique:
  "wf_db d \<Longrightarrow> r \<in> set (runs d) \<Longrightarrow> r' \<in> set (runs d) \<Longrightarrow> r_run_id r = r_run_id r' \<Longrightarrow> r_thread_id r = r_thread_id r'"
  using unique_key [of r_run_id "runs d" r r'] by (simp add: wf_db_def)

lemma resolve_ttl_row_thread: "resolve_ttl_row c now tid rq = Inr (Some l) \<Longrightarrow> l_thread_id l = tid"
  by (auto simp: resolve_ttl_row_def Let_def split: option.splits)

lemma create_thread_store:
  "snd (create_thread env now new_id uid rq s) = s \<or>
   (\<exists>x ls. first_where (\<lambda>y. t_thread_id y = t_thread_id x) (threads (ts_db s)) = None \<and> t_user_id x = uid
      \<and> (\<forall>l \<in> set ls. l_thread_id l = t_thread_id x)
      \<and> snd (create_thread env now new_id uid rq s)
          = s\<lparr>ts_db := (ts_db s)\<lparr>threads := threads (ts_db s) @ [x]\<rparr>, ts_ttl := ts_ttl s @ ls\<rparr>)"
proof -
  let ?tid = "if truthy_str (tc_thread_id rq) then the (tc_thread_id rq) else new_id"
  consider (refused) "snd (create_thread env now new_id uid rq s) = s"
    | (made) filters v ttl where "te_authorize env ''create'' (dump_thread_create rq) = Inr (filters, v)"
      "resolve_ttl_row (te_ttl_config env) now ?tid (tc_ttl rq) = Inr ttl"
      "first_where (\<lambda>x. t_thread_id x = ?tid) (threads (ts_db s)) = None"
    by (cases "te_authorize env ''create'' (dump_thread_create rq)";
        cases "resolve_ttl_row (te_ttl_config env) now ?tid (tc_ttl rq)";
        cases "first_where (\<lambda>x. t_thread_id x = ?tid) (threads (ts_db s))")
      (auto simp: create_thread_def Let_def split: option.splits)
  then show ?thesis
  proof cases
    case made
    let ?ls = "case ttl of None \<Rightarrow> [] | Some l \<Rightarrow> [l]"
    have "\<forall>l \<in> set ?ls. l_thread_id l = ?tid"
      using made(2) by (auto dest: resolve_ttl_row_thread split: option.splits)
    with made show ?thesis
      by (intro disjI2 exI [of _ "\<lparr>t_thread_id = ?tid, t_status = Idle,
            t_metadata = process_bind_param (JObj (new_thread_metadata uid (handler_metadata filters v (tc_metadata rq)))),
            t_user_id = uid, t_created_at = now, t_updated_at = now\<rparr>"] exI [of _ ?ls])
        (simp add: create_thread_def Let_def)
  qed simp
qed

lemma slice_create_thread:
  assumes "t \<in> set (threads (ts_db s))"
  shows "slice (t_thread_id t) (snd (create_thread env now new_id uid rq s)) = slice (t_thread_id t) s"
  using create_thread_store [of env now new_id uid rq s]
proof (elim disjE exE conjE)
  fix x ls
  assume new: "first_where (\<lambda>y. t_thread_id y = t_thread_id x) (threads (ts_db s)) = None"
    "\<forall>l \<in> set ls. l_thread_id l = t_thread_id x"
    "snd (create_thread env now new_id uid rq s)
       = s\<lparr>ts_db := (ts_db s)\<lparr>threads := threads (ts_db s) @ [x]\<rparr>, ts_ttl := ts_ttl s @ ls\<rparr>"
  from new(1) assms have "t_thread_id x \<noteq> t_thread_id t" by (auto simp: first_where_None_iff)
  with new(2) have "select_where (\<lambda>l. l_thread_id l = t_thread_id t) ls = []"
    "select_where (\<lambda>y. t_thread_id y = t_thread_id t) [x] = []"
    by (auto simp: select_where_Nil_iff)
  then show ?thesis by (simp add: new(3) slice_def)
qed simp

lemma slice_update_thread:
  assumes "wf_db (ts_db s)" and "t \<in> set (threads (ts_db s))" and "t_user_id t \<noteq> uid"
  shows "slice (t_thread_id t) (snd (update_thread env now uid tid md s)) = slice (t_thread_id t) s"
proof (cases "t_thread_id t = tid")
  case True
  have "first_where (\<lambda>x. t_thread_id x = tid \<and> t_user_id x = uid) (threads (ts_db s)) = None"
    unfolding first_where_None_iff using owned_thread_id [OF assms] True by metis
  then show ?thesis by (simp add: update_thread_def Let_def split: sum.split)
next
  case False
  then show ?thesis
    by (auto simp: update_thread_def Let_def slice_def intro!: select_update_where_other
        split: sum.split option.split)
qed

lemma slice_delete_thread:
  assumes "wf_db (ts_db s)" and "t \<in> set (threads (ts_db s))" and "t_user_id t \<noteq> uid" and "cancel_local cancel"
  shows "slice (t_thread_id t) (snd (delete_thread env cancel fails uid tid s)) = slice (t_thread_id t) s"
proof (cases "\<exists>x \<in> set (threads (ts_db s)). t_thread_id x = tid \<and> t_user_id x = uid")
  case True
  with owned_thread_id [OF assms(1-3)] have ne: "t_thread_id t \<noteq> tid" by metis
  let ?act = "map r_run_id (select_where (\<lambda>r. r_thread_id r = tid \<and> r_user_id r = uid \<and> is_active r) (runs (ts_db s)))"
  have "set ?act \<inter> r_run_id ` set (select_where (\<lambda>r. r_thread_id r = t_thread_id t) (runs (ts_db s))) = {}"
  proof (unfold disjoint_iff, intro allI impI notI)
    fix rid
    assume "rid \<in> set ?act"
    then obtain r where r: "r \<in> set (runs (ts_db s))" "r_run_id r = rid" "r_thread_id r = tid" by auto
    assume "rid \<in> r_run_id ` set (select_where (\<lambda>r. r_thread_id r = t_thread_id t) (runs (ts_db s)))"
    then obtain r' where "r' \<in> set (runs (ts_db s))" "r_run_id r' = rid" "r_thread_id r' = t_thread_id t" by auto
    with r run_thread_unique [OF assms(1), of r r'] ne show False by simp
  qed
  from slice_cancel [OF assms(4) this] show ?thesis
    by (auto simp: delete_thread_def Let_def slice_delete_thread_row [OF ne] split: sum.split option.split)
next
  case False
  then have "first_where (\<lambda>x. t_thread_id x = tid \<and> t_user_id x = uid \<and> ok (t_metadata x)) (threads (ts_db s)) = None" for ok
    by (auto simp: first_where_None_iff)
  then show ?thesis by (simp add: delete_thread_def split: sum.split)
qed

lemma get_thread_graph_id_InrD:
  "get_thread_graph_id u tid s = Inr gid \<Longrightarrow> \<exists>x \<in> set (threads (ts_db s)). t_thread_id x = tid \<and> t_user_id x = identity u"
  by (auto simp: get_thread_graph_id_def dest: first_where_SomeD split: option.splits)

lemma slice_write_state:
  assumes "wf_db (ts_db s)" and "t \<in> set (threads (ts_db s))" and "t_user_id t \<noteq> identity u" and "agents_local load"
  shows "slice (t_thread_id t) (snd (write_state load u tid rq s)) = slice (t_thread_id t) s"
proof (cases "get_thread_graph_id u tid s")
  case (Inr gid)
  with get_thread_graph_id_InrD owned_thread_id [OF assms(1-3)] have ne: "t_thread_id t \<noteq> tid" by metis
  show ?thesis
  proof (cases "open_thread load u tid gid (state_target rq)")
    case (Inr ac)
    obtain a cfg where ac: "ac = (a, cfg)" by (cases ac)
    from open_thread_pinned [OF Inr [unfolded ac] unpinned_targets(1)]
    have "slice (t_thread_id t) (snd (ag_update_state a cfg v n s)) = slice (t_thread_id t) s" for v n
      using assms(4) ne by (auto simp: agents_local_def pinned_to_def)
    from this [of "update_values (su_values rq)" "su_as_node rq"] show ?thesis
      using \<open>get_thread_graph_id u tid s = Inr gid\<close> Inr ac
      by (auto simp: write_state_def split: prod.split sum.split)
  qed (simp add: write_state_def \<open>get_thread_graph_id u tid s = Inr gid\<close>)
qed (simp add: write_state_def)

text \<open>
  Claim C10.  Tenant isolation of the thread endpoints: creating, updating and deleting threads and
  writing thread states on behalf of one user changes nothing the store holds of another user's
  thread: its row, its runs, its retention row, its checkpoints, writes and blobs.
\<close>

theorem threads_tenant_isolation:
  assumes "wf_db (ts_db s)" and "t \<in> set (threads (ts_db s))" and "t_user_id t \<noteq> identity u"
    and "cancel_local cancel" and "agents_local load"
  shows "slice (t_thread_id t) (thread_step env load parse cancel u op s) = slice (t_thread_id t) s"
proof (cases op)
  case (WriteState tid rq)
  with slice_write_state [OF assms(1-3,5), of tid rq] show ?thesis
    by (cases "write_state load u tid rq s") (simp add: thread_step_def update_thread_state_def)
qed (simp_all add: thread_step_def assms slice_create_thread slice_update_thread slice_delete_thread)
definition example_cancel :: "run_id \<Rightarrow> ttl_store \<Rightarrow> ttl_store" where
  "example_cancel rid s =
     s\<lparr>ts_db := (ts_db s)\<lparr>runs := update_where (\<lambda>r. r_run_id r = rid) (\<lambda>r. r\<lparr>r_status := Interrupted\<rparr>) (runs (ts_db s))\<rparr>\<rparr>"

definition permissive_env :: thread_env where
  "permissive_env = \<lparr>te_authorize = (\<lambda>action value. Inr (None, value)), te_contains = (\<lambda>_ _. True), te_collate = id,
               te_ttl_config = None, te_max_search_limit = 100\<rparr>"

definition example_patch :: state_update where
  "example_patch = \<lparr>su_values = DictValues [(''x'', JInt 1)], su_checkpoint = Some [(''thread_id'', JStr ''t2'')],
                    su_checkpoint_id = None, su_as_node = None, su_subgraphs = None, su_checkpoint_ns = None\<rparr>"

lemma example_cancel_local: "cancel_local example_cancel"
  by (auto simp: cancel_local_def slice_def example_cancel_def intro!: select_rewritten_other)

lemma example_agents_local: "agents_local (\<lambda>gid cfg. Inr example_agent)"
  by (auto simp: agents_local_def slice_def example_agent_def select_where_def)

theorem threads_tenant_isolation_witness:
  "slice ''t2'' (thread_step permissive_env (\<lambda>gid cfg. Inr example_agent) (\<lambda>_. None) example_cancel alice_user
      (WriteState ''t1'' example_patch) two_tenants) = slice ''t2'' two_tenants
   \<and> thread_step permissive_env (\<lambda>gid cfg. Inr example_agent) (\<lambda>_. None) example_cancel alice_user
      (WriteState ''t1'' example_patch) two_tenants \<noteq> two_tenants"
proof
  let ?t = "threads (ts_db two_tenants) ! 1"
  have t: "wf_db (ts_db two_tenants)" "?t \<in> set (threads (ts_db two_tenants))"
    "t_user_id ?t \<noteq> identity alice_user" "t_thread_id ?t = ''t2''"
    by (simp_all add: two_tenants_def wf_db_def alice_user_def)
  show "slice ''t2'' (thread_step permissive_env (\<lambda>gid cfg. Inr example_agent) (\<lambda>_. None) example_cancel alice_user
      (WriteState ''t1'' example_patch) two_tenants) = slice ''t2'' two_tenants"
    using threads_tenant_isolation [OF t(1-3) example_cancel_local example_agents_local] by (simp only: t(4))
  show "thread_step permissive_env (\<lambda>gid cfg. Inr example_agent) (\<lambda>_. None) example_cancel alice_user
      (WriteState ''t1'' example_patch) two_tenants \<noteq> two_tenants"
    by (simp add: thread_step_def update_thread_state_def write_state_def get_thread_graph_id_def two_tenants_def
        alice_user_def example_patch_def first_where_def open_thread_def create_thread_config_def
        inject_user_context_def set_configurable_def dict_setdefault_def example_agent_def or_empty_dict_def)
qed

subsection \<open>Handler filters\<close>

lemma rejected_not_found:
  assumes "wf_db (ts_db s)" and "t \<in> set (threads (ts_db s))" and "\<not> ok (t_metadata t)"
  shows "first_where (\<lambda>x. t_thread_id x = t_thread_id t \<and> t_user_id x = uid \<and> ok (t_metadata x)) (threads (ts_db s)) = None"
proof -
  have "\<not> (t_thread_id x = t_thread_id t \<and> t_user_id x = uid \<and> ok (t_metadata x))" if "x \<in> set (threads (ts_db s))" for x
    using that assms unique_key [of t_thread_id "threads (ts_db s)" x t] by (auto simp: wf_db_def)
  then show ?thesis by (simp add: first_where_None_iff)
qed

lemma owned_found:
  assumes "wf_db d" and "t \<in> set (threads d)"
  shows "first_where (\<lambda>x. t_thread_id x = t_thread_id t \<and> t_user_id x = t_user_id t) (threads d) = Some t"
proof (cases "first_where (\<lambda>x. t_thread_id x = t_thread_id t \<and> t_user_id x = t_user_id t) (threads d)")
  case None
  with assms(2) show ?thesis by (auto simp: first_where_None_iff)
next
  case (Some x)
  then have x: "x \<in> set (threads d)" "t_thread_id x = t_thread_id t" by (auto dest: first_where_SomeD)
  with assms have "x = t" using unique_key [of t_thread_id "threads d" x t] by (simp add: wf_db_def)
  with Some show ?thesis by simp
qed

text \<open>
  A handler's filter that rejects a caller's thread hides it from listing, reading and
  deletion, but not from updating: the update endpoint runs the handler and then ignores the filter
  it returned.
\<close>

theorem update_ignores_handler_filter:
  assumes "wf_db (ts_db s)" and "t \<in> set (threads (ts_db s))"
    and "\<And>action value. te_authorize env action value = Inr (filters, value)"
    and "auth_filter (te_contains env) filters = Inr ok" and "\<not> ok (t_metadata t)"
  shows "get_thread env (t_user_id t) (t_thread_id t) s = Inl (HTTPException 404)
    \<and> delete_thread env cancel fails (t_user_id t) (t_thread_id t) s = (Inl (HTTPException 404), s)
    \<and> (\<exists>ts. list_threads env (t_user_id t) s = Inr ts \<and> t_thread_id t \<notin> t_thread_id ` set ts)
    \<and> (\<exists>x s'. update_thread env now (t_user_id t) (t_thread_id t) md s = (Inr x, s')
           \<and> t_thread_id x = t_thread_id t \<and> t_updated_at x = now)"
proof (intro conjI)
  note gone = rejected_not_found [OF assms(1,2), of ok, OF assms(5)]
  show "get_thread env (t_user_id t) (t_thread_id t) s = Inl (HTTPException 404)"
    by (simp add: get_thread_def assms(3,4) gone)
  show "delete_thread env cancel fails (t_user_id t) (t_thread_id t) s = (Inl (HTTPException 404), s)"
    by (simp add: delete_thread_def assms(3,4) gone)
  let ?ts = "select_where (\<lambda>x. t_user_id x = t_user_id t \<and> ok (t_metadata x)) (threads (ts_db s))"
  have ids: "t_thread_id ` set (map (serialize_thread None) ?ts) = t_thread_id ` set ?ts"
    by (auto simp: serialize_thread_def image_image)
  have "t_thread_id x \<noteq> t_thread_id t" if "x \<in> set (threads (ts_db s))" "ok (t_metadata x)" for x
    using that assms(1,2,5) unique_key [of t_thread_id "threads (ts_db s)" x t] by (auto simp: wf_db_def)
  then have "t_thread_id t \<notin> t_thread_id ` set ?ts" unfolding set_select_where by fastforce
  then have "t_thread_id t \<notin> t_thread_id ` set (map (serialize_thread None) ?ts)" unfolding ids .
  moreover have "list_threads env (t_user_id t) s = Inr (map (serialize_thread None) ?ts)"
    by (simp add: list_threads_def assms(3,4))
  ultimately show "\<exists>ts. list_threads env (t_user_id t) s = Inr ts \<and> t_thread_id t \<notin> t_thread_id ` set ts"
    by blast
  show "\<exists>x s'. update_thread env now (t_user_id t) (t_thread_id t) md s = (Inr x, s')
           \<and> t_thread_id x = t_thread_id t \<and> t_updated_at x = now"
    by (simp add: update_thread_def assms(3) Let_def owned_found [OF assms(1,2)] serialize_thread_def)
qed

definition team_env :: thread_env where
  "team_env = permissive_env\<lparr>te_authorize := (\<lambda>action value. Inr (Some [(''team'', JStr ''blue'')], value)),
                       te_contains := (=)\<rparr>"

theorem update_ignores_handler_filter_witness:
  "get_thread team_env ''bob'' ''t2'' two_tenants = Inl (HTTPException 404)
   \<and> (\<exists>x s'. update_thread team_env 5 ''bob'' ''t2'' None two_tenants = (Inr x, s')
        \<and> t_thread_id x = ''t2'' \<and> t_updated_at x = 5)"
proof -
  let ?t = "threads (ts_db two_tenants) ! 1"
  have t: "wf_db (ts_db two_tenants)" "?t \<in> set (threads (ts_db two_tenants))"
    "t_user_id ?t = ''bob''" "t_thread_id ?t = ''t2''" "t_metadata ?t = JObj [(''team'', JStr ''red'')]"
    by (simp_all add: two_tenants_def wf_db_def)
  obtain ok where ok: "auth_filter (te_contains team_env) (Some [(''team'', JStr ''blue'')]) = Inr ok"
    "\<not> ok (t_metadata ?t)"
    unfolding t(5)
    by (simp add: auth_filter_def build_metadata_filter_def team_env_def unwrap_metadata_envelope_def
        compile_filters.simps bool_op_def MAX_FILTER_DEPTH_def compile_field_def)
  have "te_authorize team_env action v = Inr (Some [(''team'', JStr ''blue'')], v)" for action v
    by (simp add: team_env_def)
  from update_ignores_handler_filter [OF t(1,2) this ok, of example_cancel False 5 None]
  show ?thesis unfolding t(3,4) by blast
qed

subsection \<open>Search\<close>

lemma thread_matches_page [simp]:
  "thread_matches env uid ok (rq\<lparr>tq_limit := l, tq_offset := n\<rparr>) = thread_matches env uid ok rq"
  by (simp add: thread_matches_def fun_eq_iff)

lemma resolve_thread_sort_page [simp]: "resolve_thread_sort (rq\<lparr>tq_limit := l, tq_offset := n\<rparr>) = resolve_thread_sort rq"
  by (simp add: resolve_thread_sort_def cong: if_cong option.case_cong)

lemma validate_page:
  "validate_thread_search cap (rq\<lparr>tq_limit := Some n\<rparr>) = Inr rq' \<Longrightarrow>
   validate_thread_search cap (rq\<lparr>tq_limit := Some n, tq_offset := m\<rparr>) = Inr (rq\<lparr>tq_limit := Some n, tq_offset := m\<rparr>)"
  by (auto simp: validate_thread_search_def resolve_search_limit_def split: if_splits option.splits sum.splits)

text \<open>
  Paging through a thread search is complete: with the pages requested one after the
  other at a valid limit, what they return, concatenated, is a prefix of one list that holds every
  thread of the caller that matches the request and the handler's filter, once, in the requested
  order; no thread is skipped or repeated between pages, also among equal sort keys.
\<close>

theorem search_pages_complete:
  assumes "wf_db (ts_db s)"
    and "validate_thread_search (te_max_search_limit env) (rq\<lparr>tq_limit := Some (int n)\<rparr>) = Inr rq'"
    and "\<And>value. te_authorize env ''search'' value = Inr (filters, value)"
    and "auth_filter (te_contains env) filters = Inr ok"
  shows "\<exists>rows. distinct rows \<and> set rows = {t \<in> set (threads (ts_db s)). thread_matches env uid ok rq t}
    \<and> sorted (map (thread_key env (fst (resolve_thread_sort rq)))
               (if snd (resolve_thread_sort rq) then rows else rev rows))
    \<and> (\<forall>k. \<exists>pages.
          map_res (\<lambda>i. search_threads env uid (rq\<lparr>tq_limit := Some (int n), tq_offset := Some (i * n)\<rparr>) s) [0..<k]
            = Inr pages
          \<and> concat pages = map (serialize_thread None) (take (k * n) rows))"
proof -
  let ?asc = "snd (resolve_thread_sort rq)"
  let ?key = "thread_key env (fst (resolve_thread_sort rq))"
  let ?rows = "order_rows ?key (\<lambda>t. te_collate env (t_thread_id t)) ?asc
                 (select_where (thread_matches env uid ok rq) (threads (ts_db s)))"
  have "distinct (threads (ts_db s))" using assms(1) by (auto simp: wf_db_def distinct_map)
  then have d: "distinct ?rows" by (simp add: select_where_def)
  have page: "search_threads env uid (rq\<lparr>tq_limit := Some (int n), tq_offset := Some m\<rparr>) s
      = Inr (map (serialize_thread None) (page m n ?rows))" for m
    by (simp add: search_threads_def validate_page [OF assms(2)] assms(3,4) case_prod_beta)
  have "map_res (\<lambda>i. search_threads env uid (rq\<lparr>tq_limit := Some (int n), tq_offset := Some (i * n)\<rparr>) s) [0..<k]
      = Inr (map (\<lambda>i. map (serialize_thread None) (page (i * n) n ?rows)) [0..<k])" for k
    by (rule map_res_Inr) (rule page)
  moreover have "concat (map (\<lambda>i. map (serialize_thread None) (page (i * n) n ?rows)) [0..<k])
      = map (serialize_thread None) (take (k * n) ?rows)" for k
    by (simp only: concat_pages [symmetric] map_concat map_map comp_def)
  ultimately show ?thesis
    using d sorted_order_rows [of ?key ?asc "\<lambda>t. te_collate env (t_thread_id t)"]
    by (intro exI [of _ ?rows]) auto
qed

definition example_search :: thread_search where
  "example_search = \<lparr>tq_metadata = None, tq_status = None, tq_limit = None, tq_offset = None, tq_order_by = None,
                     tq_sort_by = None, tq_sort_order = None\<rparr>"

theorem search_pages_complete_witness:
  "\<exists>rows. set rows = {t \<in> set (threads (ts_db two_tenants)). thread_matches permissive_env ''bob'' (\<lambda>_. True) example_search t}
     \<and> (\<exists>pages. map_res (\<lambda>i. search_threads permissive_env ''bob''
           (example_search\<lparr>tq_limit := Some (int 1), tq_offset := Some (i * 1)\<rparr>) two_tenants) [0..<2] = Inr pages
        \<and> concat pages = map (serialize_thread None) (take (2 * 1) rows))"
proof -
  have wf: "wf_db (ts_db two_tenants)" by (simp add: two_tenants_def wf_db_def)
  have v: "validate_thread_search (te_max_search_limit permissive_env) (example_search\<lparr>tq_limit := Some (int 1)\<rparr>)
      = Inr (example_search\<lparr>tq_limit := Some (int 1)\<rparr>)"
    by (simp add: validate_thread_search_def resolve_search_limit_def permissive_env_def example_search_def)
  have "te_authorize permissive_env ''search'' v = Inr (None, v)" for v
    by (simp add: permissive_env_def)
  moreover have "auth_filter (te_contains permissive_env) None = Inr (\<lambda>_. True)"
    by (simp add: auth_filter_def build_metadata_filter_def)
  ultimately show ?thesis
    using search_pages_complete [OF wf v, of None "\<lambda>_. True" "''bob''"] by blast
qed

end
