(* ===== verification/Thread_Naming.thy ===== *)
theory Thread_Naming
  imports Run_Preparation
begin

text \<open>
  Automatic titles (\<^verbatim>\<open>usecase/thread_naming.py\<close>): the claim written by the first run that has a
  user message, and the title the background task stores.  The answer of the naming model is an
  argument.
\<close>

definition PLACEHOLDER_LEN :: nat where "PLACEHOLDER_LEN = 40"

text \<open>The ellipsis, in UTF-8.\<close>

definition ellipsis :: string where "ellipsis = [CHR 0xE2, CHR 0x80, CHR 0xA6]"

definition user_text :: "json \<Rightarrow> string option" where
  "user_text msg =
     (case msg of
        JObj m \<Rightarrow>
          (case (map_of m ''role'', map_of m ''content'') of
             (Some (JStr role), Some (JStr content)) \<Rightarrow>
               if role = ''user'' \<and> py_strip content \<noteq> [] then Some (py_strip content) else None
           | _ \<Rightarrow> None)
      | _ \<Rightarrow> None)"

definition extract_first_user_message :: "dict \<Rightarrow> string option" where
  "extract_first_user_message input =
     (case map_of input ''messages'' of
        Some (JList msgs) \<Rightarrow> (case List.map_filter user_text msgs of [] \<Rightarrow> None | m # _ \<Rightarrow> Some m)
      | _ \<Rightarrow> None)"

definition placeholder_title :: "string \<Rightarrow> string" where
  "placeholder_title message =
     py_strip (take PLACEHOLDER_LEN message) @ (if length message > PLACEHOLDER_LEN then ellipsis else [])"

text \<open>The database operators \<open>?\<close> and \<open>||\<close> on a JSONB value; the right operand is an object.\<close>

definition jsonb_has_key :: "json \<Rightarrow> string \<Rightarrow> bool" where
  "jsonb_has_key v k =
     (case v of
        JObj d \<Rightarrow> map_of d k \<noteq> None
      | JList xs \<Rightarrow> JStr k \<in> set xs
      | JStr s \<Rightarrow> s = k
      | _ \<Rightarrow> False)"

definition jsonb_concat :: "json \<Rightarrow> dict \<Rightarrow> json" where
  "jsonb_concat v d =
     (case v of
        JObj e \<Rightarrow> JObj (dict_update e d)
      | JList xs \<Rightarrow> JList (xs @ [JObj d])
      | _ \<Rightarrow> JList [v, JObj d])"

text \<open>
  \<open>maybe_name_thread\<close>: the database afterwards and, when the claim was won, the message the
  background task makes a title from.
\<close>

definition maybe_name_thread :: "bool \<Rightarrow> thread_id \<Rightarrow> dict \<Rightarrow> db \<Rightarrow> string option \<times> db" where
  "maybe_name_thread enabled tid input d =
     (if \<not> enabled then (None, d)
      else
        (case extract_first_user_message input of
           None \<Rightarrow> (None, d)
         | Some message \<Rightarrow>
             (let p = (\<lambda>t. t_thread_id t = tid \<and> \<not> jsonb_has_key (t_metadata t) ''naming_claimed'');
                  patch = bind_dict [(''naming_claimed'', JBool True), (''title'', JStr (placeholder_title message))]
              in if select_where p (threads d) = [] then (None, d)
                 else (Some message,
                       d\<lparr>threads := update_where p (\<lambda>t. t\<lparr>t_metadata := jsonb_concat (t_metadata t) patch\<rparr>)
                           (threads d)\<rparr>))))"

definition strip_char :: "char \<Rightarrow> string \<Rightarrow> string" where
  "strip_char c s = rev (dropWhile ((=) c) (rev (dropWhile ((=) c) s)))"

text \<open>\<open>answer\<close> is the text of the model's response, absent when the call failed.\<close>

definition generate_and_set_title :: "string option \<Rightarrow> thread_id \<Rightarrow> db \<Rightarrow> db" where
  "generate_and_set_title answer tid d =
     (case answer of
        None \<Rightarrow> d
      | Some text \<Rightarrow>
          (let title = strip_char (CHR 0x27) (strip_char (CHR 0x22) (py_strip text))
           in if title = [] then d
              else d\<lparr>threads := update_where (\<lambda>t. t_thread_id t = tid)
                     (\<lambda>t. t\<lparr>t_metadata := jsonb_concat (t_metadata t) (bind_dict [(''title'', JStr title)])\<rparr>)
                     (threads d)\<rparr>))"

subsection \<open>Lemmas\<close>

lemma runs_maybe_name_thread [simp]: "runs (snd (maybe_name_thread enabled tid input d)) = runs d"
  by (auto simp: maybe_name_thread_def Let_def split: option.split)

lemma thread_ids_maybe_name_thread [simp]:
  "map t_thread_id (threads (snd (maybe_name_thread enabled tid input d))) = map t_thread_id (threads d)"
  by (auto simp: maybe_name_thread_def Let_def map_key_update_where split: option.split)

lemma select_maybe_name_thread:
  "(\<And>t. t_thread_id t = tid \<Longrightarrow> \<not> q t) \<Longrightarrow>
   select_where q (threads (snd (maybe_name_thread enabled tid input d))) = select_where q (threads d)"
  by (auto simp: maybe_name_thread_def Let_def intro!: select_update_where_other split: option.split)

end
