(* ===== verification/Runs_Api.thy ===== *)
theory Runs_Api
  imports Run_System Thread_Naming Auth
begin

text \<open>
  The run endpoints: \<^verbatim>\<open>controller/http/routers/runs.py\<close> and the stateless variants of
  \<^verbatim>\<open>controller/http/routers/stateless_runs.py\<close>.  A request works on the database, the streaming
  service and the job queue; the authorisation handlers, the liveness of a run's task in this
  process and what that task does to the database while a request waits for it are arguments.
\<close>

record run_request = run_create +
  rr_stream :: bool
  rr_on_disconnect :: "string option"
  rr_on_completion :: "string option"

record runs_env =
  re_authorize :: "string \<Rightarrow> string \<Rightarrow> dict \<Rightarrow> (dict option \<times> dict) result"
  re_prep :: prep_env
  re_naming :: bool
  re_live :: "run_id \<Rightarrow> bool"
  re_settle :: "run_id \<Rightarrow> db \<Rightarrow> db"

record api_state =
  as_db :: db
  as_streaming :: streaming
  as_queue :: queue

definition TERMINAL_STATES :: "run_status list" where
  "TERMINAL_STATES = [Success, Error, Interrupted]"

text \<open>\<open>Run.model_validate\<close>: the assistant is required, the input and the output are objects.\<close>

definition object_or_null :: "json option \<Rightarrow> bool" where
  "object_or_null v = (case v of None \<Rightarrow> True | Some JNull \<Rightarrow> True | Some (JObj _) \<Rightarrow> True | Some _ \<Rightarrow> False)"

definition validate_run :: "run_row \<Rightarrow> run_row result" where
  "validate_run r =
     (if r_assistant_id r \<noteq> None \<and> object_or_null (r_input r) \<and> object_or_null (r_output r)
      then Inr r else Inl ValueError)"

definition find_run :: "run_id \<Rightarrow> thread_id \<Rightarrow> user_id \<Rightarrow> db \<Rightarrow> run_row result" where
  "find_run rid tid uid d =
     (case first_where (\<lambda>r. r_run_id r = rid \<and> r_thread_id r = tid \<and> r_user_id r = uid) (runs d) of
        None \<Rightarrow> Inl (HTTPException 404)
      | Some r \<Rightarrow> Inr r)"

text \<open>\<open>session.refresh\<close>: a row deleted in the meantime is an error.\<close>

definition refresh_run :: "run_row \<Rightarrow> db \<Rightarrow> run_row result" where
  "refresh_run r d = (case lookup_run d (r_run_id r) of None \<Rightarrow> Inl RuntimeError | Some r' \<Rightarrow> Inr r')"

subsection \<open>Interruption\<close>

text \<open>
  \<open>_request_run_interruption\<close>.  Interrupting and cancelling send the same request to the broker
  manager and differ in its label only.  A broker outage while signalling is swallowed.
\<close>

definition request_run_interruption ::
  "runs_env \<Rightarrow> time \<Rightarrow> run_row \<Rightarrow> api_state \<Rightarrow> unit result \<times> api_state"
where
  "request_run_interruption env now r s =
     (if r_status r \<in> set TERMINAL_STATES then (Inr (), s)
      else
        (case interrupt_unowned_run now (r_run_id r) (r_thread_id r) (r_user_id r) (as_db s) of
           (True, d) \<Rightarrow>
             (Inr (), s\<lparr>as_db := d,
                as_streaming := signal_run_cancelled now (r_run_id r)
                  (snd (cancel_run now (re_live env (r_run_id r)) False (r_run_id r) (as_streaming s)))\<rparr>)
         | (False, d) \<Rightarrow>
             (case refresh_run r d of
                Inl e \<Rightarrow> (Inl e, s\<lparr>as_db := d\<rparr>)
              | Inr r' \<Rightarrow>
                  if r_status r' \<in> set TERMINAL_STATES then (Inr (), s\<lparr>as_db := d\<rparr>)
                  else (Inr (), s\<lparr>as_db := d,
                          as_streaming := snd (cancel_run now (re_live env (r_run_id r)) True (r_run_id r) (as_streaming s))\<rparr>))))"

subsection \<open>Creation\<close>

definition dump_run_create :: "run_request \<Rightarrow> dict" where
  "dump_run_create rq =
     [(''assistant_id'', JStr (rc_assistant_id rq)), (''input'', json_of_opt JObj (rc_input rq)),
      (''config'', json_of_opt JObj (rc_config rq)), (''context'', json_of_opt JObj (rc_context rq)),
      (''checkpoint'', json_of_opt JObj (rc_checkpoint rq)), (''checkpoint_id'', json_of_opt JStr (rc_checkpoint_id rq)),
      (''durability'', json_of_opt json_of_durability (rc_durability rq)),
      (''checkpoint_during'', json_of_opt JBool (rc_checkpoint_during rq)), (''stream'', JBool (rr_stream rq)),
      (''stream_mode'', json_of_opt json_of_sol (rc_stream_mode rq)),
      (''on_disconnect'', json_of_opt JStr (rr_on_disconnect rq)),
      (''on_completion'', json_of_opt JStr (rr_on_completion rq)),
      (''multitask_strategy'', json_of_opt JStr (rc_multitask_strategy rq)),
      (''command'', json_of_opt JObj (rc_command rq)),
      (''interrupt_before'', json_of_opt json_of_sol (rc_interrupt_before rq)),
      (''interrupt_after'', json_of_opt json_of_sol (rc_interrupt_after rq)),
      (''stream_subgraphs'', json_of_opt JBool (rc_stream_subgraphs rq)),
      (''metadata'', json_of_opt JObj (rc_metadata rq))]"

definition override_with :: "json option \<Rightarrow> dict option \<Rightarrow> dict option" where
  "override_with v base =
     (case v of Some (JObj ov) \<Rightarrow> Some (dict_update (case base of None \<Rightarrow> [] | Some b \<Rightarrow> b) ov) | _ \<Rightarrow> base)"

definition apply_create_run_auth ::
  "(string \<Rightarrow> string \<Rightarrow> dict \<Rightarrow> (dict option \<times> dict) result) \<Rightarrow> thread_id \<Rightarrow> run_request \<Rightarrow> run_request result"
where
  "apply_create_run_auth authorize tid rq =
     bind_res (authorize ''threads'' ''create_run'' (AList.update ''thread_id'' (JStr tid) (dump_run_create rq))) (\<lambda>(filters, value).
       let source = (case filters of None \<Rightarrow> value | Some f \<Rightarrow> f);
           rq' = rq\<lparr>rc_config := override_with (map_of source ''config'') (rc_config rq),
                    rc_context := override_with (map_of source ''context'') (rc_context rq)\<rparr>
       in bind_res (authorize ''assistants'' ''read'' [(''assistant_id'', JStr (rc_assistant_id rq'))]) (\<lambda>_. Inr rq'))"

definition check_thread_owner :: "thread_id \<Rightarrow> user \<Rightarrow> db \<Rightarrow> unit result" where
  "check_thread_owner tid u d =
     (case lookup_thread d tid of
        Some t \<Rightarrow> if t_user_id t \<noteq> identity u then Inl (HTTPException 404) else Inr ()
      | None \<Rightarrow> Inr ())"

text \<open>The part the three creating endpoints share, up to the return of \<open>_prepare_run\<close>.\<close>

definition begin_run ::
  "runs_env \<Rightarrow> time \<Rightarrow> run_id \<Rightarrow> thread_id \<Rightarrow> run_request \<Rightarrow> user \<Rightarrow> api_state \<Rightarrow> run_request result \<times> api_state"
where
  "begin_run env now rid tid rq u s =
     (case bind_res (check_thread_owner tid u (as_db s)) (\<lambda>_. apply_create_run_auth (re_authorize env) tid rq) of
        Inl e \<Rightarrow> (Inl e, s)
      | Inr rq' \<Rightarrow>
          (case prepare_run (re_prep env) now rid tid (run_create.truncate rq') u Pending False (as_db s, as_queue s) of
             (r, d, q) \<Rightarrow> (bind_res r (\<lambda>_. Inr rq'), s\<lparr>as_db := d, as_queue := q\<rparr>)))"

definition name_thread :: "runs_env \<Rightarrow> thread_id \<Rightarrow> run_request \<Rightarrow> api_state \<Rightarrow> api_state" where
  "name_thread env tid rq s =
     (case rc_input rq of
        None \<Rightarrow> s
      | Some i \<Rightarrow> s\<lparr>as_db := snd (maybe_name_thread (re_naming env) tid i (as_db s))\<rparr>)"

definition create_run ::
  "runs_env \<Rightarrow> time \<Rightarrow> run_id \<Rightarrow> thread_id \<Rightarrow> run_request \<Rightarrow> user \<Rightarrow> api_state \<Rightarrow> run_id result \<times> api_state"
where
  "create_run env now rid tid rq u s =
     (case begin_run env now rid tid rq u s of
        (Inl e, s') \<Rightarrow> (Inl e, s')
      | (Inr rq', s') \<Rightarrow> (Inr rid, name_thread env tid rq' s'))"

definition run_location :: "thread_id \<Rightarrow> run_id \<Rightarrow> string" where
  "run_location tid rid = ''/threads/'' @ tid @ ''/runs/'' @ rid"

record stream_response =
  sr_run_id :: run_id
  sr_cancel_on_close :: bool
  sr_headers :: "(string \<times> string) list"

definition cancel_on_disconnect :: "run_request \<Rightarrow> bool" where
  "cancel_on_disconnect rq =
     (py_lower (if truthy_str (rr_on_disconnect rq) then the (rr_on_disconnect rq) else ''cancel'') = ''cancel'')"

definition create_and_stream_run ::
  "runs_env \<Rightarrow> time \<Rightarrow> run_id \<Rightarrow> thread_id \<Rightarrow> run_request \<Rightarrow> user \<Rightarrow> api_state \<Rightarrow> stream_response result \<times> api_state"
where
  "create_and_stream_run env now rid tid rq u s =
     (case begin_run env now rid tid rq u s of
        (Inl e, s') \<Rightarrow> (Inl e, s')
      | (Inr rq', s') \<Rightarrow>
          (Inr \<lparr>sr_run_id = rid, sr_cancel_on_close = cancel_on_disconnect rq',
               sr_headers = [(''location'', run_location tid rid @ ''/stream''), (''content-location'', run_location tid rid)]\<rparr>,
           name_thread env tid rq' s'))"

text \<open>The close handler of the stream, called when the client disconnects.\<close>

definition on_client_close :: "runs_env \<Rightarrow> time \<Rightarrow> stream_response \<Rightarrow> api_state \<Rightarrow> api_state" where
  "on_client_close env now resp s =
     (if sr_cancel_on_close resp
      then s\<lparr>as_streaming := snd (cancel_run now (re_live env (sr_run_id resp)) True (sr_run_id resp) (as_streaming s))\<rparr>
      else s)"

text \<open>\<open>wait_for_run\<close> does not name the thread.\<close>

definition wait_for_run ::
  "runs_env \<Rightarrow> time \<Rightarrow> run_id \<Rightarrow> thread_id \<Rightarrow> run_request \<Rightarrow> user \<Rightarrow> api_state
   \<Rightarrow> (string \<times> string) list result \<times> api_state"
where
  "wait_for_run env now rid tid rq u s =
     (case begin_run env now rid tid rq u s of
        (Inl e, s') \<Rightarrow> (Inl e, s')
      | (Inr rq', s') \<Rightarrow>
          (Inr [(''location'', run_location tid rid @ ''/join''), (''content-location'', run_location tid rid)], s'))"

subsection \<open>Reads\<close>

text \<open>\<open>get_run\<close> runs the handler of thread reads and drops the filter it returns.\<close>

definition get_run :: "runs_env \<Rightarrow> user \<Rightarrow> thread_id \<Rightarrow> run_id \<Rightarrow> api_state \<Rightarrow> run_row result" where
  "get_run env u tid rid s =
     bind_res (re_authorize env ''threads'' ''read'' [(''run_id'', JStr rid), (''thread_id'', JStr tid)]) (\<lambda>_.
     bind_res (find_run rid tid (identity u) (as_db s)) (\<lambda>r.
     bind_res (refresh_run r (as_db s)) validate_run))"

text \<open>
  \<open>list_runs\<close> orders by creation time only: \<open>scan\<close> is the order in which the database happens to
  produce the rows, and it decides between equal times.
\<close>

definition list_runs ::
  "(run_row list \<Rightarrow> run_row list) \<Rightarrow> user \<Rightarrow> thread_id \<Rightarrow> int \<Rightarrow> int \<Rightarrow> string option \<Rightarrow> api_state \<Rightarrow> run_row list result"
where
  "list_runs scan u tid limit offset status s =
     (if limit < 1 \<or> offset < 0 then Inl (HTTPException 422)
      else
        map_res validate_run
          (page (nat offset) (nat limit)
            (sort_key (\<lambda>r. - r_created_at r)
              (scan (select_where (\<lambda>r. r_thread_id r = tid \<and> r_user_id r = identity u
                       \<and> (truthy_str status \<longrightarrow> run_status_str (r_status r) = the status)) (runs (as_db s)))))))"

text \<open>
  \<open>join_run\<close>: the body of a finished run at once, otherwise the waiting body, given the intervals
  of the wait, how it ended and the database read then.
\<close>

definition join_run ::
  "(json \<Rightarrow> string) \<Rightarrow> user \<Rightarrow> thread_id \<Rightarrow> run_id \<Rightarrow> bool list \<Rightarrow> unit result \<Rightarrow> db \<Rightarrow> api_state \<Rightarrow> string list result"
where
  "join_run enc u tid rid intervals waited later s =
     bind_res (find_run rid tid (identity u) (as_db s)) (\<lambda>r.
       if r_status r \<in> set TERMINAL_STATES then Inr [enc (run_result_body (Some r) rid False)]
       else Inr (heartbeat_wait_body enc rid tid (identity u) intervals waited later))"

text \<open>
  \<open>stream_run\<close>: a finished run without \<^verbatim>\<open>Last-Event-ID\<close> gets a single end event; \<open>stored\<close> and
  \<open>live\<close> are what the broker replays and then yields.
\<close>

definition stream_run ::
  "(json \<Rightarrow> string) \<Rightarrow> (string \<Rightarrow> payload \<Rightarrow> string) \<Rightarrow> user \<Rightarrow> thread_id \<Rightarrow> run_id \<Rightarrow> string option
   \<Rightarrow> event list \<Rightarrow> event list \<Rightarrow> api_state \<Rightarrow> string list result"
where
  "stream_run enc conv u tid rid last_event_id stored live s =
     bind_res (find_run rid tid (identity u) (as_db s)) (\<lambda>r.
     bind_res (validate_run r) (\<lambda>_.
       if r_status r \<in> set TERMINAL_STATES \<and> \<not> truthy_str last_event_id
       then Inr [create_end_event enc None (JStr (run_status_str (r_status r)))]
       else Inr (map snd (stream_run_execution conv (r_status r) (get_broker rid (ss_manager (as_streaming s)))
                            last_event_id stored live))))"

subsection \<open>Cancellation and deletion\<close>

text \<open>The row that is returned is read again, after whatever the run's task did meanwhile.\<close>

definition return_run :: "run_row \<Rightarrow> unit result \<times> api_state \<Rightarrow> run_row result \<times> api_state" where
  "return_run r rs = (case rs of (res, s) \<Rightarrow> (bind_res res (\<lambda>_. bind_res (refresh_run r (as_db s)) validate_run), s))"

definition update_run ::
  "runs_env \<Rightarrow> time \<Rightarrow> user \<Rightarrow> thread_id \<Rightarrow> run_id \<Rightarrow> string \<Rightarrow> api_state \<Rightarrow> run_row result \<times> api_state"
where
  "update_run env now u tid rid status s =
     (case bind_res (find_run rid tid (identity u) (as_db s)) (\<lambda>r. bind_res (validate_run_status status) (\<lambda>st. Inr (r, st))) of
        Inl e \<Rightarrow> (Inl e, s)
      | Inr (r, st) \<Rightarrow>
          return_run r (if st = Interrupted then request_run_interruption env now r s else (Inr (), s)))"

definition WAIT_POLLS :: nat where "WAIT_POLLS = 20"

text \<open>
  The polls of \<^verbatim>\<open>wait=1\<close>: \<open>settle\<close> is what the run's task commits between two polls; the loop
  stops at the first poll that sees a terminal state.
\<close>

fun poll_run :: "(run_id \<Rightarrow> db \<Rightarrow> db) \<Rightarrow> run_id \<Rightarrow> nat \<Rightarrow> db \<Rightarrow> db" where
  "poll_run settle rid 0 d = d"
| "poll_run settle rid (Suc n) d =
     (let d = settle rid d
      in case lookup_run d rid of
           Some r \<Rightarrow> if r_status r \<in> set TERMINAL_STATES then d else poll_run settle rid n d
         | None \<Rightarrow> poll_run settle rid n d)"

definition cancel_run_endpoint ::
  "runs_env \<Rightarrow> time \<Rightarrow> user \<Rightarrow> thread_id \<Rightarrow> run_id \<Rightarrow> bool \<Rightarrow> api_state \<Rightarrow> run_row result \<times> api_state"
where
  "cancel_run_endpoint env now u tid rid wait s =
     (case find_run rid tid (identity u) (as_db s) of
        Inl e \<Rightarrow> (Inl e, s)
      | Inr r \<Rightarrow>
          (case request_run_interruption env now r s of
             (Inl e, s') \<Rightarrow> (Inl e, s')
           | (Inr _, s') \<Rightarrow>
               return_run r (Inr (), if wait then s'\<lparr>as_db := poll_run (re_settle env) rid WAIT_POLLS (as_db s')\<rparr> else s')))"

fun interrupt_all :: "runs_env \<Rightarrow> time \<Rightarrow> run_row list \<Rightarrow> api_state \<Rightarrow> unit result \<times> api_state" where
  "interrupt_all env now [] s = (Inr (), s)"
| "interrupt_all env now (r # rs) s =
     (case request_run_interruption env now r s of
        (Inl e, s') \<Rightarrow> (Inl e, s')
      | (Inr _, s') \<Rightarrow> interrupt_all env now rs s')"

definition cancel_targets :: "cancel_selector \<Rightarrow> user_id \<Rightarrow> db \<Rightarrow> run_row list result" where
  "cancel_targets sel uid d =
     (case sel of
        ByStatus st \<Rightarrow>
          (let active = (if st = ''all'' then [''pending'', ''running''] else [st])
           in Inr (select_where (\<lambda>r. r_user_id r = uid \<and> run_status_str (r_status r) \<in> set active) (runs d)))
      | ByIds tid rids \<Rightarrow>
          if first_where (\<lambda>t. t_thread_id t = tid \<and> t_user_id t = uid) (threads d) = None \<or> tid = []
          then Inl (HTTPException 404)
          else Inr (select_where (\<lambda>r. r_user_id r = uid \<and> r_thread_id r = tid \<and> r_run_id r \<in> set rids) (runs d)))"

definition cancel_runs :: "runs_env \<Rightarrow> time \<Rightarrow> user \<Rightarrow> cancel_selector \<Rightarrow> api_state \<Rightarrow> unit result \<times> api_state" where
  "cancel_runs env now u sel s =
     (case cancel_targets sel (identity u) (as_db s) of
        Inl e \<Rightarrow> (Inl e, s)
      | Inr rs \<Rightarrow> interrupt_all env now rs s)"

text \<open>
  \<open>delete_run\<close>: with \<^verbatim>\<open>force\<close> an active run is cancelled and its task awaited when it lives in this
  process; then the row goes.  Again the handler's filter is dropped.
\<close>

definition delete_run ::
  "runs_env \<Rightarrow> time \<Rightarrow> user \<Rightarrow> thread_id \<Rightarrow> run_id \<Rightarrow> bool \<Rightarrow> api_state \<Rightarrow> unit result \<times> api_state"
where
  "delete_run env now u tid rid force s =
     (case bind_res (re_authorize env ''threads'' ''delete'' [(''run_id'', JStr rid), (''thread_id'', JStr tid)])
             (\<lambda>_. find_run rid tid (identity u) (as_db s)) of
        Inl e \<Rightarrow> (Inl e, s)
      | Inr r \<Rightarrow>
          if is_active r \<and> \<not> force then (Inl (HTTPException 409), s)
          else
            (let s' = (if is_active r
                       then s\<lparr>as_streaming := snd (cancel_run now (re_live env rid) True rid (as_streaming s)),
                             as_db := (if re_live env rid then re_settle env rid (as_db s) else as_db s)\<rparr>
                       else s)
             in (Inr (), s'\<lparr>as_db := (as_db s')\<lparr>runs :=
                   delete_where (\<lambda>x. r_run_id x = rid \<and> r_thread_id x = tid \<and> r_user_id x = identity u) (runs (as_db s'))\<rparr>\<rparr>)))"

subsection \<open>Stateless runs\<close>

definition run_finished :: "run_id \<Rightarrow> api_state \<Rightarrow> bool" where
  "run_finished rid s =
     (case get_broker rid (ss_manager (as_streaming s)) of None \<Rightarrow> False | Some b \<Rightarrow> rb_finished b)"

definition extract_run_id_from_headers :: "(string \<times> string) list \<Rightarrow> run_id option" where
  "extract_run_id_from_headers headers =
     (let location = (if truthy_str (map_of headers ''content-location'') then the (map_of headers ''content-location'')
                      else if truthy_str (map_of headers ''Content-Location'') then the (map_of headers ''Content-Location'')
                      else [])
      in if location = [] then None
         else (case py_split ''/'' (strip_char (CHR ''/'') location) of
                 a # b # c # d # rest \<Rightarrow> if a = ''threads'' \<and> c = ''runs'' then Some d else None
               | _ \<Rightarrow> None))"

text \<open>
  \<open>_delete_thread_with_log\<close>: the active runs are cancelled and the thread goes with its runs;
  \<open>fails\<close> says that the database or the checkpointer raises at the deletion, which is logged.
\<close>

definition delete_thread_with_log ::
  "runs_env \<Rightarrow> time \<Rightarrow> bool \<Rightarrow> thread_id \<Rightarrow> user \<Rightarrow> api_state \<Rightarrow> api_state"
where
  "delete_thread_with_log env now fails tid u s =
     (let (rids, d) = delete_thread_by_id tid (identity u) (as_db s)
      in s\<lparr>as_streaming := fold (\<lambda>rid st. snd (cancel_run now (re_live env rid) True rid st)) rids (as_streaming s),
           as_db := (if fails then as_db s else d)\<rparr>)"

definition should_delete :: "run_request \<Rightarrow> bool" where
  "should_delete rq = (rr_on_completion rq \<noteq> Some ''keep'')"

text \<open>Each endpoint starts the threaded one on a fresh thread and cleans up when that raises.\<close>

definition or_clean_up ::
  "runs_env \<Rightarrow> time \<Rightarrow> bool \<Rightarrow> thread_id \<Rightarrow> run_request \<Rightarrow> user \<Rightarrow> 'a result \<times> api_state \<Rightarrow> 'a result \<times> api_state"
where
  "or_clean_up env now fails tid rq u rs =
     (case rs of
        (Inl e, s) \<Rightarrow> (Inl e, if should_delete rq then delete_thread_with_log env now fails tid u s else s)
      | (Inr x, s) \<Rightarrow> (Inr x, s))"

definition stateless_wait_for_run ::
  "runs_env \<Rightarrow> time \<Rightarrow> bool \<Rightarrow> run_id \<Rightarrow> thread_id \<Rightarrow> run_request \<Rightarrow> user \<Rightarrow> api_state
   \<Rightarrow> (string \<times> string) list result \<times> api_state"
where
  "stateless_wait_for_run env now fails rid tid rq u s =
     or_clean_up env now fails tid rq u (wait_for_run env now rid tid rq u s)"

definition stateless_stream_run ::
  "runs_env \<Rightarrow> time \<Rightarrow> bool \<Rightarrow> run_id \<Rightarrow> thread_id \<Rightarrow> run_request \<Rightarrow> user \<Rightarrow> api_state
   \<Rightarrow> stream_response result \<times> api_state"
where
  "stateless_stream_run env now fails rid tid rq u s =
     or_clean_up env now fails tid rq u (create_and_stream_run env now rid tid rq u s)"

definition stateless_create_run ::
  "runs_env \<Rightarrow> time \<Rightarrow> bool \<Rightarrow> run_id \<Rightarrow> thread_id \<Rightarrow> run_request \<Rightarrow> user \<Rightarrow> api_state \<Rightarrow> run_id result \<times> api_state"
where
  "stateless_create_run env now fails rid tid rq u s =
     or_clean_up env now fails tid rq u (create_run env now rid tid rq u s)"

text \<open>
  What happens when the response body ends, by itself (\<open>completed\<close>) or because the client went
  away; \<open>s\<close> is the state at that moment.  The stream also cleans up after a client that left once
  the run was over.
\<close>

definition wait_body_closed ::
  "runs_env \<Rightarrow> time \<Rightarrow> bool \<Rightarrow> thread_id \<Rightarrow> run_request \<Rightarrow> user \<Rightarrow> bool \<Rightarrow> api_state \<Rightarrow> api_state"
where
  "wait_body_closed env now fails tid rq u completed s =
     (if should_delete rq \<and> completed then delete_thread_with_log env now fails tid u s else s)"

definition stream_body_closed ::
  "runs_env \<Rightarrow> time \<Rightarrow> bool \<Rightarrow> thread_id \<Rightarrow> run_request \<Rightarrow> user \<Rightarrow> stream_response \<Rightarrow> bool \<Rightarrow> api_state \<Rightarrow> api_state"
where
  "stream_body_closed env now fails tid rq u resp completed s =
     (if \<not> should_delete rq then s
      else if completed then delete_thread_with_log env now fails tid u s
      else (case extract_run_id_from_headers (sr_headers resp) of
              Some rid \<Rightarrow> if run_finished rid s then delete_thread_with_log env now fails tid u s else s
            | None \<Rightarrow> s))"

text \<open>The background clean-up of a stateless run, once the wait for the run has ended.\<close>

definition background_run_ended ::
  "runs_env \<Rightarrow> time \<Rightarrow> bool \<Rightarrow> unit result \<Rightarrow> thread_id \<Rightarrow> run_request \<Rightarrow> user \<Rightarrow> api_state \<Rightarrow> unit result \<times> api_state"
where
  "background_run_ended env now fails waited tid rq u s =
     (if \<not> should_delete rq then (Inr (), s)
      else (case cleanup_after_background_run waited tid (identity u) (as_db s) of
              Inl e \<Rightarrow> (Inl e, s)
            | Inr _ \<Rightarrow> (Inr (), delete_thread_with_log env now fails tid u s)))"

subsection \<open>Interruption is safe\<close>

text \<open>A run some worker holds under an unexpired lease.\<close>

definition live_owned :: "time \<Rightarrow> run_row \<Rightarrow> bool" where
  "live_owned now r = (is_active r \<and> r_claimed_by r \<noteq> None \<and> \<not> lease_expired now r)"

lemma interruption_db:
  "as_db (snd (request_run_interruption env now r s)) = as_db s \<or>
   as_db (snd (request_run_interruption env now r s))
     = snd (interrupt_unowned_run now (r_run_id r) (r_thread_id r) (r_user_id r) (as_db s))"
  by (auto simp: request_run_interruption_def split: prod.split sum.split bool.split)

lemma interrupt_unowned_keeps:
  assumes "x \<in> set (runs d)" and "\<not> (r_run_id x = rid \<and> r_user_id x = uid \<and> is_active x \<and> \<not> live_owned now x)"
  shows "x \<in> set (runs (snd (interrupt_unowned_run now rid tid uid d)))"
  using assms
  by (auto simp: interrupt_unowned_run_def Let_def live_owned_def intro!: update_where_keeps)

lemma interruption_other_run:
  assumes "x \<in> set (runs (as_db s))" and "r_run_id x \<noteq> r_run_id r \<or> r_user_id x \<noteq> r_user_id r \<or> \<not> is_active x \<or> live_owned now x"
  shows "x \<in> set (runs (as_db (snd (request_run_interruption env now r s))))"
  using interruption_db [of env now r s] assms(1) interrupt_unowned_keeps [of x "as_db s"] assms(2)
  by (elim disjE) auto

lemma interrupt_all_keeps:
  assumes "x \<in> set (runs (as_db s))" and "\<not> is_active x \<or> live_owned now x"
  shows "x \<in> set (runs (as_db (snd (interrupt_all env now rs s))))"
  using assms(1)
proof (induction rs arbitrary: s)
  case (Cons r rs)
  then have "x \<in> set (runs (as_db (snd (request_run_interruption env now r s))))"
    using assms(2) by (intro interruption_other_run) auto
  then show ?case
    using Cons.IH [of "snd (request_run_interruption env now r s)"]
    by (auto split: prod.split sum.split)
qed simp

lemma find_own_run:
  assumes "wf_db d" and "x \<in> set (runs d)" and "r_user_id x = uid"
  shows "first_where (\<lambda>r. r_run_id r = r_run_id x \<and> r_thread_id r = r_thread_id x \<and> r_user_id r = uid) (runs d) = Some x"
proof (cases "first_where (\<lambda>r. r_run_id r = r_run_id x \<and> r_thread_id r = r_thread_id x \<and> r_user_id r = uid) (runs d)")
  case None
  with assms(2,3) show ?thesis by (auto simp: first_where_None_iff)
next
  case (Some y)
  then have "y \<in> set (runs d)" "r_run_id y = r_run_id x" by (auto dest: first_where_SomeD)
  with assms have "y = x" using unique_key [of r_run_id "runs d" y x] by (simp add: wf_db_def)
  with Some show ?thesis by simp
qed

lemma interruption_of_unowned:
  assumes "wf_db (as_db s)" and "r \<in> set (runs (as_db s))" and "is_active r" and "\<not> live_owned now r"
    and "request_run_interruption env now r s = (res, s')"
  shows "res = Inr () \<and> (\<exists>r'. lookup_run (as_db s') (r_run_id r) = Some r' \<and> r_status r' = Interrupted
           \<and> r_claimed_by r' = None \<and> r_lease_expires_at r' = None)"
proof -
  let ?p = "\<lambda>x. r_run_id x = r_run_id r \<and> r_thread_id x = r_thread_id r \<and> r_user_id x = r_user_id r \<and> is_active x
     \<and> (r_claimed_by x = None \<or> lease_expired now x)"
  let ?f = "\<lambda>x. x\<lparr>r_status := Interrupted, r_claimed_by := None, r_lease_expires_at := None, r_updated_at := now\<rparr>"
  have p: "?p r" using assms(3,4) by (simp add: live_owned_def)
  then have "select_where ?p (runs (as_db s)) \<noteq> []" using assms(2) by (auto simp: select_where_Nil_iff)
  then obtain d where d: "interrupt_unowned_run now (r_run_id r) (r_thread_id r) (r_user_id r) (as_db s) = (True, d)"
    "runs d = update_where ?p ?f (runs (as_db s))"
    by (simp add: interrupt_unowned_run_def Let_def)
  have "r_status r \<notin> set TERMINAL_STATES" using assms(3) by (auto simp: is_active_iff TERMINAL_STATES_def)
  with assms(5) d have s': "res = Inr ()" "as_db s' = d" by (auto simp: request_run_interruption_def)
  have "lookup_run d (r_run_id r) = map_option (\<lambda>x. if ?p x then ?f x else x) (lookup_run (as_db s) (r_run_id r))"
    using lookup_run_update_where [of ?f ?p "as_db s" "r_run_id r"] d(2) by (simp add: lookup_run_def)
  moreover have "lookup_run (as_db s) (r_run_id r) = Some r"
    using assms(1,2) lookup_run_eq by blast
  ultimately show ?thesis using p s' by simp
qed

text \<open>
  Interrupting never races a live owner and never rewrites history: whichever endpoint
  asks (patch, cancel, bulk cancel), a run that is over and a run some worker holds under an
  unexpired lease keep their rows as they are, and an active run that nobody holds any more is
  interrupted at once, its lease cleared.
\<close>

theorem interruption_respects_owner:
  assumes "wf_db (as_db s)" and "x \<in> set (runs (as_db s))"
  shows "(\<not> is_active x \<or> live_owned now x \<longrightarrow>
      x \<in> set (runs (as_db (snd (update_run env now u tid rid status s))))
      \<and> x \<in> set (runs (as_db (snd (cancel_run_endpoint env now u tid rid False s))))
      \<and> x \<in> set (runs (as_db (snd (cancel_runs env now u sel s)))))
    \<and> (is_active x \<and> \<not> live_owned now x \<and> r_user_id x = identity u \<longrightarrow>
      (\<exists>x'. lookup_run (as_db (snd (cancel_run_endpoint env now u (r_thread_id x) (r_run_id x) False s))) (r_run_id x) = Some x'
        \<and> r_status x' = Interrupted \<and> r_claimed_by x' = None))"
proof (intro conjI impI)
  assume keep: "\<not> is_active x \<or> live_owned now x"
  have kept: "x \<in> set (runs (as_db s'))" if "request_run_interruption env now r s = (res, s')" for r res s'
    using interruption_other_run [OF assms(2), of r now env] keep that by auto
  show "x \<in> set (runs (as_db (snd (update_run env now u tid rid status s))))"
    using assms(2) by (auto simp: update_run_def return_run_def split: sum.split prod.split dest: kept)
  show "x \<in> set (runs (as_db (snd (cancel_run_endpoint env now u tid rid False s))))"
    using assms(2) by (auto simp: cancel_run_endpoint_def return_run_def split: sum.split prod.split dest: kept)
  show "x \<in> set (runs (as_db (snd (cancel_runs env now u sel s))))"
    using interrupt_all_keeps [OF assms(2) keep] assms(2) by (auto simp: cancel_runs_def split: sum.split)
next
  assume x: "is_active x \<and> \<not> live_owned now x \<and> r_user_id x = identity u"
  have "first_where (\<lambda>r. r_run_id r = r_run_id x \<and> r_thread_id r = r_thread_id x \<and> r_user_id r = identity u)
      (runs (as_db s)) = Some x"
    using assms x find_own_run by simp
  then have f: "find_run (r_run_id x) (r_thread_id x) (identity u) (as_db s) = Inr x" by (simp add: find_run_def)
  obtain res s' where r: "request_run_interruption env now x s = (res, s')" by fastforce
  from interruption_of_unowned [OF assms _ _ r] x
  show "\<exists>x'. lookup_run (as_db (snd (cancel_run_endpoint env now u (r_thread_id x) (r_run_id x) False s))) (r_run_id x) = Some x'
        \<and> r_status x' = Interrupted \<and> r_claimed_by x' = None"
    by (auto simp: cancel_run_endpoint_def f r return_run_def)
qed

subsection \<open>Tenants\<close>

definition user_rows :: "user_id \<Rightarrow> db \<Rightarrow> run_row list \<times> thread_row list" where
  "user_rows v d = (select_where (\<lambda>r. r_user_id r = v) (runs d), select_where (\<lambda>t. t_user_id t = v) (threads d))"

datatype run_call =
    CreateRun run_id thread_id run_request
  | StreamRun run_id thread_id run_request
  | WaitForRun run_id thread_id run_request
  | UpdateRun thread_id run_id string
  | CancelRun thread_id run_id bool
  | CancelRuns cancel_selector
  | DeleteRun thread_id run_id bool

definition run_endpoint :: "runs_env \<Rightarrow> time \<Rightarrow> user \<Rightarrow> run_call \<Rightarrow> api_state \<Rightarrow> api_state" where
  "run_endpoint env now u op s =
     (case op of
        CreateRun rid tid rq \<Rightarrow> snd (create_run env now rid tid rq u s)
      | StreamRun rid tid rq \<Rightarrow> snd (create_and_stream_run env now rid tid rq u s)
      | WaitForRun rid tid rq \<Rightarrow> snd (wait_for_run env now rid tid rq u s)
      | UpdateRun tid rid st \<Rightarrow> snd (update_run env now u tid rid st s)
      | CancelRun tid rid wait \<Rightarrow> snd (cancel_run_endpoint env now u tid rid wait s)
      | CancelRuns sel \<Rightarrow> snd (cancel_runs env now u sel s)
      | DeleteRun tid rid force \<Rightarrow> snd (delete_run env now u tid rid force s))"

text \<open>The task of a run writes no row of a user the run does not belong to.\<close>

definition settle_local :: "(run_id \<Rightarrow> db \<Rightarrow> db) \<Rightarrow> bool" where
  "settle_local settle =
     (\<forall>rid d v. rid \<notin> r_run_id ` set (fst (user_rows v d)) \<longrightarrow> user_rows v (settle rid d) = user_rows v d)"

lemma user_rows_update_runs:
  "(\<And>r. r_user_id (f r) = r_user_id r) \<Longrightarrow> (\<And>r. r \<in> set (runs d) \<Longrightarrow> p r \<Longrightarrow> r_user_id r \<noteq> v) \<Longrightarrow>
   user_rows v (d\<lparr>runs := update_where p f (runs d)\<rparr>) = user_rows v d"
  by (auto simp: user_rows_def intro!: select_rewritten_other)

lemma user_rows_update_threads:
  "(\<And>t. t_user_id (f t) = t_user_id t) \<Longrightarrow> (\<And>t. t \<in> set (threads d) \<Longrightarrow> p t \<Longrightarrow> t_user_id t \<noteq> v) \<Longrightarrow>
   user_rows v (d\<lparr>threads := update_where p f (threads d)\<rparr>) = user_rows v d"
  by (auto simp: user_rows_def intro!: select_rewritten_other)

lemma user_rows_interrupt:
  assumes "uid \<noteq> v"
  shows "user_rows v (snd (interrupt_unowned_run now rid tid uid d)) = user_rows v d"
  using assms
  by (auto simp: interrupt_unowned_run_def set_thread_status_if_no_active_runs_def Let_def
      user_rows_def intro!: select_rewritten_other)

lemma user_rows_interruption:
  "r_user_id r \<noteq> v \<Longrightarrow> user_rows v (as_db (snd (request_run_interruption env now r s))) = user_rows v (as_db s)"
  using interruption_db [of env now r s] user_rows_interrupt [of "r_user_id r" v] by auto

lemma user_rows_interrupt_all:
  "(\<And>r. r \<in> set rs \<Longrightarrow> r_user_id r \<noteq> v) \<Longrightarrow> user_rows v (as_db (snd (interrupt_all env now rs s))) = user_rows v (as_db s)"
proof (induction rs arbitrary: s)
  case (Cons r rs)
  then have "user_rows v (as_db (snd (request_run_interruption env now r s))) = user_rows v (as_db s)"
    by (intro user_rows_interruption) auto
  with Cons.IH [of "snd (request_run_interruption env now r s)"] Cons.prems show ?case
    by (auto split: prod.split sum.split)
qed simp

lemma find_runD: "find_run rid tid uid d = Inr r \<Longrightarrow> r \<in> set (runs d) \<and> r_run_id r = rid \<and> r_user_id r = uid"
  by (auto simp: find_run_def dest: first_where_SomeD split: option.splits)

definition own_thread :: "thread_id \<Rightarrow> user \<Rightarrow> db \<Rightarrow> bool" where
  "own_thread tid u d = (\<forall>t \<in> set (threads d). t_thread_id t = tid \<longrightarrow> t_user_id t = identity u)"

lemma own_thread_update:
  assumes "own_thread tid u d" and "\<And>t. t_user_id (f t) = t_user_id t" and "\<And>t. t_thread_id (f t) = t_thread_id t"
  shows "own_thread tid u (d\<lparr>threads := update_where p f (threads d)\<rparr>)"
  unfolding own_thread_def
proof
  fix t
  assume "t \<in> set (threads (d\<lparr>threads := update_where p f (threads d)\<rparr>))"
  then obtain r where "r \<in> set (threads d)" "t = (if p r then f r else r)" by (auto simp: in_update_where)
  with assms show "t_thread_id t = tid \<longrightarrow> t_user_id t = identity u" by (simp add: own_thread_def)
qed

lemma user_rows_own_threads:
  "own_thread tid u d \<Longrightarrow> v \<noteq> identity u \<Longrightarrow> (\<And>t. t_user_id (f t) = t_user_id t) \<Longrightarrow> (\<And>t. p t \<Longrightarrow> t_thread_id t = tid) \<Longrightarrow>
   user_rows v (d\<lparr>threads := update_where p f (threads d)\<rparr>) = user_rows v d"
  by (auto simp: own_thread_def intro!: user_rows_update_threads)

lemma check_owner_own_thread:
  assumes "wf_db d" and "check_thread_owner tid u d = Inr ()"
  shows "own_thread tid u d"
  unfolding own_thread_def
proof (intro ballI impI)
  fix t
  assume "t \<in> set (threads d)" and "t_thread_id t = tid"
  then have "lookup_thread d tid = Some t"
    using assms(1) first_where_unique_key [of t_thread_id "threads d" t] by (auto simp: wf_db_def lookup_thread_def)
  with assms(2) show "t_user_id t = identity u" by (auto simp: check_thread_owner_def split: if_splits)
qed

lemma user_rows_thread_metadata:
  assumes "update_thread_metadata now tid aid gid (Some (identity u)) inp d = Inr d'" and "v \<noteq> identity u" and "own_thread tid u d"
  shows "user_rows v d' = user_rows v d \<and> own_thread tid u d'"
proof (cases "lookup_thread d tid")
  case None
  with assms(1) obtain x where "d' = d\<lparr>threads := threads d @ [x]\<rparr>" "t_user_id x = identity u"
    by (auto simp: update_thread_metadata_def Let_def split: if_splits)
  then show ?thesis using assms(2,3) by (auto simp: user_rows_def select_where_def own_thread_def)
next
  case (Some x)
  with assms(1) obtain f where f: "d' = d\<lparr>threads := update_where (\<lambda>t. t_thread_id t = tid) f (threads d)\<rparr>"
    "\<And>t. t_user_id (f t) = t_user_id t" "\<And>t. t_thread_id (f t) = t_thread_id t"
    by (auto simp: update_thread_metadata_def Let_def)
  then show ?thesis
    using assms(2,3) by (simp add: own_thread_update user_rows_own_threads)
qed

lemma user_rows_prepare:
  assumes "prepare_run env now rid tid rq u st v2 (d, q) = (res, d', q')" and "v \<noteq> identity u" and "own_thread tid u d"
  shows "user_rows v d' = user_rows v d \<and> own_thread tid u d'"
  using prepare_run_db [OF assms(1)]
proof (elim disjE exE conjE)
  fix a cc d1 d2 r
  assume d1: "update_thread_metadata now tid (a_assistant_id a) (a_graph_id a) (Some (identity u)) (rc_input rq) d = Inr d1"
    and d2: "set_thread_status now tid ''busy'' d1 = Inr d2"
    and d': "d' = d2\<lparr>runs := runs d2 @ [new_run_row (pe_codec env) now st (pe_correlation env) r a
         (build_job (pe_default_durability env) rid tid a u v2 rq (merged_config a cc))]\<rparr>"
  note one = user_rows_thread_metadata [OF d1 assms(2,3)]
  from d2 obtain f where f: "d2 = d1\<lparr>threads := update_where (\<lambda>t. t_thread_id t = tid) f (threads d1)\<rparr>"
    "\<And>t. t_user_id (f t) = t_user_id t" "\<And>t. t_thread_id (f t) = t_thread_id t"
    by (auto simp: set_thread_status_def Let_def split: if_splits dest!: bind_res_InrD)
  then have two: "user_rows v d2 = user_rows v d1" "own_thread tid u d2"
    using one assms(2) by (simp_all add: own_thread_update user_rows_own_threads [of tid u])
  moreover have "user_rows v d' = user_rows v d2"
    using assms(2) by (simp add: d' user_rows_def select_where_def new_run_row_def build_job_def)
  ultimately show ?thesis using one by (simp add: d' own_thread_def)
qed (use assms in auto)

lemma user_rows_name:
  "own_thread tid u d \<Longrightarrow> v \<noteq> identity u \<Longrightarrow> user_rows v (snd (maybe_name_thread enabled tid inp d)) = user_rows v d"
  by (auto simp: maybe_name_thread_def Let_def intro!: user_rows_own_threads split: option.split)

lemma user_rows_begin:
  assumes "wf_db (as_db s)" and "v \<noteq> identity u" and "begin_run env now rid tid rq u s = (res, s')"
  shows "user_rows v (as_db s') = user_rows v (as_db s) \<and> ((\<exists>rq'. res = Inr rq') \<longrightarrow> own_thread tid u (as_db s'))"
proof (cases "bind_res (check_thread_owner tid u (as_db s)) (\<lambda>_. apply_create_run_auth (re_authorize env) tid rq)")
  case (Inl e)
  with assms(3) show ?thesis by (auto simp: begin_run_def)
next
  case (Inr rq')
  then have own: "own_thread tid u (as_db s)"
    using check_owner_own_thread [OF assms(1)] by (auto dest!: bind_res_InrD)
  obtain r d q where p: "prepare_run (re_prep env) now rid tid (run_create.truncate rq') u Pending False (as_db s, as_queue s) = (r, d, q)"
    by (cases "prepare_run (re_prep env) now rid tid (run_create.truncate rq') u Pending False (as_db s, as_queue s)")
  from user_rows_prepare [OF this assms(2) own] assms(3) Inr show ?thesis
    by (auto simp: begin_run_def p)
qed

lemma user_rows_name_thread:
  "own_thread tid u (as_db s) \<Longrightarrow> v \<noteq> identity u \<Longrightarrow> user_rows v (as_db (name_thread env tid rq s)) = user_rows v (as_db s)"
  by (simp add: name_thread_def user_rows_name split: option.split)

lemma user_rows_create:
  assumes "wf_db (as_db s)" and "v \<noteq> identity u"
  shows "user_rows v (as_db (snd (create_run env now rid tid rq u s))) = user_rows v (as_db s)"
    and "user_rows v (as_db (snd (create_and_stream_run env now rid tid rq u s))) = user_rows v (as_db s)"
    and "user_rows v (as_db (snd (wait_for_run env now rid tid rq u s))) = user_rows v (as_db s)"
proof -
  obtain res s' where b: "begin_run env now rid tid rq u s = (res, s')" by fastforce
  note begun = user_rows_begin [OF assms b]
  have named: "user_rows v (as_db (name_thread env tid rq' s')) = user_rows v (as_db s)" if "res = Inr rq'" for rq'
    using begun that assms(2) by (simp add: user_rows_name_thread [of tid u])
  show "user_rows v (as_db (snd (create_run env now rid tid rq u s))) = user_rows v (as_db s)"
    "user_rows v (as_db (snd (create_and_stream_run env now rid tid rq u s))) = user_rows v (as_db s)"
    "user_rows v (as_db (snd (wait_for_run env now rid tid rq u s))) = user_rows v (as_db s)"
    using begun named
    by (auto simp: create_run_def create_and_stream_run_def wait_for_run_def b split: sum.split)
qed

lemma not_users_run:
  assumes "wf_db d" and "r \<in> set (runs d)" and "r_user_id r \<noteq> v"
  shows "r_run_id r \<notin> r_run_id ` set (fst (user_rows v d))"
proof
  assume "r_run_id r \<in> r_run_id ` set (fst (user_rows v d))"
  then obtain x where "x \<in> set (runs d)" "r_user_id x = v" "r_run_id x = r_run_id r"
    by (auto simp: user_rows_def)
  with assms unique_key [of r_run_id "runs d" x r] show False by (auto simp: wf_db_def)
qed

lemma user_rows_poll:
  assumes "settle_local settle"
  shows "rid \<notin> r_run_id ` set (fst (user_rows v d)) \<Longrightarrow> user_rows v (poll_run settle rid n d) = user_rows v d"
proof (induction n arbitrary: d)
  case (Suc n)
  then have "user_rows v (settle rid d) = user_rows v d" using assms by (simp add: settle_local_def)
  with Suc show ?case by (simp add: Let_def split: option.split)
qed simp

lemma user_rows_cancel_endpoint:
  assumes "wf_db (as_db s)" and "v \<noteq> identity u" and "settle_local (re_settle env)"
  shows "user_rows v (as_db (snd (cancel_run_endpoint env now u tid rid wait s))) = user_rows v (as_db s)"
proof (cases "find_run rid tid (identity u) (as_db s)")
  case (Inr r)
  with find_runD have r: "r \<in> set (runs (as_db s))" "r_run_id r = rid" "r_user_id r = identity u" by auto
  let ?s = "snd (request_run_interruption env now r s)"
  have one: "user_rows v (as_db ?s) = user_rows v (as_db s)"
    using r assms(2) by (intro user_rows_interruption) auto
  moreover have "rid \<notin> r_run_id ` set (fst (user_rows v (as_db s)))"
    using not_users_run [OF assms(1) r(1), of v] r assms(2) by auto
  ultimately have "user_rows v (poll_run (re_settle env) rid n (as_db ?s)) = user_rows v (as_db s)" for n
    using user_rows_poll [OF assms(3), of rid v "as_db ?s"] by simp
  with one show ?thesis
    by (cases "request_run_interruption env now r s") (auto simp: cancel_run_endpoint_def Inr return_run_def split: sum.split)
qed (simp add: cancel_run_endpoint_def)

lemma user_rows_delete_run:
  assumes "wf_db (as_db s)" and "v \<noteq> identity u" and "settle_local (re_settle env)"
  shows "user_rows v (as_db (snd (delete_run env now u tid rid force s))) = user_rows v (as_db s)"
proof (cases "bind_res (re_authorize env ''threads'' ''delete'' [(''run_id'', JStr rid), (''thread_id'', JStr tid)])
             (\<lambda>_. find_run rid tid (identity u) (as_db s))")
  case (Inr r)
  then have r: "r \<in> set (runs (as_db s))" "r_run_id r = rid" "r_user_id r = identity u"
    by (auto dest!: bind_res_InrD find_runD)
  have gone: "user_rows v (d\<lparr>runs := delete_where (\<lambda>x. r_run_id x = rid \<and> r_thread_id x = tid \<and> r_user_id x = identity u) (runs d)\<rparr>)
      = user_rows v d" for d
    using assms(2) by (auto simp: user_rows_def intro!: select_delete_other)
  have "user_rows v (re_settle env rid (as_db s)) = user_rows v (as_db s)"
    using assms(3) not_users_run [OF assms(1) r(1), of v] r assms(2) by (auto simp: settle_local_def)
  then show ?thesis by (simp add: delete_run_def Inr gone Let_def)
qed (simp add: delete_run_def)

lemma user_rows_update_run:
  assumes "v \<noteq> identity u"
  shows "user_rows v (as_db (snd (update_run env now u tid rid st s))) = user_rows v (as_db s)"
proof (cases "bind_res (find_run rid tid (identity u) (as_db s)) (\<lambda>r. bind_res (validate_run_status st) (\<lambda>st. Inr (r, st)))")
  case (Inr rst)
  then obtain r w where rst: "rst = (r, w)" "r_user_id r = identity u"
    by (auto dest!: bind_res_InrD find_runD)
  then have "user_rows v (as_db (snd (request_run_interruption env now r s))) = user_rows v (as_db s)"
    using assms by (intro user_rows_interruption) auto
  then show ?thesis
    by (cases "request_run_interruption env now r s") (auto simp: update_run_def Inr rst(1) return_run_def)
qed (simp add: update_run_def)

lemma cancel_targets_user: "cancel_targets sel uid d = Inr rs \<Longrightarrow> r \<in> set rs \<Longrightarrow> r_user_id r = uid"
  by (auto simp: cancel_targets_def Let_def split: cancel_selector.splits if_splits)

text \<open>
  Claim C11.  Tenant isolation of the run endpoints: whatever run ids, thread ids and selectors a
  request names, creating, streaming, awaiting, patching, cancelling (one or many) and deleting
  runs changes no run and no thread of another user.
\<close>

theorem runs_tenant_isolation:
  assumes "wf_db (as_db s)" and "v \<noteq> identity u" and "settle_local (re_settle env)"
  shows "user_rows v (as_db (run_endpoint env now u op s)) = user_rows v (as_db s)"
proof (cases op)
  case (CancelRuns sel)
  then show ?thesis
    using assms(2) cancel_targets_user [of sel "identity u" "as_db s"]
    by (auto simp: run_endpoint_def cancel_runs_def user_rows_interrupt_all split: sum.split)
qed (use assms in \<open>simp_all add: run_endpoint_def user_rows_create user_rows_update_run user_rows_cancel_endpoint
       user_rows_delete_run\<close>)

subsection \<open>Stateless runs clean up\<close>

lemma split_slash: "CHR ''/'' \<notin> set s \<Longrightarrow> split_aux ''/'' acc s = [rev acc @ s]"
  by (induction s arbitrary: acc) auto

lemma split_slash_prefix: "CHR ''/'' \<notin> set s \<Longrightarrow> split_aux ''/'' acc (s @ ''/'' @ t) = (rev acc @ s) # split_aux ''/'' [] t"
  by (induction s arbitrary: acc) auto

lemma location_parses:
  assumes "CHR ''/'' \<notin> set tid" and "CHR ''/'' \<notin> set rid" and "rid \<noteq> []"
  shows "extract_run_id_from_headers [(''location'', l), (''content-location'', run_location tid rid)] = Some rid"
proof -
  let ?body = "''threads'' @ ''/'' @ tid @ ''/'' @ ''runs'' @ ''/'' @ rid"
  have loc: "run_location tid rid = CHR ''/'' # ?body" by (simp add: run_location_def)
  obtain c cs where rid: "rev rid = c # cs" using assms(3) by (cases "rev rid") auto
  then have "c \<in> set rid" by (metis list.set_intros(1) set_rev)
  then have "c \<noteq> CHR ''/''" using assms(2) by auto
  then have strip: "strip_char (CHR ''/'') (run_location tid rid) = ?body"
    by (simp add: loc strip_char_def rid) (metis append.assoc append_Cons append_Nil rev.simps(2) rev_append rev_rev_ident rid)
  have "py_split ''/'' ?body = [''threads'', tid, ''runs'', rid]"
    unfolding py_split_def using assms(1,2)
    by (subst split_slash_prefix, simp, subst split_slash_prefix, simp, subst split_slash_prefix, simp) (simp add: split_slash)
  then show ?thesis
    by (simp add: extract_run_id_from_headers_def Let_def strip truthy_str_def) (simp add: loc)
qed

lemma own_thread_prepare:
  assumes "prepare_run env now rid tid rq u st v2 (d, q) = (res, d', q')" and "own_thread tid u d"
  shows "own_thread tid u d'"
  using user_rows_prepare [OF assms(1) _ assms(2), of "CHR ''x'' # identity u"] by simp

lemma own_thread_begin:
  assumes "own_thread tid u (as_db s)" and "begin_run env now rid tid rq u s = (res, s')"
  shows "own_thread tid u (as_db s')"
proof (cases "bind_res (check_thread_owner tid u (as_db s)) (\<lambda>_. apply_create_run_auth (re_authorize env) tid rq)")
  case (Inl e)
  with assms show ?thesis by (auto simp: begin_run_def)
next
  case (Inr rq')
  obtain r d q where p: "prepare_run (re_prep env) now rid tid (run_create.truncate rq') u Pending False (as_db s, as_queue s) = (r, d, q)"
    by (cases "prepare_run (re_prep env) now rid tid (run_create.truncate rq') u Pending False (as_db s, as_queue s)")
  from own_thread_prepare [OF p assms(1)] assms(2) Inr show ?thesis by (auto simp: begin_run_def p)
qed

lemma fresh_own_thread: "lookup_thread d tid = None \<Longrightarrow> own_thread tid u d"
  by (auto simp: lookup_thread_def first_where_None_iff own_thread_def)

lemma deleted_thread_gone:
  "own_thread tid u (as_db s) \<Longrightarrow> lookup_thread (as_db (delete_thread_with_log env now False tid u s)) tid = None"
  by (auto simp: delete_thread_with_log_def delete_thread_by_id_def lookup_thread_def first_where_None_iff own_thread_def Let_def)

lemma failed_start_gone:
  assumes "own_thread tid u (as_db s)" and "should_delete rq" and "or_clean_up env now False tid rq u (Inl e, s) = (r, s')"
  shows "lookup_thread (as_db s') tid = None"
  using assms deleted_thread_gone [OF assms(1)] by (auto simp: or_clean_up_def)

text \<open>
  A stateless run leaves no thread behind.  On a fresh thread id and with deletion
  asked for (the default), each of the three endpoints that fails to start leaves no thread with
  that id; the thread of a streamed run is gone once the stream ended, or the client left after the
  run had finished (its id is recovered from the response's \<^verbatim>\<open>Content-Location\<close>), and is untouched
  when the client left earlier; the threads of awaited and of background runs are gone once the
  body or the wait ended.
\<close>

theorem stateless_run_leaves_no_thread:
  assumes "lookup_thread (as_db s) tid = None" and "should_delete rq"
    and "CHR ''/'' \<notin> set tid" and "CHR ''/'' \<notin> set rid" and "rid \<noteq> []"
  shows "(case stateless_stream_run env now False rid tid rq u s of
        (Inl e, s1) \<Rightarrow> lookup_thread (as_db s1) tid = None
      | (Inr resp, s1) \<Rightarrow> \<forall>s2 completed. own_thread tid u (as_db s2) \<longrightarrow>
          (if completed \<or> run_finished rid s2
           then lookup_thread (as_db (stream_body_closed env now False tid rq u resp completed s2)) tid = None
           else stream_body_closed env now False tid rq u resp completed s2 = s2))
    \<and> (case stateless_wait_for_run env now False rid tid rq u s of
        (Inl e, s1) \<Rightarrow> lookup_thread (as_db s1) tid = None
      | (Inr resp, s1) \<Rightarrow> \<forall>s2. own_thread tid u (as_db s2) \<longrightarrow>
          lookup_thread (as_db (wait_body_closed env now False tid rq u True s2)) tid = None)
    \<and> (case stateless_create_run env now False rid tid rq u s of
        (Inl e, s1) \<Rightarrow> lookup_thread (as_db s1) tid = None
      | (Inr r, s1) \<Rightarrow> \<forall>s2 waited. own_thread tid u (as_db s2) \<and> waited \<in> {Inr (), Inl TimeoutError, Inl RedisError} \<longrightarrow>
          lookup_thread (as_db (snd (background_run_ended env now False waited tid rq u s2))) tid = None)"
proof -
  obtain res s' where b: "begin_run env now rid tid rq u s = (res, s')" by fastforce
  have own: "own_thread tid u (as_db s')"
    by (rule own_thread_begin [OF fresh_own_thread [OF assms(1)] b])
  note defs = stateless_stream_run_def stateless_wait_for_run_def stateless_create_run_def
    create_and_stream_run_def wait_for_run_def create_run_def or_clean_up_def b
  show ?thesis
  proof (cases res)
    case (Inl e)
    then show ?thesis using deleted_thread_gone [OF own] assms(2) by (simp add: defs)
  next
    case (Inr rq')
    then show ?thesis
      using assms(2) location_parses [OF assms(3-5)]
      by (auto simp: defs stream_body_closed_def wait_body_closed_def background_run_ended_def
          cleanup_after_background_run_def deleted_thread_gone)
  qed
qed

subsection \<open>Forced deletion\<close>

text \<open>
  Deleting an active run by force, when its task does not live in the process that
  serves the request, removes the row and leaves the thread as it was: still busy, although
  nothing will ever settle it, since the run's later finalisation or interruption finds no row and
  changes nothing.
\<close>

theorem forced_delete_strands_thread:
  assumes "wf_db (as_db s)" and "r \<in> set (runs (as_db s))" and "is_active r" and "r_user_id r = identity u"
    and "re_authorize env ''threads'' ''delete'' [(''run_id'', JStr (r_run_id r)), (''thread_id'', JStr (r_thread_id r))] = Inr f"
    and "\<not> re_live env (r_run_id r)"
    and "delete_run env now u (r_thread_id r) (r_run_id r) True s = (res, s')"
    and "st \<in> set final_names" and "validate_thread_status ts = Inr w"
  shows "res = Inr () \<and> lookup_run (as_db s') (r_run_id r) = None \<and> threads (as_db s') = threads (as_db s)
    \<and> finalize_run later (r_run_id r) (r_thread_id r) (r_user_id r) st ts outp err (as_db s') = Inr (False, as_db s')
    \<and> interrupt_unowned_run later (r_run_id r) (r_thread_id r) (r_user_id r) (as_db s') = (False, as_db s')"
proof -
  let ?p = "\<lambda>x. r_run_id x = r_run_id r \<and> r_thread_id x = r_thread_id r \<and> r_user_id x = identity u"
  have f: "find_run (r_run_id r) (r_thread_id r) (identity u) (as_db s) = Inr r"
    using find_own_run [OF assms(1,2,4)] by (simp add: find_run_def)
  from assms(7) have s': "res = Inr ()" "as_db s' = (as_db s)\<lparr>runs := delete_where ?p (runs (as_db s))\<rparr>"
    using assms(3,6) by (auto simp: delete_run_def assms(5) f Let_def)
  have none: "r_run_id x \<noteq> r_run_id r" if "x \<in> set (runs (as_db s'))" for x
  proof
    assume "r_run_id x = r_run_id r"
    with that have "x = r" using assms(1,2) unique_key [of r_run_id "runs (as_db s)" x r] by (auto simp: s'(2) wf_db_def)
    with that assms(4) show False by (simp add: s'(2))
  qed
  obtain v where v: "validate_run_status st = Inr v" using assms(8) final_names_terminal by blast
  have sel: "select_where (\<lambda>x. r_run_id x = r_run_id r \<and> q x) (runs (as_db s')) = []" for q
    using none by (simp add: select_where_Nil_iff)
  have "lookup_run (as_db s') (r_run_id r) = None" using none unfolding lookup_run_None_iff by (metis imageE)
  moreover have "threads (as_db s') = threads (as_db s)" by (simp add: s'(2))
  moreover have "finalize_run later (r_run_id r) (r_thread_id r) (r_user_id r) st ts outp err (as_db s') = Inr (False, as_db s')"
    by (simp add: finalize_run_def v assms(9) sel)
  moreover have "interrupt_unowned_run later (r_run_id r) (r_thread_id r) (r_user_id r) (as_db s') = (False, as_db s')"
    by (simp add: interrupt_unowned_run_def sel)
  ultimately show ?thesis using s'(1) by blast
qed

subsection \<open>Examples\<close>

definition example_settle :: "run_id \<Rightarrow> db \<Rightarrow> db" where
  "example_settle rid d = d\<lparr>runs := update_where (\<lambda>r. r_run_id r = rid) (\<lambda>r. r\<lparr>r_status := Interrupted\<rparr>) (runs d)\<rparr>"

definition example_runs_env :: "redis_state \<Rightarrow> runs_env" where
  "example_runs_env rs =
     \<lparr>re_authorize = (\<lambda>_ _ v. Inr (None, v)), re_prep = example_env rs, re_naming = True, re_live = (\<lambda>_. False),
      re_settle = example_settle\<rparr>"

definition example_api :: "run_row list \<Rightarrow> api_state" where
  "example_api rs = \<lparr>as_db = example_db rs, as_streaming = \<lparr>ss_event_counters = [], ss_manager = \<lparr>bm_brokers = [], bm_event_counters = []\<rparr>\<rparr>, as_queue = []\<rparr>"

definition bob :: user where
  "bob = \<lparr>identity = ''bob'', is_authenticated = True, permissions = [], display_name = [], org_id = None, email = None\<rparr>"

lemma example_settle_local: "settle_local example_settle"
  by (auto simp: settle_local_def example_settle_def user_rows_def intro!: select_rewritten_other)

theorem interruption_respects_owner_witness:
  "example_run ''r1'' Running (Some ''w'') (Some 100)
     \<in> set (runs (as_db (snd (cancel_runs (example_runs_env RedisUp) 10 example_user (ByStatus ''all'')
          (example_api [example_run ''r1'' Running (Some ''w'') (Some 100), example_run ''r2'' Pending None None])))))
   \<and> (\<exists>x'. lookup_run (as_db (snd (cancel_run_endpoint (example_runs_env RedisUp) 10 example_user ''t1'' ''r2'' False
          (example_api [example_run ''r1'' Running (Some ''w'') (Some 100), example_run ''r2'' Pending None None])))) ''r2'' = Some x'
        \<and> r_status x' = Interrupted \<and> r_claimed_by x' = None)"
proof -
  let ?r1 = "example_run ''r1'' Running (Some ''w'') (Some 100)" and ?r2 = "example_run ''r2'' Pending None None"
  let ?s = "example_api [?r1, ?r2]"
  have wf: "wf_db (as_db ?s)" and mem: "?r1 \<in> set (runs (as_db ?s))" "?r2 \<in> set (runs (as_db ?s))"
    by (simp_all add: example_api_def example_defs wf_db_def lease_ok_def)
  have "live_owned 10 ?r1" "is_active ?r2 \<and> \<not> live_owned 10 ?r2 \<and> r_user_id ?r2 = identity example_user"
    by (simp_all add: live_owned_def is_active_iff example_run_def lease_expired_def example_user_def)
  moreover have "r_thread_id ?r2 = ''t1''" "r_run_id ?r2 = ''r2''" by (simp_all add: example_run_def)
  ultimately show ?thesis
    using interruption_respects_owner [OF wf mem(1), of 10] interruption_respects_owner [OF wf mem(2), of 10 _ example_user]
    by metis
qed

theorem runs_tenant_isolation_witness:
  "user_rows ''alice'' (as_db (run_endpoint (example_runs_env RedisUp) 10 bob (DeleteRun ''t1'' ''r1'' True)
       (example_api [example_run ''r1'' Pending None None])))
     = user_rows ''alice'' (as_db (example_api [example_run ''r1'' Pending None None]))
   \<and> user_rows ''alice'' (as_db (example_api [example_run ''r1'' Pending None None])) \<noteq> ([], [])"
proof
  show "user_rows ''alice'' (as_db (run_endpoint (example_runs_env RedisUp) 10 bob (DeleteRun ''t1'' ''r1'' True)
       (example_api [example_run ''r1'' Pending None None])))
     = user_rows ''alice'' (as_db (example_api [example_run ''r1'' Pending None None]))"
    by (rule runs_tenant_isolation)
      (simp_all add: example_api_def example_defs wf_db_def lease_ok_def bob_def example_runs_env_def example_settle_local)
  show "user_rows ''alice'' (as_db (example_api [example_run ''r1'' Pending None None])) \<noteq> ([], [])"
    by (simp add: user_rows_def example_api_def example_defs select_where_def)
qed

definition stateless_request :: run_request where
  "stateless_request = run_create.extend example_request \<lparr>rr_stream = False, rr_on_disconnect = None, rr_on_completion = None\<rparr>"

theorem stateless_run_leaves_no_thread_witness:
  "\<exists>s1. stateless_create_run (example_runs_env RedisDown\<lparr>re_authorize := (\<lambda>_ _ _. Inl (HTTPException 403))\<rparr>) 10 False
          ''r9'' ''t9'' stateless_request example_user (example_api []) = (Inl (HTTPException 403), s1)
     \<and> lookup_thread (as_db s1) ''t9'' = None"
proof -
  let ?env = "example_runs_env RedisDown\<lparr>re_authorize := (\<lambda>_ _ _. Inl (HTTPException 403))\<rparr>"
  have fresh: "lookup_thread (as_db (example_api [])) ''t9'' = None"
    by (simp add: example_api_def lookup_thread_def first_where_def example_db_def example_thread_def)
  have del: "should_delete stateless_request"
    by (simp add: should_delete_def stateless_request_def run_create.extend_def)
  have "fst (stateless_create_run ?env 10 False ''r9'' ''t9'' stateless_request example_user (example_api [])) = Inl (HTTPException 403)"
    by (simp add: stateless_create_run_def create_run_def begin_run_def check_thread_owner_def fresh
        apply_create_run_auth_def or_clean_up_def)
  then show ?thesis
    using stateless_run_leaves_no_thread [OF fresh del, where rid = "''r9''" and env = ?env and now = 10 and u = example_user]
    by (cases "stateless_create_run ?env 10 False ''r9'' ''t9'' stateless_request example_user (example_api [])") auto
qed

theorem forced_delete_strands_thread_witness:
  "\<exists>s'. delete_run (example_runs_env RedisUp) 10 example_user ''t1'' ''r1'' True (example_api [example_run ''r1'' Pending None None])
          = (Inr (), s')
     \<and> lookup_run (as_db s') ''r1'' = None \<and> threads (as_db s') = [example_thread]
     \<and> finalize_run 20 ''r1'' ''t1'' ''alice'' ''success'' ''idle'' None None (as_db s') = Inr (False, as_db s')"
proof -
  let ?r = "example_run ''r1'' Pending None None" and ?env = "example_runs_env RedisUp"
  obtain res s' where d: "delete_run ?env 10 example_user (r_thread_id ?r) (r_run_id ?r) True (example_api [?r]) = (res, s')"
    by fastforce
  have "res = Inr () \<and> lookup_run (as_db s') (r_run_id ?r) = None \<and> threads (as_db s') = threads (as_db (example_api [?r]))
    \<and> finalize_run 20 (r_run_id ?r) (r_thread_id ?r) (r_user_id ?r) ''success'' ''idle'' None None (as_db s') = Inr (False, as_db s')
    \<and> interrupt_unowned_run 20 (r_run_id ?r) (r_thread_id ?r) (r_user_id ?r) (as_db s') = (False, as_db s')"
    by (rule forced_delete_strands_thread [OF _ _ _ _ _ _ d, where f = "(None, [(''run_id'', JStr ''r1''), (''thread_id'', JStr ''t1'')])" and w = Idle])
      (simp_all add: example_api_def example_defs wf_db_def lease_ok_def is_active_iff example_user_def example_runs_env_def
        final_names_def validate_thread_status_def)
  with d show ?thesis by (auto simp: example_api_def example_db_def) (simp add: example_run_def)
qed

end
