(* ===== verification/Enforcement.thy ===== *)
theory Enforcement
  imports Auth Event_Ids "HOL-Library.List_Lexorder" "HOL-Library.Char_ord"
begin

text \<open>
  Who a request is and which handler judges it: the authentication backend
  (\<^verbatim>\<open>auth/middleware.py\<close>), the request dependencies around it (\<^verbatim>\<open>auth/deps.py\<close>), the table of
  routes and their events (\<^verbatim>\<open>auth/registry.py\<close>), the dependency that dispatches the handlers for
  the routes that do not do it themselves (\<^verbatim>\<open>auth/enforcement.py\<close>) and the rate limit
  (\<^verbatim>\<open>auth/rate_limit.py\<close>).  The authenticate handler, the files and modules an auth path may
  name, and the window counter of the limits library are arguments.
\<close>

subsection \<open>Routes\<close>

definition ROUTE_AUTH_MAP :: "((string \<times> string) \<times> (string \<times> string)) list" where
  "ROUTE_AUTH_MAP =
     [((''POST'', ''/assistants''), (''assistants'', ''create'')),
      ((''GET'', ''/assistants''), (''assistants'', ''search'')),
      ((''POST'', ''/assistants/search''), (''assistants'', ''search'')),
      ((''POST'', ''/assistants/count''), (''assistants'', ''search'')),
      ((''GET'', ''/assistants/{assistant_id}''), (''assistants'', ''read'')),
      ((''PATCH'', ''/assistants/{assistant_id}''), (''assistants'', ''update'')),
      ((''DELETE'', ''/assistants/{assistant_id}''), (''assistants'', ''delete'')),
      ((''POST'', ''/assistants/{assistant_id}/latest''), (''assistants'', ''update'')),
      ((''POST'', ''/assistants/{assistant_id}/versions''), (''assistants'', ''read'')),
      ((''GET'', ''/assistants/{assistant_id}/schemas''), (''assistants'', ''read'')),
      ((''GET'', ''/assistants/{assistant_id}/graph''), (''assistants'', ''read'')),
      ((''GET'', ''/assistants/{assistant_id}/subgraphs''), (''assistants'', ''read'')),
      ((''POST'', ''/threads''), (''threads'', ''create'')),
      ((''GET'', ''/threads''), (''threads'', ''search'')),
      ((''POST'', ''/threads/search''), (''threads'', ''search'')),
      ((''GET'', ''/threads/{thread_id}''), (''threads'', ''read'')),
      ((''PATCH'', ''/threads/{thread_id}''), (''threads'', ''update'')),
      ((''DELETE'', ''/threads/{thread_id}''), (''threads'', ''delete'')),
      ((''POST'', ''/threads/prune''), (''threads'', ''delete'')),
      ((''GET'', ''/threads/{thread_id}/state''), (''threads'', ''read'')),
      ((''POST'', ''/threads/{thread_id}/state''), (''threads'', ''update'')),
      ((''GET'', ''/threads/{thread_id}/state/{checkpoint_id}''), (''threads'', ''read'')),
      ((''POST'', ''/threads/{thread_id}/state/checkpoint''), (''threads'', ''read'')),
      ((''GET'', ''/threads/{thread_id}/history''), (''threads'', ''read'')),
      ((''POST'', ''/threads/{thread_id}/history''), (''threads'', ''read'')),
      ((''POST'', ''/threads/{thread_id}/runs''), (''threads'', ''create_run'')),
      ((''POST'', ''/threads/{thread_id}/runs/stream''), (''threads'', ''create_run'')),
      ((''POST'', ''/threads/{thread_id}/runs/wait''), (''threads'', ''create_run'')),
      ((''GET'', ''/threads/{thread_id}/runs''), (''threads'', ''search'')),
      ((''GET'', ''/threads/{thread_id}/runs/{run_id}''), (''threads'', ''read'')),
      ((''PATCH'', ''/threads/{thread_id}/runs/{run_id}''), (''threads'', ''update'')),
      ((''GET'', ''/threads/{thread_id}/runs/{run_id}/join''), (''threads'', ''read'')),
      ((''GET'', ''/threads/{thread_id}/runs/{run_id}/stream''), (''threads'', ''read'')),
      ((''POST'', ''/threads/{thread_id}/runs/{run_id}/cancel''), (''threads'', ''update'')),
      ((''DELETE'', ''/threads/{thread_id}/runs/{run_id}''), (''threads'', ''delete'')),
      ((''POST'', ''/runs''), (''threads'', ''create_run'')),
      ((''POST'', ''/runs/cancel''), (''threads'', ''update'')),
      ((''POST'', ''/runs/stream''), (''threads'', ''create_run'')),
      ((''POST'', ''/runs/wait''), (''threads'', ''create_run'')),
      ((''POST'', ''/runs/crons''), (''crons'', ''create'')),
      ((''POST'', ''/threads/{thread_id}/runs/crons''), (''crons'', ''create'')),
      ((''PATCH'', ''/runs/crons/{cron_id}''), (''crons'', ''update'')),
      ((''DELETE'', ''/runs/crons/{cron_id}''), (''crons'', ''delete'')),
      ((''POST'', ''/runs/crons/search''), (''crons'', ''search'')),
      ((''POST'', ''/runs/crons/count''), (''crons'', ''search'')),
      ((''PUT'', ''/store/items''), (''store'', ''put'')),
      ((''GET'', ''/store/items''), (''store'', ''get'')),
      ((''DELETE'', ''/store/items''), (''store'', ''delete'')),
      ((''POST'', ''/store/items/search''), (''store'', ''search'')),
      ((''POST'', ''/store/namespaces''), (''store'', ''list_namespaces'')),
      ((''POST'', ''/threads/{thread_id}/stream/events''), (''threads'', ''read'')),
      ((''POST'', ''/threads/{thread_id}/commands''), (''threads'', ''create_run''))]"

definition SELF_DISPATCHING :: "(string \<times> string) list" where
  "SELF_DISPATCHING =
     [(''POST'', ''/assistants''),
      (''GET'', ''/assistants''),
      (''POST'', ''/assistants/search''),
      (''POST'', ''/assistants/count''),
      (''GET'', ''/assistants/{assistant_id}''),
      (''PATCH'', ''/assistants/{assistant_id}''),
      (''DELETE'', ''/assistants/{assistant_id}''),
      (''POST'', ''/assistants/{assistant_id}/latest''),
      (''POST'', ''/assistants/{assistant_id}/versions''),
      (''GET'', ''/assistants/{assistant_id}/schemas''),
      (''GET'', ''/assistants/{assistant_id}/graph''),
      (''GET'', ''/assistants/{assistant_id}/subgraphs''),
      (''POST'', ''/threads''),
      (''GET'', ''/threads''),
      (''POST'', ''/threads/search''),
      (''POST'', ''/threads/prune''),
      (''GET'', ''/threads/{thread_id}''),
      (''PATCH'', ''/threads/{thread_id}''),
      (''DELETE'', ''/threads/{thread_id}''),
      (''POST'', ''/threads/{thread_id}/runs''),
      (''POST'', ''/threads/{thread_id}/runs/stream''),
      (''POST'', ''/threads/{thread_id}/runs/wait''),
      (''GET'', ''/threads/{thread_id}/runs/{run_id}''),
      (''DELETE'', ''/threads/{thread_id}/runs/{run_id}''),
      (''POST'', ''/runs''),
      (''POST'', ''/runs/stream''),
      (''POST'', ''/runs/wait''),
      (''POST'', ''/runs/crons''),
      (''POST'', ''/threads/{thread_id}/runs/crons''),
      (''PATCH'', ''/runs/crons/{cron_id}''),
      (''DELETE'', ''/runs/crons/{cron_id}''),
      (''POST'', ''/runs/crons/search''),
      (''POST'', ''/runs/crons/count''),
      (''PUT'', ''/store/items''),
      (''GET'', ''/store/items''),
      (''DELETE'', ''/store/items''),
      (''POST'', ''/store/items/search''),
      (''POST'', ''/store/namespaces'')]"

definition EXEMPT_PATHS :: "string list" where
  "EXEMPT_PATHS =
     [''/'',
      ''/health'',
      ''/ready'',
      ''/live'',
      ''/metrics'',
      ''/info'',
      ''/docs'',
      ''/redoc'',
      ''/openapi.json'',
      ''/mcp/servers'',
      ''/audit/logs'',
      ''/shop/products'',
      ''/shop/cart'',
      ''/ml/predict'',
      ''/ml/health'',
      ''/hub/oauth/callback'',
      ''/skills'',
      ''/skills/import'',
      ''/skills/{name}'',
      ''/mcp-connections'',
      ''/mcp-connections/{name}'',
      ''/hub/mcp/{name}/tools/list'',
      ''/hub/mcp/{name}/tools/call'',
      ''/hub/mcp/{name}/resources/list'',
      ''/hub/mcp/{name}/resources/read'',
      ''/docs/oauth2-redirect'']"

definition is_self_dispatching :: "string \<Rightarrow> string \<Rightarrow> bool" where
  "is_self_dispatching meth path = ((py_upper meth, path) \<in> set SELF_DISPATCHING)"

definition lookup_route_auth :: "string \<Rightarrow> string \<Rightarrow> (string \<times> string) option" where
  "lookup_route_auth meth path = map_of ROUTE_AUTH_MAP (py_upper meth, path)"

subsection \<open>Wiring\<close>

text \<open>A mounted route: its dependencies that dispatch an event, and the mark of having been wired.\<close>

record api_route =
  rt_path :: string
  rt_methods :: "string list"
  rt_enforcers :: "(string \<times> string) list"
  rt_wired :: bool

datatype route_node = ApiRoute api_route | Router "route_node list" | OtherRoute

fun wire_methods :: "string list \<Rightarrow> api_route \<Rightarrow> api_route \<times> nat" where
  "wire_methods [] r = (r, 0)"
| "wire_methods (m # ms) r =
     (case lookup_route_auth m (rt_path r) of
        None \<Rightarrow> wire_methods ms r
      | Some ev \<Rightarrow>
          if is_self_dispatching m (rt_path r) then (r\<lparr>rt_wired := True\<rparr>, 0)
          else (r\<lparr>rt_enforcers := ev # rt_enforcers r, rt_wired := True\<rparr>, 1))"

definition wire_route :: "api_route \<Rightarrow> api_route \<times> nat" where
  "wire_route r = (if rt_wired r then (r, 0) else wire_methods (sort (remdups (rt_methods r))) r)"

fun walk_routes :: "route_node list \<Rightarrow> route_node list \<times> nat" where
  "walk_routes [] = ([], 0)"
| "walk_routes (ApiRoute r # ns) =
     (let (r', k) = wire_route r; (ns', k') = walk_routes ns in (ApiRoute r' # ns', k + k'))"
| "walk_routes (Router rs # ns) =
     (let (rs', k) = walk_routes rs; (ns', k') = walk_routes ns in (Router rs' # ns', k + k'))"
| "walk_routes (OtherRoute # ns) = (let (ns', k) = walk_routes ns in (OtherRoute # ns', k))"

definition apply_auth_enforcement :: "route_node list \<Rightarrow> route_node list \<times> nat" where
  "apply_auth_enforcement routes = walk_routes routes"

subsection \<open>The enforcer\<close>

text \<open>\<open>parsed\<close> is the body as \<open>json.loads\<close> gives it, if it does.\<close>

definition read_json_body :: "string \<Rightarrow> json option \<Rightarrow> dict" where
  "read_json_body meth parsed =
     (if meth \<in> {''GET'', ''HEAD''} then []
      else (case parsed of Some (JObj d) \<Rightarrow> d | _ \<Rightarrow> []))"

definition enforced_value :: "string \<Rightarrow> json option \<Rightarrow> dict \<Rightarrow> dict" where
  "enforced_value meth parsed path_params = dict_update (read_json_body meth parsed) path_params"

definition enforce ::
  "('h \<Rightarrow> dict \<Rightarrow> handler_outcome) \<Rightarrow> string \<times> string \<Rightarrow> string \<Rightarrow> json option \<Rightarrow> dict
   \<Rightarrow> 'h auth option \<times> (string \<times> string) list \<Rightarrow> unit result \<times> 'h auth option \<times> (string \<times> string) list"
where
  "enforce call event meth parsed path_params st =
     (case st of (auth, dispatched) \<Rightarrow>
        (case handle_event (\<lambda>h. call h (enforced_value meth parsed path_params)) auth (Some event) of
           (Inl e, auth') \<Rightarrow> (Inl e, auth', dispatched)
         | (Inr _, auth') \<Rightarrow> (Inr (), auth', List.insert event dispatched)))"

fun run_enforcers ::
  "('h \<Rightarrow> dict \<Rightarrow> handler_outcome) \<Rightarrow> (string \<times> string) list \<Rightarrow> string \<Rightarrow> json option \<Rightarrow> dict
   \<Rightarrow> 'h auth option \<times> (string \<times> string) list \<Rightarrow> unit result \<times> 'h auth option \<times> (string \<times> string) list"
where
  "run_enforcers call [] meth parsed path_params st = (Inr (), st)"
| "run_enforcers call (ev # evs) meth parsed path_params st =
     (case enforce call ev meth parsed path_params st of
        (Inl e, st') \<Rightarrow> (Inl e, st')
      | (Inr _, st') \<Rightarrow> run_enforcers call evs meth parsed path_params st')"

subsection \<open>The authentication backend\<close>

text \<open>Where an auth path points: a file or a module and the variable in it.\<close>

datatype auth_target = AuthFile string string | AuthModule string string

definition path_ends :: "string \<Rightarrow> string \<Rightarrow> bool" where
  "path_ends suffix s = (length suffix \<le> length s \<and> drop (length s - length suffix) s = suffix)"

definition path_starts :: "string \<Rightarrow> string \<Rightarrow> bool" where
  "path_starts p s = (take (length p) s = p)"

text \<open>\<open>rsplit(":", 1)\<close>.\<close>

definition rsplit_colon :: "string \<Rightarrow> (string \<times> string) option" where
  "rsplit_colon s =
     (if CHR '':'' \<notin> set s then None
      else Some (rev (tl (dropWhile (\<lambda>c. c \<noteq> CHR '':'') (rev s))), rev (takeWhile (\<lambda>c. c \<noteq> CHR '':'') (rev s))))"

definition resolve_auth_target :: "string \<Rightarrow> auth_target option" where
  "resolve_auth_target path =
     (case rsplit_colon path of
        None \<Rightarrow> None
      | Some (m, var) \<Rightarrow>
          Some (if path_ends ''.py'' m \<or> path_starts ''./'' m \<or> path_starts ''../'' m then AuthFile m var else AuthModule m var))"

text \<open>
  \<open>_load_auth_instance\<close>: \<open>load\<close> is the auth object a target holds, if it exists, loads and is one;
  whatever goes wrong, there is no instance.  An auth object is its authenticate handler, if it
  registered one.
\<close>

type_synonym headers = "(string \<times> string) list"
type_synonym 's authenticator = "headers \<Rightarrow> 's \<Rightarrow> handler_outcome \<times> 's"

definition load_auth_instance ::
  "(auth_target \<Rightarrow> 's authenticator option option) \<Rightarrow> dict option result \<Rightarrow> 's authenticator option option"
where
  "load_auth_instance load config =
     (case config of
        Inr (Some c) \<Rightarrow> (case map_of c ''path'' of Some (JStr p) \<Rightarrow> Option.bind (resolve_auth_target p) load | _ \<Rightarrow> None)
      | _ \<Rightarrow> None)"

text \<open>The scopes of \<open>AuthCredentials\<close> and the data of \<open>LangGraphUser\<close>.\<close>

definition credential_scopes :: "json \<Rightarrow> json list result" where
  "credential_scopes p =
     (case p of
        JNull \<Rightarrow> Inr [] | JStr s \<Rightarrow> Inr [JStr s] | JList xs \<Rightarrow> Inr xs | JObj d \<Rightarrow> Inr (map (JStr \<circ> fst) d)
      | _ \<Rightarrow> Inl TypeError)"

definition anonymous_user :: dict where
  "anonymous_user = [(''identity'', JStr ''anonymous''), (''display_name'', JStr ''Anonymous User''), (''is_authenticated'', JBool False)]"

definition authenticate ::
  "'s authenticator option option \<Rightarrow> headers \<Rightarrow> 's \<Rightarrow> (json list \<times> dict) option result \<times> 's"
where
  "authenticate inst hs st =
     (case inst of
        None \<Rightarrow> (Inr (Some ([], anonymous_user)), st)
      | Some None \<Rightarrow> (Inr None, st)
      | Some (Some h) \<Rightarrow>
          (case h hs st of
             (Returned (JObj d), st') \<Rightarrow>
               (if d = [] \<or> map_of d ''identity'' = None then Inl AuthenticationError
                else (case credential_scopes (get_or d ''permissions'' (JList [])) of
                        Inl _ \<Rightarrow> Inl AuthenticationError
                      | Inr scopes \<Rightarrow> Inr (Some (scopes, d))), st')
           | (_, st') \<Rightarrow> (Inl AuthenticationError, st')))"

subsection \<open>The request's user\<close>

text \<open>A boolean field of a model in lax mode.\<close>

definition lax_bool :: "json \<Rightarrow> bool option" where
  "lax_bool v =
     (case v of
        JBool b \<Rightarrow> Some b
      | JInt n \<Rightarrow> if n = 0 then Some False else if n = 1 then Some True else None
      | JFloat q \<Rightarrow> if q = 0 then Some False else if q = 1 then Some True else None
      | JStr s \<Rightarrow>
          if py_lower s \<in> {''0'', ''off'', ''f'', ''false'', ''n'', ''no''} then Some False
          else if py_lower s \<in> {''1'', ''on'', ''t'', ''true'', ''y'', ''yes''} then Some True
          else None
      | _ \<Rightarrow> None)"

definition str_value :: "json \<Rightarrow> string option" where
  "str_value v = (case v of JStr s \<Rightarrow> Some s | _ \<Rightarrow> None)"

definition optional_str :: "json \<Rightarrow> string option option" where
  "optional_str v = (case v of JNull \<Rightarrow> Some None | JStr s \<Rightarrow> Some (Some s) | _ \<Rightarrow> None)"

text \<open>\<open>User(**data)\<close>: a value of the wrong type is a validation error.\<close>

definition user_model :: "dict \<Rightarrow> user result" where
  "user_model d =
     (case (str_value (get_or d ''identity'' JNull), lax_bool (get_or d ''is_authenticated'' (JBool True)),
            (case get_or d ''permissions'' (JList []) of JList xs \<Rightarrow> those (map str_value xs) | _ \<Rightarrow> None),
            str_value (get_or d ''display_name'' (JStr [])),
            optional_str (get_or d ''org_id'' JNull), optional_str (get_or d ''email'' JNull)) of
        (Some i, Some a, Some ps, Some n, Some org, Some em) \<Rightarrow>
          Inr \<lparr>identity = i, is_authenticated = a, permissions = ps, display_name = n, org_id = org, email = em\<rparr>
      | _ \<Rightarrow> Inl ValueError)"

text \<open>\<open>_to_user_model\<close> works on a copy of the user's data.\<close>

definition to_user_model :: "dict \<Rightarrow> user result" where
  "to_user_model d =
     (case map_of d ''identity'' of
        None \<Rightarrow> Inl (HTTPException 401)
      | Some i \<Rightarrow> user_model (if get_or d ''display_name'' JNull = JNull then AList.update ''display_name'' i d else d))"

text \<open>The part of the request's scope the dependencies share.\<close>

record request_scope =
  sc_user :: "dict option"
  sc_auth :: "json list option"
  sc_auth_result :: "user option"

definition new_scope :: request_scope where
  "new_scope = \<lparr>sc_user = None, sc_auth = None, sc_auth_result = None\<rparr>"

definition require_auth ::
  "'s authenticator option option \<Rightarrow> headers \<Rightarrow> request_scope \<times> 's \<Rightarrow> user result \<times> request_scope \<times> 's"
where
  "require_auth inst hs s =
     (case s of (scope, st) \<Rightarrow>
        (case sc_auth_result scope of
           Some u \<Rightarrow> (Inr u, scope, st)
         | None \<Rightarrow>
             (case authenticate inst hs st of
                (Inr (Some (scopes, d)), st') \<Rightarrow>
                  (let scope' = scope\<lparr>sc_user := Some d, sc_auth := Some scopes\<rparr>
                   in case to_user_model d of
                        Inl e \<Rightarrow> (Inl e, scope', st')
                      | Inr u \<Rightarrow> (Inr u, scope'\<lparr>sc_auth_result := Some u\<rparr>, st'))
              | (_, st') \<Rightarrow> (Inl (HTTPException 401), scope, st'))))"

definition get_current_user ::
  "'s authenticator option option \<Rightarrow> headers \<Rightarrow> request_scope \<times> 's \<Rightarrow> user result \<times> request_scope \<times> 's"
where
  "get_current_user inst hs s =
     (case sc_user (fst s) of
        None \<Rightarrow> require_auth inst hs s
      | Some d \<Rightarrow> (to_user_model d, s))"

definition require_permission ::
  "'s authenticator option option \<Rightarrow> string \<Rightarrow> headers \<Rightarrow> request_scope \<times> 's \<Rightarrow> user result \<times> request_scope \<times> 's"
where
  "require_permission inst perm hs s =
     (case get_current_user inst hs s of
        (r, s') \<Rightarrow> (bind_res r (\<lambda>u. if perm \<in> set (permissions u) then Inr u else Inl (HTTPException 403)), s'))"

text \<open>A request resolves a sequence of these dependencies and stops at the first that raises.\<close>

datatype dependency = RequireAuth | CurrentUser | Permission string

definition resolve ::
  "'s authenticator option option \<Rightarrow> headers \<Rightarrow> dependency \<Rightarrow> request_scope \<times> 's \<Rightarrow> user result \<times> request_scope \<times> 's"
where
  "resolve inst hs dep =
     (case dep of RequireAuth \<Rightarrow> require_auth inst hs | CurrentUser \<Rightarrow> get_current_user inst hs
      | Permission p \<Rightarrow> require_permission inst p hs)"

fun resolve_all ::
  "'s authenticator option option \<Rightarrow> headers \<Rightarrow> dependency list \<Rightarrow> request_scope \<times> 's \<Rightarrow> user list result \<times> request_scope \<times> 's"
where
  "resolve_all inst hs [] s = (Inr [], s)"
| "resolve_all inst hs (dep # deps) s =
     (case resolve inst hs dep s of
        (Inl e, s') \<Rightarrow> (Inl e, s')
      | (Inr u, s') \<Rightarrow>
          (case resolve_all inst hs deps s' of (r, s'') \<Rightarrow> (bind_res r (\<lambda>us. Inr (u # us)), s'')))"

subsection \<open>Rate limits\<close>

definition rate_key :: "user \<Rightarrow> string option \<Rightarrow> string" where
  "rate_key u client =
     (if identity u \<noteq> ''anonymous'' then ''user:'' @ identity u
      else ''ip:'' @ (case client of Some h \<Rightarrow> h | None \<Rightarrow> ''unknown''))"

text \<open>\<open>hit\<close> counts a request in the window of a tier and a key and says whether it still fits.\<close>

definition rate_limit ::
  "bool \<Rightarrow> (string \<Rightarrow> string \<Rightarrow> 'w \<Rightarrow> bool \<times> 'w) \<Rightarrow> string \<Rightarrow> user \<Rightarrow> string option \<Rightarrow> 'w \<Rightarrow> unit result \<times> 'w"
where
  "rate_limit enabled hit tier u client w =
     (if \<not> enabled then (Inr (), w)
      else (case hit tier (rate_key u client) w of
              (True, w') \<Rightarrow> (Inr (), w') | (False, w') \<Rightarrow> (Inl (HTTPException 429), w')))"

subsection \<open>Every route is judged once\<close>

lemma wire_methods_enforcers:
  "rt_enforcers (fst (wire_methods ms r)) = rt_enforcers r \<or> (\<exists>ev. rt_enforcers (fst (wire_methods ms r)) = ev # rt_enforcers r)"
  by (induction ms r rule: wire_methods.induct) (auto split: option.split)

lemma wire_methods_stable:
  assumes "wire_methods ms r = (r', k)"
  shows "rt_wired r' \<or> (r' = r \<and> k = 0)"
  using assms by (induction ms r rule: wire_methods.induct) (auto split: option.splits if_splits)

lemma wire_methods_fields:
  "rt_path (fst (wire_methods ms r)) = rt_path r \<and> rt_methods (fst (wire_methods ms r)) = rt_methods r"
  by (induction ms r rule: wire_methods.induct) (auto split: option.split)

lemma wire_route_again: "wire_route (fst (wire_route r)) = (fst (wire_route r), 0)"
proof (cases "rt_wired r")
  case False
  obtain r' k where w: "wire_methods (sort (remdups (rt_methods r))) r = (r', k)" by fastforce
  from wire_methods_stable [OF this] w False show ?thesis by (auto simp: wire_route_def)
qed (simp add: wire_route_def)

text \<open>The routes below a list of nodes.\<close>

fun mounted :: "route_node list \<Rightarrow> api_route list" where
  "mounted [] = []"
| "mounted (ApiRoute r # ns) = r # mounted ns"
| "mounted (Router rs # ns) = mounted rs @ mounted ns"
| "mounted (OtherRoute # ns) = mounted ns"

lemma walk_routes_again: "walk_routes (fst (walk_routes ns)) = (fst (walk_routes ns), 0)"
  by (induction ns rule: mounted.induct) (simp_all add: Let_def case_prod_beta wire_route_again)

lemma mounted_walk: "mounted (fst (walk_routes ns)) = map (fst \<circ> wire_route) (mounted ns)"
  by (induction ns rule: mounted.induct) (simp_all add: Let_def case_prod_beta)

text \<open>A route as the routers declare it, with one method.\<close>

definition declared :: "string \<Rightarrow> string \<Rightarrow> api_route" where
  "declared m path = \<lparr>rt_path = path, rt_methods = [m], rt_enforcers = [], rt_wired = False\<rparr>"

definition enforced_events :: "string \<Rightarrow> string \<Rightarrow> (string \<times> string) list" where
  "enforced_events m path =
     (if is_self_dispatching m path then [] else case lookup_route_auth m path of None \<Rightarrow> [] | Some ev \<Rightarrow> [ev])"

lemma route_tables:
  "distinct (map fst ROUTE_AUTH_MAP)" "set SELF_DISPATCHING \<subseteq> fst ` set ROUTE_AUTH_MAP"
  "set EXEMPT_PATHS \<inter> snd ` fst ` set ROUTE_AUTH_MAP = {}"
  by code_simp+

text \<open>
  Claim C17.  Every registered route is judged by exactly one layer.  Whatever the application
  mounts and however often enforcement is applied, a route the routers declared gets the one
  enforcer of its event, or none if its body dispatches the event itself or it is not registered;
  a second pass changes nothing; every self-dispatching route is registered; and no path is both
  registered and exempt.
\<close>

theorem routes_judged_once:
  assumes "mounted routes = map (\<lambda>(m, p). declared m p) decls"
  shows "map rt_enforcers (mounted (fst (apply_auth_enforcement routes))) = map (\<lambda>(m, p). enforced_events m p) decls
    \<and> apply_auth_enforcement (fst (apply_auth_enforcement routes)) = (fst (apply_auth_enforcement routes), 0)
    \<and> set SELF_DISPATCHING \<subseteq> fst ` set ROUTE_AUTH_MAP
    \<and> set EXEMPT_PATHS \<inter> snd ` fst ` set ROUTE_AUTH_MAP = {}"
proof -
  have "rt_enforcers (fst (wire_route (declared m p))) = enforced_events m p" for m p
    by (simp add: wire_route_def declared_def enforced_events_def lookup_route_auth_def is_self_dispatching_def split: option.split)
  then show ?thesis
    using route_tables(2,3)
    by (simp add: apply_auth_enforcement_def mounted_walk walk_routes_again assms split_def)
qed

subsection \<open>What the enforcer asks\<close>

text \<open>
  The value the handler judges: a key of the path is the one of the URL, whatever the body says.
\<close>

lemma enforced_path_wins:
  "wf_dict path_params \<Longrightarrow> map_of path_params k = Some v \<Longrightarrow> map_of (enforced_value m parsed path_params) k = Some v"
  by (simp add: enforced_value_def map_of_dict_update wf_dict_def map_of_rev_distinct)

lemma enforcer_refuses:
  assumes "handle_event (\<lambda>h. call h (enforced_value m parsed path_params)) auth (Some ev) = (Inl e, auth')"
  shows "run_enforcers call (ev # evs) m parsed path_params (auth, dispatched) = (Inl e, auth', dispatched)"
  by (simp add: enforce_def assms)

subsection \<open>Authentication happens once\<close>

text \<open>An authenticator that counts how often it was called.\<close>

definition counted :: "'s authenticator \<Rightarrow> (nat \<times> 's) authenticator" where
  "counted h hs st = (case h hs (snd st) of (r, s') \<Rightarrow> (r, Suc (fst st), s'))"

text \<open>Nobody asked the backend yet, or it answered once and its answer is what the scope holds.\<close>

definition auth_settled :: "request_scope \<times> nat \<times> 's \<Rightarrow> user \<Rightarrow> bool" where
  "auth_settled s u =
     (sc_auth_result (fst s) = Some u \<and> (\<exists>d. sc_user (fst s) = Some d \<and> to_user_model d = Inr u) \<and> fst (snd s) \<le> 1)"

lemma resolve_settled:
  "auth_settled s u \<Longrightarrow> resolve inst hs dep s = (r, s') \<Longrightarrow> s' = s \<and> (\<forall>v. r = Inr v \<longrightarrow> v = u)"
  by (auto simp: auth_settled_def resolve_def require_auth_def get_current_user_def require_permission_def bind_res_def
      split: dependency.splits prod.splits sum.splits if_splits)

lemma resolve_all_settled:
  "auth_settled s u \<Longrightarrow> resolve_all inst hs deps s = (r, s') \<Longrightarrow> s' = s \<and> (\<forall>us. r = Inr us \<longrightarrow> set us \<subseteq> {u})"
proof (induction deps arbitrary: r s')
  case (Cons dep deps)
  obtain r1 s1 where one: "resolve inst hs dep s = (r1, s1)" by (cases "resolve inst hs dep s")
  note one' = resolve_settled [OF Cons.prems(1) one]
  obtain r2 s2 where rest: "resolve_all inst hs deps s = (r2, s2)" by (cases "resolve_all inst hs deps s")
  show ?case
    using Cons.prems one one' rest Cons.IH [OF Cons.prems(1) rest]
    by (auto simp: bind_res_def split: sum.splits)
qed auto

lemma require_auth_first:
  assumes "require_auth (map_option (map_option counted) inst) hs (new_scope, 0, st) = (r, s')"
  shows "fst (snd s') \<le> 1 \<and> (\<forall>u. r = Inr u \<longrightarrow> auth_settled s' u)"
  using assms
  by (auto simp: require_auth_def new_scope_def authenticate_def counted_def auth_settled_def Let_def
      split: option.splits prod.splits sum.splits handler_outcome.splits json.splits if_splits)

lemma resolve_first:
  assumes "resolve (map_option (map_option counted) inst) hs dep (new_scope, 0, st) = (r, s')"
  shows "fst (snd s') \<le> 1 \<and> (\<forall>u. r = Inr u \<longrightarrow> auth_settled s' u)"
proof -
  obtain r1 s1 where a: "require_auth (map_option (map_option counted) inst) hs (new_scope, 0, st) = (r1, s1)"
    by (cases "require_auth (map_option (map_option counted) inst) hs (new_scope, 0, st)")
  have fresh: "sc_user (fst (new_scope, 0, st)) = None" by (simp add: new_scope_def)
  from require_auth_first [OF a] assms show ?thesis
    by (auto simp only: resolve_def get_current_user_def require_permission_def a fresh bind_res_def option.case prod.case
        dependency.case split: dependency.splits sum.splits if_splits)
qed

text \<open>
  A request is authenticated once.  Whatever sequence of dependencies a route and its
  routers declare, the authenticate handler is called at most once for a request, so a credential
  that can be used once is enough; and every dependency sees the same user.
\<close>

theorem authenticated_once:
  assumes "resolve_all (map_option (map_option counted) inst) hs deps (new_scope, 0, st) = (r, scope, n, st')"
  shows "n \<le> 1 \<and> (\<forall>us. r = Inr us \<longrightarrow> (\<exists>u. set us \<subseteq> {u}))"
proof (cases deps)
  case Nil
  then show ?thesis using assms by auto
next
  case (Cons dep rest)
  let ?inst = "map_option (map_option counted) inst"
  obtain r1 s1 where one: "resolve ?inst hs dep (new_scope, 0, st) = (r1, s1)"
    by (cases "resolve ?inst hs dep (new_scope, 0, st)")
  note first = resolve_first [OF one]
  show ?thesis
  proof (cases r1)
    case (Inl e)
    with assms first show ?thesis by (auto simp: Cons one)
  next
    case (Inr u)
    obtain r2 s2 where two: "resolve_all ?inst hs rest s1 = (r2, s2)" by (cases "resolve_all ?inst hs rest s1")
    have "auth_settled s1 u" using first Inr by simp
    from resolve_all_settled [OF this two] first assms show ?thesis
      by (auto simp: Cons one Inr two bind_res_def split: sum.splits)
  qed
qed

text \<open>
  Authentication that cannot be loaded lets everybody in.  When the configured auth path
  is malformed, missing, broken or not an auth object, every request, with whatever headers, is
  served as the one anonymous user that all callers share.
\<close>

theorem unloadable_auth_admits_all:
  assumes "map_of c ''path'' = Some (JStr p)" and "Option.bind (resolve_auth_target p) load = None"
  shows "fst (require_auth (load_auth_instance load (Inr (Some c))) hs (new_scope, st))
    = Inr \<lparr>identity = ''anonymous'', is_authenticated = False, permissions = [], display_name = ''Anonymous User'',
           org_id = None, email = None\<rparr>"
  using assms
  by (simp add: load_auth_instance_def require_auth_def new_scope_def authenticate_def anonymous_user_def to_user_model_def
      user_model_def get_or_def str_value_def lax_bool_def optional_str_def Let_def)

text \<open>
  A handler may return its permissions as one string, which the credentials accept and the user
  model does not: authentication succeeds and the request still fails.
\<close>

lemma string_permission_fails:
  assumes "h hs st = (Returned (JObj [(''identity'', JStr i), (''permissions'', JStr p)]), st')"
  shows "fst (authenticate (Some (Some h)) hs st) = Inr (Some ([JStr p], [(''identity'', JStr i), (''permissions'', JStr p)]))
    \<and> fst (require_auth (Some (Some h)) hs (new_scope, st)) = Inl ValueError"
  using assms
  by (simp add: authenticate_def credential_scopes_def require_auth_def new_scope_def to_user_model_def user_model_def get_or_def
      str_value_def lax_bool_def Let_def)

lemma rate_keys_apart:
  "rate_key u c = rate_key v c' \<Longrightarrow> identity u \<noteq> ''anonymous'' \<Longrightarrow> identity u = identity v"
  by (auto simp: rate_key_def split: if_splits)

subsection \<open>Examples\<close>

definition token_handler :: "bool authenticator" where
  "token_handler hs fresh =
     (if fresh \<and> map_of hs ''authorization'' = Some ''once'' then (Returned (JObj [(''identity'', JStr ''alice'')]), False)
      else (RaisedHTTP 401, False))"

theorem authenticated_once_witness:
  "\<exists>u scope st'. resolve_all (Some (Some (counted token_handler))) [(''authorization'', ''once'')] [RequireAuth, CurrentUser, RequireAuth]
       (new_scope, 0, True) = (Inr [u, u, u], scope, 1, st') \<and> identity u = ''alice''"
proof -
  let ?inst = "Some (Some token_handler)" and ?hs = "[(''authorization'', ''once'')] :: headers"
  let ?s = "(new_scope, 0, True) :: request_scope \<times> nat \<times> bool"
  have run: "\<exists>u1 u2 u3 scope st'. resolve_all (map_option (map_option counted) ?inst) ?hs [RequireAuth, CurrentUser, RequireAuth] ?s
      = (Inr [u1, u2, u3], scope, 1, st') \<and> identity u1 = ''alice''"
    by (simp add: resolve_def require_auth_def get_current_user_def new_scope_def authenticate_def counted_def token_handler_def
        credential_scopes_def get_or_def to_user_model_def user_model_def str_value_def lax_bool_def optional_str_def Let_def ex_bool_eq)
  then obtain u1 u2 u3 scope st' where eq: "resolve_all (map_option (map_option counted) ?inst) ?hs [RequireAuth, CurrentUser, RequireAuth] ?s
      = (Inr [u1, u2, u3], scope, 1, st')" "identity u1 = ''alice''" by blast
  from authenticated_once [OF eq(1)] have "u2 = u1 \<and> u3 = u1" by auto
  with eq show ?thesis by auto
qed

theorem unloadable_auth_admits_all_witness:
  "fst (require_auth (load_auth_instance (\<lambda>_. None :: unit authenticator option option)
     (Inr (Some [(''path'', JStr ''./missing.py:auth'')]))) [] (new_scope, ()))
   = Inr \<lparr>identity = ''anonymous'', is_authenticated = False, permissions = [], display_name = ''Anonymous User'',
          org_id = None, email = None\<rparr>"
  by (rule unloadable_auth_admits_all) (simp_all add: bind_eq_None_conv)

theorem routes_judged_once_witness:
  "map rt_enforcers (mounted (fst (apply_auth_enforcement
      [Router [ApiRoute (declared ''POST'' ''/threads''), ApiRoute (declared ''GET'' ''/threads/{thread_id}/state'')],
       ApiRoute (declared ''GET'' ''/health'')])))
   = [[], [(''threads'', ''read'')], []]"
proof -
  let ?decls = "[(''POST'', ''/threads''), (''GET'', ''/threads/{thread_id}/state''), (''GET'', ''/health'')]"
  have "map (\<lambda>(m, p). enforced_events m p) ?decls = [[], [(''threads'', ''read'')], []]"
    by code_simp
  then show ?thesis
    using routes_judged_once [of "[Router [ApiRoute (declared ''POST'' ''/threads''), ApiRoute (declared ''GET'' ''/threads/{thread_id}/state'')],
       ApiRoute (declared ''GET'' ''/health'')]" ?decls] by simp
qed

end
