(* ===== verification/V2_Normalizers.thy ===== *)
theory V2_Normalizers
  imports Sse Run_Executor
begin

text \<open>
  The normalisers of the version 2 event streams (\<^verbatim>\<open>usecase/streaming/v2/normalizers.py\<close>): state
  messages and their content blocks, interrupts, updates and the lifecycle status.  JSON parsing
  of tool arguments is the argument \<open>loads\<close>, absent when the text does not parse.
\<close>

definition STATE_MESSAGE_TYPES :: "string list" where
  "STATE_MESSAGE_TYPES = [''human'', ''user'', ''ai'', ''assistant'', ''system'', ''tool'', ''function'', ''remove'']"

definition CONTENT_BLOCK_TYPES :: "string list" where
  "CONTENT_BLOCK_TYPES =
     [''text'', ''reasoning'', ''tool_call'', ''tool_call_chunk'', ''invalid_tool_call'', ''server_tool_call'',
      ''server_tool_call_chunk'', ''server_tool_call_result'', ''image'', ''audio'', ''video'', ''file'', ''non_standard'']"

definition MIME_TYPE_BY_AUDIO_FORMAT :: "(string \<times> string) list" where
  "MIME_TYPE_BY_AUDIO_FORMAT =
     [(''mp3'', ''audio/mpeg''), (''wav'', ''audio/wav''), (''pcm16'', ''audio/wav''), (''pcm'', ''audio/wav''),
      (''opus'', ''audio/opus''), (''aac'', ''audio/aac''), (''flac'', ''audio/flac'')]"

definition lifecycle_status :: "string \<Rightarrow> string" where
  "lifecycle_status st =
     (if st = ''success'' then ''completed''
      else if st \<in> {''error'', ''timeout''} then ''failed''
      else if st = ''interrupted'' then ''interrupted'' else ''running'')"

definition str_key :: "dict \<Rightarrow> string \<Rightarrow> string option" where
  "str_key d k = (case map_of d k of Some (JStr s) \<Rightarrow> Some s | _ \<Rightarrow> None)"

definition obj_key :: "dict \<Rightarrow> string \<Rightarrow> dict option" where
  "obj_key d k = (case map_of d k of Some (JObj o') \<Rightarrow> Some o' | _ \<Rightarrow> None)"

text \<open>A field that is written when there is a value for it.\<close>

definition opt_field :: "string \<Rightarrow> json option \<Rightarrow> dict" where
  "opt_field k v = (case v of None \<Rightarrow> [] | Some j \<Rightarrow> [(k, j)])"

subsection \<open>Updates and interrupts\<close>

definition as_values :: "json \<Rightarrow> json" where
  "as_values v = (if is_dict v then v else JObj [(''value'', v)])"

definition normalize_updates :: "json \<Rightarrow> dict" where
  "normalize_updates p =
     (case p of
        JObj [(node, vals)] \<Rightarrow> [(''node'', JStr node), (''values'', as_values vals)]
      | _ \<Rightarrow> [(''values'', as_values p)])"

definition interrupt_array :: "json \<Rightarrow> json list" where
  "interrupt_array p =
     (case p of
        JList xs \<Rightarrow> xs
      | JObj d \<Rightarrow> (case map_of d ''__interrupt__'' of Some (JList xs) \<Rightarrow> xs | _ \<Rightarrow> [])
      | _ \<Rightarrow> [])"

definition input_request :: "json \<Rightarrow> dict option" where
  "input_request entry =
     (case entry of
        JObj e \<Rightarrow>
          (case str_key e ''id'' of
             None \<Rightarrow> None
           | Some i \<Rightarrow>
               Some ((''interrupt_id'', JStr i) #
                 (case map_of e ''value'' of None \<Rightarrow> [] | Some v \<Rightarrow> [(''value'', v), (''payload'', v)])))
      | _ \<Rightarrow> None)"

definition normalize_input_requested :: "json \<Rightarrow> dict list" where
  "normalize_input_requested p = List.map_filter input_request (interrupt_array p)"

definition without_interrupt :: "dict \<Rightarrow> dict" where
  "without_interrupt d = dict_filter (\<lambda>k. k \<noteq> ''__interrupt__'') d"

definition strip_interrupts :: "json \<Rightarrow> dict list \<times> json" where
  "strip_interrupts p =
     (normalize_input_requested p,
      case p of JObj d \<Rightarrow> JObj (without_interrupt d) | _ \<Rightarrow> p)"

subsection \<open>Tool calls\<close>

definition tool_call_identity :: "dict \<Rightarrow> string option \<times> string option" where
  "tool_call_identity v =
     (str_key v ''id'',
      case str_key v ''name'' of
        Some n \<Rightarrow> Some n
      | None \<Rightarrow> Option.bind (obj_key v ''function'') (\<lambda>f. str_key f ''name''))"

definition tool_call_args :: "dict \<Rightarrow> json" where
  "tool_call_args v =
     (case map_of v ''args'' of
        Some a \<Rightarrow> a
      | None \<Rightarrow> (case obj_key v ''function'' of
                   Some (kv # f) \<Rightarrow> get_or (kv # f) ''arguments'' JNull
                 | _ \<Rightarrow> JNull))"

text \<open>\<open>_coerce_args\<close>: \<open>Inl\<close> is a text that does not parse.\<close>

definition coerce_args :: "(string \<Rightarrow> json option) \<Rightarrow> json \<Rightarrow> string + json" where
  "coerce_args loads v =
     (case v of
        JNull \<Rightarrow> Inr (JObj [])
      | JStr s \<Rightarrow> if s = [] then Inr (JObj []) else (case loads s of Some j \<Rightarrow> Inr j | None \<Rightarrow> Inl s)
      | _ \<Rightarrow> Inr v)"

definition split_tool_call :: "(string \<Rightarrow> json option) \<Rightarrow> json \<Rightarrow> (dict + dict) option" where
  "split_tool_call loads entry =
     (case entry of
        JObj e \<Rightarrow>
          (let (call_id, name) = tool_call_identity e;
               raw_args = tool_call_args e;
               id_field = opt_field ''id'' (map_option JStr call_id)
           in Some (case name of
                None \<Rightarrow>
                  Inl ([(''type'', JStr ''invalid_tool_call''), (''error'', JStr ''Incomplete tool call.'')] @ id_field
                       @ (case raw_args of JStr s \<Rightarrow> [(''args'', JStr s)] | _ \<Rightarrow> []))
              | Some n \<Rightarrow>
                  (case coerce_args loads raw_args of
                     Inl s \<Rightarrow> Inl ([(''type'', JStr ''invalid_tool_call''), (''name'', JStr n), (''error'', JStr ''Malformed args.'')]
                                  @ id_field @ [(''args'', JStr s)])
                   | Inr a \<Rightarrow> Inr ([(''type'', JStr ''tool_call''), (''name'', JStr n), (''args'', a)] @ id_field))))
      | _ \<Rightarrow> None)"

text \<open>The valid calls and the invalid ones, in order.\<close>

definition split_tool_calls :: "(string \<Rightarrow> json option) \<Rightarrow> json list \<Rightarrow> dict list \<times> dict list" where
  "split_tool_calls loads raw =
     (let es = List.map_filter (split_tool_call loads) raw
      in (List.map_filter (\<lambda>e. case e of Inr c \<Rightarrow> Some c | Inl _ \<Rightarrow> None) es,
          List.map_filter (\<lambda>e. case e of Inl c \<Rightarrow> Some c | Inr _ \<Rightarrow> None) es))"

definition normalize_invalid_tool_call :: "json \<Rightarrow> dict option" where
  "normalize_invalid_tool_call entry =
     (case entry of
        JObj e \<Rightarrow>
          (let (call_id, name) = tool_call_identity e
           in Some ((''type'', JStr ''invalid_tool_call'') # opt_field ''id'' (map_option JStr call_id)
                @ opt_field ''name'' (map_option JStr name) @ opt_field ''args'' (map_option JStr (str_key e ''args''))
                @ [(''error'', JStr (case str_key e ''error'' of Some s \<Rightarrow> s | None \<Rightarrow> ''Malformed args.''))]))
      | _ \<Rightarrow> None)"

definition normalize_invalid_tool_calls :: "json list \<Rightarrow> dict list" where
  "normalize_invalid_tool_calls raw = List.map_filter normalize_invalid_tool_call raw"

subsection \<open>Content\<close>

definition audio_block_from_additional_kwargs :: "dict option \<Rightarrow> dict option" where
  "audio_block_from_additional_kwargs kw =
     Option.bind kw (\<lambda>k. Option.bind (obj_key k ''audio'') (\<lambda>audio.
       let data = str_key audio ''data''; url = str_key audio ''url''; mime = str_key audio ''mime_type''
       in if data = None \<and> url = None then None
          else
            (let fmt = (case str_key audio ''format'' of
                          Some f \<Rightarrow> Some (py_lower f)
                        | None \<Rightarrow> if mime \<noteq> None then None else Some ''wav'')
             in Some ((''type'', JStr ''audio'') # opt_field ''id'' (map_option JStr (str_key audio ''id''))
                  @ opt_field ''url'' (map_option JStr url) @ opt_field ''data'' (map_option JStr data)
                  @ opt_field ''mime_type'' (map_option JStr
                      (if mime \<noteq> None then mime else Option.bind fmt (map_of MIME_TYPE_BY_AUDIO_FORMAT)))
                  @ opt_field ''transcript'' (map_option JStr (str_key audio ''transcript''))))))"

definition normalize_block :: "json \<Rightarrow> dict option" where
  "normalize_block v =
     (case v of
        JObj b \<Rightarrow>
          (case str_key b ''type'' of
             None \<Rightarrow> None
           | Some ty \<Rightarrow>
               if ty \<in> set CONTENT_BLOCK_TYPES then Some b
               else if ty = ''image_url'' then
                 (case map_of b ''image_url'' of
                    Some (JStr u) \<Rightarrow> Some [(''type'', JStr ''image''), (''url'', JStr u)]
                  | Some (JObj i) \<Rightarrow>
                      map_option (\<lambda>u. [(''type'', JStr ''image''), (''url'', JStr u)]) (str_key i ''url'')
                  | _ \<Rightarrow> None)
               else if ty = ''input_audio'' then
                 map_option (\<lambda>a. (''type'', JStr ''audio'') # opt_field ''data'' (map_option JStr (str_key a ''data''))
                               @ opt_field ''mime_type'' (map_option JStr (str_key a ''mime_type'')))
                   (obj_key b ''input_audio'')
               else Some [(''type'', JStr ''non_standard''), (''value'', JObj b)])
      | _ \<Rightarrow> None)"

definition text_block :: "string \<Rightarrow> dict" where
  "text_block s = [(''type'', JStr ''text''), (''text'', JStr s)]"

definition content_blocks :: "json list \<Rightarrow> dict list" where
  "content_blocks entries =
     List.map_filter (\<lambda>e. case e of JStr s \<Rightarrow> Some (text_block s) | _ \<Rightarrow> normalize_block e) entries"

definition normalize_content :: "json \<Rightarrow> dict option \<Rightarrow> json" where
  "normalize_content content kw =
     (let audio = audio_block_from_additional_kwargs kw
      in case content of
           JStr s \<Rightarrow>
             (case audio of
                None \<Rightarrow> content
              | Some a \<Rightarrow> JList (map JObj ((if s = [] then [] else [text_block s]) @ [a])))
         | JList entries \<Rightarrow>
             (let blocks = content_blocks entries;
                  blocks = (case audio of
                      Some a \<Rightarrow> if list_ex (\<lambda>b. map_of b ''type'' = Some (JStr ''audio'')) blocks then blocks else blocks @ [a]
                    | None \<Rightarrow> blocks)
              in if blocks \<noteq> [] then JList (map JObj blocks) else content)
         | _ \<Rightarrow> (case audio of None \<Rightarrow> content | Some a \<Rightarrow> JList [JObj a]))"

subsection \<open>Messages\<close>

definition message_type :: "json \<Rightarrow> string option" where
  "message_type v =
     (case v of
        JStr s \<Rightarrow> Some (if s = ''assistant'' then ''ai'' else if s = ''user'' then ''human'' else s)
      | _ \<Rightarrow> None)"

definition is_state_message :: "json \<Rightarrow> bool" where
  "is_state_message v =
     (case v of
        JObj d \<Rightarrow> (case message_type (get_or d ''type'' JNull) of
                     None \<Rightarrow> False | Some t \<Rightarrow> t \<in> set STATE_MESSAGE_TYPES)
      | _ \<Rightarrow> False)"

definition tool_fields :: "dict \<Rightarrow> dict" where
  "tool_fields d =
     opt_field ''tool_call_id'' (map_option JStr (str_key d ''tool_call_id''))
     @ (case map_of d ''status'' of
          Some (JStr s) \<Rightarrow> if s \<in> {''success'', ''error''} then [(''status'', JStr s)] else []
        | _ \<Rightarrow> [])
     @ opt_field ''artifact'' (map_of d ''artifact'')"

definition list_key :: "dict \<Rightarrow> string \<Rightarrow> json list option" where
  "list_key d k = (case map_of d k of Some (JList xs) \<Rightarrow> Some xs | _ \<Rightarrow> None)"

definition raw_tool_calls :: "dict \<Rightarrow> dict option \<Rightarrow> json list" where
  "raw_tool_calls d kw =
     (case list_key d ''tool_calls'' of
        Some (x # xs) \<Rightarrow> x # xs
      | _ \<Rightarrow> (case Option.bind kw (\<lambda>k. list_key k ''tool_calls'') of Some xs \<Rightarrow> xs | None \<Rightarrow> []))"

definition ai_fields :: "(string \<Rightarrow> json option) \<Rightarrow> dict \<Rightarrow> dict option \<Rightarrow> dict" where
  "ai_fields loads d kw =
     (let (calls, invalid_from_valid) = split_tool_calls loads (raw_tool_calls d kw);
          invalid = (case list_key d ''invalid_tool_calls'' of
                       Some (x # xs) \<Rightarrow> normalize_invalid_tool_calls (x # xs)
                     | _ \<Rightarrow> invalid_from_valid)
      in (if calls \<noteq> [] then [(''tool_calls'', JList (map JObj calls))] else [])
         @ (if invalid \<noteq> [] then [(''invalid_tool_calls'', JList (map JObj invalid))] else []))"

definition normalize_message :: "(string \<Rightarrow> json option) \<Rightarrow> dict \<Rightarrow> dict" where
  "normalize_message loads d =
     (case message_type (get_or d ''type'' JNull) of
        None \<Rightarrow> d
      | Some ty \<Rightarrow>
          (let kw = obj_key d ''additional_kwargs''
           in [(''type'', JStr ty),
               (''content'', normalize_content (get_or d ''content'' (JStr [])) (if ty = ''ai'' then kw else None))]
              @ opt_field ''id'' (map_option JStr (str_key d ''id''))
              @ opt_field ''name'' (map_option JStr (str_key d ''name''))
              @ (if ty \<in> {''ai'', ''human''}
                 then (case map_of d ''example'' of Some (JBool b) \<Rightarrow> [(''example'', JBool b)] | _ \<Rightarrow> []) else [])
              @ (if ty = ''tool'' then tool_fields d else [])
              @ (if ty = ''ai'' then ai_fields loads d kw else [])))"

definition message_item :: "(string \<Rightarrow> json option) \<Rightarrow> json \<Rightarrow> json option" where
  "message_item loads v =
     (case v of JObj d \<Rightarrow> if is_state_message v then Some (JObj (normalize_message loads d)) else None | _ \<Rightarrow> None)"

fun normalize_state_payload :: "(string \<Rightarrow> json option) \<Rightarrow> json \<Rightarrow> json" where
  "normalize_state_payload loads (JList xs) =
     JList (map (\<lambda>x. case message_item loads x of Some m \<Rightarrow> m | None \<Rightarrow> normalize_state_payload loads x) xs)"
| "normalize_state_payload loads (JObj kvs) =
     JObj (map (\<lambda>kv. (fst kv,
              if fst kv = ''messages'' \<and> (case snd kv of JList _ \<Rightarrow> True | _ \<Rightarrow> False)
              then (case snd kv of
                      JList ms \<Rightarrow> JList (map (\<lambda>m. case message_item loads m of Some j \<Rightarrow> j | None \<Rightarrow> m) ms)
                    | j \<Rightarrow> j)
              else normalize_state_payload loads (snd kv)))
           (filter (\<lambda>kv. fst kv \<noteq> ''__interrupt__'') kvs))"
| "normalize_state_payload loads v = v"

end
