(* ===== verification/V2_Session.thy ===== *)
theory V2_Session
  imports V2_Normalizers
begin

text \<open>
  Thread-scoped event sessions (\<^verbatim>\<open>usecase/streaming/v2/session.py\<close> with \<^verbatim>\<open>channels.py\<close> and the event
  envelope of \<^verbatim>\<open>protocol.py\<close>).  A session drains the runs of its thread one after the other; what
  a broker replays for a run and then yields is an argument, and so is the schedule of polls.  The
  namespace of a native event is a list of strings, as the protocol types it.  The timestamp of
  an envelope is left out.
\<close>

subsection \<open>Channels\<close>

definition SUPPORTED_CHANNELS :: "string list" where
  "SUPPORTED_CHANNELS =
     [''values'', ''updates'', ''messages'', ''tools'', ''lifecycle'', ''input'', ''checkpoints'', ''tasks'', ''custom'']"

definition custom_prefix :: string where "custom_prefix = ''custom:''"

definition starts_custom :: "string \<Rightarrow> bool" where
  "starts_custom s = (take (length custom_prefix) s = custom_prefix)"

definition is_supported_channel :: "string \<Rightarrow> bool" where
  "is_supported_channel c =
     (c \<in> set SUPPORTED_CHANNELS \<or> (starts_custom c \<and> length c > length custom_prefix))"

text \<open>The valid channels and the values that are not; an empty list is itself an error.\<close>

definition validate_channels :: "string list \<Rightarrow> (string list \<times> string list) result" where
  "validate_channels cs =
     (if cs = [] then Inl ValueError
      else Inr (filter is_supported_channel cs, filter (\<lambda>c. \<not> is_supported_channel c) cs))"

subsection \<open>The session\<close>

type_synonym namespace = "string list"
type_synonym channel_event = "string \<times> json \<times> namespace"

record subscription =
  sb_channels :: "string list"
  sb_since :: "nat option"
  sb_namespaces :: "namespace list option"
  sb_depth :: "nat option"

record session =
  se_seq :: nat
  se_drained :: "run_id list"
  se_sent_interrupts :: "string list"
  se_current_graph :: "string option"
  se_open_namespaces :: "(string \<times> namespace) list"

record envelope =
  en_method :: string
  en_data :: json
  en_namespace :: namespace
  en_seq :: nat
  en_event_id :: string

definition new_session :: session where
  "new_session = \<lparr>se_seq = 0, se_drained = [], se_sent_interrupts = [], se_current_graph = None, se_open_namespaces = []\<rparr>"

definition wants :: "subscription \<Rightarrow> string \<Rightarrow> json \<Rightarrow> bool" where
  "wants sb channel data =
     (if channel = ''input.requested'' then ''input'' \<in> set (sb_channels sb)
      else if channel = ''custom'' then
        ''custom'' \<in> set (sb_channels sb) \<or>
        (case data of
           JObj d \<Rightarrow> (case str_key d ''name'' of Some n \<Rightarrow> custom_prefix @ n \<in> set (sb_channels sb) | None \<Rightarrow> False)
         | _ \<Rightarrow> False)
      else channel \<in> set (sb_channels sb))"

definition before_colon :: "string \<Rightarrow> string" where
  "before_colon s = takeWhile (\<lambda>c. c \<noteq> CHR '':'') s"

fun prefix_matches :: "namespace \<Rightarrow> namespace \<Rightarrow> bool" where
  "prefix_matches ns [] = True"
| "prefix_matches [] (p # ps) = False"
| "prefix_matches (c # cs) (p # ps) =
     ((c = p \<or> (CHR '':'' \<notin> set p \<and> before_colon c = p)) \<and> prefix_matches cs ps)"

definition wants_namespace :: "subscription \<Rightarrow> namespace \<Rightarrow> bool" where
  "wants_namespace sb ns =
     (ns = [] \<or>
      ((case sb_depth sb of None \<Rightarrow> True | Some d \<Rightarrow> length ns \<le> d) \<and>
       (case sb_namespaces sb of None \<Rightarrow> True | Some [] \<Rightarrow> True | Some ps \<Rightarrow> list_ex (prefix_matches ns) ps)))"

text \<open>
  \<open>_emit\<close>: the sequence number counts every event, before any filter.  \<open>index\<close> numbers the events
  of one batch in their ids.
\<close>

fun emit_from :: "subscription \<Rightarrow> nat \<Rightarrow> channel_event list \<Rightarrow> string \<Rightarrow> session \<Rightarrow> envelope list \<times> session" where
  "emit_from sb index [] event_id s = ([], s)"
| "emit_from sb index ((channel, data, ns) # es) event_id s =
     (let s = s\<lparr>se_seq := se_seq s + 1\<rparr>;
          sent = (if wants sb channel data \<and> wants_namespace sb ns
                     \<and> (case sb_since sb of None \<Rightarrow> True | Some n \<Rightarrow> n < se_seq s)
                  then [\<lparr>en_method = channel, en_data = data, en_namespace = ns, en_seq = se_seq s,
                         en_event_id = event_id @ '':'' @ dec index\<rparr>]
                  else []);
          (rest, s') = emit_from sb (Suc index) es event_id s
      in (sent @ rest, s'))"

definition emit :: "subscription \<Rightarrow> channel_event list \<Rightarrow> string \<Rightarrow> session \<Rightarrow> envelope list \<times> session" where
  "emit sb es event_id s = emit_from sb 0 es event_id s"

subsection \<open>Channel events of a broker event\<close>

definition input_request_event :: "namespace \<Rightarrow> dict \<Rightarrow> channel_event list \<times> session \<Rightarrow> channel_event list \<times> session" where
  "input_request_event ns req acc =
     (case acc of (es, s) \<Rightarrow>
        (case str_key req ''interrupt_id'' of
           Some i \<Rightarrow>
             if i \<in> set (se_sent_interrupts s) then (es, s)
             else (es @ [(''input.requested'', JObj req, ns)], s\<lparr>se_sent_interrupts := i # se_sent_interrupts s\<rparr>)
         | None \<Rightarrow> (es @ [(''input.requested'', JObj req, ns)], s)))"

definition input_request_events :: "dict list \<Rightarrow> namespace \<Rightarrow> session \<Rightarrow> channel_event list \<times> session" where
  "input_request_events reqs ns s = fold (input_request_event ns) reqs ([], s)"

text \<open>Values that are not interrupt objects of the library: dictionaries pass, anything else is skipped.\<close>

definition coerce_interrupts :: "json list \<Rightarrow> json list" where
  "coerce_interrupts xs = filter is_dict xs"

fun dedupe_requests :: "string list \<Rightarrow> dict list \<Rightarrow> dict list" where
  "dedupe_requests seen [] = []"
| "dedupe_requests seen (r # rs) =
     (case str_key r ''interrupt_id'' of
        Some i \<Rightarrow> if i \<in> set seen then dedupe_requests seen rs else r # dedupe_requests (i # seen) rs
      | None \<Rightarrow> r # dedupe_requests seen rs)"

definition has_state :: "json \<Rightarrow> bool" where
  "has_state v = (case v of JObj d \<Rightarrow> d \<noteq> [] | JNull \<Rightarrow> False | _ \<Rightarrow> True)"

definition values_events ::
  "(string \<Rightarrow> json option) \<Rightarrow> json \<Rightarrow> json \<Rightarrow> namespace \<Rightarrow> session \<Rightarrow> channel_event list \<times> session"
where
  "values_events loads data interrupts ns s =
     (let (reqs, cleaned) = strip_interrupts data;
          reqs = (case interrupts of
                    JList (x # xs) \<Rightarrow> dedupe_requests [] (reqs @ normalize_input_requested (JList (coerce_interrupts (x # xs))))
                  | _ \<Rightarrow> reqs);
          (es, s') = input_request_events reqs ns s
      in (es @ (if has_state cleaned then [(''values'', normalize_state_payload loads cleaned, ns)] else []), s'))"

definition nested_requests :: "dict \<Rightarrow> dict list" where
  "nested_requests d =
     concat (map (\<lambda>(_, v). case v of
         JObj vs \<Rightarrow> (case map_of vs ''__interrupt__'' of Some i \<Rightarrow> normalize_input_requested i | None \<Rightarrow> [])
       | _ \<Rightarrow> []) d)"

definition updates_data :: "(string \<Rightarrow> json option) \<Rightarrow> json \<Rightarrow> dict" where
  "updates_data loads data =
     map (\<lambda>(k, v). (k, if k = ''values'' then normalize_state_payload loads v else v)) (normalize_updates data)"

definition updates_events ::
  "(string \<Rightarrow> json option) \<Rightarrow> json \<Rightarrow> namespace \<Rightarrow> session \<Rightarrow> channel_event list \<times> session"
where
  "updates_events loads data ns s =
     (case data of
        JObj d \<Rightarrow>
          (let (es, s1) = (case map_of d ''__interrupt__'' of
                  Some i \<Rightarrow> input_request_events (normalize_input_requested i) ns s
                | None \<Rightarrow> ([], s));
               d' = without_interrupt d
           in if map_of d ''__interrupt__'' \<noteq> None \<and> d' = [] then (es, s1)
              else
                (let (es', s2) = input_request_events (nested_requests d') ns s1
                 in (es @ es' @ [(''updates'', JObj (updates_data loads (JObj d')), ns)], s2)))
      | _ \<Rightarrow> ([(''updates'', JObj (updates_data loads data), ns)], s))"

fun join_nul :: "string list \<Rightarrow> string" where
  "join_nul [] = []"
| "join_nul [x] = x"
| "join_nul (x # xs) = x @ [CHR 0x00] @ join_nul xs"

definition strings_of :: "json list \<Rightarrow> string list option" where
  "strings_of xs = those (map str_of_json xs)"

definition promoted_namespace :: "dict \<Rightarrow> namespace \<Rightarrow> namespace" where
  "promoted_namespace d ns =
     (case Option.bind (list_key d ''namespace'') strings_of of
        Some ns' \<Rightarrow> if length ns' > length ns then ns' else ns
      | None \<Rightarrow> ns)"

definition forwarded_fields :: "dict \<Rightarrow> dict" where
  "forwarded_fields d =
     concat (map (\<lambda>f. opt_field f (map_of d f)) [''graph_name'', ''trigger_call_id'', ''error'', ''cause''])"

definition native_lifecycle_events :: "json \<Rightarrow> namespace \<Rightarrow> session \<Rightarrow> channel_event list \<times> session" where
  "native_lifecycle_events data ns s =
     (case data of
        JObj d \<Rightarrow>
          (case str_key d ''event'' of
             None \<Rightarrow> ([(''lifecycle'', data, ns)], s)
           | Some event \<Rightarrow>
               (let ns = promoted_namespace d ns
                in if ns = [] then ([], s)
                   else
                     (let key = join_nul ns;
                          s' = (if event = ''started''
                                then s\<lparr>se_open_namespaces := AList.update key ns (se_open_namespaces s)\<rparr>
                                else if event \<in> {''completed'', ''failed''}
                                then s\<lparr>se_open_namespaces := AList.delete key (se_open_namespaces s)\<rparr>
                                else s)
                      in ([(''lifecycle'', JObj ((''event'', JStr event) # forwarded_fields d), ns)], s'))))
      | _ \<Rightarrow> ([(''lifecycle'', as_values data, ns)], s))"

definition root_lifecycle :: "string \<Rightarrow> session \<Rightarrow> dict" where
  "root_lifecycle status s =
     (''event'', JStr status) #
     (if truthy_str (se_current_graph s) then [(''graph_name'', JStr (the (se_current_graph s)))] else [])"

text \<open>\<open>sorted(..., key=len, reverse=True)\<close> is stable: equal depths keep the order of opening.\<close>

definition deepest_first :: "namespace list \<Rightarrow> namespace list" where
  "deepest_first nss = sort_key (\<lambda>ns. - int (length ns)) nss"

definition terminal_status :: "string \<Rightarrow> json \<Rightarrow> string" where
  "terminal_status method payload =
     (if method = ''error'' then ''error''
      else case payload of
             JObj d \<Rightarrow> (case map_of d ''status'' of Some (JStr st) \<Rightarrow> st | _ \<Rightarrow> [])
           | _ \<Rightarrow> [])"

definition terminal_lifecycle :: "string \<Rightarrow> json \<Rightarrow> session \<Rightarrow> channel_event list \<times> session" where
  "terminal_lifecycle method payload s =
     (let closing = map (\<lambda>ns. (''lifecycle'', JObj [(''event'', JStr ''completed'')], ns))
                      (deepest_first (map snd (se_open_namespaces s)));
          s' = s\<lparr>se_open_namespaces := []\<rparr>;
          data = root_lifecycle (lifecycle_status (terminal_status method payload)) s';
          data = (case payload of
                    JObj d \<Rightarrow> (case map_of d ''message'' of
                                 Some m \<Rightarrow> if json_truthy m then data @ [(''error'', m)] else data
                               | None \<Rightarrow> data)
                  | _ \<Rightarrow> data)
      in (closing @ [(''lifecycle'', JObj data, [])], s'))"

definition custom_events :: "string \<Rightarrow> json \<Rightarrow> namespace \<Rightarrow> channel_event list" where
  "custom_events method data ns =
     [(''custom'',
       JObj (if starts_custom method then [(''name'', JStr (drop (length custom_prefix) method)), (''payload'', data)]
        else [(''payload'', data)]), ns)]"

definition as_namespace :: "json \<Rightarrow> namespace" where
  "as_namespace v = (case v of JList xs \<Rightarrow> List.map_filter str_of_json xs | _ \<Rightarrow> [])"

definition native_params :: "json \<Rightarrow> dict" where
  "native_params payload = (case payload of JObj p \<Rightarrow> (case obj_key p ''params'' of Some q \<Rightarrow> q | None \<Rightarrow> []) | _ \<Rightarrow> [])"

definition channel_events ::
  "(string \<Rightarrow> json option) \<Rightarrow> string \<Rightarrow> json \<Rightarrow> session \<Rightarrow> channel_event list \<times> session"
where
  "channel_events loads method payload s =
     (if method \<in> {''end'', ''error''} then terminal_lifecycle method payload s
      else
        (let params = native_params payload;
             data = get_or params ''data'' JNull;
             ns = as_namespace (get_or params ''namespace'' JNull)
         in if method = ''values'' then values_events loads data (get_or params ''interrupts'' JNull) ns s
            else if method = ''updates'' then updates_events loads data ns s
            else if method = ''lifecycle'' then native_lifecycle_events data ns s
            else if method = ''custom'' \<or> starts_custom method then (custom_events method data ns, s)
            else ([(method, as_values data, ns)], s)))"

text \<open>The producers store the method as a string.\<close>

definition unwrap :: "payload \<Rightarrow> (string \<times> json) option" where
  "unwrap raw =
     (case raw of
        Tuple [JStr m, p] \<Rightarrow> Some (m, p)
      | Plain (JList [JStr m, p]) \<Rightarrow> Some (m, p)
      | _ \<Rightarrow> None)"

definition terminal_event :: "payload \<Rightarrow> bool" where
  "terminal_event raw = (case unwrap raw of Some (m, _) \<Rightarrow> m \<in> {''end'', ''error''} | None \<Rightarrow> False)"

definition project :: "(string \<Rightarrow> json option) \<Rightarrow> subscription \<Rightarrow> event \<Rightarrow> session \<Rightarrow> envelope list \<times> session" where
  "project loads sb ev s =
     (case unwrap (snd ev) of
        None \<Rightarrow> ([], s)
      | Some (m, p) \<Rightarrow> (case channel_events loads m p s of (ces, s') \<Rightarrow> emit sb ces (fst ev) s'))"

subsection \<open>Draining runs\<close>

definition TERMINAL_RUN_STATUSES :: "string list" where
  "TERMINAL_RUN_STATUSES = [''success'', ''error'', ''timeout'', ''interrupted'']"

text \<open>Events up to and including the first terminal one, and whether there was one.\<close>

fun project_until :: "(string \<Rightarrow> json option) \<Rightarrow> subscription \<Rightarrow> event list \<Rightarrow> session \<Rightarrow> envelope list \<times> session \<times> bool" where
  "project_until loads sb [] s = ([], s, False)"
| "project_until loads sb (ev # evs) s =
     (let (out, s) = project loads sb ev s
      in if terminal_event (snd ev) then (out, s, True)
         else (let (out', r) = project_until loads sb evs s in (out @ out', r)))"

record run_feed =
  rf_run_id :: run_id
  rf_status :: "string option"
  rf_graph_name :: "string option"
  rf_replayed :: "event list"
  rf_live :: "event list"

definition begin_drain :: "run_feed \<Rightarrow> session \<Rightarrow> session" where
  "begin_drain f s = s\<lparr>se_sent_interrupts := [], se_current_graph := rf_graph_name f, se_open_namespaces := []\<rparr>"

definition over :: "run_feed \<Rightarrow> bool" where
  "over f = (case rf_status f of Some st \<Rightarrow> st \<in> set TERMINAL_RUN_STATUSES | None \<Rightarrow> False)"

definition unseen :: "run_feed \<Rightarrow> event list" where
  "unseen f = filter (\<lambda>ev. fst ev \<notin> fst ` set (rf_replayed f)) (rf_live f)"

definition drain_run :: "(string \<Rightarrow> json option) \<Rightarrow> subscription \<Rightarrow> run_feed \<Rightarrow> session \<Rightarrow> envelope list \<times> session" where
  "drain_run loads sb f s0 =
     (let s = begin_drain f s0
      in if over f \<and> rf_replayed f = [] then ([], s)
         else
           (let (opening, s) = emit sb [(''lifecycle'', JObj (root_lifecycle ''running'' s), [])] (rf_run_id f @ '':running'') s;
                (out, s, done) = project_until loads sb (rf_replayed f) s
            in if done then (opening @ out, s)
               else if over f then
                 (let (out', s) = project loads sb (rf_run_id f @ '':status-end'', end_event (the (rf_status f))) s
                  in (opening @ out @ out', s))
               else
                 (let (out', s, _) = project_until loads sb (unseen f) s in (opening @ out @ out', s))))"

fun drain_runs :: "(string \<Rightarrow> json option) \<Rightarrow> subscription \<Rightarrow> run_feed list \<Rightarrow> session \<Rightarrow> envelope list \<times> session" where
  "drain_runs loads sb [] s = ([], s)"
| "drain_runs loads sb (f # fs) s =
     (let (out, s) = drain_run loads sb f s;
          s = s\<lparr>se_drained := rf_run_id f # se_drained s\<rparr>;
          (out', s) = drain_runs loads sb fs s
      in (out @ out', s))"

definition fresh_runs :: "run_feed list \<Rightarrow> session \<Rightarrow> run_feed list" where
  "fresh_runs fs s = filter (\<lambda>f. rf_run_id f \<notin> set (se_drained s)) fs"

definition IDLE_GRACE_SECONDS :: time where "IDLE_GRACE_SECONDS = 30"

text \<open>
  \<open>stream\<close>: each poll has a clock reading and the thread's runs with what their brokers give.  The
  stream ends when the grace window passed without any envelope, or with the schedule.
\<close>

fun stream_session ::
  "(string \<Rightarrow> json option) \<Rightarrow> subscription \<Rightarrow> (time \<times> run_feed list) list \<Rightarrow> time option \<Rightarrow> session \<Rightarrow> envelope list"
where
  "stream_session loads sb [] deadline s = []"
| "stream_session loads sb ((now, fs) # polls) deadline s =
     (let (out, s) = drain_runs loads sb (fresh_runs fs s) s
      in if out \<noteq> [] then out @ stream_session loads sb polls None s
         else (case deadline of
                 None \<Rightarrow> stream_session loads sb polls (Some (now + IDLE_GRACE_SECONDS)) s
               | Some t \<Rightarrow> if t \<le> now then [] else stream_session loads sb polls deadline s))"

subsection \<open>The cursor\<close>

definition visible :: "subscription \<Rightarrow> envelope \<Rightarrow> bool" where
  "visible sb e =
     (wants sb (en_method e) (en_data e) \<and> wants_namespace sb (en_namespace e)
      \<and> (case sb_since sb of None \<Rightarrow> True | Some n \<Rightarrow> n < en_seq e))"

text \<open>
  Two sessions over the same events, whatever their subscriptions: same state afterwards, the same
  envelopes where both would show them, numbered upwards from where they began.
\<close>

definition agree ::
  "subscription \<Rightarrow> subscription \<Rightarrow> session \<Rightarrow> envelope list \<Rightarrow> session \<Rightarrow> envelope list \<Rightarrow> session \<Rightarrow> bool"
where
  "agree sb sb' s o1 s1 o2 s2 =
     (s1 = s2 \<and> filter (visible sb') o1 = filter (visible sb) o2
      \<and> sorted_wrt (<) (map en_seq o1) \<and> se_seq s \<le> se_seq s1
      \<and> (\<forall>e \<in> set o1. visible sb e \<and> se_seq s < en_seq e \<and> en_seq e \<le> se_seq s1))"

lemma agree_append:
  "agree sb sb' s o1 s1 o2 s2 \<Longrightarrow> agree sb sb' s1 p1 t1 p2 t2 \<Longrightarrow> agree sb sb' s (o1 @ p1) t1 (o2 @ p2) t2"
  by (fastforce simp: agree_def sorted_wrt_append)

lemma agree_Nil: "se_seq s = se_seq s' \<Longrightarrow> agree sb sb' s [] s' [] s'"
  by (simp add: agree_def)

lemma agree_state: "agree sb sb' s o1 s1 o2 s2 \<Longrightarrow> s1 = s2"
  by (simp add: agree_def)

lemma agree_seq: "agree sb sb' s o1 s1 o2 s2 \<Longrightarrow> se_seq s' = se_seq s \<Longrightarrow> agree sb sb' s' o1 s1 o2 s2"
  by (auto simp: agree_def)

definition envelope_at :: "nat \<Rightarrow> channel_event \<Rightarrow> string \<Rightarrow> nat \<Rightarrow> envelope" where
  "envelope_at i ce eid n =
     \<lparr>en_method = fst ce, en_data = fst (snd ce), en_namespace = snd (snd ce), en_seq = n, en_event_id = eid @ '':'' @ dec i\<rparr>"

lemma emit_from_Cons:
  "emit_from sb i (ce # es) eid s =
     (let s' = s\<lparr>se_seq := se_seq s + 1\<rparr>; e = envelope_at i ce eid (se_seq s + 1)
      in ((if visible sb e then [e] else []) @ fst (emit_from sb (Suc i) es eid s'),
          snd (emit_from sb (Suc i) es eid s')))"
  by (cases ce) (simp add: Let_def case_prod_beta visible_def envelope_at_def split: option.split)

lemma agree_emit_from:
  "agree sb sb' s (fst (emit_from sb i es eid s)) (snd (emit_from sb i es eid s))
     (fst (emit_from sb' i es eid s)) (snd (emit_from sb' i es eid s))"
proof (induction es arbitrary: i s)
  case (Cons ce es)
  let ?s = "s\<lparr>se_seq := se_seq s + 1\<rparr>" and ?e = "envelope_at i ce eid (se_seq s + 1)"
  have "agree sb sb' s (if visible sb ?e then [?e] else []) ?s (if visible sb' ?e then [?e] else []) ?s"
    by (auto simp: agree_def envelope_at_def)
  from agree_append [OF this Cons.IH [of ?s "Suc i"]] show ?case
    by (simp only: emit_from_Cons Let_def fst_conv snd_conv)
qed (simp add: agree_Nil)

lemma agree_emit:
  "agree sb sb' s (fst (emit sb es eid s)) (snd (emit sb es eid s)) (fst (emit sb' es eid s)) (snd (emit sb' es eid s))"
  by (simp add: emit_def agree_emit_from)

lemma fold_input_seq: "se_seq (snd (fold (input_request_event ns) reqs acc)) = se_seq (snd acc)"
  by (induction reqs arbitrary: acc) (auto simp: input_request_event_def split: prod.split option.split)

lemma input_request_events_seq [simp]: "se_seq (snd (input_request_events reqs ns s)) = se_seq s"
  by (simp add: input_request_events_def fold_input_seq)

lemma channel_events_seq [simp]: "se_seq (snd (channel_events loads m p s)) = se_seq s"
  by (auto simp: channel_events_def values_events_def updates_events_def native_lifecycle_events_def
      terminal_lifecycle_def Let_def case_prod_beta split: json.split option.split)

lemma agree_project:
  "agree sb sb' s (fst (project loads sb ev s)) (snd (project loads sb ev s))
     (fst (project loads sb' ev s)) (snd (project loads sb' ev s))"
proof (cases "unwrap (snd ev)")
  case None
  then show ?thesis by (simp add: project_def agree_Nil)
next
  case (Some mp)
  obtain m p where mp: "mp = (m, p)" by (cases mp)
  obtain ces s' where ces: "channel_events loads m p s = (ces, s')" by fastforce
  have "se_seq s' = se_seq s" using channel_events_seq [of loads m p s] ces by simp
  with agree_seq [OF agree_emit [of sb sb' s' ces "fst ev"], of s] show ?thesis
    by (simp add: project_def Some mp ces)
qed

lemma agree_project_until:
  "snd (snd (project_until loads sb evs s)) = snd (snd (project_until loads sb' evs s)) \<and>
   agree sb sb' s (fst (project_until loads sb evs s)) (fst (snd (project_until loads sb evs s)))
     (fst (project_until loads sb' evs s)) (fst (snd (project_until loads sb' evs s)))"
proof (induction evs arbitrary: s)
  case (Cons ev evs)
  note one = agree_project [of sb sb' s loads ev]
  let ?s1 = "snd (project loads sb ev s)"
  have s2: "snd (project loads sb' ev s) = ?s1" using agree_state [OF one] by simp
  show ?case
    using one agree_append [OF one, of "fst (project_until loads sb evs ?s1)"] Cons.IH [of ?s1] s2
    by (auto simp: Let_def case_prod_beta)
qed (simp add: agree_Nil)

lemma agree_drain_run:
  "agree sb sb' s (fst (drain_run loads sb f s)) (snd (drain_run loads sb f s))
     (fst (drain_run loads sb' f s)) (snd (drain_run loads sb' f s))"
proof -
  let ?s = "begin_drain f s"
  let ?op = "[(''lifecycle'', JObj (root_lifecycle ''running'' ?s), [])]" and ?id = "rf_run_id f @ '':running''"
  have seq: "se_seq s = se_seq ?s" by (simp add: begin_drain_def)
  note a = agree_emit [of sb sb' ?s ?op ?id]
  let ?s1 = "snd (emit sb ?op ?id ?s)"
  have s1: "snd (emit sb' ?op ?id ?s) = ?s1" using agree_state [OF a] by simp
  note b = agree_project_until [of loads sb "rf_replayed f" ?s1 sb']
  let ?s2 = "fst (snd (project_until loads sb (rf_replayed f) ?s1))"
  have s2: "fst (snd (project_until loads sb' (rf_replayed f) ?s1)) = ?s2" using b agree_state by metis
  let ?last = "(rf_run_id f @ '':status-end'', end_event (the (rf_status f)))"
  note ab = agree_append [OF a [unfolded s1] conjunct2 [OF b, unfolded s2]]
  note c = agree_append [OF ab agree_project [of sb sb' ?s2 loads ?last]]
    and d = agree_append [OF ab conjunct2 [OF agree_project_until [of loads sb "unseen f" ?s2 sb']]]
  have "agree sb sb' ?s (fst (drain_run loads sb f s)) (snd (drain_run loads sb f s))
     (fst (drain_run loads sb' f s)) (snd (drain_run loads sb' f s))"
    using ab c d conjunct1 [OF b] s1 s2
    by (simp add: drain_run_def Let_def case_prod_beta agree_Nil)
  then show ?thesis by (rule agree_seq) (rule seq)
qed

lemma agree_drain_runs:
  "agree sb sb' s (fst (drain_runs loads sb fs s)) (snd (drain_runs loads sb fs s))
     (fst (drain_runs loads sb' fs s)) (snd (drain_runs loads sb' fs s))"
proof (induction fs arbitrary: s)
  case (Cons f fs)
  note one = agree_drain_run [of sb sb' s loads f]
  let ?s1 = "snd (drain_run loads sb f s)"
  let ?t1 = "?s1\<lparr>se_drained := rf_run_id f # se_drained ?s1\<rparr>"
  have s2: "snd (drain_run loads sb' f s) = ?s1" using agree_state [OF one] by simp
  have "agree sb sb' s (fst (drain_run loads sb f s)) ?t1 (fst (drain_run loads sb' f s)) ?t1"
    using one by (simp add: agree_def s2)
  from agree_append [OF this Cons.IH [of ?t1]] show ?case
    by (simp add: Let_def case_prod_beta s2)
qed (simp add: agree_Nil)

text \<open>
  Claim C15.  The cursor of an event session is exact.  Over the same surviving events, sessions
  with different channels, namespaces, depths and cursors assign the same sequence numbers: they
  end in the same state and show the same envelopes wherever both would; numbers increase
  strictly; and resuming after number \<open>n\<close> gives exactly the envelopes with larger numbers, no more
  and no fewer.
\<close>

theorem session_cursor_exact:
  "snd (drain_runs loads sb fs s) = snd (drain_runs loads sb' fs s)
   \<and> filter (visible sb') (fst (drain_runs loads sb fs s)) = filter (visible sb) (fst (drain_runs loads sb' fs s))
   \<and> sorted_wrt (<) (map en_seq (fst (drain_runs loads sb fs s)))
   \<and> fst (drain_runs loads (sb\<lparr>sb_since := Some n\<rparr>) fs s)
       = filter (\<lambda>e. n < en_seq e) (fst (drain_runs loads (sb\<lparr>sb_since := None\<rparr>) fs s))"
proof -
  let ?some = "sb\<lparr>sb_since := Some n\<rparr>" and ?none = "sb\<lparr>sb_since := None\<rparr>"
  have w: "wants ?some = wants ?none" "wants_namespace ?some = wants_namespace ?none"
    by (simp_all add: wants_def wants_namespace_def fun_eq_iff split: json.split option.split)
  have v: "visible ?some e = (visible ?none e \<and> n < en_seq e)" for e
    by (simp add: visible_def w)
  note a = agree_drain_runs [of ?some ?none s loads fs] and b = agree_drain_runs [of ?none ?some s loads fs]
  have "filter (visible ?none) (fst (drain_runs loads ?some fs s)) = fst (drain_runs loads ?some fs s)"
    using a by (intro filter_True) (auto simp: agree_def v)
  moreover have "filter (visible ?some) (fst (drain_runs loads ?none fs s))
      = filter (\<lambda>e. n < en_seq e) (fst (drain_runs loads ?none fs s))"
    using b by (intro filter_cong) (auto simp: agree_def v)
  ultimately have "fst (drain_runs loads ?some fs s) = filter (\<lambda>e. n < en_seq e) (fst (drain_runs loads ?none fs s))"
    using a by (simp add: agree_def)
  with agree_drain_runs [of sb sb' s loads fs] show ?thesis by (simp add: agree_def)
qed

text \<open>
  The cursor counts what survives.  When the events of a finished run expired between
  two connections, the run no longer takes any numbers, so a client that resumes after the number
  it saw is sent nothing of the following run as long as that run has not reached this number again.
\<close>

theorem expired_run_shifts_cursor:
  assumes "over f" and "rf_replayed f = []"
    and "se_seq (snd (drain_runs loads sb [f, g] s)) \<le> n"
  shows "se_seq (snd (drain_runs loads sb [f] s)) = se_seq s
    \<and> fst (drain_runs loads (sb\<lparr>sb_since := Some n\<rparr>) [f, g] s) = []"
proof -
  let ?sb = "sb\<lparr>sb_since := Some n\<rparr>"
  note a = agree_drain_runs [of ?sb sb s loads "[f, g]"]
  have "fst (drain_runs loads ?sb [f, g] s) = []"
  proof (rule ccontr)
    assume "fst (drain_runs loads ?sb [f, g] s) \<noteq> []"
    then obtain e where "e \<in> set (fst (drain_runs loads ?sb [f, g] s))" by (meson last_in_set)
    then have "n < en_seq e" and "en_seq e \<le> se_seq (snd (drain_runs loads sb [f, g] s))"
      using a unfolding agree_def by (auto simp: visible_def)
    with assms(3) show False by simp
  qed
  moreover have "se_seq (snd (drain_runs loads sb [f] s)) = se_seq s"
    using assms(1,2) by (simp add: drain_run_def begin_drain_def)
  ultimately show ?thesis by simp
qed

subsection \<open>Closing of subgraphs\<close>

text \<open>What a client that follows the lifecycle channel believes to be still open.\<close>

definition lifecycle_event :: "json \<Rightarrow> string option" where
  "lifecycle_event data = (case data of JObj d \<Rightarrow> str_key d ''event'' | _ \<Rightarrow> None)"

definition track :: "string \<times> json \<times> namespace \<Rightarrow> namespace set \<Rightarrow> namespace set" where
  "track ce opened =
     (case ce of (m, data, ns) \<Rightarrow>
        if m = ''lifecycle'' \<and> ns \<noteq> [] then
          (if lifecycle_event data = Some ''started'' then insert ns opened
           else if lifecycle_event data \<in> {Some ''completed'', Some ''failed''} then opened - {ns}
           else opened)
        else opened)"

definition believed_open :: "envelope list \<Rightarrow> namespace set \<Rightarrow> namespace set" where
  "believed_open es opened = fold (\<lambda>e. track (en_method e, en_data e, en_namespace e)) es opened"

lemma believed_open_append: "believed_open (es @ es') X = believed_open es' (believed_open es X)"
  by (simp add: believed_open_def)

lemma believed_open_Nil [simp]: "believed_open [] X = X"
  by (simp add: believed_open_def)

definition nul_free :: "namespace \<Rightarrow> bool" where
  "nul_free ns = list_all (\<lambda>seg. CHR 0x00 \<notin> set seg) ns"

lemma join_nul_inject:
  "nul_free ns \<Longrightarrow> nul_free ns' \<Longrightarrow> ns \<noteq> [] \<Longrightarrow> ns' \<noteq> [] \<Longrightarrow> join_nul ns = join_nul ns' \<Longrightarrow> ns = ns'"
proof (induction ns arbitrary: ns' rule: join_nul.induct)
  case (2 x)
  then show ?case by (cases ns' rule: join_nul.cases) (auto simp: nul_free_def)
next
  case (3 x y ys)
  then obtain x' r where ns': "ns' = x' # r" by (cases ns') auto
  have x: "CHR 0x00 \<notin> set x" and x': "CHR 0x00 \<notin> set x'" using "3.prems" ns' by (auto simp: nul_free_def)
  show ?case
  proof (cases r)
    case Nil
    have "x' = x @ [CHR 0x00] @ join_nul (y # ys)" using "3.prems"(5) ns' Nil by simp
    then show ?thesis using x' by auto
  next
    case (Cons y' ys')
    have eq: "x @ CHR 0x00 # join_nul (y # ys) = x' @ CHR 0x00 # join_nul (y' # ys')"
      using "3.prems"(5) ns' Cons by simp
    have "takeWhile (\<lambda>c. c \<noteq> CHR 0x00) (x @ CHR 0x00 # t) = x" if "CHR 0x00 \<notin> set x" for x t :: string
      using that by (induction x) auto
    from arg_cong [OF eq, of "takeWhile (\<lambda>c. c \<noteq> CHR 0x00)"] this x x' have "x = x'" by simp
    with eq have "join_nul (y # ys) = join_nul (y' # ys')" by simp
    with "3.IH" [of "y' # ys'"] "3.prems" ns' Cons \<open>x = x'\<close> show ?thesis by (simp add: nul_free_def)
  qed
qed simp

text \<open>The session's table of open namespaces: keyed by its joined path, and never the root.\<close>

definition keyed :: "session \<Rightarrow> bool" where
  "keyed s = ((\<forall>(k, ns) \<in> set (se_open_namespaces s). k = join_nul ns \<and> ns \<noteq> [] \<and> nul_free ns)
     \<and> distinct (map fst (se_open_namespaces s)))"

definition open_set :: "session \<Rightarrow> namespace set" where
  "open_set s = snd ` set (se_open_namespaces s)"

text \<open>The producer's namespaces have no NUL character in a segment.\<close>

definition plain_params :: "dict \<Rightarrow> bool" where
  "plain_params q =
     (nul_free (as_namespace (get_or q ''namespace'' JNull)) \<and>
      (case get_or q ''data'' JNull of
         JObj d \<Rightarrow> (case Option.bind (list_key d ''namespace'') strings_of of Some ns \<Rightarrow> nul_free ns | None \<Rightarrow> True)
       | _ \<Rightarrow> True))"

definition plain_event :: "payload \<Rightarrow> bool" where
  "plain_event raw = (case unwrap raw of Some (m, p) \<Rightarrow> plain_params (native_params p) | None \<Rightarrow> True)"

lemma open_set_update:
  assumes "keyed s" and "ns \<noteq> []" and "nul_free ns"
  shows "snd ` set (AList.update (join_nul ns) ns (se_open_namespaces s)) = insert ns (open_set s)"
    and "keyed (s\<lparr>se_open_namespaces := AList.update (join_nul ns) ns (se_open_namespaces s)\<rparr>)"
    and "snd ` set (AList.delete (join_nul ns) (se_open_namespaces s)) = open_set s - {ns}"
    and "keyed (s\<lparr>se_open_namespaces := AList.delete (join_nul ns) (se_open_namespaces s)\<rparr>)"
proof -
  let ?A = "se_open_namespaces s"
  have d: "distinct (map fst ?A)" using assms(1) by (simp add: keyed_def)
  have "fst p = join_nul ns \<longleftrightarrow> snd p = ns" if "p \<in> set ?A" for p
    using that assms join_nul_inject [of "snd p" ns] by (fastforce simp: keyed_def)
  then have others: "{p \<in> set ?A. fst p \<noteq> join_nul ns} = {p \<in> set ?A. snd p \<noteq> ns}" by auto
  have upd: "set (AList.update k v A) = insert (k, v) {p \<in> set A. fst p \<noteq> k}" if "distinct (map fst A)"
    for k and v :: namespace and A :: "(string \<times> namespace) list"
    using that by (induction A) (auto simp: image_iff)
  have del: "set (AList.delete k A) = {p \<in> set A. fst p \<noteq> k}" for k and A :: "(string \<times> namespace) list"
    by (auto simp: AList.delete_eq)
  show "snd ` set (AList.update (join_nul ns) ns ?A) = insert ns (open_set s)"
    by (auto simp: upd [OF d] others open_set_def)
  show "keyed (s\<lparr>se_open_namespaces := AList.update (join_nul ns) ns ?A\<rparr>)"
    using assms d by (auto simp: keyed_def upd [OF d] distinct_update)
  show "snd ` set (AList.delete (join_nul ns) ?A) = open_set s - {ns}"
    by (auto simp: del others open_set_def)
  show "keyed (s\<lparr>se_open_namespaces := AList.delete (join_nul ns) ?A\<rparr>)"
    using assms d by (auto simp: keyed_def del distinct_delete)
qed

text \<open>An event as a client with this subscription hears it.\<close>

definition heard :: "subscription \<Rightarrow> channel_event \<Rightarrow> namespace set \<Rightarrow> namespace set" where
  "heard sb ce X = (if wants_namespace sb (snd (snd ce)) then track ce X else X)"

definition follows :: "subscription \<Rightarrow> bool" where
  "follows sb = (''lifecycle'' \<in> set (sb_channels sb) \<and> sb_since sb = None)"

lemma heard_emit_from:
  "follows sb \<Longrightarrow> believed_open (fst (emit_from sb i ces eid s)) X = fold (heard sb) ces X"
proof (induction ces arbitrary: i s X)
  case (Cons ce ces)
  obtain m d ns where ce: "ce = (m, d, ns)" by (cases ce)
  have "wants sb m d \<or> m \<noteq> ''lifecycle''" using Cons.prems by (auto simp: wants_def follows_def)
  moreover have "track (m, d, ns) Y = Y" if "m \<noteq> ''lifecycle''" for Y using that by (simp add: track_def)
  ultimately show ?case
    using Cons.IH [OF Cons.prems] Cons.prems
    by (auto simp: ce Let_def case_prod_beta believed_open_append follows_def heard_def)
      (simp_all add: believed_open_def)
qed simp

lemma emit_from_session: "snd (emit_from sb i ces eid s) = s\<lparr>se_seq := se_seq s + length ces\<rparr>"
  by (induction ces arbitrary: i s) (auto simp: Let_def case_prod_beta)

lemma emit_session: "snd (emit sb ces eid s) = s\<lparr>se_seq := se_seq s + length ces\<rparr>"
  by (simp add: emit_def emit_from_session)

text \<open>Client and session agree on what is open, as far as the client asked for it.\<close>

definition in_step :: "subscription \<Rightarrow> namespace set \<Rightarrow> session \<Rightarrow> bool" where
  "in_step sb X s = (keyed s \<and> X = {ns \<in> open_set s. wants_namespace sb ns})"

definition quiet :: "channel_event list \<times> session \<Rightarrow> session \<Rightarrow> bool" where
  "quiet r s = (se_open_namespaces (snd r) = se_open_namespaces s \<and> (\<forall>ce \<in> set (fst r). fst ce \<noteq> ''lifecycle''))"

lemma quiet_in_step: "in_step sb X s \<Longrightarrow> quiet (ces, s') s \<Longrightarrow> in_step sb (fold (heard sb) ces X) s'"
proof -
  assume a: "in_step sb X s" "quiet (ces, s') s"
  have "fold (heard sb) ces X = X"
    using a(2) by (intro fold_invariant [where P = "\<lambda>Y. Y = X" and Q = "\<lambda>ce. fst ce \<noteq> ''lifecycle''"])
      (auto simp: quiet_def heard_def track_def)
  with a show ?thesis by (simp add: in_step_def keyed_def open_set_def quiet_def)
qed

lemma quiet_input_step: "quiet acc s \<Longrightarrow> quiet (input_request_event ns req acc) s"
  by (auto simp: input_request_event_def quiet_def split: prod.split option.split)

lemma quiet_input_fold: "quiet acc s \<Longrightarrow> quiet (fold (input_request_event ns) reqs acc) s"
  by (induction reqs arbitrary: acc) (simp_all add: quiet_input_step)

lemma quiet_input: "quiet (input_request_events reqs ns s) s"
  unfolding input_request_events_def by (rule quiet_input_fold) (simp add: quiet_def)

lemma input_events_open [simp]: "se_open_namespaces (snd (input_request_events reqs ns s)) = se_open_namespaces s"
  using quiet_input [of reqs ns s] by (simp add: quiet_def)

lemma input_events_method: "ce \<in> set (fst (input_request_events reqs ns s)) \<Longrightarrow> fst ce \<noteq> ''lifecycle''"
  using quiet_input [of reqs ns s] by (simp add: quiet_def)

lemma quiet_values: "quiet (values_events loads data interrupts ns s) s"
  by (auto simp: values_events_def Let_def case_prod_beta quiet_def dest: input_events_method)

lemma quiet_updates: "quiet (updates_events loads data ns s) s"
  by (auto simp: updates_events_def Let_def case_prod_beta quiet_def dest: input_events_method
      split: json.split option.split)

lemma closing_heard:
  "fold (heard sb) (map (\<lambda>ns. (''lifecycle'', JObj [(''event'', JStr ''completed'')], ns)) nss) X
   = X - {ns \<in> set nss. ns \<noteq> [] \<and> wants_namespace sb ns}"
  by (induction nss arbitrary: X) (auto simp: heard_def track_def lifecycle_event_def str_key_def)

lemma terminal_in_step:
  assumes "in_step sb X s"
  shows "in_step sb (fold (heard sb) (fst (terminal_lifecycle m p s)) X) (snd (terminal_lifecycle m p s))"
    and "fold (heard sb) (fst (terminal_lifecycle m p s)) X = {}"
proof -
  have "fold (heard sb) (fst (terminal_lifecycle m p s)) X = {}"
    using assms by (auto simp: terminal_lifecycle_def Let_def closing_heard deepest_first_def
        heard_def [of sb "(''lifecycle'', d, [])" for d] track_def in_step_def keyed_def open_set_def)
  then show "fold (heard sb) (fst (terminal_lifecycle m p s)) X = {}"
    and "in_step sb (fold (heard sb) (fst (terminal_lifecycle m p s)) X) (snd (terminal_lifecycle m p s))"
    by (simp_all add: in_step_def keyed_def open_set_def terminal_lifecycle_def Let_def)
qed


lemma native_in_step:
  assumes "in_step sb X s" and "nul_free ns"
    and "\<And>d ns'. data = JObj d \<Longrightarrow> Option.bind (list_key d ''namespace'') strings_of = Some ns' \<Longrightarrow> nul_free ns'"
  shows "in_step sb (fold (heard sb) (fst (native_lifecycle_events data ns s)) X) (snd (native_lifecycle_events data ns s))"
proof (cases data)
  case (JObj d)
  show ?thesis
  proof (cases "str_key d ''event''")
    case None
    with JObj assms(1) show ?thesis
      by (simp add: native_lifecycle_events_def heard_def track_def lifecycle_event_def)
  next
    case (Some ev)
    let ?ns = "promoted_namespace d ns"
    have free: "nul_free ?ns" using assms(2,3) JObj by (auto simp: promoted_namespace_def split: option.split)
    have ev: "str_key ((''event'', JStr e) # fs) ''event'' = Some e" for e fs by (simp add: str_key_def)
    have keyed: "keyed s" and X: "X = {ns \<in> open_set s. wants_namespace sb ns}"
      using assms(1) by (simp_all add: in_step_def)
    show ?thesis
    proof (cases "?ns = []")
      case True
      then show ?thesis using assms(1) by (simp add: native_lifecycle_events_def JObj Some)
    next
      case False
      note upd = open_set_update [OF keyed False free]
      note native = native_lifecycle_events_def JObj Some False Let_def heard_def track_def lifecycle_event_def ev
      consider "ev = ''started''" | "ev \<in> {''completed'', ''failed''}" | "ev \<notin> {''started'', ''completed'', ''failed''}"
        by blast
      then show ?thesis
      proof cases
        case 1
        then show ?thesis using upd(1,2) by (auto simp: native in_step_def X open_set_def)
      next
        case 2
        then have "ev \<noteq> ''started''" by auto
        with 2 show ?thesis using upd(3,4) by (auto simp: native in_step_def X open_set_def)
      next
        case 3
        then show ?thesis using assms(1) by (simp add: native)
      qed
    qed
  qed
qed (use assms(1) in \<open>simp_all add: native_lifecycle_events_def heard_def track_def lifecycle_event_def as_values_def
   str_key_def\<close>)

lemma channel_in_step:
  assumes "in_step sb X s" and "unwrap raw = Some (m, p)" and "plain_event raw"
  shows "in_step sb (fold (heard sb) (fst (channel_events loads m p s)) X) (snd (channel_events loads m p s))"
proof -
  let ?params = "native_params p"
  let ?data = "get_or ?params ''data'' JNull" and ?ns = "as_namespace (get_or ?params ''namespace'' JNull)"
  have q: "in_step sb (fold (heard sb) (fst r) X) (snd r)" if "quiet r s" for r
    using quiet_in_step [OF assms(1), of "fst r" "snd r"] that by simp
  have free: "nul_free ?ns"
    using assms(2,3) by (simp add: plain_event_def plain_params_def)
  have free': "nul_free ns'" if "?data = JObj d" "Option.bind (list_key d ''namespace'') strings_of = Some ns'" for d ns'
    using that assms(2,3) by (simp add: plain_event_def plain_params_def)
  consider "m \<in> {''end'', ''error''}" | "m = ''lifecycle''" | "m = ''values''" | "m = ''updates''"
    | "m \<notin> {''end'', ''error'', ''lifecycle'', ''values'', ''updates''}" by blast
  then show ?thesis
  proof cases
    case 1
    then show ?thesis using terminal_in_step(1) [OF assms(1)] by (simp add: channel_events_def)
  next
    case 2
    then show ?thesis using native_in_step [OF assms(1) free free'] by (simp add: channel_events_def Let_def)
  next
    case 3
    then show ?thesis using q [OF quiet_values] by (simp add: channel_events_def Let_def)
  next
    case 4
    then show ?thesis using q [OF quiet_updates] by (simp add: channel_events_def Let_def)
  next
    case 5
    then have "quiet (channel_events loads m p s) s"
      by (auto simp: channel_events_def Let_def quiet_def custom_events_def)
    then show ?thesis by (rule q)
  qed
qed

lemma project_in_step:
  assumes "follows sb" and "in_step sb X s" and "plain_event (snd ev)"
  shows "in_step sb (believed_open (fst (project loads sb ev s)) X) (snd (project loads sb ev s))"
    and "terminal_event (snd ev) \<Longrightarrow> believed_open (fst (project loads sb ev s)) X = {}"
proof -
  note h = heard_emit_from [OF assms(1)] and c = channel_in_step [OF assms(2) _ assms(3), of _ _ loads]
  show "in_step sb (believed_open (fst (project loads sb ev s)) X) (snd (project loads sb ev s))"
    using c assms(2)
    by (auto simp: project_def emit_def h emit_from_session in_step_def keyed_def open_set_def case_prod_beta
        split: option.split)
  assume "terminal_event (snd ev)"
  then obtain m p where mp: "unwrap (snd ev) = Some (m, p)" "m \<in> {''end'', ''error''}"
    by (auto simp: terminal_event_def split: option.splits)
  then show "believed_open (fst (project loads sb ev s)) X = {}"
    using terminal_in_step(2) [OF assms(2)] by (auto simp: project_def emit_def h channel_events_def case_prod_beta)
qed


lemma project_until_in_step:
  assumes "follows sb" and "in_step sb X s" and "\<forall>ev \<in> set evs. plain_event (snd ev)"
  shows "in_step sb (believed_open (fst (project_until loads sb evs s)) X) (fst (snd (project_until loads sb evs s)))"
    and "snd (snd (project_until loads sb evs s)) \<Longrightarrow> believed_open (fst (project_until loads sb evs s)) X = {}"
proof -
  have "in_step sb (believed_open (fst (project_until loads sb evs s)) X) (fst (snd (project_until loads sb evs s)))
    \<and> (snd (snd (project_until loads sb evs s)) \<longrightarrow> believed_open (fst (project_until loads sb evs s)) X = {})"
    using assms(2,3)
  proof (induction evs arbitrary: s X)
    case (Cons ev evs)
    have ev: "plain_event (snd ev)" using Cons.prems(2) by simp
    note one = project_in_step [OF assms(1) Cons.prems(1) ev, of loads]
    show ?case
      using one Cons.IH [OF one(1)] Cons.prems(2)
      by (auto simp: Let_def case_prod_beta believed_open_append)
  qed simp
  then show "in_step sb (believed_open (fst (project_until loads sb evs s)) X) (fst (snd (project_until loads sb evs s)))"
    and "snd (snd (project_until loads sb evs s)) \<Longrightarrow> believed_open (fst (project_until loads sb evs s)) X = {}"
    by simp_all
qed

definition plain_feed :: "run_feed \<Rightarrow> bool" where
  "plain_feed f = (list_all (\<lambda>ev. plain_event (snd ev)) (rf_replayed f) \<and> list_all (\<lambda>ev. plain_event (snd ev)) (rf_live f))"

text \<open>The run came to an end before this client: by its status, or by a terminal event.\<close>

definition ended :: "run_feed \<Rightarrow> bool" where
  "ended f = (over f \<or> list_ex (\<lambda>ev. terminal_event (snd ev)) (rf_replayed f @ unseen f))"

lemma project_until_done:
  "snd (snd (project_until loads sb evs s)) = list_ex (\<lambda>ev. terminal_event (snd ev)) evs"
  by (induction evs arbitrary: s) (auto simp: Let_def case_prod_beta)

lemma opening_in_step: "in_step sb {} (snd (emit sb ces eid (begin_drain f s)))"
  by (simp add: emit_session begin_drain_def in_step_def keyed_def open_set_def)

lemma believed_open_opening:
  "believed_open (fst (emit sb [(''lifecycle'', d, [])] eid s)) {} = {}"
  by (simp add: emit_def Let_def believed_open_def track_def)

text \<open>
  No subgraph stays open.  Whatever channels, namespaces and depth a client that follows
  the lifecycle channel asked for, once a run has ended (by a terminal event in what its broker
  kept or sent live, or by its stored status) the events it received close every subgraph they
  opened: the cascade of the terminal event covers the ones whose own completion never came.
\<close>

theorem ended_run_closes_subgraphs:
  assumes "follows sb" and "plain_feed f" and "ended f"
  shows "believed_open (fst (drain_run loads sb f s)) {} = {}"
proof (cases "over f \<and> rf_replayed f = []")
  case True
  then show ?thesis by (simp add: drain_run_def)
next
  case False
  let ?s = "begin_drain f s"
  let ?op = "[(''lifecycle'', JObj (root_lifecycle ''running'' ?s), [])]" and ?id = "rf_run_id f @ '':running''"
  let ?s1 = "snd (emit sb ?op ?id ?s)"
  let ?r = "project_until loads sb (rf_replayed f) ?s1"
  let ?s2 = "fst (snd ?r)" and ?X = "believed_open (fst ?r) {}"
  let ?last = "(rf_run_id f @ '':status-end'', end_event (the (rf_status f)))"
  have replayed: "\<forall>ev \<in> set (rf_replayed f). plain_event (snd ev)" and live: "\<forall>ev \<in> set (unseen f). plain_event (snd ev)"
    using assms(2) by (auto simp: plain_feed_def unseen_def list_all_iff)
  note r = project_until_in_step [OF assms(1) opening_in_step [of sb ?op ?id f s] replayed, of loads]
  have plain: "plain_event (snd ?last)" and fin: "terminal_event (snd ?last)"
    by (simp_all add: plain_event_def terminal_event_def unwrap_def end_event_def plain_params_def native_params_def obj_key_def
        get_or_def as_namespace_def nul_free_def)
  note e = project_in_step(2) [OF assms(1) r(1) plain fin]
  note l = project_until_in_step(2) [OF assms(1) r(1) live, of loads]
  have "believed_open (fst (project_until loads sb (unseen f) ?s2)) ?X = {}"
    if "\<not> snd (snd ?r)" and "\<not> over f"
    using that l assms(3) by (simp add: project_until_done ended_def)
  then show ?thesis
    using False r(2) e
    by (auto simp: drain_run_def Let_def case_prod_beta believed_open_append believed_open_opening)
qed

subsection \<open>Examples\<close>

text \<open>A finished run whose events expired, and one that stopped inside a subgraph.\<close>

definition expired_feed :: run_feed where
  "expired_feed = \<lparr>rf_run_id = ''r1'', rf_status = Some ''success'', rf_graph_name = None, rf_replayed = [], rf_live = []\<rparr>"

definition cut_feed :: run_feed where
  "cut_feed = \<lparr>rf_run_id = ''r2'', rf_status = Some ''interrupted'', rf_graph_name = Some ''g'',
     rf_replayed = [(''e1'', Tuple [JStr ''lifecycle'', JObj [(''params'', JObj [(''namespace'', JList [JStr ''sub:1'']),
        (''data'', JObj [(''event'', JStr ''started'')])])]])], rf_live = []\<rparr>"

definition lifecycle_only :: subscription where
  "lifecycle_only = \<lparr>sb_channels = [''lifecycle''], sb_since = None, sb_namespaces = None, sb_depth = None\<rparr>"

lemma over_examples: "over expired_feed" "over cut_feed"
  by (simp_all add: over_def expired_feed_def cut_feed_def TERMINAL_RUN_STATUSES_def)

lemma started_envelope:
  "project (\<lambda>_. None) sb (''e1'', Tuple [JStr ''lifecycle'', JObj [(''params'', JObj [(''namespace'', JList [JStr ''sub:1'']),
        (''data'', JObj [(''event'', JStr ''started'')])])]]) s
   = emit sb [(''lifecycle'', JObj [(''event'', JStr ''started'')], [''sub:1''])] ''e1''
       (s\<lparr>se_open_namespaces := AList.update ''sub:1'' [''sub:1''] (se_open_namespaces s)\<rparr>)"
  by (simp add: project_def unwrap_def channel_events_def native_params_def obj_key_def get_or_def as_namespace_def
      List.map_filter_def str_of_json_def native_lifecycle_events_def str_key_def promoted_namespace_def list_key_def
      forwarded_fields_def opt_field_def Let_def)

theorem ended_run_closes_subgraphs_witness:
  "believed_open (fst (drain_run (\<lambda>_. None) lifecycle_only cut_feed new_session)) {} = {}
   \<and> believed_open (fst (project (\<lambda>_. None) lifecycle_only (hd (rf_replayed cut_feed)) new_session)) {} = {[''sub:1'']}"
proof
  show "believed_open (fst (drain_run (\<lambda>_. None) lifecycle_only cut_feed new_session)) {} = {}"
  proof (rule ended_run_closes_subgraphs)
    show "plain_feed cut_feed"
      by (simp add: plain_feed_def cut_feed_def plain_event_def plain_params_def unwrap_def native_params_def obj_key_def get_or_def
          as_namespace_def List.map_filter_def str_of_json_def nul_free_def list_key_def)
  qed (simp_all add: follows_def lifecycle_only_def ended_def over_examples)
  show "believed_open (fst (project (\<lambda>_. None) lifecycle_only (hd (rf_replayed cut_feed)) new_session)) {} = {[''sub:1'']}"
    by (simp add: cut_feed_def started_envelope emit_def Let_def lifecycle_only_def wants_def wants_namespace_def believed_open_def
        track_def lifecycle_event_def str_key_def)
qed

definition started_feed :: run_feed where
  "started_feed = \<lparr>rf_run_id = ''r3'', rf_status = Some ''running'', rf_graph_name = None, rf_replayed = [], rf_live = []\<rparr>"

theorem expired_run_shifts_cursor_witness:
  "fst (drain_runs (\<lambda>_. None) (lifecycle_only\<lparr>sb_since := Some 1\<rparr>) [expired_feed, started_feed] new_session) = []
   \<and> fst (drain_runs (\<lambda>_. None) lifecycle_only [expired_feed, started_feed] new_session) \<noteq> []"
proof -
  have fresh: "\<not> over started_feed" "unseen started_feed = []" "rf_replayed started_feed = []"
    by (simp_all add: started_feed_def over_def TERMINAL_RUN_STATUSES_def unseen_def)
  have gone: "rf_replayed expired_feed = []" by (simp add: expired_feed_def)
  note run = drain_run_def over_examples(1) gone fresh begin_drain_def new_session_def emit_def Let_def
  have "se_seq (snd (drain_runs (\<lambda>_. None) lifecycle_only [expired_feed, started_feed] new_session)) \<le> 1"
    by (simp add: run)
  from expired_run_shifts_cursor [OF over_examples(1) gone this] show ?thesis
    by (simp add: run lifecycle_only_def wants_def wants_namespace_def)
qed

end
