(* ===== verification/V2_Commands.thy ===== *)
theory V2_Commands
  imports Runs_Api V2_Session Cron Enforcement
begin

text \<open>
  The thread commands of the second protocol version (\<^verbatim>\<open>usecase/streaming/v2/commands.py\<close>), the
  capability check (\<^verbatim>\<open>capabilities.py\<close>), the response envelopes of \<^verbatim>\<open>protocol.py\<close> and the two
  endpoints of \<^verbatim>\<open>controller/http/routers/event_streaming.py\<close>.  The symbols the installed
  libraries provide and the order in which the database produces rows are arguments; the texts
  of error messages are left out, as elsewhere.
\<close>

subsection \<open>Capabilities\<close>

definition REQUIRED_SYMBOLS :: "(string \<times> string) list" where
  "REQUIRED_SYMBOLS =
     [(''langgraph.pregel._messages'', ''StreamMessagesHandlerV2''),
      (''langgraph.pregel._tools'', ''StreamToolCallHandler''),
      (''langgraph.stream._mux'', ''StreamMux''),
      (''langgraph.stream.transformers'', ''LifecycleTransformer''),
      (''langchain_core.language_models.chat_model_stream'', ''ChatModelStream''),
      (''langchain_core.language_models.chat_model_stream'', ''AsyncChatModelStream''),
      (''langchain_core.language_models._compat_bridge'', ''message_to_events'')]"

record v2_capabilities =
  vc_ok :: bool
  vc_missing :: "string list"
  vc_disabled_by_flag :: bool

definition probe_runtime_symbols :: "(string \<Rightarrow> string \<Rightarrow> bool) \<Rightarrow> string list" where
  "probe_runtime_symbols provides =
     map (\<lambda>(m, a). m @ ''.'' @ a) (filter (\<lambda>(m, a). \<not> provides m a) REQUIRED_SYMBOLS)"

definition get_v2_capabilities :: "bool \<Rightarrow> (string \<Rightarrow> string \<Rightarrow> bool) \<Rightarrow> v2_capabilities" where
  "get_v2_capabilities flag provides =
     (if \<not> flag then \<lparr>vc_ok = False, vc_missing = [], vc_disabled_by_flag = True\<rparr>
      else (let missing = probe_runtime_symbols provides
            in \<lparr>vc_ok = (missing = []), vc_missing = missing, vc_disabled_by_flag = False\<rparr>))"

definition require_v2_enabled :: "v2_capabilities \<Rightarrow> unit result" where
  "require_v2_enabled caps = (if vc_ok caps then Inr () else Inl (HTTPException 503))"

subsection \<open>Envelopes\<close>

definition build_success :: "json \<Rightarrow> dict \<Rightarrow> nat option \<Rightarrow> dict" where
  "build_success command_id res applied =
     [(''type'', JStr ''success''), (''id'', command_id), (''result'', JObj res)] @
     (case applied of None \<Rightarrow> [] | Some n \<Rightarrow> [(''meta'', JObj [(''applied_through_seq'', JInt (int n))])])"

definition build_error :: "json \<Rightarrow> string \<Rightarrow> dict" where
  "build_error command_id code = [(''type'', JStr ''error''), (''id'', command_id), (''error'', JStr code)]"

definition status_to_error_code :: "nat \<Rightarrow> string" where
  "status_to_error_code status =
     (if status = 404 then ''no_such_run'' else if status = 403 then ''permission_denied'' else ''invalid_argument'')"

subsection \<open>UUID strings\<close>

text \<open>
  Python's \<open>UUID(s)\<close>: the prefixes and the dashes go wherever they are, the braces at the ends;
  32 characters must be left that \<open>int(s, 16)\<close> accepts (blanks around it, a sign, a \<^verbatim>\<open>0x\<close> and
  single underscores included).
\<close>

function remove_all_str :: "string \<Rightarrow> string \<Rightarrow> string" where
  "remove_all_str sub [] = []"
| "remove_all_str sub (c # cs) =
     (if sub \<noteq> [] \<and> take (length sub) (c # cs) = sub then remove_all_str sub (drop (length sub) (c # cs))
      else c # remove_all_str sub cs)"
  by pat_completeness auto
termination
  by (relation "measure (length \<circ> snd)") auto

definition strip_braces :: "string \<Rightarrow> string" where
  "strip_braces s =
     (let brace = (\<lambda>c. c = CHR ''{'' \<or> c = CHR ''}'')
      in rev (dropWhile brace (rev (dropWhile brace s))))"

definition hex_digit :: "char \<Rightarrow> bool" where
  "hex_digit c = (c \<in> set ''0123456789abcdefABCDEF'')"

fun hex_digits :: "bool \<Rightarrow> string \<Rightarrow> bool" where
  "hex_digits after_digit [] = after_digit"
| "hex_digits after_digit (c # cs) =
     (if hex_digit c then hex_digits True cs
      else c = CHR ''_'' \<and> after_digit \<and> hex_digits False cs)"

definition int_base16 :: "string \<Rightarrow> bool" where
  "int_base16 s =
     (let t = py_strip s;
          t = (if t \<noteq> [] \<and> hd t \<in> {CHR ''+'', CHR ''-''} then tl t else t)
      in if length t > 2 \<and> take 2 t \<in> {''0x'', ''0X''} then hex_digits True (drop 2 t) else hex_digits False t)"

definition uuid_string :: "string \<Rightarrow> bool" where
  "uuid_string s =
     (let hex = remove_all_str ''-'' (strip_braces (remove_all_str ''uuid:'' (remove_all_str ''urn:'' s)))
      in length hex = 32 \<and> int_base16 hex)"

subsection \<open>Parameters of the commands\<close>

definition MULTITASK_STRATEGIES :: "string list" where
  "MULTITASK_STRATEGIES = [''reject'', ''rollback'', ''interrupt'', ''enqueue'']"

text \<open>Membership in the set of strategies hashes the value: a list or an object raises.\<close>

definition multitask_param :: "dict \<Rightarrow> (string option option) result" where
  "multitask_param params =
     (case get_or params ''multitaskStrategy'' (get_or params ''multitask_strategy'' JNull) of
        JNull \<Rightarrow> Inr (Some None)
      | JStr s \<Rightarrow> Inr (if s \<in> set MULTITASK_STRATEGIES then Some (Some s) else None)
      | JList _ \<Rightarrow> Inl TypeError
      | JObj _ \<Rightarrow> Inl TypeError
      | _ \<Rightarrow> Inr None)"

definition context_from_params :: "dict \<Rightarrow> dict option" where
  "context_from_params params =
     (case get_or params ''context'' JNull of JNull \<Rightarrow> Some [] | JObj c \<Rightarrow> Some c | _ \<Rightarrow> None)"

text \<open>The checkpoint to fork from, if any; \<open>ValueError\<close> stands for the error message.\<close>

definition fork_checkpoint_id :: "dict \<Rightarrow> string option result" where
  "fork_checkpoint_id params =
     (case Option.bind (obj_key params ''config'') (\<lambda>c. Option.bind (obj_key c ''configurable'') (\<lambda>d. map_of d ''checkpoint_id'')) of
        None \<Rightarrow> Inr None
      | Some JNull \<Rightarrow> Inr None
      | Some (JStr s) \<Rightarrow> if uuid_string s then Inr (Some s) else Inl ValueError
      | Some _ \<Rightarrow> Inl ValueError)"

definition config_param :: "dict \<Rightarrow> dict option result" where
  "config_param params =
     (let c = get_or params ''config'' JNull in if json_truthy c then typed_field obj_of_json params ''config'' else Inr (Some []))"

definition metadata_param :: "dict \<Rightarrow> dict option result" where
  "metadata_param params = bind_res (typed_field obj_of_json params ''metadata'') validate_metadata_shape"

subsection \<open>Resume values\<close>

definition interrupt_id_pattern :: "string \<Rightarrow> bool" where
  "interrupt_id_pattern s = (length s = 32 \<and> list_all (\<lambda>c. c \<in> set ''0123456789abcdef'') s)"

text \<open>Errors of \<open>_build_resume\<close> carry their code.\<close>

fun resume_map :: "json list \<Rightarrow> dict \<Rightarrow> string + dict" where
  "resume_map [] acc = Inr acc"
| "resume_map (entry # rest) acc =
     (case entry of
        JObj d \<Rightarrow>
          (case map_of d ''response'' of
             None \<Rightarrow> Inl ''invalid_argument''
           | Some response \<Rightarrow>
               (case str_key d ''interrupt_id'' of
                  Some i \<Rightarrow>
                    if interrupt_id_pattern i then resume_map rest (AList.update i response acc)
                    else Inl ''no_such_interrupt''
                | None \<Rightarrow> Inl ''no_such_interrupt''))
      | _ \<Rightarrow> Inl ''invalid_argument'')"

definition build_resume :: "dict \<Rightarrow> string + json" where
  "build_resume params =
     (case list_key params ''responses'' of
        Some rs \<Rightarrow>
          (case resume_map rs [] of
             Inl code \<Rightarrow> Inl code
           | Inr m \<Rightarrow> if m = [] then Inl ''invalid_argument'' else Inr (JObj m))
      | None \<Rightarrow>
          (case map_of params ''response'' of
             None \<Rightarrow> Inl ''invalid_argument''
           | Some response \<Rightarrow>
               (case get_or params ''interrupt_id'' JNull of
                  JNull \<Rightarrow> Inr response
                | JStr i \<Rightarrow> if interrupt_id_pattern i then Inr (JObj [(i, response)]) else Inl ''no_such_interrupt''
                | _ \<Rightarrow> Inl ''no_such_interrupt'')))"

definition is_goto_target :: "json \<Rightarrow> bool" where
  "is_goto_target target =
     (case target of
        JStr s \<Rightarrow> s \<noteq> []
      | JObj d \<Rightarrow> (case str_key d ''node'' of Some n \<Rightarrow> n \<noteq> [] | None \<Rightarrow> False)
      | _ \<Rightarrow> False)"

definition build_resume_command :: "dict \<Rightarrow> json \<Rightarrow> dict option" where
  "build_resume_command params resume =
     (let update = get_or params ''update'' JNull;
          goto = get_or params ''goto'' JNull
      in if update \<noteq> JNull \<and> \<not> is_dict update then None
         else if goto \<noteq> JNull \<and> \<not> list_all is_goto_target (case goto of JList ts \<Rightarrow> ts | _ \<Rightarrow> [goto]) then None
         else Some ((''resume'', resume) # (if update = JNull then [] else [(''update'', update)])
                      @ (if goto = JNull then [] else [(''goto'', goto)])))"

subsection \<open>The commands\<close>

type_synonym answer = "dict \<times> run_id option"

definition refuse :: "json \<Rightarrow> string \<Rightarrow> api_state \<Rightarrow> answer result \<times> api_state" where
  "refuse command_id code s = (Inr (build_error command_id code, None), s)"

text \<open>
  \<open>_start\<close> and the answer of the command that started the run.  A request that the model of
  \<^verbatim>\<open>RunCreate\<close> refuses is pydantic's \<open>ValidationError\<close>; a plain \<open>ValueError\<close> of the preparation is not.
\<close>

definition start_run_of ::
  "prep_env \<Rightarrow> time \<Rightarrow> run_id \<Rightarrow> thread_id \<Rightarrow> user \<Rightarrow> json \<Rightarrow> run_create result \<Rightarrow> api_state \<Rightarrow> answer result \<times> api_state"
where
  "start_run_of env now rid tid u command_id rq s =
     (case rq of
        Inl _ \<Rightarrow> (Inl ValidationError, s)
      | Inr rq \<Rightarrow>
          (case prepare_run env now rid tid rq u Pending True (as_db s, as_queue s) of
             (r, d, q) \<Rightarrow>
               (bind_res r (\<lambda>_. Inr (build_success command_id [(''run_id'', JStr rid)] (Some 0), Some rid)),
                s\<lparr>as_db := d, as_queue := q\<rparr>)))"

definition thread_is_interrupted :: "thread_id \<Rightarrow> user \<Rightarrow> db \<Rightarrow> bool" where
  "thread_is_interrupted tid u d =
     thread_interrupted (first_where (\<lambda>t. t_thread_id t = tid \<and> t_user_id t = identity u) (threads d))"

definition run_start_request :: "string \<Rightarrow> string option \<Rightarrow> dict \<Rightarrow> string option \<Rightarrow> bool \<Rightarrow> dict \<Rightarrow> run_create result" where
  "run_start_request assistant multitask context checkpoint_id interrupted params =
     (let inp = get_or params ''input'' JNull;
          resuming = (inp \<noteq> JNull \<and> interrupted)
      in bind_res (if resuming then Inr None else typed_field obj_of_json params ''input'') (\<lambda>i.
         bind_res (config_param params) (\<lambda>cfg.
         bind_res (metadata_param params) (\<lambda>md.
         bind_res (typed_field sol_of_json params ''interrupt_before'') (\<lambda>ib.
         bind_res (typed_field sol_of_json params ''interrupt_after'') (\<lambda>ia.
           validate_input_command_exclusivity
             \<lparr>rc_assistant_id = assistant, rc_input = i, rc_config = cfg, rc_context = Some context,
              rc_checkpoint = map_option (\<lambda>c. [(''checkpoint_id'', JStr c)]) checkpoint_id, rc_checkpoint_id = None,
              rc_durability = None, rc_checkpoint_during = None, rc_stream_mode = None, rc_multitask_strategy = multitask,
              rc_command = (if resuming then Some [(''resume'', inp)] else None),
              rc_interrupt_before = ib, rc_interrupt_after = ia, rc_stream_subgraphs = Some False, rc_metadata = md\<rparr>))))))"

definition run_start ::
  "prep_env \<Rightarrow> time \<Rightarrow> run_id \<Rightarrow> thread_id \<Rightarrow> user \<Rightarrow> json \<Rightarrow> dict \<Rightarrow> api_state \<Rightarrow> answer result \<times> api_state"
where
  "run_start env now rid tid u command_id params s =
     (if \<not> truthy_str (str_key params ''assistant_id'') then refuse command_id ''invalid_argument'' s
      else
        (case multitask_param params of
           Inl e \<Rightarrow> (Inl e, s)
         | Inr None \<Rightarrow> refuse command_id ''invalid_argument'' s
         | Inr (Some multitask) \<Rightarrow>
             (case (context_from_params params, fork_checkpoint_id params) of
                (Some context, Inr checkpoint_id) \<Rightarrow>
                  start_run_of env now rid tid u command_id
                    (run_start_request (the (str_key params ''assistant_id'')) multitask context checkpoint_id
                       (thread_is_interrupted tid u (as_db s)) params) s
              | _ \<Rightarrow> refuse command_id ''invalid_argument'' s)))"

definition thread_assistant_id :: "(run_row list \<Rightarrow> run_row list) \<Rightarrow> thread_id \<Rightarrow> user \<Rightarrow> db \<Rightarrow> string option" where
  "thread_assistant_id scan tid u d =
     (case sort_key (\<lambda>r. - r_created_at r)
             (scan (select_where (\<lambda>r. r_thread_id r = tid \<and> r_user_id r = identity u) (runs d))) of
        [] \<Rightarrow> None | r # _ \<Rightarrow> r_assistant_id r)"

definition input_respond_request :: "string \<Rightarrow> dict \<Rightarrow> dict \<Rightarrow> dict \<Rightarrow> run_create result" where
  "input_respond_request assistant context command params =
     bind_res (config_param params) (\<lambda>cfg.
     bind_res (metadata_param params) (\<lambda>md.
       validate_input_command_exclusivity
         \<lparr>rc_assistant_id = assistant, rc_input = None, rc_config = cfg, rc_context = Some context,
          rc_checkpoint = None, rc_checkpoint_id = None, rc_durability = None, rc_checkpoint_during = None,
          rc_stream_mode = None, rc_multitask_strategy = None, rc_command = Some command,
          rc_interrupt_before = None, rc_interrupt_after = None, rc_stream_subgraphs = Some False, rc_metadata = md\<rparr>))"

definition input_respond ::
  "(run_row list \<Rightarrow> run_row list) \<Rightarrow> prep_env \<Rightarrow> time \<Rightarrow> run_id \<Rightarrow> thread_id \<Rightarrow> user \<Rightarrow> json \<Rightarrow> dict \<Rightarrow> api_state
   \<Rightarrow> answer result \<times> api_state"
where
  "input_respond scan env now rid tid u command_id params s =
     (case build_resume params of
        Inl code \<Rightarrow> refuse command_id code s
      | Inr resume \<Rightarrow>
          (case (build_resume_command params resume, context_from_params params) of
             (Some command, Some context) \<Rightarrow>
               (let given = str_key params ''assistant_id'';
                    assistant = (if truthy_str given then given else thread_assistant_id scan tid u (as_db s))
                in if \<not> truthy_str assistant then refuse command_id ''no_such_run'' s
                   else start_run_of env now rid tid u command_id (input_respond_request (the assistant) context command params) s)
           | _ \<Rightarrow> refuse command_id ''invalid_argument'' s))"

text \<open>
  \<open>handle_command\<close>: whatever the command raises becomes an error envelope.  A boolean is an
  \<open>int\<close> for \<open>isinstance\<close>.
\<close>

definition is_int :: "json \<Rightarrow> bool" where
  "is_int v = (case v of JInt _ \<Rightarrow> True | JBool _ \<Rightarrow> True | _ \<Rightarrow> False)"

definition error_code :: "py_error \<Rightarrow> string" where
  "error_code e =
     (case e of HTTPException n \<Rightarrow> status_to_error_code n | ValidationError \<Rightarrow> ''invalid_argument'' | _ \<Rightarrow> ''unknown_error'')"

definition answered :: "json \<Rightarrow> answer result \<times> api_state \<Rightarrow> answer \<times> api_state" where
  "answered command_id rs =
     (case rs of (Inl e, s) \<Rightarrow> ((build_error command_id (error_code e), None), s) | (Inr a, s) \<Rightarrow> (a, s))"

definition handle_command ::
  "(run_row list \<Rightarrow> run_row list) \<Rightarrow> prep_env \<Rightarrow> time \<Rightarrow> run_id \<Rightarrow> thread_id \<Rightarrow> user \<Rightarrow> dict \<Rightarrow> api_state \<Rightarrow> answer \<times> api_state"
where
  "handle_command scan env now rid tid u payload s =
     (let command_id = get_or payload ''id'' JNull
      in case str_key payload ''method'' of
           None \<Rightarrow> ((build_error (if is_int command_id then command_id else JNull) ''invalid_argument'', None), s)
         | Some method \<Rightarrow>
             if \<not> is_int command_id then ((build_error JNull ''invalid_argument'', None), s)
             else
               (case obj_key payload ''params'' of
                  None \<Rightarrow> ((build_error command_id ''invalid_argument'', None), s)
                | Some params \<Rightarrow>
                    if method = ''run.start'' then answered command_id (run_start env now rid tid u command_id params s)
                    else if method = ''input.respond''
                    then answered command_id (input_respond scan env now rid tid u command_id params s)
                    else ((build_error command_id ''unknown_command'', None), s)))"

subsection \<open>The endpoints\<close>

definition verify_thread_owned_or_new :: "thread_id \<Rightarrow> user \<Rightarrow> db \<Rightarrow> unit result" where
  "verify_thread_owned_or_new tid u d =
     (case map_option t_user_id (lookup_thread d tid) of
        Some owner \<Rightarrow> if owner \<noteq> identity u then Inl (HTTPException 404) else Inr ()
      | None \<Rightarrow> Inr ())"

definition post_thread_command ::
  "v2_capabilities \<Rightarrow> (run_row list \<Rightarrow> run_row list) \<Rightarrow> prep_env \<Rightarrow> time \<Rightarrow> run_id \<Rightarrow> thread_id \<Rightarrow> user \<Rightarrow> dict \<Rightarrow> api_state
   \<Rightarrow> dict result \<times> api_state"
where
  "post_thread_command caps scan env now rid tid u body s =
     (case bind_res (require_v2_enabled caps) (\<lambda>_. verify_thread_owned_or_new tid u (as_db s)) of
        Inl e \<Rightarrow> (Inl e, s)
      | Inr _ \<Rightarrow> (case handle_command scan env now rid tid u body s of ((response, _), s') \<Rightarrow> (Inr response, s')))"

text \<open>
  The route as it is mounted: it is registered as \<open>threads.create_run\<close> and does not dispatch the
  event itself, so the enforcer asks the handler first.
\<close>

definition enforced_command ::
  "(string \<Rightarrow> string \<Rightarrow> dict \<Rightarrow> (dict option \<times> dict) result) \<Rightarrow> v2_capabilities \<Rightarrow> (run_row list \<Rightarrow> run_row list) \<Rightarrow> prep_env \<Rightarrow> time
   \<Rightarrow> run_id \<Rightarrow> thread_id \<Rightarrow> user \<Rightarrow> dict \<Rightarrow> api_state \<Rightarrow> dict result \<times> api_state"
where
  "enforced_command authorize caps scan env now rid tid u body s =
     (case authorize ''threads'' ''create_run'' (enforced_value ''POST'' (Some (JObj body)) [(''thread_id'', JStr tid)]) of
        Inl e \<Rightarrow> (Inl e, s)
      | Inr _ \<Rightarrow> post_thread_command caps scan env now rid tid u body s)"

lemma command_route_enforced:
  "enforced_events ''POST'' ''/threads/{thread_id}/commands'' = [(''threads'', ''create_run'')]"
  by code_simp

text \<open>The runs of the thread, oldest first, with the graph of their assistant (an outer join).\<close>

definition thread_run_lister ::
  "(run_row list \<Rightarrow> run_row list) \<Rightarrow> assistant_row list \<Rightarrow> thread_id \<Rightarrow> user \<Rightarrow> db \<Rightarrow> (run_id \<times> string \<times> string option) list"
where
  "thread_run_lister scan assistants tid u d =
     map (\<lambda>r. (r_run_id r, run_status_str (r_status r),
               map_option a_graph_id (first_where (\<lambda>a. Some (a_assistant_id a) = r_assistant_id r) assistants)))
       (sort_key r_created_at (scan (select_where (\<lambda>r. r_thread_id r = tid \<and> r_user_id r = identity u) (runs d))))"

definition feeds ::
  "(run_id \<Rightarrow> event list \<times> event list) \<Rightarrow> (run_id \<times> string \<times> string option) list \<Rightarrow> run_feed list"
where
  "feeds broker listed =
     map (\<lambda>(rid, st, g). \<lparr>rf_run_id = rid, rf_status = Some st, rf_graph_name = g,
            rf_replayed = fst (broker rid), rf_live = snd (broker rid)\<rparr>) listed"

text \<open>
  \<open>stream_thread_events\<close>: each poll gives the clock, the database and what the brokers hold and
  then yield.
\<close>

definition stream_thread_events ::
  "v2_capabilities \<Rightarrow> (run_row list \<Rightarrow> run_row list) \<Rightarrow> assistant_row list \<Rightarrow> (string \<Rightarrow> json option) \<Rightarrow> thread_id \<Rightarrow> user
   \<Rightarrow> subscription \<Rightarrow> db \<Rightarrow> (time \<times> db \<times> (run_id \<Rightarrow> event list \<times> event list)) list \<Rightarrow> envelope list result"
where
  "stream_thread_events caps scan assistants loads tid u body d polls =
     bind_res (require_v2_enabled caps) (\<lambda>_.
     bind_res (case validate_channels (sb_channels body) of
                 Inr (valid, []) \<Rightarrow> Inr valid | _ \<Rightarrow> Inl (HTTPException 400)) (\<lambda>channels.
     bind_res (verify_thread_owned_or_new tid u d) (\<lambda>_.
       Inr (stream_session loads (body\<lparr>sb_channels := channels\<rparr>)
              (map (\<lambda>(now, d', broker). (now, feeds broker (thread_run_lister scan assistants tid u d'))) polls)
              None new_session))))"

text \<open>\<open>_frame_events\<close>: the method is the SSE event, the sequence number its id.\<close>

definition envelope_json :: "envelope \<Rightarrow> json" where
  "envelope_json e =
     JObj [(''type'', JStr ''event''), (''seq'', JInt (int (en_seq e))), (''method'', JStr (en_method e)),
       (''params'', JObj [(''data'', en_data e), (''namespace'', JList (map JStr (en_namespace e)))]),
       (''event_id'', JStr (en_event_id e))]"

definition frame_event :: "(json \<Rightarrow> string) \<Rightarrow> envelope \<Rightarrow> string" where
  "frame_event enc e = format_sse_message enc (en_method e) (envelope_json e) (Some (dec (en_seq e)))"

subsection \<open>Answers\<close>

definition is_success :: "dict \<Rightarrow> bool" where
  "is_success response = (map_of response ''type'' = Some (JStr ''success''))"

text \<open>An error envelope of the protocol, or the success envelope that names a run that is in the table.\<close>

definition ERROR_CODES :: "string list" where
  "ERROR_CODES = [''invalid_argument'', ''unknown_command'', ''unknown_error'', ''no_such_run'', ''no_such_interrupt'',
     ''permission_denied'', ''not_supported'']"

definition well_answered :: "json \<Rightarrow> user \<Rightarrow> thread_id \<Rightarrow> run_id \<Rightarrow> answer \<times> api_state \<Rightarrow> bool" where
  "well_answered command_id u tid rid r =
     (case r of ((response, started), s) \<Rightarrow>
        (started = None \<and> (\<exists>code \<in> set ERROR_CODES. response = build_error command_id code))
        \<or> (started = Some rid \<and> response = build_success command_id [(''run_id'', JStr rid)] (Some 0)
           \<and> rid \<in> set (as_queue s)
           \<and> (\<exists>x \<in> set (runs (as_db s)). r_run_id x = rid \<and> r_thread_id x = tid \<and> r_user_id x = identity u
                \<and> r_status x = Pending)))"

lemma error_code_known: "error_code e \<in> set ERROR_CODES"
  by (simp add: error_code_def status_to_error_code_def ERROR_CODES_def split: py_error.split)

lemma well_answered_error: "code \<in> set ERROR_CODES \<Longrightarrow> well_answered cid u tid rid ((build_error cid code, None), s)"
  by (auto simp: well_answered_def)

lemma answered_refuse:
  "code \<in> set ERROR_CODES \<Longrightarrow> well_answered cid u tid rid (answered cid (refuse cid code s))"
  by (simp add: answered_def refuse_def well_answered_error)

lemma answered_raise: "well_answered cid u tid rid (answered cid (Inl e, s))"
  by (simp add: answered_def well_answered_error error_code_known)

lemma answered_start: "well_answered cid u tid rid (answered cid (start_run_of env now rid tid u cid rq s))"
proof (cases rq)
  case (Inl e)
  then show ?thesis by (simp add: start_run_of_def answered_raise)
next
  case (Inr rq')
  obtain r d q where p: "prepare_run env now rid tid rq' u Pending True (as_db s, as_queue s) = (r, d, q)"
    by (cases "prepare_run env now rid tid rq' u Pending True (as_db s, as_queue s)")
  show ?thesis
  proof (cases r)
    case (Inl e)
    then show ?thesis by (simp add: start_run_of_def Inr p answered_raise)
  next
    case job: (Inr job)
    obtain a cc d2 where d: "d = d2\<lparr>runs := runs d2 @ [new_run_row (pe_codec env) now Pending (pe_correlation env)
        (resolve_assistant_id (pe_uuid5 env) (pe_graphs env) (rc_assistant_id rq')) a
        (build_job (pe_default_durability env) rid tid a u True rq' (merged_config a cc))]\<rparr>" "q = as_queue s @ [rid]"
      using prepare_run_InrD [OF p [unfolded job]] by metis
    then have "\<exists>x \<in> set (runs d). r_run_id x = rid \<and> r_thread_id x = tid \<and> r_user_id x = identity u \<and> r_status x = Pending"
      by (simp add: new_run_row_def build_job_def)
    with d(2) show ?thesis
      by (auto simp: start_run_of_def Inr p job answered_def well_answered_def is_success_def build_success_def)
  qed
qed

lemma resume_map_codes: "resume_map rs acc = Inl code \<Longrightarrow> code \<in> set ERROR_CODES"
  by (induction rs acc rule: resume_map.induct)
    (auto simp: ERROR_CODES_def split: json.splits option.splits if_splits)

lemma build_resume_codes: "build_resume params = Inl code \<Longrightarrow> code \<in> set ERROR_CODES"
  using resume_map_codes [of _ "[]" code]
  by (auto simp: build_resume_def ERROR_CODES_def split: json.splits option.splits if_splits sum.splits)

lemmas answer_simps = answered_refuse answered_raise answered_start

lemma run_start_answered: "well_answered cid u tid rid (answered cid (run_start env now rid tid u cid params s))"
  by (simp add: run_start_def answer_simps ERROR_CODES_def split: sum.split option.split)

lemma input_respond_answered:
  "well_answered cid u tid rid (answered cid (input_respond scan env now rid tid u cid params s))"
proof -
  have "''invalid_argument'' \<in> set ERROR_CODES" "''no_such_run'' \<in> set ERROR_CODES" by (simp_all add: ERROR_CODES_def)
  then show ?thesis
    by (simp add: input_respond_def Let_def answer_simps build_resume_codes split: sum.split option.split)
qed

text \<open>
  Claim C16.  Every command is answered by an envelope.  Whatever the payload, the parameters and
  the exceptions on the way, the response is an error envelope of a code the protocol knows, with
  no run, or the success envelope that echoes the command's id and whose result is the id of the
  started run, which is then a pending row of the caller on this thread and is queued.
\<close>

theorem command_answers_envelope:
  "well_answered (if is_int (get_or payload ''id'' JNull) then get_or payload ''id'' JNull else JNull) u tid rid
     (handle_command scan env now rid tid u payload s)"
  by (simp add: handle_command_def Let_def run_start_answered input_respond_answered well_answered_error
      ERROR_CODES_def split: option.split)

subsection \<open>Isolation\<close>

lemma user_rows_start:
  assumes "v \<noteq> identity u" and "own_thread tid u (as_db s)"
  shows "user_rows v (as_db (snd (start_run_of env now rid tid u cid rq s))) = user_rows v (as_db s)"
proof (cases rq)
  case (Inr rq')
  obtain r d q where p: "prepare_run env now rid tid rq' u Pending True (as_db s, as_queue s) = (r, d, q)"
    by (cases "prepare_run env now rid tid rq' u Pending True (as_db s, as_queue s)")
  from user_rows_prepare [OF this assms] show ?thesis by (simp add: start_run_of_def Inr p)
qed (simp add: start_run_of_def)

lemma snd_answered: "snd (answered cid r) = snd r"
  by (simp add: answered_def split: prod.split sum.split)

lemma user_rows_command:
  assumes "v \<noteq> identity u" and "own_thread tid u (as_db s)"
  shows "user_rows v (as_db (snd (handle_command scan env now rid tid u payload s))) = user_rows v (as_db s)"
  by (simp add: handle_command_def run_start_def input_respond_def Let_def snd_answered refuse_def user_rows_start [OF assms]
      split: option.split sum.split)

lemma verify_own_thread:
  "wf_db d \<Longrightarrow> verify_thread_owned_or_new tid u d = Inr x \<Longrightarrow> own_thread tid u d"
  using check_owner_own_thread [of d tid u]
  by (auto simp: verify_thread_owned_or_new_def check_thread_owner_def split: option.splits if_splits)

text \<open>
  Commands respect tenants.  A command posted to any thread leaves the runs and threads
  of every other user exactly as they were, and on a thread of another user it is refused with
  404 and leaves the whole state.
\<close>

theorem commands_tenant_isolation:
  assumes "wf_db (as_db s)" and "v \<noteq> identity u"
  shows "user_rows v (as_db (snd (post_thread_command caps scan env now rid tid u body s))) = user_rows v (as_db s)
    \<and> (\<forall>t. vc_ok caps \<longrightarrow> t \<in> set (threads (as_db s)) \<longrightarrow> t_thread_id t = tid \<longrightarrow> t_user_id t = v \<longrightarrow>
         post_thread_command caps scan env now rid tid u body s = (Inl (HTTPException 404), s))"
proof -
  have other: "post_thread_command caps scan env now rid tid u body s = (Inl (HTTPException 404), s)"
    if "vc_ok caps" "t \<in> set (threads (as_db s))" "t_thread_id t = tid" "t_user_id t = v" for t
  proof -
    have "lookup_thread (as_db s) tid = Some t"
      using that assms(1) first_where_unique_key [of t_thread_id "threads (as_db s)" t]
      by (auto simp: wf_db_def lookup_thread_def)
    then show ?thesis
      using that assms(2) by (simp add: post_thread_command_def verify_thread_owned_or_new_def require_v2_enabled_def)
  qed
  have "user_rows v (as_db (snd (post_thread_command caps scan env now rid tid u body s))) = user_rows v (as_db s)"
  proof (cases "bind_res (require_v2_enabled caps) (\<lambda>_. verify_thread_owned_or_new tid u (as_db s))")
    case (Inr x)
    then have "own_thread tid u (as_db s)" using assms(1) by (auto dest!: bind_res_InrD intro: verify_own_thread)
    from user_rows_command [OF assms(2) this] show ?thesis
      by (simp add: post_thread_command_def Inr case_prod_beta)
  qed (simp add: post_thread_command_def)
  with other show ?thesis by blast
qed

subsection \<open>Examples\<close>

definition v2_on :: v2_capabilities where
  "v2_on = get_v2_capabilities True (\<lambda>_ _. True)"

definition start_command :: dict where
  "start_command = [(''id'', JInt 1), (''method'', JStr ''run.start''),
     (''params'', JObj [(''assistant_id'', JStr ''a1''), (''input'', JObj [(''q'', JInt 1)])])]"

definition forbid_assistants :: "string \<Rightarrow> string \<Rightarrow> dict \<Rightarrow> (dict option \<times> dict) result" where
  "forbid_assistants resource action v = (if resource = ''assistants'' then Inl (HTTPException 403) else Inr (None, v))"

lemma v2_on_ok: "vc_ok v2_on"
  by (simp add: v2_on_def get_v2_capabilities_def probe_runtime_symbols_def Let_def)

theorem commands_tenant_isolation_witness:
  "post_thread_command v2_on id (example_env RedisUp) 10 ''r2'' ''t1'' bob start_command (example_api [])
     = (Inl (HTTPException 404), example_api [])
   \<and> user_rows ''alice'' (as_db (snd (post_thread_command v2_on id (example_env RedisUp) 10 ''r2'' ''t9'' bob start_command
         (example_api [])))) = ([], [example_thread])"
proof -
  have wf: "wf_db (as_db (example_api []))" and other: "''alice'' \<noteq> identity bob"
    by (simp_all add: example_api_def example_defs wf_db_def lease_ok_def bob_def)
  have mem: "example_thread \<in> set (threads (as_db (example_api [])))" "t_thread_id example_thread = ''t1''"
    "t_user_id example_thread = ''alice''" and rows: "user_rows ''alice'' (as_db (example_api [])) = ([], [example_thread])"
    by (simp_all add: example_api_def example_defs user_rows_def select_where_def)
  show ?thesis
    using commands_tenant_isolation [OF wf other, of v2_on id "example_env RedisUp" 10 "''r2''" "''t1''" start_command]
      commands_tenant_isolation [OF wf other, of v2_on id "example_env RedisUp" 10 "''r2''" "''t9''" start_command]
      mem rows v2_on_ok by simp
qed

text \<open>
  The command route is judged by the enforcer alone: the handler of \<open>create_run\<close> is asked about the
  raw command, its filter is dropped, and no handler is asked about the assistant.  A handler that
  refuses the assistant stops the run endpoint, and the command starts the same run.
\<close>

lemma command_skips_assistant_handler:
  "fst (create_run ((example_runs_env RedisUp)\<lparr>re_authorize := forbid_assistants\<rparr>) 10 ''r2'' ''t1''
       stateless_request example_user (example_api [])) = Inl (HTTPException 403)
   \<and> (\<exists>resp s'. enforced_command forbid_assistants v2_on id (example_env RedisUp) 10 ''r2'' ''t1'' example_user start_command
         (example_api []) = (Inr resp, s') \<and> is_success resp \<and> as_queue s' = [''r2''])"
proof -
  have own: "lookup_thread (as_db (example_api [])) ''t1'' = Some example_thread" "t_user_id example_thread = identity example_user"
    "t_status example_thread \<noteq> ThreadInterrupted"
    by (simp_all add: example_api_def example_defs lookup_thread_def first_where_def example_user_def)
  have "\<exists>rq cc. run_start_request ''a1'' None [] None False [(''assistant_id'', JStr ''a1''), (''input'', JObj [(''q'', JInt 1)])] = Inr rq
     \<and> rc_command rq = None \<and> rc_assistant_id rq = ''a1'' \<and> request_config rq = Inr cc"
    by (simp add: run_start_request_def get_or_def typed_field_def config_param_def metadata_param_def obj_of_json_def Let_def
        validate_metadata_shape_def validate_input_command_exclusivity_def request_config_def strip_pinned_config_keys_def dict_filter_def)
  then obtain rq cc where rq: "run_start_request ''a1'' None [] None False [(''assistant_id'', JStr ''a1''), (''input'', JObj [(''q'', JInt 1)])] = Inr rq"
    "rc_command rq = None" "rc_assistant_id rq = ''a1''" "request_config rq = Inr cc" by blast
  have calm: "\<not> thread_is_interrupted ''t1'' example_user (as_db (example_api []))"
    by (simp add: thread_is_interrupted_def thread_interrupted_def example_api_def example_defs first_where_def)
  obtain job d q where p: "prepare_run (example_env RedisUp) 10 ''r2'' ''t1'' rq example_user Pending True
      (as_db (example_api []), as_queue (example_api [])) = (Inr job, d, q)"
    using example_prepared_gen [OF rq(2-4), of example_user 10 "''r2''" Pending True "[]" "[]"]
    by (auto simp: example_api_def example_user_def)
  have q: "q = [''r2'']" using prepare_run_InrD [OF p] by (auto simp: example_api_def)
  have "run_start (example_env RedisUp) 10 ''r2'' ''t1'' example_user (JInt 1)
      [(''assistant_id'', JStr ''a1''), (''input'', JObj [(''q'', JInt 1)])] (example_api [])
    = (Inr (build_success (JInt 1) [(''run_id'', JStr ''r2'')] (Some 0), Some ''r2''), (example_api [])\<lparr>as_db := d, as_queue := q\<rparr>)"
    using rq(1) calm
    by (simp add: run_start_def str_key_def truthy_str_def multitask_param_def context_from_params_def fork_checkpoint_id_def
        obj_key_def get_or_def start_run_of_def p)
  then show ?thesis
    using own
    by (simp add: create_run_def begin_run_def check_thread_owner_def apply_create_run_auth_def forbid_assistants_def Let_def
        override_with_def enforced_command_def post_thread_command_def
        require_v2_enabled_def v2_on_ok verify_thread_owned_or_new_def handle_command_def start_command_def str_key_def obj_key_def
        get_or_def is_int_def answered_def is_success_def build_success_def q)
qed

end
