(* ===== verification/Store.thy ===== *)
theory Store
  imports Threads "HOL-Library.Sublist"
begin

text \<open>
  The key-value store endpoints (\<^verbatim>\<open>controller/http/routers/store.py\<close>, \<^verbatim>\<open>domain/store.py\<close>).  The store
  itself is a library component: its five operations are arguments, and what is relied on of
  them is the predicate \<open>lawful_store\<close>.  So are the authorisation handlers and the attributes of
  a user object, extra fields included.
\<close>

subsection \<open>The store\<close>

type_synonym path = "string list"

record 's kv_store =
  kv_put :: "path \<Rightarrow> string \<Rightarrow> dict \<Rightarrow> 's \<Rightarrow> 's"
  kv_get :: "path \<Rightarrow> string \<Rightarrow> 's \<Rightarrow> dict option"
  kv_delete :: "path \<Rightarrow> string \<Rightarrow> 's \<Rightarrow> 's"
  kv_search :: "path \<Rightarrow> string option \<Rightarrow> dict option \<Rightarrow> int \<Rightarrow> int \<Rightarrow> 's \<Rightarrow> (path \<times> string \<times> dict) list"
  kv_namespaces :: "path \<Rightarrow> path option \<Rightarrow> int option \<Rightarrow> int \<Rightarrow> int \<Rightarrow> 's \<Rightarrow> path list"

text \<open>
  Writing and deleting touch one item; a search and a listing depend on the items below their
  prefix only.
\<close>

definition lawful_store :: "'s kv_store \<Rightarrow> bool" where
  "lawful_store kv =
     ((\<forall>p k v s p' k'. kv_get kv p' k' (kv_put kv p k v s) = (if p' = p \<and> k' = k then Some v else kv_get kv p' k' s)) \<and>
      (\<forall>p k s p' k'. kv_get kv p' k' (kv_delete kv p k s) = (if p' = p \<and> k' = k then None else kv_get kv p' k' s)) \<and>
      (\<forall>p s s'. (\<forall>p' k. prefix p p' \<longrightarrow> kv_get kv p' k s = kv_get kv p' k s') \<longrightarrow>
         (\<forall>q f l n. kv_search kv p q f l n s = kv_search kv p q f l n s') \<and>
         (\<forall>sx d l n. kv_namespaces kv p sx d l n s = kv_namespaces kv p sx d l n s')))"

subsection \<open>Scopes\<close>

definition USER_SCOPE_PREFIX :: string where "USER_SCOPE_PREFIX = ''users''"

text \<open>\<open>_normalize_namespace\<close>; a single string is a list of one.\<close>

definition normalize_store_namespace :: "path option \<Rightarrow> path" where
  "normalize_store_namespace v =
     (case v of None \<Rightarrow> [] | Some items \<Rightarrow> concat (map (\<lambda>item. filter (\<lambda>part. part \<noteq> []) (py_split ''.'' item)) items))"

definition scope :: "string \<Rightarrow> string list \<Rightarrow> path \<Rightarrow> path" where
  "scope pre scope_ids namespace =
     (let head = pre # scope_ids in if take (length head) namespace = head then namespace else head @ namespace)"

text \<open>\<open>_scope_attr_map\<close>: entries of the configuration that are not well formed are ignored.\<close>

definition attr_names :: "json \<Rightarrow> string list option" where
  "attr_names v =
     (case v of
        JList (x # xs) \<Rightarrow>
          (case those (map str_of_json (x # xs)) of Some as \<Rightarrow> if [] \<in> set as then None else Some as | None \<Rightarrow> None)
      | _ \<Rightarrow> None)"

definition scope_attr_map :: "dict option \<Rightarrow> (string \<times> string list) list" where
  "scope_attr_map store_config =
     (case Option.bind store_config (\<lambda>c. map_of c ''scopes'') of
        Some (JObj configured) \<Rightarrow>
          List.map_filter (\<lambda>(pre, attrs). if pre = USER_SCOPE_PREFIX then None else map_option (Pair pre) (attr_names attrs))
            configured
      | _ \<Rightarrow> [])"

text \<open>The values of the attributes of a scope; one that is missing or empty denies the access.\<close>

fun scope_values :: "(string \<Rightarrow> string option) \<Rightarrow> string list \<Rightarrow> string list result" where
  "scope_values attr [] = Inr []"
| "scope_values attr (a # as) =
     (if truthy_str (attr a) then bind_res (scope_values attr as) (\<lambda>vs. Inr (the (attr a) # vs))
      else Inl (HTTPException 403))"

definition apply_namespace_scoping ::
  "(string \<times> string list) list \<Rightarrow> (user \<Rightarrow> string \<Rightarrow> string option) \<Rightarrow> path \<Rightarrow> user \<Rightarrow> path result"
where
  "apply_namespace_scoping scopes attr namespace u =
     (case namespace of
        pre # rest \<Rightarrow>
          (case map_of scopes pre of
             Some attrs \<Rightarrow> bind_res (scope_values (attr u) attrs) (\<lambda>vs. Inr (scope pre vs namespace))
           | None \<Rightarrow> Inr (scope USER_SCOPE_PREFIX [identity u] namespace))
      | [] \<Rightarrow> Inr (scope USER_SCOPE_PREFIX [identity u] namespace))"

subsection \<open>Requests\<close>

text \<open>What the endpoints read of the filter a handler returned, each field as the request types it.\<close>

record store_filter =
  sf_namespace :: "path option"
  sf_key :: "string option"
  sf_value :: "dict option"
  sf_namespace_prefix :: "path option"
  sf_prefix :: "path option"
  sf_suffix :: "path option"
  sf_conditions :: dict

record 's store_env =
  st_kv :: "'s kv_store"
  st_authorize :: "user \<Rightarrow> string \<Rightarrow> dict \<Rightarrow> store_filter option result"
  st_scopes :: "(string \<times> string list) list"
  st_attr :: "user \<Rightarrow> string \<Rightarrow> string option"
  st_max_search_limit :: int

definition json_path :: "path \<Rightarrow> json" where
  "json_path p = JList (map JStr p)"

text \<open>\<open>x if field not in filters else filters[field]\<close>.\<close>

definition overridden :: "(store_filter \<Rightarrow> 'a option) \<Rightarrow> store_filter option \<Rightarrow> 'a \<Rightarrow> 'a" where
  "overridden get filters x = (case Option.bind filters get of Some y \<Rightarrow> y | None \<Rightarrow> x)"

definition scoped :: "'s store_env \<Rightarrow> path \<Rightarrow> user \<Rightarrow> path result" where
  "scoped env p u = apply_namespace_scoping (st_scopes env) (st_attr env) p u"

definition put_store_item ::
  "'s store_env \<Rightarrow> user \<Rightarrow> path \<Rightarrow> string \<Rightarrow> json \<Rightarrow> 's \<Rightarrow> unit result \<times> 's"
where
  "put_store_item env u namespace key v s =
     (case v of
        JObj d \<Rightarrow>
          (case st_authorize env u ''put'' [(''namespace'', json_path namespace), (''key'', JStr key), (''value'', v)] of
             Inl e \<Rightarrow> (Inl e, s)
           | Inr filters \<Rightarrow>
               (case scoped env (overridden sf_namespace filters namespace) u of
                  Inl e \<Rightarrow> (Inl e, s)
                | Inr p \<Rightarrow> (Inr (), kv_put (st_kv env) p (overridden sf_key filters key) (overridden sf_value filters d) s)))
      | _ \<Rightarrow> (Inl (HTTPException 422), s))"

definition get_store_item ::
  "'s store_env \<Rightarrow> user \<Rightarrow> path option \<Rightarrow> string \<Rightarrow> 's \<Rightarrow> (path \<times> string \<times> dict) result"
where
  "get_store_item env u namespace key s =
     (let ns = normalize_store_namespace namespace in
      bind_res (st_authorize env u ''get'' [(''key'', JStr key), (''namespace'', json_path ns)]) (\<lambda>filters.
      bind_res (scoped env (overridden (\<lambda>f. map_option (normalize_store_namespace \<circ> Some) (sf_namespace f)) filters ns) u) (\<lambda>p.
        let k = overridden sf_key filters key
        in case kv_get (st_kv env) p k s of None \<Rightarrow> Inl (HTTPException 404) | Some v \<Rightarrow> Inr (p, k, v))))"

text \<open>The body takes precedence over the query parameters.\<close>

definition delete_store_item ::
  "'s store_env \<Rightarrow> user \<Rightarrow> (path \<times> string) option \<Rightarrow> path option \<Rightarrow> string option \<Rightarrow> 's \<Rightarrow> unit result \<times> 's"
where
  "delete_store_item env u body namespace key s =
     (case (case body of
              Some (ns, k) \<Rightarrow> Inr (normalize_store_namespace (Some ns), k)
            | None \<Rightarrow> (case key of None \<Rightarrow> Inl (HTTPException 422) | Some k \<Rightarrow> Inr (normalize_store_namespace namespace, k))) of
        Inl e \<Rightarrow> (Inl e, s)
      | Inr (ns, k) \<Rightarrow>
          (case st_authorize env u ''delete'' [(''namespace'', json_path ns), (''key'', JStr k)] of
             Inl e \<Rightarrow> (Inl e, s)
           | Inr filters \<Rightarrow>
               (case scoped env (overridden sf_namespace filters ns) u of
                  Inl e \<Rightarrow> (Inl e, s)
                | Inr p \<Rightarrow> (Inr (), kv_delete (st_kv env) p (overridden sf_key filters k) s))))"

record store_search =
  sq_namespace_prefix :: path
  sq_filter :: "dict option"
  sq_query :: "string option"
  sq_limit :: "int option"
  sq_offset :: "int option"

definition validate_store_search :: "int \<Rightarrow> store_search \<Rightarrow> int result" where
  "validate_store_search cap rq =
     (if (case sq_limit rq of Some n \<Rightarrow> n < 1 | None \<Rightarrow> False) \<or> (case sq_offset rq of Some n \<Rightarrow> n < 0 | None \<Rightarrow> False)
      then Inl (HTTPException 422)
      else (case resolve_search_limit cap (sq_limit rq) of Inl _ \<Rightarrow> Inl (HTTPException 422) | Inr n \<Rightarrow> Inr n))"

definition dump_search :: "store_search \<Rightarrow> int \<Rightarrow> dict" where
  "dump_search rq limit =
     [(''namespace_prefix'', json_path (sq_namespace_prefix rq)), (''filter'', json_of_opt JObj (sq_filter rq)),
      (''query'', json_of_opt JStr (sq_query rq)), (''limit'', JInt limit), (''offset'', json_of_opt JInt (sq_offset rq))]"

definition search_store_items ::
  "'s store_env \<Rightarrow> user \<Rightarrow> store_search \<Rightarrow> 's \<Rightarrow> (path \<times> string \<times> dict) list result"
where
  "search_store_items env u rq s =
     bind_res (validate_store_search (st_max_search_limit env) rq) (\<lambda>limit.
     bind_res (st_authorize env u ''search'' (dump_search rq limit)) (\<lambda>filters.
       let conditions = (case filters of None \<Rightarrow> [] | Some f \<Rightarrow> sf_conditions f);
           flt = (if conditions = [] then sq_filter rq
                  else Some (dict_update (case sq_filter rq of None \<Rightarrow> [] | Some f \<Rightarrow> f) conditions))
       in bind_res (scoped env (overridden sf_namespace_prefix filters (sq_namespace_prefix rq)) u) (\<lambda>p.
            Inr (kv_search (st_kv env) p (sq_query rq) flt limit (case sq_offset rq of None \<Rightarrow> 0 | Some n \<Rightarrow> n) s))))"

record namespaces_request =
  nq_prefix :: "path option"
  nq_suffix :: "path option"
  nq_max_depth :: "int option"
  nq_limit :: int
  nq_offset :: int

definition list_namespaces :: "'s store_env \<Rightarrow> user \<Rightarrow> namespaces_request \<Rightarrow> 's \<Rightarrow> path list result" where
  "list_namespaces env u rq s =
     (if (case nq_max_depth rq of Some n \<Rightarrow> n < 1 \<or> 100 < n | None \<Rightarrow> False) \<or> nq_limit rq < 1 \<or> 1000 < nq_limit rq \<or> nq_offset rq < 0
      then Inl (HTTPException 422)
      else
        bind_res (st_authorize env u ''list_namespaces''
            [(''prefix'', json_of_opt json_path (nq_prefix rq)), (''suffix'', json_of_opt json_path (nq_suffix rq)),
             (''max_depth'', json_of_opt JInt (nq_max_depth rq)), (''limit'', JInt (nq_limit rq)), (''offset'', JInt (nq_offset rq))])
          (\<lambda>filters.
        bind_res (scoped env (overridden sf_prefix filters (case nq_prefix rq of None \<Rightarrow> [] | Some p \<Rightarrow> p)) u) (\<lambda>p.
          let sx = (case overridden (\<lambda>f. map_option Some (sf_suffix f)) filters (nq_suffix rq) of Some [] \<Rightarrow> None | x \<Rightarrow> x)
          in Inr (kv_namespaces (st_kv env) p sx (nq_max_depth rq) (nq_limit rq) (nq_offset rq) s))))"

subsection \<open>Scopes keep users apart\<close>

text \<open>The scopes a user can reach: the user's own, and the configured ones whose attributes the user has.\<close>

definition heads :: "'s store_env \<Rightarrow> user \<Rightarrow> path set" where
  "heads env u =
     insert [USER_SCOPE_PREFIX, identity u]
       {pre # vs | pre attrs vs. map_of (st_scopes env) pre = Some attrs \<and> scope_values (st_attr env u) attrs = Inr vs}"

text \<open>Neither the identity nor the values of any configured scope coincide.\<close>

definition apart :: "'s store_env \<Rightarrow> user \<Rightarrow> user \<Rightarrow> bool" where
  "apart env u v =
     (identity u \<noteq> identity v \<and>
      (\<forall>(pre, attrs) \<in> set (st_scopes env). \<forall>vs. scope_values (st_attr env u) attrs = Inr vs \<longrightarrow> scope_values (st_attr env v) attrs \<noteq> Inr vs))"

lemma scope_prefix: "prefix (pre # ids) (scope pre ids p)"
proof (cases "take (Suc (length ids)) p = pre # ids")
  case True
  then show ?thesis unfolding scope_def Let_def by (metis length_Cons take_is_prefix)
next
  case False
  then show ?thesis by (simp add: scope_def)
qed

lemma scoped_head: "scoped env ns u = Inr p \<Longrightarrow> \<exists>h \<in> heads env u. prefix h p"
  by (cases ns)
    (force simp: scoped_def apply_namespace_scoping_def heads_def scope_prefix split: option.splits dest!: bind_res_InrD)+

lemma length_scope_values: "scope_values attr as = Inr vs \<Longrightarrow> length vs = length as"
  by (induction "as" arbitrary: vs) (auto split: if_splits dest!: bind_res_InrD)

lemma scope_attr_map_reserved: "map_of (scope_attr_map c) USER_SCOPE_PREFIX = None"
  by (auto simp: scope_attr_map_def map_of_eq_None_iff List.map_filter_def split: option.splits json.splits if_splits)

lemma heads_comparable:
  assumes "map_of (st_scopes env) USER_SCOPE_PREFIX = None" and "h \<in> heads env u" and "h' \<in> heads env v"
    and "prefix h p" and "prefix h' p"
  shows "h = h'"
proof -
  have "hd h = hd h'" using assms(2-5) by (auto simp: heads_def prefix_def)
  then have "length h = length h'"
    using assms(1-3) by (auto simp: heads_def length_scope_values)
  with prefix_same_cases [OF assms(4,5)] show ?thesis by (auto simp: prefix_def)
qed

lemma apart_paths:
  assumes "map_of (st_scopes env) USER_SCOPE_PREFIX = None" and "apart env u v"
    and "scoped env ns u = Inr p" and "scoped env ns' v = Inr q"
  shows "\<not> prefix q p"
proof
  assume "prefix q p"
  obtain h h' where h: "h \<in> heads env u" "prefix h p" and h': "h' \<in> heads env v" "prefix h' q"
    using scoped_head [OF assms(3)] scoped_head [OF assms(4)] by blast
  with \<open>prefix q p\<close> have "h = h'" by (meson heads_comparable [OF assms(1)] prefix_order.trans)
  moreover have "scope_values (st_attr env v) attrs \<noteq> Inr vs"
    if "map_of (st_scopes env) pre = Some attrs" "scope_values (st_attr env u) attrs = Inr vs" for pre attrs vs
    using assms(2) map_of_SomeD [OF that(1)] that(2) by (auto simp: apart_def)
  moreover have "identity u \<noteq> identity v" using assms(2) by (simp add: apart_def)
  ultimately show False using h(1) h'(1) assms(1) by (auto simp: heads_def)
qed

datatype store_change = PutItem path string json | DeleteItem "(path \<times> string) option" "path option" "string option"

definition store_write :: "'s store_env \<Rightarrow> user \<Rightarrow> store_change \<Rightarrow> 's \<Rightarrow> 's" where
  "store_write env u w s =
     (case w of PutItem ns k v \<Rightarrow> snd (put_store_item env u ns k v s)
      | DeleteItem body ns k \<Rightarrow> snd (delete_store_item env u body ns k s))"

text \<open>A write changes at most one item, in a place its caller reaches.\<close>

lemma store_write_local:
  assumes "lawful_store (st_kv env)"
  shows "store_write env u w s = s \<or> (\<exists>p k ns. scoped env ns u = Inr p \<and>
           (\<forall>p' k'. (p', k') \<noteq> (p, k) \<longrightarrow> kv_get (st_kv env) p' k' (store_write env u w s) = kv_get (st_kv env) p' k' s))"
proof (cases w)
  case (PutItem ns k v)
  show ?thesis
    using assms
    by (auto simp: PutItem store_write_def put_store_item_def lawful_store_def split: json.split sum.split)
next
  case (DeleteItem body ns k)
  show ?thesis
    using assms
    by (auto simp: DeleteItem store_write_def delete_store_item_def lawful_store_def split: sum.split prod.split)
qed

text \<open>What a user can see: the items, searches and listings of namespaces the endpoints answer.\<close>

definition same_view :: "'s store_env \<Rightarrow> user \<Rightarrow> 's \<Rightarrow> 's \<Rightarrow> bool" where
  "same_view env v s s' =
     ((\<forall>ns k. get_store_item env v ns k s = get_store_item env v ns k s') \<and>
      (\<forall>rq. search_store_items env v rq s = search_store_items env v rq s') \<and>
      (\<forall>rq. list_namespaces env v rq s = list_namespaces env v rq s'))"

lemma same_viewI:
  assumes "lawful_store (st_kv env)"
    and "\<And>ns q p k. scoped env ns v = Inr q \<Longrightarrow> prefix q p \<Longrightarrow> kv_get (st_kv env) p k s = kv_get (st_kv env) p k s'"
  shows "same_view env v s s'"
proof -
  have one: "kv_get (st_kv env) q k s = kv_get (st_kv env) q k s'" if "scoped env ns v = Inr q" for ns q k
    using assms(2) [OF that] by simp
  have below: "kv_search (st_kv env) q qu f l n s = kv_search (st_kv env) q qu f l n s'"
    "kv_namespaces (st_kv env) q sx d l n s = kv_namespaces (st_kv env) q sx d l n s'"
    if "scoped env ns v = Inr q" for ns q qu f l n sx d
    using assms(1) assms(2) [OF that] unfolding lawful_store_def by metis+
  show ?thesis
    by (auto simp: same_view_def get_store_item_def search_store_items_def list_namespaces_def Let_def bind_res_def one below
        split: sum.split)
qed

lemma same_view_trans: "same_view env v s s' \<Longrightarrow> same_view env v s' s'' \<Longrightarrow> same_view env v s s''"
  by (simp add: same_view_def)

lemma store_write_same_view:
  assumes "lawful_store (st_kv env)" and "map_of (st_scopes env) USER_SCOPE_PREFIX = None" and "apart env u v"
  shows "same_view env v s (store_write env u w s)"
proof (rule same_viewI [OF assms(1)])
  fix ns q p k
  assume q: "scoped env ns v = Inr q" "prefix q p"
  show "kv_get (st_kv env) p k s = kv_get (st_kv env) p k (store_write env u w s)"
    using store_write_local [OF assms(1), of u w s]
  proof (elim disjE exE conjE)
    fix p0 k0 ns0
    assume p0: "scoped env ns0 u = Inr p0"
      and keeps: "\<forall>p' k'. (p', k') \<noteq> (p0, k0) \<longrightarrow> kv_get (st_kv env) p' k' (store_write env u w s) = kv_get (st_kv env) p' k' s"
    have "p \<noteq> p0" using apart_paths [OF assms(2,3) p0 q(1)] q(2) by auto
    with keeps show ?thesis by simp
  qed simp
qed

text \<open>
  Claim C14.  The store keeps users apart.  Whatever the handlers rewrite and whatever namespaces the
  callers name, no sequence of writes and deletions by users who share neither identity nor the
  attribute values of a configured scope with a user changes anything that user can read, search
  or list.
\<close>

theorem store_tenant_isolation:
  assumes "lawful_store (st_kv env)" and "st_scopes env = scope_attr_map config"
    and "\<forall>(u, w) \<in> set writes. apart env u v"
  shows "same_view env v s (fold (\<lambda>(u, w). store_write env u w) writes s)"
  using assms(3)
proof (induction writes arbitrary: s)
  case Nil
  then show ?case by (simp add: same_view_def)
next
  case (Cons uw writes)
  obtain u w where uw: "uw = (u, w)" by (cases uw)
  have reserved: "map_of (st_scopes env) USER_SCOPE_PREFIX = None" using assms(2) scope_attr_map_reserved by simp
  have "apart env u v" and rest: "\<forall>(u, w) \<in> set writes. apart env u v" using Cons.prems uw by auto
  then show ?case
    using same_view_trans [OF store_write_same_view [OF assms(1) reserved, of u v] Cons.IH [OF rest]] by (simp add: uw)
qed

subsection \<open>Reading back\<close>

lemma scope_idem: "scope pre ids (scope pre ids p) = scope pre ids p"
  by (simp add: scope_def Let_def)

lemma hd_scope: "\<exists>rest. scope pre ids p = pre # rest"
  using scope_prefix [of pre ids p] by (auto simp: prefix_def)

lemma scoped_idem:
  assumes "map_of (st_scopes env) USER_SCOPE_PREFIX = None" and "scoped env ns u = Inr p"
  shows "scoped env p u = Inr p"
proof (cases "\<exists>pre rest attrs. ns = pre # rest \<and> map_of (st_scopes env) pre = Some attrs")
  case True
  then obtain pre rest attrs vs where "ns = pre # rest" "map_of (st_scopes env) pre = Some attrs"
    "scope_values (st_attr env u) attrs = Inr vs" "p = scope pre vs ns"
    using assms(2) by (auto simp: scoped_def apply_namespace_scoping_def dest!: bind_res_InrD)
  moreover obtain r where "scope pre vs ns = pre # r" using hd_scope by blast
  ultimately show ?thesis by (simp add: scoped_def apply_namespace_scoping_def) (metis scope_idem)
next
  case False
  then have "p = scope USER_SCOPE_PREFIX [identity u] ns"
    using assms(2) by (auto simp: scoped_def apply_namespace_scoping_def split: list.splits option.splits)
  moreover obtain r where "scope USER_SCOPE_PREFIX [identity u] ns = USER_SCOPE_PREFIX # r" using hd_scope by blast
  ultimately show ?thesis using assms(1) by (simp add: scoped_def apply_namespace_scoping_def) (metis scope_idem)
qed

text \<open>
  What was put can be read back and deleted.  With a handler that changes nothing, a
  value put under a namespace with non-empty, dot-free labels in a scope the caller reaches is
  what reading that namespace and key returns, and after a deletion the answer is 404; the
  namespace in the answer is already scoped, so scoping it again changes nothing.
\<close>

theorem store_read_back:
  assumes "lawful_store (st_kv env)" and "st_scopes env = scope_attr_map config"
    and "\<And>action value. st_authorize env u action value = Inr None"
    and "normalize_store_namespace (Some ns) = ns" and "scoped env ns u = Inr p"
  shows "put_store_item env u ns k (JObj d) s = (Inr (), kv_put (st_kv env) p k d s)
    \<and> get_store_item env u (Some ns) k (snd (put_store_item env u ns k (JObj d) s)) = Inr (p, k, d)
    \<and> get_store_item env u (Some ns) k (snd (delete_store_item env u (Some (ns, k)) None None s)) = Inl (HTTPException 404)
    \<and> scoped env p u = Inr p"
proof -
  have put: "put_store_item env u ns k (JObj d) s = (Inr (), kv_put (st_kv env) p k d s)"
    and del: "delete_store_item env u (Some (ns, k)) None None s = (Inr (), kv_delete (st_kv env) p k s)"
    using assms(3-5) by (simp_all add: put_store_item_def delete_store_item_def overridden_def)
  have get: "get_store_item env u (Some ns) k t =
      (case kv_get (st_kv env) p k t of None \<Rightarrow> Inl (HTTPException 404) | Some v \<Rightarrow> Inr (p, k, v))" for t
    using assms(3-5) by (simp add: get_store_item_def overridden_def)
  have "map_of (st_scopes env) USER_SCOPE_PREFIX = None" using assms(2) scope_attr_map_reserved by simp
  from scoped_idem [OF this assms(5)] assms(1) show ?thesis
    by (simp add: put del get lawful_store_def)
qed

subsection \<open>Examples\<close>

text \<open>A store of items that searches for an exact key.\<close>

definition item_store :: "(path \<times> string \<Rightarrow> dict option) kv_store" where
  "item_store = \<lparr>kv_put = (\<lambda>p k v s. s((p, k) \<mapsto> v)), kv_get = (\<lambda>p k s. s (p, k)), kv_delete = (\<lambda>p k s. s((p, k) := None)),
     kv_search = (\<lambda>p q f l n s. case q of Some k \<Rightarrow> (case s (p, k) of Some v \<Rightarrow> [(p, k, v)] | None \<Rightarrow> []) | None \<Rightarrow> []),
     kv_namespaces = (\<lambda>p sx d l n s. if s (p, ''index'') = None then [] else [p])\<rparr>"

lemma item_store_lawful: "lawful_store item_store"
  by (auto simp: lawful_store_def item_store_def split: option.split)

definition example_store_env :: "(path \<times> string \<Rightarrow> dict option) store_env" where
  "example_store_env = \<lparr>st_kv = item_store, st_authorize = (\<lambda>_ _ _. Inr None),
     st_scopes = scope_attr_map (Some [(''scopes'', JObj [(''org'', JList [JStr ''org_id'']), (''users'', JList [JStr ''org_id''])])]),
     st_attr = (\<lambda>u a. if a = ''org_id'' then org_id u else None), st_max_search_limit = 100\<rparr>"

definition member :: "string \<Rightarrow> string option \<Rightarrow> user" where
  "member i org = \<lparr>identity = i, is_authenticated = True, permissions = [], display_name = i, org_id = org, email = None\<rparr>"

lemma example_scopes: "st_scopes example_store_env = [(''org'', [''org_id''])]"
  by (simp add: example_store_env_def scope_attr_map_def List.map_filter_def USER_SCOPE_PREFIX_def attr_names_def str_of_json_def)

theorem store_tenant_isolation_witness:
  "same_view example_store_env (member ''bob'' (Some ''o2'')) Map.empty
     (fold (\<lambda>(u, w). store_write example_store_env u w)
       [(member ''alice'' (Some ''o1''), PutItem [''users'', ''bob''] ''k'' (JObj [])), (member ''eve'' None, PutItem [''org'', ''o2''] ''k'' (JObj []))]
       Map.empty)"
proof (rule store_tenant_isolation)
  show "lawful_store (st_kv example_store_env)" by (simp add: example_store_env_def item_store_lawful)
  show "st_scopes example_store_env = scope_attr_map
     (Some [(''scopes'', JObj [(''org'', JList [JStr ''org_id'']), (''users'', JList [JStr ''org_id''])])])"
    by (simp add: example_store_env_def)
  have "st_attr example_store_env u ''org_id'' = org_id u" for u by (simp add: example_store_env_def)
  then show "\<forall>(u, w) \<in> set [(member ''alice'' (Some ''o1''), PutItem [''users'', ''bob''] ''k'' (JObj [])),
      (member ''eve'' None, PutItem [''org'', ''o2''] ''k'' (JObj []))]. apart example_store_env u (member ''bob'' (Some ''o2''))"
    by (simp add: apart_def example_scopes member_def truthy_str_def)
qed

theorem store_read_back_witness:
  "get_store_item example_store_env (member ''alice'' None) (Some [''notes'']) ''k''
     (snd (put_store_item example_store_env (member ''alice'' None) [''notes''] ''k'' (JObj [(''a'', JInt 1)]) Map.empty))
   = Inr ([''users'', ''alice'', ''notes''], ''k'', [(''a'', JInt 1)])"
proof -
  let ?u = "member ''alice'' None"
  have ns: "normalize_store_namespace (Some [''notes'']) = [''notes'']"
    by (simp add: normalize_store_namespace_def py_split_def)
  have p: "scoped example_store_env [''notes''] ?u = Inr [''users'', ''alice'', ''notes'']"
    by (simp add: scoped_def apply_namespace_scoping_def example_scopes scope_def USER_SCOPE_PREFIX_def member_def)
  have auth: "st_authorize example_store_env ?u a x = Inr None" for a x by (simp add: example_store_env_def)
  have law: "lawful_store (st_kv example_store_env)" by (simp add: example_store_env_def item_store_lawful)
  have sc: "st_scopes example_store_env = scope_attr_map
     (Some [(''scopes'', JObj [(''org'', JList [JStr ''org_id'']), (''users'', JList [JStr ''org_id''])])])"
    by (simp add: example_store_env_def)
  show ?thesis
    using store_read_back [OF law sc auth ns p, of "''k''" "[(''a'', JInt 1)]" Map.empty] by (elim conjE)
qed

end
