(* ===== verification/Url_Guard.thy ===== *)
theory Url_Guard
  imports Event_Ids "HOL-Library.Word"
begin

text \<open>
  The guard of outbound requests (\<^verbatim>\<open>infra/url_guard.py\<close>) and the download that applies it to every
  redirect (\<^verbatim>\<open>infra/skill_fetcher.py\<close>), with what they use of the latest Python 3.12's \<open>ipaddress\<close>, \<open>urlsplit\<close>
  and \<open>re\<close>.  An IPv4 address is a 32 bit word, an IPv6 address a 128 bit word.  The answers of
  DNS and of the HTTP client are arguments.
\<close>

unbundle bit_operations_syntax

subsection \<open>Addresses\<close>

datatype ip = V4 "32 word" | V6 "128 word"

type_synonym 'w net = "'w \<times> nat"

text \<open>Membership of an address in a network: \<open>ip & netmask == network_address\<close>.\<close>

definition in_net :: "'a :: len word \<Rightarrow> 'a word net \<Rightarrow> bool" where
  "in_net a net = (case net of (p, l) \<Rightarrow> a AND NOT (mask (LENGTH('a) - l)) = p)"

definition v4 :: "32 word \<Rightarrow> 32 word \<Rightarrow> 32 word \<Rightarrow> 32 word \<Rightarrow> 32 word" where
  "v4 a b c d = ((a * 256 + b) * 256 + c) * 256 + d"

definition private4 :: "32 word net list" where
  "private4 =
     [(v4 0 0 0 0, 8), (v4 10 0 0 0, 8), (v4 127 0 0 0, 8), (v4 169 254 0 0, 16), (v4 172 16 0 0, 12), (v4 192 0 0 0, 24),
      (v4 192 0 0 170, 31), (v4 192 0 2 0, 24), (v4 192 168 0 0, 16), (v4 198 18 0 0, 15), (v4 198 51 100 0, 24),
      (v4 203 0 113 0, 24), (v4 240 0 0 0, 4), (v4 255 255 255 255, 32)]"

definition private4_exceptions :: "32 word net list" where
  "private4_exceptions = [(v4 192 0 0 9, 32), (v4 192 0 0 10, 32)]"

definition is_private4 :: "32 word \<Rightarrow> bool" where
  "is_private4 a = (list_ex (in_net a) private4 \<and> \<not> list_ex (in_net a) private4_exceptions)"

definition CGNAT :: "32 word net" where "CGNAT = (v4 100 64 0 0, 10)"

text \<open>An IPv6 network given by its first two groups and a length of at most 32.\<close>

definition v6 :: "128 word \<Rightarrow> 128 word \<Rightarrow> 128 word" where
  "v6 a b = push_bit 96 (a * 65536 + b)"

definition private6 :: "128 word net list" where
  "private6 =
     [(1, 128), (0, 128), (push_bit 32 65535, 96), (v6 0x64 0xff9b + push_bit 80 1, 48), (v6 0x100 0, 64),
      (v6 0x2001 0, 23), (v6 0x2001 0xdb8, 32), (v6 0x2002 0, 16), (v6 0x3fff 0, 20), (v6 0xfc00 0, 7), (v6 0xfe80 0, 10)]"

definition private6_exceptions :: "128 word net list" where
  "private6_exceptions =
     [(v6 0x2001 1 + 1, 128), (v6 0x2001 1 + 2, 128), (v6 0x2001 3, 32), (v6 0x2001 4 + push_bit 80 0x112, 48),
      (v6 0x2001 0x20, 28), (v6 0x2001 0x30, 28)]"

definition reserved6 :: "128 word net list" where
  "reserved6 =
     [(v6 0 0, 8), (v6 0x100 0, 8), (v6 0x200 0, 7), (v6 0x400 0, 6), (v6 0x800 0, 5), (v6 0x1000 0, 4), (v6 0x4000 0, 3),
      (v6 0x6000 0, 3), (v6 0x8000 0, 3), (v6 0xa000 0, 3), (v6 0xc000 0, 3), (v6 0xe000 0, 4), (v6 0xf000 0, 5),
      (v6 0xf800 0, 6), (v6 0xfe00 0, 9)]"

definition is_private6 :: "128 word \<Rightarrow> bool" where
  "is_private6 a = (list_ex (in_net a) private6 \<and> \<not> list_ex (in_net a) private6_exceptions)"

definition ipv4_mapped :: "128 word \<Rightarrow> 32 word option" where
  "ipv4_mapped a = (if drop_bit 32 a = 0xFFFF then Some (ucast a) else None)"

definition address_is_public4 :: "32 word \<Rightarrow> bool" where
  "address_is_public4 a =
     (\<not> (is_private4 a \<or> in_net a (v4 127 0 0 0, 8) \<or> in_net a (v4 169 254 0 0, 16) \<or> in_net a (v4 224 0 0 0, 4)
         \<or> in_net a (v4 240 0 0 0, 4) \<or> a = 0)
      \<and> \<not> in_net a CGNAT)"

definition address_is_public :: "ip \<Rightarrow> bool" where
  "address_is_public addr =
     (case addr of
        V4 a \<Rightarrow> address_is_public4 a
      | V6 a \<Rightarrow>
          (case ipv4_mapped a of
             Some b \<Rightarrow> address_is_public4 b
           | None \<Rightarrow>
               \<not> (is_private6 a \<or> a = 1 \<or> in_net a (v6 0xfe80 0, 10) \<or> in_net a (v6 0xff00 0, 8)
                  \<or> list_ex (in_net a) reserved6 \<or> a = 0)))"

subsection \<open>Literals\<close>

definition parse_octet :: "string \<Rightarrow> nat option" where
  "parse_octet s =
     (if s = [] \<or> \<not> list_all (\<lambda>c. digit_val c \<noteq> None) s \<or> length s > 3 \<or> (s \<noteq> ''0'' \<and> hd s = CHR ''0'') then None
      else (case parse_digits 0 s of Some n \<Rightarrow> if n > 255 then None else Some n | None \<Rightarrow> None))"

definition parse_v4 :: "string \<Rightarrow> 32 word option" where
  "parse_v4 s =
     (case those (map parse_octet (py_split ''.'' s)) of
        Some [a, b, c, d] \<Rightarrow> Some (v4 (of_nat a) (of_nat b) (of_nat c) (of_nat d))
      | _ \<Rightarrow> None)"

definition hex_val :: "char \<Rightarrow> nat option" where
  "hex_val c =
     (let n = (of_char c :: nat)
      in if 48 \<le> n \<and> n \<le> 57 then Some (n - 48)
         else if 97 \<le> n \<and> n \<le> 102 then Some (n - 87)
         else if 65 \<le> n \<and> n \<le> 70 then Some (n - 55)
         else None)"

text \<open>An empty group fails in the conversion to a number.\<close>

definition parse_hextet :: "string \<Rightarrow> nat option" where
  "parse_hextet s =
     (if s = [] \<or> length s > 4 then None
      else map_option (foldl (\<lambda>n d. n * 16 + d) 0) (those (map hex_val s)))"

text \<open>An IPv4 suffix becomes the numbers of two groups; the other groups are still strings.\<close>

datatype group = Text string | Num nat

definition group_val :: "group \<Rightarrow> nat option" where
  "group_val g = (case g of Text s \<Rightarrow> parse_hextet s | Num n \<Rightarrow> Some n)"

definition v6_groups :: "string \<Rightarrow> group list option" where
  "v6_groups s =
     (let parts = py_split '':'' s
      in if length parts < 3 then None
         else if CHR ''.'' \<in> set (last parts) then
           map_option (\<lambda>a. map Text (butlast parts) @ [Num (unat (drop_bit 16 a)), Num (unat (take_bit 16 a))])
             (parse_v4 (last parts))
         else Some (map Text parts))"

definition empty_group :: "group \<Rightarrow> bool" where
  "empty_group g = (g = Text [])"

text \<open>The groups before and after a run of zeros, and whether there is one.\<close>

definition v6_layout :: "group list \<Rightarrow> (group list \<times> group list \<times> nat) option" where
  "v6_layout gs =
     (if length gs > 9 then None
      else
        (case filter (\<lambda>i. empty_group (gs ! i)) [1 ..< length gs - 1] of
           [] \<Rightarrow>
             if length gs \<noteq> 8 \<or> empty_group (hd gs) \<or> empty_group (last gs) then None else Some (gs, [], 0)
         | [i] \<Rightarrow>
             (let hi = (if empty_group (hd gs) then i - 1 else i);
                  lo0 = length gs - i - 1;
                  lo = (if empty_group (last gs) then lo0 - 1 else lo0)
              in if (empty_group (hd gs) \<and> hi > 0) \<or> (empty_group (last gs) \<and> lo > 0) \<or> 8 < hi + lo + 1 then None
                 else Some (take hi gs, drop (length gs - lo) gs, 8 - (hi + lo)))
         | _ \<Rightarrow> None))"

definition shift_in :: "128 word \<Rightarrow> nat \<Rightarrow> 128 word" where
  "shift_in a g = push_bit 16 a OR of_nat g"

definition parse_v6 :: "string \<Rightarrow> 128 word option" where
  "parse_v6 s =
     (case Option.bind (v6_groups s) v6_layout of
        None \<Rightarrow> None
      | Some (hi, lo, skipped) \<Rightarrow>
          (case (those (map group_val hi), those (map group_val lo)) of
             (Some hs, Some ls) \<Rightarrow>
               Some (foldl shift_in (push_bit (16 * skipped) (foldl shift_in 0 hs)) ls)
           | _ \<Rightarrow> None))"

text \<open>An IPv6 literal may carry a zone, which must not be empty.\<close>

definition strip_zone :: "string \<Rightarrow> string option" where
  "strip_zone s =
     (if CHR ''%'' \<notin> set s then Some s
      else (let zone = tl (dropWhile (\<lambda>c. c \<noteq> CHR ''%'') s)
            in if zone = [] \<or> CHR ''%'' \<in> set zone then None else Some (takeWhile (\<lambda>c. c \<noteq> CHR ''%'') s)))"

definition ip_address :: "string \<Rightarrow> ip option" where
  "ip_address s = (case parse_v4 s of Some a \<Rightarrow> Some (V4 a) | None \<Rightarrow> map_option V6 (Option.bind (strip_zone s) parse_v6))"

subsection \<open>The canonical form\<close>

definition alnum :: "char \<Rightarrow> bool" where
  "alnum c = (let n = (of_char c :: nat) in (48 \<le> n \<and> n \<le> 57) \<or> (65 \<le> n \<and> n \<le> 90) \<or> (97 \<le> n \<and> n \<le> 122))"

definition host_label :: "string \<Rightarrow> bool" where
  "host_label s = (s \<noteq> [] \<and> alnum (hd s) \<and> alnum (last s) \<and> list_all (\<lambda>c. alnum c \<or> c = CHR ''-'') s)"

definition host_char :: "char \<Rightarrow> bool" where
  "host_char c = (alnum c \<or> c = CHR ''-'' \<or> c = CHR ''.'')"

definition literal_char :: "char \<Rightarrow> bool" where
  "literal_char c = (hex_val c \<noteq> None \<or> c = CHR '':'' \<or> c = CHR ''.'')"

definition url_delim :: "char \<Rightarrow> bool" where
  "url_delim c = (c = CHR ''/'' \<or> c = CHR ''?'' \<or> c = CHR ''#'')"

definition printable :: "char \<Rightarrow> bool" where
  "printable c = (let n = (of_char c :: nat) in 33 \<le> n \<and> n \<le> 126)"

definition is_digit :: "char \<Rightarrow> bool" where
  "is_digit c = (digit_val c \<noteq> None)"

text \<open>The optional port and the rest of the pattern.\<close>

definition strict_tail :: "string \<Rightarrow> bool" where
  "strict_tail t =
     (let after_port = (case t of
            [] \<Rightarrow> Some []
          | c # cs \<Rightarrow>
              if c = CHR '':'' then
                (let n = length (takeWhile is_digit cs) in if 1 \<le> n \<and> n \<le> 5 then Some (dropWhile is_digit cs) else None)
              else Some t)
      in case after_port of
           None \<Rightarrow> False
         | Some [] \<Rightarrow> True
         | Some (c # cs) \<Rightarrow> url_delim c \<and> list_all printable cs)"

definition strict_authority :: "string \<Rightarrow> bool" where
  "strict_authority s =
     (case s of
        [] \<Rightarrow> False
      | c # cs \<Rightarrow>
          if c = CHR ''['' then
            takeWhile literal_char cs \<noteq> [] \<and>
            (case dropWhile literal_char cs of
               d # ds \<Rightarrow> d = CHR '']'' \<and> strict_tail ds | [] \<Rightarrow> False)
          else
            list_all host_label (py_split ''.'' (takeWhile host_char s)) \<and> strict_tail (dropWhile host_char s))"

definition strict_url :: "string \<Rightarrow> bool" where
  "strict_url url =
     (if take 7 url = ''http://'' then strict_authority (drop 7 url)
      else take 8 url = ''https://'' \<and> strict_authority (drop 8 url))"

subsection \<open>\<open>urlsplit\<close>\<close>

definition c0_or_space :: "char \<Rightarrow> bool" where
  "c0_or_space c = ((of_char c :: nat) \<le> 32)"

definition unsafe_char :: "char \<Rightarrow> bool" where
  "unsafe_char c = (c = CHR 0x09 \<or> c = CHR 0x0D \<or> c = CHR 0x0A)"

definition ascii_alpha :: "char \<Rightarrow> bool" where
  "ascii_alpha c = (let n = (of_char c :: nat) in (65 \<le> n \<and> n \<le> 90) \<or> (97 \<le> n \<and> n \<le> 122))"

definition scheme_char :: "char \<Rightarrow> bool" where
  "scheme_char c = (alnum c \<or> c = CHR ''+'' \<or> c = CHR ''-'' \<or> c = CHR ''.'')"

definition split_scheme :: "string \<Rightarrow> string \<times> string" where
  "split_scheme url =
     (let s = takeWhile (\<lambda>c. c \<noteq> CHR '':'') url
      in if CHR '':'' \<in> set url \<and> s \<noteq> [] \<and> ascii_alpha (hd s) \<and> list_all scheme_char s
         then (py_lower s, tl (dropWhile (\<lambda>c. c \<noteq> CHR '':'') url)) else ([], url))"

definition partition_at :: "char \<Rightarrow> string \<Rightarrow> string \<times> string" where
  "partition_at c s = (takeWhile (\<lambda>x. x \<noteq> c) s, tl (dropWhile (\<lambda>x. x \<noteq> c) s))"

definition rpartition_tail :: "char \<Rightarrow> string \<Rightarrow> string" where
  "rpartition_tail c s = rev (takeWhile (\<lambda>x. x \<noteq> c) (rev s))"

text \<open>\<open>v\<close>, hexadecimal digits, a dot and at least one more character.\<close>

definition ip_future :: "string \<Rightarrow> bool" where
  "ip_future s =
     (case s of
        [] \<Rightarrow> False
      | c # cs \<Rightarrow>
          c = CHR ''v'' \<and> takeWhile (\<lambda>x. hex_val x \<noteq> None) cs \<noteq> [] \<and>
          (case dropWhile (\<lambda>x. hex_val x \<noteq> None) cs of
             d # e # es \<Rightarrow> d = CHR ''.'' \<and> CHR 0x0A \<notin> set (e # es) | _ \<Rightarrow> False))"

definition check_bracketed_host :: "string \<Rightarrow> bool" where
  "check_bracketed_host h =
     (if h \<noteq> [] \<and> hd h = CHR ''v'' then ip_future h
      else (case ip_address h of Some (V6 _) \<Rightarrow> True | _ \<Rightarrow> False))"

text \<open>The scheme and the host name; an unbalanced or malformed bracket raises.\<close>

definition hostname :: "string \<Rightarrow> string option" where
  "hostname netloc =
     (let info = rpartition_tail (CHR ''@'') netloc;
          h = (if CHR ''['' \<in> set info then fst (partition_at (CHR '']'') (snd (partition_at (CHR ''['') info)))
               else fst (partition_at (CHR '':'') info))
      in if h = [] then None
         else Some (py_lower (takeWhile (\<lambda>c. c \<noteq> CHR ''%'') h) @ dropWhile (\<lambda>c. c \<noteq> CHR ''%'') h))"

text \<open>The scheme, the authority and what follows it.\<close>

definition split_netloc :: "string \<Rightarrow> string \<times> string \<times> string" where
  "split_netloc url0 =
     (let (scheme, url) = split_scheme (filter (\<lambda>c. \<not> unsafe_char c) (dropWhile c0_or_space url0))
      in if take 2 url = ''//''
         then (scheme, takeWhile (\<lambda>c. \<not> url_delim c) (drop 2 url), dropWhile (\<lambda>c. \<not> url_delim c) (drop 2 url))
         else (scheme, [], url))"

text \<open>Nothing may stand before the bracket, and only a port after it.\<close>

definition bracketed_netloc_ok :: "string \<Rightarrow> bool" where
  "bracketed_netloc_ok netloc =
     (let hostinfo = rpartition_tail (CHR ''@'') netloc
      in if CHR ''['' \<in> set hostinfo then
           (let (before_bracket, bracketed) = partition_at (CHR ''['') hostinfo; (h, port) = partition_at (CHR '']'') bracketed
            in before_bracket = [] \<and> (port = [] \<or> hd port = CHR '':'') \<and> check_bracketed_host h)
         else check_bracketed_host (fst (partition_at (CHR '':'') hostinfo)))"

definition bad_netloc :: "string \<Rightarrow> bool" where
  "bad_netloc netloc =
     ((CHR ''['' \<in> set netloc) \<noteq> (CHR '']'' \<in> set netloc) \<or> CHR ''['' \<in> set netloc \<and> \<not> bracketed_netloc_ok netloc)"

definition urlsplit :: "string \<Rightarrow> (string \<times> string option) result" where
  "urlsplit url =
     (case split_netloc url of (scheme, netloc, _) \<Rightarrow>
        if bad_netloc netloc then Inl ValueError else Inr (scheme, hostname netloc))"

subsection \<open>The guard\<close>

text \<open>\<open>UrlGuardError\<close> is a refusal; a \<open>ValueError\<close> of the parser passes through.\<close>

datatype verdict = Fetch string | Refused | RaisedValueError

text \<open>\<open>resolve_host\<close> is what DNS answers; \<open>None\<close> is a failed lookup.  A label of more than 63 characters
  fails before any lookup: the encoding of the name raises a \<open>UnicodeError\<close>, which is a \<open>ValueError\<close>
  and not the \<open>OSError\<close> that the guard catches.\<close>

definition idna_error :: "string \<Rightarrow> bool" where
  "idna_error host = list_ex (\<lambda>l. 63 < length l) (py_split ''.'' host)"

definition validate_public_http_url :: "(string \<Rightarrow> ip list option) \<Rightarrow> string \<Rightarrow> verdict" where
  "validate_public_http_url resolve_host url =
     (case urlsplit url of
        Inl _ \<Rightarrow> RaisedValueError
      | Inr (scheme, host) \<Rightarrow>
          if scheme \<noteq> ''http'' \<and> scheme \<noteq> ''https'' then Refused
          else
            (case host of
               None \<Rightarrow> Refused
             | Some h \<Rightarrow>
                 if \<not> strict_url url then Refused
                 else
                   (case ip_address h of
                      Some a \<Rightarrow> if address_is_public a then Fetch url else Refused
                    | None \<Rightarrow>
                        if idna_error h then RaisedValueError
                        else
                          (case resolve_host h of
                             None \<Rightarrow> Refused
                           | Some answers \<Rightarrow> if list_all address_is_public answers then Fetch url else Refused))))"

subsection \<open>Downloads\<close>

definition MAX_REDIRECT_HOPS :: nat where "MAX_REDIRECT_HOPS = 5"
definition REDIRECT_STATUSES :: "nat list" where "REDIRECT_STATUSES = [301, 302, 303, 307, 308]"

record response =
  rs_status :: nat
  rs_location :: "string option"
  rs_chunks :: "string list"

text \<open>An error of the client is \<open>None\<close>.  \<open>target\<close> joins a location to the current URL, or raises the
  client's \<open>InvalidURL\<close>, which is not an \<open>HTTPError\<close>.\<close>

datatype fetched = Body string | SkillFetchError | UncaughtValueError | UncaughtInvalidURL

fun collect_chunks :: "nat \<Rightarrow> nat \<Rightarrow> string list \<Rightarrow> string option" where
  "collect_chunks max_bytes seen [] = Some []"
| "collect_chunks max_bytes seen (c # cs) =
     (let seen = seen + length c
      in if seen > max_bytes then None else map_option ((@) c) (collect_chunks max_bytes seen cs))"

text \<open>Requested URLs are recorded in order.\<close>

fun fetch_hops ::
  "(string \<Rightarrow> verdict) \<Rightarrow> (string \<Rightarrow> string \<Rightarrow> string option) \<Rightarrow> nat \<Rightarrow> (nat \<Rightarrow> string \<Rightarrow> response option) \<Rightarrow> nat \<Rightarrow> string \<Rightarrow> fetched \<times> string list"
where
  "fetch_hops guard target max_bytes get 0 current = (SkillFetchError, [])"
| "fetch_hops guard target max_bytes get (Suc hops) current =
     (case get hops current of
        None \<Rightarrow> (SkillFetchError, [current])
      | Some r \<Rightarrow>
          if rs_status r \<in> set REDIRECT_STATUSES then
            (if \<not> truthy_str (rs_location r) then (SkillFetchError, [current])
             else
               (case target current (the (rs_location r)) of
                  None \<Rightarrow> (UncaughtInvalidURL, [current])
                | Some absolute \<Rightarrow>
                    (case guard absolute of
                       Refused \<Rightarrow> (SkillFetchError, [current])
                     | RaisedValueError \<Rightarrow> (UncaughtValueError, [current])
                     | Fetch next_url \<Rightarrow>
                         (case fetch_hops guard target max_bytes get hops next_url of (res, urls) \<Rightarrow> (res, current # urls)))))
          else if rs_status r \<noteq> 200 then (SkillFetchError, [current])
          else (case collect_chunks max_bytes 0 (rs_chunks r) of
                  None \<Rightarrow> (SkillFetchError, [current]) | Some body \<Rightarrow> (Body body, [current])))"

definition fetch_bytes ::
  "(string \<Rightarrow> ip list option) \<Rightarrow> (string \<Rightarrow> string \<Rightarrow> string option) \<Rightarrow> nat \<Rightarrow> (nat \<Rightarrow> string \<Rightarrow> response option) \<Rightarrow> string
   \<Rightarrow> fetched \<times> string list"
where
  "fetch_bytes resolve_host target max_bytes get url =
     (case validate_public_http_url resolve_host url of
        Refused \<Rightarrow> (SkillFetchError, [])
      | RaisedValueError \<Rightarrow> (UncaughtValueError, [])
      | Fetch current \<Rightarrow>
          fetch_hops (validate_public_http_url resolve_host) target max_bytes get (Suc MAX_REDIRECT_HOPS) current)"

subsection \<open>Networks as intervals\<close>

lemma and_not_mask: "a AND NOT (mask k) = push_bit k (drop_bit k a)" for a :: "'a :: len word"
  by (rule bit_word_eqI) (auto simp: bit_simps)

lemma uint_and_not_mask: "uint (a AND NOT (mask k)) = uint a div 2 ^ k * 2 ^ k" for a :: "'a :: len word"
proof -
  have "uint a div 2 ^ k * 2 ^ k \<le> uint a" by (simp add: div_mult2_eq zdiv_mono1 minus_mod_eq_div_mult [symmetric])
  then have "uint a div 2 ^ k * 2 ^ k < 2 ^ LENGTH('a)" using uint_lt2p [of a] by linarith
  moreover have "0 \<le> uint a div 2 ^ k * 2 ^ k" by (simp add: pos_imp_zdiv_nonneg_iff)
  moreover have "uint (push_bit k (drop_bit k a)) = take_bit LENGTH('a) (push_bit k (drop_bit k (uint a)))"
    by (simp only: unsigned_push_bit_eq unsigned_drop_bit_eq bintr_uint [OF order_refl])
  ultimately show ?thesis
    by (simp add: and_not_mask push_bit_eq_mult drop_bit_eq_div take_bit_int_eq_self del: push_bit_of_int)
qed

lemma block_interval: "0 < M \<Longrightarrow> P mod M = 0 \<Longrightarrow> (x div M * M = P) = (P \<le> x \<and> x < P + M)" for x M P :: int
proof -
  assume a: "0 < M" "P mod M = 0"
  then obtain c where P: "P = M * c" by (auto simp: dvd_def mod_eq_0_iff_dvd)
  have "(x div M = c) = (M * c \<le> x \<and> x < M * c + M)"
  proof
    assume "x div M = c"
    then have "x = M * c + x mod M" using mult_div_mod_eq [of M x] by simp
    then show "M * c \<le> x \<and> x < M * c + M" using a(1) pos_mod_bound [of M x] pos_mod_sign [of M x] by linarith
  next
    assume "M * c \<le> x \<and> x < M * c + M"
    then show "x div M = c" using int_div_pos_eq [of x M c "x - M * c"] by simp
  qed
  with a(1) P show ?thesis by (simp add: mult.commute)
qed

lemma in_net_interval:
  fixes a :: "'a :: len word"
  assumes "uint p mod 2 ^ (LENGTH('a) - l) = 0"
  shows "in_net a (p, l) = (uint p \<le> uint a \<and> uint a < uint p + 2 ^ (LENGTH('a) - l))"
  using block_interval [of "2 ^ (LENGTH('a) - l)" "uint p" "uint a"] assms
  by (simp add: in_net_def word_uint_eq_iff uint_and_not_mask)


text \<open>The first and last addresses of what is not public, for IPv4.\<close>

definition blocked4 :: "(int \<times> int) list" where
  "blocked4 =
     [(0x00000000, 0x00FFFFFF),
      (0x0A000000, 0x0AFFFFFF),
      (0x64400000, 0x647FFFFF),
      (0x7F000000, 0x7FFFFFFF),
      (0xA9FE0000, 0xA9FEFFFF),
      (0xAC100000, 0xAC1FFFFF),
      (0xC0000000, 0xC0000008),
      (0xC000000B, 0xC00000FF),
      (0xC0000200, 0xC00002FF),
      (0xC0A80000, 0xC0A8FFFF),
      (0xC6120000, 0xC613FFFF),
      (0xC6336400, 0xC63364FF),
      (0xCB007100, 0xCB0071FF),
      (0xE0000000, 0xFFFFFFFF)]"

text \<open>The first and last addresses of what is public, for IPv6 addresses that carry no IPv4 address.\<close>

definition public6 :: "(int \<times> int) list" where
  "public6 =
     [(0x20000000000000000000000000000000, 0x2000FFFFFFFFFFFFFFFFFFFFFFFFFFFF),
      (0x20010001000000000000000000000001, 0x20010001000000000000000000000002),
      (0x20010003000000000000000000000000, 0x20010003FFFFFFFFFFFFFFFFFFFFFFFF),
      (0x20010004011200000000000000000000, 0x200100040112FFFFFFFFFFFFFFFFFFFF),
      (0x20010020000000000000000000000000, 0x2001003FFFFFFFFFFFFFFFFFFFFFFFFF),
      (0x20010200000000000000000000000000, 0x20010DB7FFFFFFFFFFFFFFFFFFFFFFFF),
      (0x20010DB9000000000000000000000000, 0x2001FFFFFFFFFFFFFFFFFFFFFFFFFFFF),
      (0x20030000000000000000000000000000, 0x3FFEFFFFFFFFFFFFFFFFFFFFFFFFFFFF),
      (0x3FFF1000000000000000000000000000, 0x3FFFFFFFFFFFFFFFFFFFFFFFFFFFFFFF),
      (0xFEC00000000000000000000000000000, 0xFEFFFFFFFFFFFFFFFFFFFFFFFFFFFFFF)]"

definition within :: "int \<Rightarrow> int \<times> int \<Rightarrow> bool" where
  "within x r = (fst r \<le> x \<and> x \<le> snd r)"

lemma public4_exact: "address_is_public4 a = list_all (\<lambda>r. \<not> within (uint a) r) blocked4"
proof -
  have "0 \<le> uint a" "uint a < 2 ^ 32" using uint_lt2p [of a] by simp_all
  then show ?thesis
    by (simp add: address_is_public4_def is_private4_def private4_def private4_exceptions_def CGNAT_def v4_def in_net_interval
        blocked4_def within_def word_uint_eq_iff [of a 0]) (smt (verit))
qed

lemma public6_exact:
  assumes "ipv4_mapped a = None"
  shows "address_is_public (V6 a) = list_ex (within (uint a)) public6"
proof -
  have bound: "0 \<le> uint a" "uint a < 2 ^ 128" using uint_lt2p [of a] by simp_all
  show ?thesis
    using bound
    by (simp add: address_is_public_def assms is_private6_def private6_def private6_exceptions_def reserved6_def v6_def
        push_bit_eq_mult in_net_interval public6_def within_def word_uint_eq_iff [of a 0] word_uint_eq_iff [of a 1]) (smt (verit))
qed

text \<open>
  What the code accepts, as intervals.  An IPv4 address, or an IPv6 address that carries one, passes
  unless it lies in one of fourteen intervals; any other IPv6 address passes only within ten
  intervals.  The last of them, the site-local \<open>fec0::/10\<close>, is not public unicast: the
  docstring of \<open>_address_is_public\<close> promises less than the code accepts.
\<close>

lemma public_addresses_exact:
  "address_is_public addr =
     (case addr of
        V4 a \<Rightarrow> list_all (\<lambda>r. \<not> within (uint a) r) blocked4
      | V6 a \<Rightarrow>
          (if uint a div 2 ^ 32 = 0xFFFF then list_all (\<lambda>r. \<not> within (uint a mod 2 ^ 32) r) blocked4
           else list_ex (within (uint a)) public6))"
proof (cases addr)
  case (V4 a)
  then show ?thesis by (simp add: address_is_public_def public4_exact)
next
  case (V6 a)
  have mapped: "ipv4_mapped a = (if uint a div 2 ^ 32 = 0xFFFF then Some (ucast a) else None)"
    by (simp add: ipv4_mapped_def word_uint_eq_iff drop_bit_eq_div uint_div)
  have "uint (ucast a :: 32 word) = uint a mod 2 ^ 32" by (simp add: unsigned_ucast_eq take_bit_eq_mod)
  with V6 mapped public6_exact [of a] show ?thesis by (simp add: address_is_public_def public4_exact)
qed

lemma site_local_accepted: "address_is_public (V6 (v6 0xfec0 0 + 1))"
  by (subst public6_exact) (simp_all add: ipv4_mapped_def v6_def push_bit_eq_mult drop_bit_eq_div public6_def within_def word_uint_eq_iff uint_div)

subsection \<open>What the guard lets through\<close>

lemma guard_returns_url: "validate_public_http_url dns url = Fetch url' \<Longrightarrow> url' = url"
  by (auto simp: validate_public_http_url_def split: sum.splits option.splits if_splits)

lemma collect_chunks_bound: "collect_chunks m sz cs = Some body \<Longrightarrow> sz \<le> m \<Longrightarrow> sz + length body \<le> m"
  by (induction m sz cs arbitrary: body rule: collect_chunks.induct) (fastforce simp: Let_def split: if_splits)+

lemma fetch_hops_guarded:
  assumes "\<And>u u'. guard u = Fetch u' \<Longrightarrow> u' = u" and "guard current = Fetch current"
    and "fetch_hops guard target m get n current = (res, urls)"
  shows "(\<forall>u \<in> set urls. guard u = Fetch u) \<and> length urls \<le> n \<and> (\<forall>b. res = Body b \<longrightarrow> length b \<le> m)"
  using assms(2,3)
proof (induction n arbitrary: current res urls)
  case (Suc n)
  show ?case
  proof (cases "get n current")
    case None
    with Suc.prems show ?thesis by auto
  next
    case (Some r)
    show ?thesis
    proof (cases "\<exists>absolute next_url. rs_status r \<in> set REDIRECT_STATUSES \<and> truthy_str (rs_location r)
        \<and> target current (the (rs_location r)) = Some absolute \<and> guard absolute = Fetch next_url")
      case True
      then obtain ab nx where nx: "rs_status r \<in> set REDIRECT_STATUSES" "truthy_str (rs_location r)"
        "guard ab = Fetch nx" "target current (the (rs_location r)) = Some ab" by blast
      obtain res' urls' where rest: "fetch_hops guard target m get n nx = (res', urls')" by fastforce
      have "guard nx = Fetch nx" using assms(1) [OF nx(3)] nx(3) by simp
      from Suc.IH [OF this rest] Suc.prems Some nx rest show ?thesis by auto
    next
      case False
      with Suc.prems Some collect_chunks_bound [of m 0 "rs_chunks r"] show ?thesis
        by (auto split: if_splits option.splits verdict.splits)
    qed
  qed
qed simp

text \<open>
  Claim C18.  No request leaves without the guard.  A download requests only URLs the guard accepted,
  the first one and every redirect, at most six of them whatever the servers answer; and what it
  returns has at most the allowed number of bytes.
\<close>

theorem fetched_urls_guarded:
  assumes "fetch_bytes dns target m get url = (res, urls)"
  shows "(\<forall>u \<in> set urls. validate_public_http_url dns u = Fetch u) \<and> length urls \<le> 6 \<and> (\<forall>b. res = Body b \<longrightarrow> length b \<le> m)"
proof (cases "validate_public_http_url dns url")
  case (Fetch u)
  have "u = url" by (rule guard_returns_url [OF Fetch])
  with Fetch assms have "fetch_hops (validate_public_http_url dns) target m get (Suc MAX_REDIRECT_HOPS) url = (res, urls)"
    and "validate_public_http_url dns url = Fetch url"
    by (simp_all add: fetch_bytes_def)
  from fetch_hops_guarded [OF guard_returns_url this(2,1)] show ?thesis by (simp add: MAX_REDIRECT_HOPS_def)
qed (use assms in \<open>auto simp: fetch_bytes_def\<close>)

lemma bracket_value_error:
  "validate_public_http_url dns ''http://[x]/'' = RaisedValueError"
  "fst (fetch_bytes dns target m get ''http://[x]/'') = UncaughtValueError"
proof -
  show v: "validate_public_http_url dns ''http://[x]/'' = RaisedValueError" by code_simp
  show "fst (fetch_bytes dns target m get ''http://[x]/'') = UncaughtValueError" by (simp add: fetch_bytes_def v)
qed

lemma long_label_value_error:
  "validate_public_http_url dns (''http://'' @ replicate 64 (CHR ''a'') @ ''.example/'') = RaisedValueError"
  by code_simp

definition example_get :: "nat \<Rightarrow> string \<Rightarrow> response option" where
  "example_get n u =
     Some (if u = ''http://93.184.216.34/a'' then \<lparr>rs_status = 302, rs_location = Some ''http://8.8.8.8/b'', rs_chunks = []\<rparr>
           else \<lparr>rs_status = 200, rs_location = None, rs_chunks = [''ab'', ''c'']\<rparr>)"

theorem fetched_urls_guarded_witness:
  "fetch_bytes (\<lambda>_. None) (\<lambda>_ l. Some l) 10 example_get ''http://93.184.216.34/a''
     = (Body ''abc'', [''http://93.184.216.34/a'', ''http://8.8.8.8/b''])
   \<and> validate_public_http_url (\<lambda>_. None) ''http://8.8.8.8/b'' = Fetch ''http://8.8.8.8/b''"
proof -
  have "fetch_bytes (\<lambda>_. None) (\<lambda>_ l. Some l) 10 example_get ''http://93.184.216.34/a''
     = (Body ''abc'', [''http://93.184.216.34/a'', ''http://8.8.8.8/b''])" by code_simp
  with fetched_urls_guarded [OF this] show ?thesis by simp
qed

subsection \<open>Both parsers see the same host\<close>

lemma digit_char_range: "is_digit c \<Longrightarrow> 48 \<le> (of_char c :: nat) \<and> (of_char c :: nat) \<le> 57"
  by (auto simp: is_digit_def digit_val_def Let_def split: if_splits)

lemma hex_char_alnum: "hex_val c \<noteq> None \<Longrightarrow> alnum c"
  by (auto simp: hex_val_def alnum_def Let_def split: if_splits)

lemma digit_alnum: "is_digit c \<Longrightarrow> alnum c"
  using digit_char_range [of c] by (simp add: alnum_def Let_def)

lemma printable_chars:
  "alnum c \<Longrightarrow> printable c" "host_char c \<Longrightarrow> printable c" "literal_char c \<Longrightarrow> printable c" "url_delim c \<Longrightarrow> printable c"
  using hex_char_alnum [of c] by (auto simp: alnum_def printable_def host_char_def literal_char_def url_delim_def Let_def)

lemma alnum_plain:
  "alnum c \<Longrightarrow> \<not> url_delim c \<and> c \<noteq> CHR '':'' \<and> c \<noteq> CHR ''@'' \<and> c \<noteq> CHR ''['' \<and> c \<noteq> CHR '']'' \<and> c \<noteq> CHR ''%''"
  by (auto simp: alnum_def url_delim_def Let_def)

lemma host_char_plain:
  "host_char c \<Longrightarrow> \<not> url_delim c \<and> c \<noteq> CHR '':'' \<and> c \<noteq> CHR ''@'' \<and> c \<noteq> CHR ''['' \<and> c \<noteq> CHR '']'' \<and> c \<noteq> CHR ''%''"
  using alnum_plain [of c] by (auto simp: host_char_def url_delim_def)

lemma literal_char_plain:
  "literal_char c \<Longrightarrow> \<not> url_delim c \<and> c \<noteq> CHR ''@'' \<and> c \<noteq> CHR ''['' \<and> c \<noteq> CHR '']'' \<and> c \<noteq> CHR ''%''"
  using alnum_plain [of c] hex_char_alnum [of c] by (auto simp: literal_char_def url_delim_def)

text \<open>A port: a colon and digits, or nothing.\<close>

definition port_part :: "string \<Rightarrow> bool" where
  "port_part p = (p = [] \<or> (\<exists>ds. p = CHR '':'' # ds \<and> list_all is_digit ds))"

lemma dropWhile_first: "dropWhile p xs = y # ys \<Longrightarrow> \<not> p y"
  by (metis hd_dropWhile list.distinct(1) list.sel(1))

lemma takeWhile_port:
  assumes "list_all is_digit ds" and "t = [] \<or> url_delim (hd t)"
  shows "takeWhile (\<lambda>c. \<not> url_delim c) (ds @ t) = ds"
  using assms
proof (induction ds)
  case Nil
  then show ?case by (cases t) auto
next
  case (Cons d ds)
  have "\<not> url_delim d" using Cons.prems(1) alnum_plain [OF digit_alnum, of d] by simp
  with Cons show ?case by simp
qed

lemma printable_split:
  "r = [] \<or> (url_delim (hd r) \<and> list_all printable (tl r)) \<Longrightarrow> (\<And>c. url_delim c \<Longrightarrow> printable c) \<Longrightarrow> list_all printable r"
  by (cases r) auto

lemma strict_tail_shape:
  assumes "strict_tail t"
  shows "port_part (takeWhile (\<lambda>c. \<not> url_delim c) t) \<and> list_all printable t \<and> (t = [] \<or> hd t = CHR '':'' \<or> url_delim (hd t))"
proof (cases t)
  case (Cons c cs)
  show ?thesis
  proof (cases "c = CHR '':''")
    case True
    let ?ds = "takeWhile is_digit cs" and ?r = "dropWhile is_digit cs"
    have r: "?r = [] \<or> (url_delim (hd ?r) \<and> list_all printable (tl ?r))"
      using assms True by (auto simp: strict_tail_def Cons Let_def split: if_splits list.splits)
    have ds: "list_all is_digit ?ds" by (simp add: list_all_iff) (meson set_takeWhileD)
    have "takeWhile (\<lambda>c. \<not> url_delim c) (?ds @ ?r) = ?ds" using takeWhile_port [OF ds, of ?r] r by blast
    then have "takeWhile (\<lambda>c. \<not> url_delim c) cs = ?ds" by simp
    moreover have "list_all printable ?ds" using ds digit_alnum printable_chars(1) by (simp add: list_all_iff)
    moreover have "list_all printable ?r" using r printable_chars(4) by (rule printable_split)
    ultimately have "takeWhile (\<lambda>c. \<not> url_delim c) cs = ?ds" "list_all printable cs"
      by (simp, metis takeWhile_dropWhile_id list_all_append)
    then show ?thesis
      using ds True by (auto simp: Cons port_part_def url_delim_def printable_def)
  next
    case False
    then show ?thesis
      using assms printable_chars(4) by (auto simp: strict_tail_def Cons Let_def port_part_def)
  qed
qed (simp add: port_part_def)

lemma port_part_chars:
  assumes "port_part p" and "c \<in> set p"
  shows "c \<noteq> CHR ''@'' \<and> c \<noteq> CHR ''['' \<and> c \<noteq> CHR '']''"
proof (cases "c = CHR '':''")
  case False
  with assms have "is_digit c" by (auto simp: port_part_def list_all_iff)
  then show ?thesis using alnum_plain [OF digit_alnum, of c] by simp
qed simp

lemma printable_kept:
  assumes "list_all printable url"
  shows "filter (\<lambda>c. \<not> unsafe_char c) (dropWhile c0_or_space url) = url"
proof -
  have "\<not> c0_or_space c" "\<not> unsafe_char c" if "c \<in> set url" for c
    using that assms by (auto simp: list_all_iff printable_def c0_or_space_def unsafe_char_def Let_def)
  then show ?thesis by (cases url) (auto simp: filter_id_conv)
qed

lemma split_http:
  "split_scheme (''http://'' @ rest) = (''http'', ''//'' @ rest)" "split_scheme (''https://'' @ rest) = (''https'', ''//'' @ rest)"
  by (simp_all add: split_scheme_def ascii_alpha_def scheme_char_def alnum_def py_lower_def lower_char_def Let_def)

lemma rpartition_tail_whole: "c \<notin> set s \<Longrightarrow> rpartition_tail c s = s"
proof -
  assume "c \<notin> set s"
  then have "takeWhile (\<lambda>x. x \<noteq> c) (rev s) = rev s" by (auto simp: takeWhile_eq_all_conv)
  then show ?thesis by (simp only: rpartition_tail_def rev_rev_ident)
qed

lemma no_zone: "\<forall>c \<in> set h. c \<noteq> z \<Longrightarrow> f (takeWhile (\<lambda>c. c \<noteq> z) h) @ dropWhile (\<lambda>c. c \<noteq> z) h = f h"
  by (simp add: takeWhile_eq_all_conv [THEN iffD2] dropWhile_eq_Nil_conv [THEN iffD2])

lemma hostname_plain:
  assumes "list_all host_char h" and "h \<noteq> []" and "port_part p"
  shows "hostname (h @ p) = Some (py_lower h)" and "CHR ''['' \<notin> set (h @ p)" and "CHR '']'' \<notin> set (h @ p)"
proof -
  have h: "c \<noteq> CHR '':'' \<and> c \<noteq> CHR ''@'' \<and> c \<noteq> CHR ''['' \<and> c \<noteq> CHR '']'' \<and> c \<noteq> CHR ''%''" if "c \<in> set h" for c
    using that assms(1) host_char_plain by (auto simp: list_all_iff)
  have p: "c \<noteq> CHR ''@'' \<and> c \<noteq> CHR ''['' \<and> c \<noteq> CHR '']''" if "c \<in> set p" for c
    using port_part_chars [OF assms(3) that] by simp
  show nb: "CHR ''['' \<notin> set (h @ p)" "CHR '']'' \<notin> set (h @ p)" using h p by auto
  have "rpartition_tail (CHR ''@'') (h @ p) = h @ p"
    using h p by (intro rpartition_tail_whole) auto
  moreover have "takeWhile (\<lambda>x. x \<noteq> CHR '':'') (h @ p) = h"
    using h assms(3) by (subst takeWhile_append2) (auto simp: port_part_def)
  moreover have "py_lower (takeWhile (\<lambda>c. c \<noteq> CHR ''%'') h) @ dropWhile (\<lambda>c. c \<noteq> CHR ''%'') h = py_lower h"
    using h by (intro no_zone) simp
  ultimately show "hostname (h @ p) = Some (py_lower h)"
    using nb assms(2) by (simp add: hostname_def partition_at_def)
qed

lemma hostname_literal:
  assumes "list_all literal_char l" and "l \<noteq> []" and "port_part p"
  shows "hostname (''['' @ l @ '']'' @ p) = Some (py_lower l)"
    and "fst (partition_at (CHR '']'') (snd (partition_at (CHR ''['') (''['' @ l @ '']'' @ p)))) = l"
proof -
  have l: "c \<noteq> CHR ''@'' \<and> c \<noteq> CHR ''['' \<and> c \<noteq> CHR '']'' \<and> c \<noteq> CHR ''%''" if "c \<in> set l" for c
    using that assms(1) literal_char_plain by (auto simp: list_all_iff)
  have p: "c \<noteq> CHR ''@''" if "c \<in> set p" for c
    using port_part_chars [OF assms(3) that] by simp
  show b: "fst (partition_at (CHR '']'') (snd (partition_at (CHR ''['') (''['' @ l @ '']'' @ p)))) = l"
    using l by (simp add: partition_at_def takeWhile_append2 takeWhile_tail)
  have "rpartition_tail (CHR ''@'') (''['' @ l @ '']'' @ p) = ''['' @ l @ '']'' @ p"
    using l p by (intro rpartition_tail_whole) auto
  moreover have "py_lower (takeWhile (\<lambda>c. c \<noteq> CHR ''%'') l) @ dropWhile (\<lambda>c. c \<noteq> CHR ''%'') l = py_lower l"
    using l by (intro no_zone) simp
  ultimately show "hostname (''['' @ l @ '']'' @ p) = Some (py_lower l)"
    using b assms(2) unfolding hostname_def Let_def by simp
qed


text \<open>A host as it stands in the URL: a name, or an address in brackets.\<close>

definition shown_host :: "string \<Rightarrow> string \<Rightarrow> bool" where
  "shown_host host shown =
     (host \<noteq> [] \<and> (shown = host \<and> list_all host_char host \<or> shown = ''['' @ host @ '']'' \<and> list_all literal_char host))"

lemma strict_authority_shape:
  assumes "strict_authority s"
  obtains host shown tail where "s = shown @ tail" "shown_host host shown" "strict_tail tail"
proof (cases s)
  case (Cons c cs)
  show thesis
  proof (cases "c = CHR ''[''")
    case True
    let ?l = "takeWhile literal_char cs"
    obtain ds where ds: "dropWhile literal_char cs = CHR '']'' # ds" "strict_tail ds" "?l \<noteq> []"
      using assms True by (auto simp: strict_authority_def Cons split: list.splits)
    have "list_all literal_char ?l" by (simp add: list_all_iff) (meson set_takeWhileD)
    moreover have "cs = ?l @ CHR '']'' # ds" using takeWhile_dropWhile_id [of literal_char cs] ds(1) by simp
    then have "s = (''['' @ ?l @ '']'') @ ds" using True by (simp add: Cons)
    ultimately show thesis using ds(2,3) by (intro that) (auto simp: shown_host_def)
  next
    case False
    let ?h = "takeWhile host_char s"
    have a: "list_all host_label (py_split ''.'' ?h)" "strict_tail (dropWhile host_char s)"
      using assms False by (simp_all add: strict_authority_def Cons)
    have "?h \<noteq> []" using a(1) by (auto simp: py_split_def host_label_def)
    moreover have "list_all host_char ?h" by (simp add: list_all_iff) (meson set_takeWhileD)
    ultimately have "shown_host ?h ?h" by (simp add: shown_host_def)
    then show thesis using a(2) by (intro that [of ?h "dropWhile host_char s" ?h]) simp_all
  qed
qed (use assms in \<open>simp add: strict_authority_def\<close>)

lemma shown_plain: "shown_host host shown \<Longrightarrow> list_all (\<lambda>c. \<not> url_delim c \<and> printable c) shown"
proof -
  assume sh: "shown_host host shown"
  have "\<not> url_delim (CHR ''['')" "printable (CHR ''['')" "\<not> url_delim (CHR '']'')" "printable (CHR '']'')"
    by (simp_all add: url_delim_def printable_def)
  moreover have "list_all (\<lambda>c. \<not> url_delim c \<and> printable c) host"
    using sh host_char_plain literal_char_plain printable_chars(2,3) unfolding shown_host_def list_all_iff by metis
  ultimately show ?thesis using sh by (auto simp: shown_host_def)
qed

lemma urlsplit_strict:
  assumes "url = scheme @ ''://'' @ shown @ tail" and "scheme = ''http'' \<or> scheme = ''https''"
    and "shown_host host shown" and "strict_tail tail"
    and "urlsplit url = Inr parts"
  shows "parts = (scheme, Some (py_lower host))"
proof -
  note t = strict_tail_shape [OF assms(4)]
  let ?p = "takeWhile (\<lambda>c. \<not> url_delim c) tail"
  have "list_all printable (shown @ tail)" using shown_plain [OF assms(3)] t by (auto simp: list_all_iff)
  then have "list_all printable url" using assms(1,2) by (auto simp: printable_def)
  note kept = printable_kept [OF this]
  have net: "takeWhile (\<lambda>c. \<not> url_delim c) (shown @ tail) = shown @ ?p"
    using shown_plain [OF assms(3)] by (intro takeWhile_append2) (auto simp: list_all_iff)
  have host: "hostname (shown @ ?p) = Some (py_lower host)"
    using assms(3) hostname_plain(1) hostname_literal(1) t by (auto simp: shown_host_def)
  have "split_scheme url = (scheme, ''//'' @ shown @ tail)" using assms(1,2) split_http by auto
  with assms(5) kept net host show ?thesis
    by (auto simp: urlsplit_def split_netloc_def Let_def split: if_splits)
qed

lemma strict_url_shape:
  assumes "strict_url url"
  obtains scheme host shown tail where "url = scheme @ ''://'' @ shown @ tail" "scheme = ''http'' \<or> scheme = ''https''"
    "shown_host host shown" "strict_tail tail"
proof -
  have "\<exists>scheme s. url = scheme @ ''://'' @ s \<and> (scheme = ''http'' \<or> scheme = ''https'') \<and> strict_authority s"
  proof (cases "take 7 url = ''http://''")
    case True
    then have "url = ''http'' @ ''://'' @ drop 7 url" using append_take_drop_id [of 7 url] by simp
    with True assms show ?thesis unfolding strict_url_def by metis
  next
    case False
    then have "take 8 url = ''https://''" "strict_authority (drop 8 url)" using assms by (simp_all add: strict_url_def)
    moreover from this have "url = ''https'' @ ''://'' @ drop 8 url" using append_take_drop_id [of 8 url] by simp
    ultimately show ?thesis by metis
  qed
  then obtain scheme s where s: "url = scheme @ ''://'' @ s" "scheme = ''http'' \<or> scheme = ''https''" "strict_authority s" by blast
  obtain host shown tail where "s = shown @ tail" "shown_host host shown" "strict_tail tail"
    using strict_authority_shape [OF s(3)] .
  with s show thesis by (intro that [of scheme shown tail host]) simp_all
qed

text \<open>
  Claim C19.  The guard judges the host the client will contact.  A URL that passes is returned
  unchanged and has the form scheme, host, tail: http or https, a host of letters, digits, hyphens and dots
  or an address in brackets, and a tail that begins with the end of the authority, with at most a
  numeric port before the first delimiter, so that no user part, escape or control character can
  make another parser see another host.  This host, in lower case, is what was judged: an address that is public, or
  a name all of whose DNS answers are.
\<close>

theorem guarded_url_canonical:
  assumes "validate_public_http_url dns url = Fetch url'"
  shows "url' = url \<and> (\<exists>scheme host shown tail. url = scheme @ ''://'' @ shown @ tail
    \<and> (scheme = ''http'' \<or> scheme = ''https'') \<and> shown_host host shown
    \<and> port_part (takeWhile (\<lambda>c. \<not> url_delim c) tail) \<and> (tail = [] \<or> hd tail = CHR '':'' \<or> url_delim (hd tail))
    \<and> list_all printable url
    \<and> (case ip_address (py_lower host) of
         Some a \<Rightarrow> address_is_public a
       | None \<Rightarrow> \<exists>answers. dns (py_lower host) = Some answers \<and> list_all address_is_public answers))"
proof -
  obtain parts where parts: "urlsplit url = Inr parts" and strict: "strict_url url" and url: "url' = url"
    using assms by (auto simp: validate_public_http_url_def split: sum.splits option.splits if_splits)
  obtain scheme host shown tail where sh: "url = scheme @ ''://'' @ shown @ tail" "scheme = ''http'' \<or> scheme = ''https''"
      "shown_host host shown" "strict_tail tail"
    using strict_url_shape [OF strict] .
  have "parts = (scheme, Some (py_lower host))" by (rule urlsplit_strict [OF sh parts])
  with parts assms have "case ip_address (py_lower host) of
         Some a \<Rightarrow> address_is_public a
       | None \<Rightarrow> \<exists>answers. dns (py_lower host) = Some answers \<and> list_all address_is_public answers"
    by (auto simp: validate_public_http_url_def split: option.splits if_splits)
  moreover have "list_all printable url"
    using sh(2) shown_plain [OF sh(3)] strict_tail_shape [OF sh(4)] by (auto simp: sh(1) list_all_iff printable_def)
  ultimately show ?thesis using url sh strict_tail_shape [OF sh(4)] by blast
qed

theorem guarded_url_canonical_witness:
  "validate_public_http_url (\<lambda>_. Some [V4 (v4 93 184 216 34)]) ''https://Example.com:443/a'' = Fetch ''https://Example.com:443/a''
   \<and> list_all printable ''https://Example.com:443/a''"
proof -
  have "validate_public_http_url (\<lambda>_. Some [V4 (v4 93 184 216 34)]) ''https://Example.com:443/a'' = Fetch ''https://Example.com:443/a''"
    by code_simp
  with guarded_url_canonical [OF this] show ?thesis by blast
qed

end
