(* ===== verification/Mcp_Names.thy ===== *)
theory Mcp_Names
  imports Url_Guard
begin

text \<open>
  Names of MCP tools (\<^verbatim>\<open>repo/graphs/mcp_loader.py\<close>): the allowlist of a connection and the names
  shown to a model, which function-calling interfaces restrict to 64 letters, digits,
  underscores and hyphens.
\<close>

subsection \<open>Names\<close>

definition MAX_TOOL_NAME_LEN :: nat where "MAX_TOOL_NAME_LEN = 64"

definition name_char :: "char \<Rightarrow> bool" where
  "name_char c = (alnum c \<or> c = CHR ''_'' \<or> c = CHR ''-'')"

definition llm_safe :: "string \<Rightarrow> bool" where
  "llm_safe s = (s \<noteq> [] \<and> length s \<le> MAX_TOOL_NAME_LEN \<and> list_all name_char s)"

text \<open>\<open>_LLM_SAFE_TOOL_NAME.match\<close>: the end anchor also matches before a final newline.\<close>

definition llm_safe_match :: "string \<Rightarrow> bool" where
  "llm_safe_match s = (llm_safe s \<or> (s \<noteq> [] \<and> last s = CHR 0x0A \<and> llm_safe (butlast s)))"

text \<open>\<open>_ILLEGAL_TOOL_NAME_CHARS.sub\<close>: every run of other characters becomes one underscore.\<close>

fun collapse :: "bool \<Rightarrow> string \<Rightarrow> string" where
  "collapse in_run [] = []"
| "collapse in_run (c # cs) =
     (if name_char c then c # collapse False cs
      else if in_run then collapse True cs else CHR ''_'' # collapse True cs)"

definition rstrip_us :: "string \<Rightarrow> string" where
  "rstrip_us s = rev (dropWhile (\<lambda>c. c = CHR ''_'') (rev s))"

definition strip_us :: "string \<Rightarrow> string" where
  "strip_us s = rstrip_us (dropWhile (\<lambda>c. c = CHR ''_'') s)"

definition or_tool :: "string \<Rightarrow> string" where
  "or_tool s = (if s = [] then ''tool'' else s)"

text \<open>\<open>s[:i]\<close> for a possibly negative index.\<close>

definition upto_index :: "int \<Rightarrow> string \<Rightarrow> string" where
  "upto_index i s = (if 0 \<le> i then take (nat i) s else take (length s - nat (- i)) s)"

definition base_name :: "string \<Rightarrow> string" where
  "base_name name =
     (let base = or_tool (if llm_safe_match name then name else strip_us (collapse False name))
      in if length base > MAX_TOOL_NAME_LEN then or_tool (rstrip_us (take (MAX_TOOL_NAME_LEN - 4) base)) else base)"

definition suffixed :: "string \<Rightarrow> nat \<Rightarrow> string" where
  "suffixed base suffix =
     (let extra = CHR ''_'' # dec suffix
      in or_tool (rstrip_us (upto_index (int MAX_TOOL_NAME_LEN - int (length extra)) base)) @ extra)"

text \<open>The number after the last underscore of a name that ends in one.\<close>

definition suffix_of :: "string \<Rightarrow> nat" where
  "suffix_of s = (case parse_nat (rpartition_tail (CHR ''_'') s) of None \<Rightarrow> 0 | Some n \<Rightarrow> n)"

lemma suffix_of_suffixed [simp]: "suffix_of (suffixed base n) = n"
proof -
  have "CHR ''_'' \<notin> set (dec n)"
    using dec_digits [of "CHR ''_''" n] by (auto dest: digit_val_SomeD)
  then have us: "takeWhile (\<lambda>x. x \<noteq> CHR ''_'') (rev (dec n) @ CHR ''_'' # t) = rev (dec n)" for t
    by (subst takeWhile_append2) auto
  have "rpartition_tail (CHR ''_'') (stem @ CHR ''_'' # dec n) = dec n" for stem
    by (simp add: rpartition_tail_def us)
  then show ?thesis by (simp add: suffix_of_def suffixed_def parse_nat_dec Let_def)
qed

definition later_used :: "string list \<Rightarrow> nat \<Rightarrow> nat" where
  "later_used used n = card {x \<in> set used. n \<le> suffix_of x}"

lemma later_used_less: "suffixed base n \<in> set used \<Longrightarrow> later_used used (Suc n) < later_used used n"
  unfolding later_used_def
proof (rule psubset_card_mono)
  assume "suffixed base n \<in> set used"
  then have "suffixed base n \<in> {x \<in> set used. n \<le> suffix_of x} - {x \<in> set used. Suc n \<le> suffix_of x}" by simp
  then show "{x \<in> set used. Suc n \<le> suffix_of x} \<subset> {x \<in> set used. n \<le> suffix_of x}" by fastforce
qed simp

text \<open>The loop over suffixes ends because each try that is taken names another used name.\<close>

function next_name :: "string \<Rightarrow> string list \<Rightarrow> nat \<Rightarrow> string" where
  "next_name base used suffix =
     (if suffixed base suffix \<in> set used then next_name base used (Suc suffix) else suffixed base suffix)"
  by pat_completeness auto
termination
  by (relation "measure (\<lambda>(base, used, suffix). later_used used suffix)") (auto simp: later_used_less)

declare next_name.simps [simp del]

definition sanitize_tool_name :: "string \<Rightarrow> string list \<Rightarrow> string \<times> string list" where
  "sanitize_tool_name name used =
     (let base = base_name name;
          candidate = (if base \<in> set used then next_name base used 2 else base)
      in (candidate, candidate # used))"

fun exposed_names :: "string list \<Rightarrow> string list \<Rightarrow> string list" where
  "exposed_names used [] = []"
| "exposed_names used (n # ns) =
     (case sanitize_tool_name n used of (c, used') \<Rightarrow> c # exposed_names used' ns)"

text \<open>\<open>endswith\<close> and the allowlist; an empty list is no restriction.\<close>

definition ends_with :: "string \<Rightarrow> string \<Rightarrow> bool" where
  "ends_with s t = (length t \<le> length s \<and> drop (length s - length t) s = t)"

definition tool_allowed :: "string \<Rightarrow> string list \<Rightarrow> bool" where
  "tool_allowed name allowed =
     (allowed = [] \<or> list_ex (\<lambda>entry. name = entry \<or> ends_with name (CHR ''_'' # entry)) allowed)"

subsection \<open>Shown names are safe and unique\<close>

lemma next_name_fresh: "next_name base used n \<notin> set used"
  by (induction base used n rule: next_name.induct) (subst next_name.simps, simp)

lemma next_name_suffix:
  "\<exists>m. next_name base used n = suffixed base m \<and> n \<le> m \<and> m \<le> n + later_used used n"
proof (induction base used n rule: next_name.induct)
  case (1 base used n)
  show ?case
  proof (cases "suffixed base n \<in> set used")
    case True
    then show ?thesis using "1.IH" [OF True] later_used_less [OF True] by (subst next_name.simps) fastforce
  next
    case False
    then show ?thesis by (subst next_name.simps) auto
  qed
qed

lemma later_used_bound: "later_used used n \<le> length used"
  unfolding later_used_def by (rule order_trans [OF card_mono card_length]) auto

lemma length_dec: "n < 10 ^ k \<Longrightarrow> 0 < k \<Longrightarrow> length (dec n) \<le> k"
proof (induction n arbitrary: k rule: dec.induct)
  case (1 n)
  show ?case
  proof (cases "n < 10")
    case False
    with "1.prems" obtain j where k: "k = Suc j" "0 < j" by (cases k; cases "k - 1") auto
    then have "n div 10 < 10 ^ j" using "1.prems" by (simp add: div_less_iff_less_mult mult.commute)
    from "1.IH" [OF False this k(2)] False k show ?thesis by (simp add: dec.simps [of n])
  qed (use "1.prems" in \<open>simp add: dec.simps [of n]\<close>)
qed

lemma dec_name_char: "c \<in> set (dec n) \<Longrightarrow> name_char c"
  using dec_digits [of c n] digit_alnum [of c] by (auto simp: name_char_def is_digit_def)

lemma collapse_safe: "list_all name_char (collapse b s)"
  by (induction b s rule: collapse.induct) (auto simp: name_char_def)

lemma strip_us_subset: "set (strip_us s) \<subseteq> set s" "set (rstrip_us s) \<subseteq> set s" "length (rstrip_us s) \<le> length s"
  by (auto simp: strip_us_def rstrip_us_def dest!: set_dropWhileD) (metis length_dropWhile_le length_rev)

lemma or_tool_safe: "list_all name_char s \<Longrightarrow> list_all name_char (or_tool s) \<and> or_tool s \<noteq> []"
  by (simp add: or_tool_def name_char_def alnum_def)

lemma base_name_safe:
  assumes "name = [] \<or> last name \<noteq> CHR 0x0A"
  shows "llm_safe (base_name name)"
proof -
  let ?b = "or_tool (if llm_safe_match name then name else strip_us (collapse False name))"
  have "list_all name_char (if llm_safe_match name then name else strip_us (collapse False name))"
    using assms collapse_safe [of False name] strip_us_subset(1) [of "collapse False name"]
    by (auto simp: llm_safe_match_def llm_safe_def list_all_iff)
  then have b: "list_all name_char ?b" "?b \<noteq> []" using or_tool_safe by blast+
  let ?t = "rstrip_us (take (MAX_TOOL_NAME_LEN - 4) ?b)"
  have "list_all name_char ?t"
    using b(1) strip_us_subset(2) [of "take (MAX_TOOL_NAME_LEN - 4) ?b"] set_take_subset [of "MAX_TOOL_NAME_LEN - 4" ?b]
    unfolding list_all_iff by blast
  then have t: "list_all name_char (or_tool ?t)" "or_tool ?t \<noteq> []" using or_tool_safe by blast+
  have "length (or_tool ?t) \<le> MAX_TOOL_NAME_LEN"
    using strip_us_subset(3) [of "take (MAX_TOOL_NAME_LEN - 4) ?b"] by (auto simp: or_tool_def MAX_TOOL_NAME_LEN_def)
  with b t show ?thesis by (auto simp: base_name_def Let_def llm_safe_def)
qed

lemma suffixed_safe:
  assumes "list_all name_char base" and "length (dec n) \<le> 59"
  shows "llm_safe (suffixed base n)"
proof -
  let ?i = "int MAX_TOOL_NAME_LEN - int (length (CHR ''_'' # dec n))"
  let ?s = "rstrip_us (upto_index ?i base)"
  have i: "4 \<le> ?i" using assms(2) by (simp add: MAX_TOOL_NAME_LEN_def)
  have "set ?s \<subseteq> set base"
    using strip_us_subset(2) [of "upto_index ?i base"] by (auto simp: upto_index_def dest: in_set_takeD split: if_splits)
  then have "list_all name_char ?s" using assms(1) by (auto simp: list_all_iff)
  note safe = or_tool_safe [OF this]
  have "length (upto_index ?i base) \<le> nat ?i" using i by (simp add: upto_index_def)
  then have "int (length ?s) \<le> ?i" using i strip_us_subset(3) [of "upto_index ?i base"] by linarith
  then have "int (length (or_tool ?s)) \<le> ?i" using i by (simp add: or_tool_def)
  then show ?thesis
    using safe dec_name_char by (auto simp: suffixed_def llm_safe_def Let_def list_all_iff name_char_def MAX_TOOL_NAME_LEN_def)
qed

lemma sanitized_fresh:
  assumes "sanitize_tool_name name used = (c, used')"
  shows "c \<notin> set used" "used' = c # used"
  using assms next_name_fresh by (auto simp: sanitize_tool_name_def Let_def split: if_splits)

lemma sanitized_safe:
  assumes "sanitize_tool_name name used = (c, used')" and "name = [] \<or> last name \<noteq> CHR 0x0A" and "length used + 2 < 10 ^ 59"
  shows "llm_safe c"
proof -
  have base: "llm_safe (base_name name)" by (rule base_name_safe [OF assms(2)])
  obtain m where m: "next_name (base_name name) used 2 = suffixed (base_name name) m" "m \<le> 2 + later_used used 2"
    using next_name_suffix [of "base_name name" used 2] by auto
  then have "m < 10 ^ 59" using later_used_bound [of used 2] assms(3) by linarith
  then have "length (dec m) \<le> 59" by (rule length_dec) simp
  with base have "llm_safe (suffixed (base_name name) m)" by (intro suffixed_safe) (simp_all add: llm_safe_def)
  with base m assms(1) show "llm_safe c" by (auto simp: sanitize_tool_name_def Let_def split: if_splits)
qed

text \<open>
  However the servers name their tools, the shown names of a catalogue are pairwise distinct, one for
  each tool; and the name shown for a tool is non-empty, at most 64 characters and made of letters,
  digits, underscores and hyphens, unless the tool's own name ends in a newline.
\<close>

definition safe_unless_newline :: "string \<Rightarrow> string \<Rightarrow> bool" where
  "safe_unless_newline name shown = ((name = [] \<or> last name \<noteq> CHR 0x0A) \<longrightarrow> llm_safe shown)"

lemma exposed_names_props:
  assumes "length used + length names + 2 < 10 ^ 59"
  shows "list_all2 safe_unless_newline names (exposed_names used names) \<and> distinct (exposed_names used names)
    \<and> set (exposed_names used names) \<inter> set used = {}"
  using assms
proof (induction names arbitrary: used)
  case (Cons n ns)
  obtain c used' where c: "sanitize_tool_name n used = (c, used')" by (cases "sanitize_tool_name n used")
  have "safe_unless_newline n c" using sanitized_safe [OF c] Cons.prems by (simp add: safe_unless_newline_def)
  with sanitized_fresh [OF c] Cons.IH [of used'] Cons.prems c show ?case by auto
qed simp

lemma exposed_names_safe:
  assumes "length names < 10 ^ 50"
  shows "list_all2 safe_unless_newline names (exposed_names [] names) \<and> distinct (exposed_names [] names)"
  using exposed_names_props [of "[]" names] assms by simp

text \<open>A name that ends in a newline is shown unchanged.\<close>

lemma newline_name_shown: "exposed_names [] [''a'' @ [CHR 0x0A]] = [''a'' @ [CHR 0x0A]] \<and> \<not> llm_safe (''a'' @ [CHR 0x0A])"
  by code_simp

end
