(* ===== verification/Mcp_Loader.thy ===== *)
theory Mcp_Loader
  imports Mcp_Names Run_Config "HOL-Library.List_Lexorder" "HOL-Library.Char_ord"
begin

text \<open>
  Tools of MCP servers for graphs (\<^verbatim>\<open>repo/graphs/mcp_loader.py\<close>, \<^verbatim>\<open>mcp_apps.py\<close>): resolution of
  server names over the user tier, environment overrides and the registry, the loading of tools
  with allowlists and safe names, the keys of the breakers, and the cache of loaded tools.  The
  handshake with a server (behind its breaker) and the hash of a fingerprint are arguments; the
  environment is given with its values parsed.
\<close>

subsection \<open>Connections\<close>

text \<open>
  The \<open>auth\<close> object of a connection is represented by the arguments of \<open>build_oauth_auth\<close>: the
  user, the connection and the server it was built for.
\<close>

type_synonym oauth = "user_id \<times> string \<times> string"

record mcp_spec =
  sp_connection :: dict
  sp_auth :: "oauth option"
  sp_allowed :: "json list"

definition ALLOWED_TOOLS_KEY :: string where "ALLOWED_TOOLS_KEY = ''allowed_tools''"

text \<open>\<open>tuple(declared or ())\<close>: entries of any type are kept; a number or a true boolean raises.\<close>

definition names_of_json :: "json \<Rightarrow> json list result" where
  "names_of_json j =
     (if \<not> json_truthy j then Inr []
      else (case j of
              JList xs \<Rightarrow> Inr xs
            | JStr s \<Rightarrow> Inr (map (\<lambda>c. JStr [c]) s)
            | JObj kvs \<Rightarrow> Inr (map (JStr \<circ> fst) kvs)
            | _ \<Rightarrow> Inl TypeError))"

definition spec_of :: "dict \<Rightarrow> oauth option \<Rightarrow> string list option \<Rightarrow> mcp_spec result" where
  "spec_of conn auth allowed =
     (let declared = (case map_of conn ALLOWED_TOOLS_KEY of None \<Rightarrow> JNull | Some j \<Rightarrow> j)
      in bind_res (case allowed of Some names \<Rightarrow> Inr (map JStr names) | None \<Rightarrow> names_of_json declared) (\<lambda>names.
           Inr \<lparr>sp_connection = AList.delete ALLOWED_TOOLS_KEY conn, sp_auth = auth, sp_allowed = names\<rparr>))"

definition server_name_char :: "char \<Rightarrow> bool" where
  "server_name_char c =
     (let n = (of_char c :: nat) in (97 \<le> n \<and> n \<le> 122) \<or> (48 \<le> n \<and> n \<le> 57) \<or> c = CHR ''-'')"

definition server_name_ok :: "string \<Rightarrow> bool" where
  "server_name_ok s =
     (let body = (if s \<noteq> [] \<and> last s = CHR 0x0A then butlast s else s)
      in body \<noteq> [] \<and> list_all server_name_char body)"

definition TRANSPORT_REQUIRED_KEYS :: "(string \<times> string list) list" where
  "TRANSPORT_REQUIRED_KEYS =
     [(''stdio'', [''command'']), (''sse'', [''url'']), (''streamable_http'', [''url'']), (''websocket'', [''url''])]"

datatype conn_problem = BadName | NotAnObject | NoTransport | UnknownTransport | MissingKey string | BadScheme

definition missing_keys :: "dict \<Rightarrow> string list \<Rightarrow> conn_problem list" where
  "missing_keys d keys = map MissingKey (filter (\<lambda>k. \<not> json_truthy (case map_of d k of None \<Rightarrow> JNull | Some v \<Rightarrow> v)) keys)"

definition check_scheme :: "string \<Rightarrow> dict \<Rightarrow> conn_problem list result" where
  "check_scheme transport d =
     (case map_of d ''url'' of
        Some (JStr url) \<Rightarrow>
          if transport = ''stdio'' then Inr []
          else (case split_netloc url of (scheme, netloc, _) \<Rightarrow>
                  if bad_netloc netloc then Inl ValueError
                  else Inr (if scheme \<in> {''http'', ''https'', ''ws'', ''wss''} then [] else [BadScheme]))
      | _ \<Rightarrow> Inr [])"

definition validate_connection_dict :: "string \<Rightarrow> json \<Rightarrow> conn_problem list result" where
  "validate_connection_dict name conn =
     (let problems = (if server_name_ok name then [] else [BadName])
      in case conn of
           JObj d \<Rightarrow>
             (let transport = (case map_of d ''transport'' of None \<Rightarrow> JNull | Some v \<Rightarrow> v)
              in if \<not> json_truthy transport then Inr (problems @ [NoTransport])
                 else
                   (case transport of
                      JList _ \<Rightarrow> Inl TypeError
                    | JObj _ \<Rightarrow> Inl TypeError
                    | JStr t \<Rightarrow>
                        (case map_of TRANSPORT_REQUIRED_KEYS t of
                           None \<Rightarrow> Inr (problems @ [UnknownTransport])
                         | Some keys \<Rightarrow>
                             bind_res (check_scheme t d) (\<lambda>schemes. Inr (problems @ missing_keys d keys @ schemes)))
                    | _ \<Rightarrow> Inr (problems @ [UnknownTransport])))
         | _ \<Rightarrow> Inr [NotAnObject])"

subsection \<open>Resolution\<close>

datatype env_value = Unset | NotJson | Parsed json

record mcp_env =
  me_override :: "string \<Rightarrow> env_value"
  me_registry :: dict
  me_executable :: string
  me_digest :: "json \<Rightarrow> string"
  me_str :: "json \<Rightarrow> string"
  MCP_APPS_ENABLED :: bool
  MCP_TOOL_AUTHZ_ENABLED :: bool
  me_interceptor_factory :: bool
  MCP_USER_TOOLS_CACHE_TTL_SECS :: int

definition replace_char :: "char \<Rightarrow> char \<Rightarrow> string \<Rightarrow> string" where
  "replace_char a b = map (\<lambda>c. if c = a then b else c)"

definition override_prefix :: string where "override_prefix = ''MCP_SERVER__''"

definition override_var :: "string \<Rightarrow> string" where
  "override_var name = override_prefix @ replace_char (CHR ''-'') (CHR ''_'') (py_upper name)"

definition registry_entry :: "mcp_env \<Rightarrow> string \<Rightarrow> mcp_spec option result" where
  "registry_entry env name =
     (case map_of (me_registry env) name of
        None \<Rightarrow> Inr None
      | Some conn \<Rightarrow>
          bind_res (validate_connection_dict name conn) (\<lambda>problems.
            case conn of
              JObj d \<Rightarrow> if problems = [] then bind_res (spec_of d None None) (\<lambda>s. Inr (Some s)) else Inr None
            | _ \<Rightarrow> Inr None))"

definition resolve_registry_entry :: "mcp_env \<Rightarrow> string \<Rightarrow> mcp_spec option result" where
  "resolve_registry_entry env name =
     (case me_override env (override_var name) of
        Parsed (JObj d) \<Rightarrow>
          bind_res (validate_connection_dict name (JObj d)) (\<lambda>problems.
            if problems = [] then bind_res (spec_of d None None) (\<lambda>s. Inr (Some s)) else registry_entry env name)
      | _ \<Rightarrow> registry_entry env name)"

definition normalize_command :: "string \<Rightarrow> mcp_spec \<Rightarrow> mcp_spec" where
  "normalize_command exe spec =
     (if map_of (sp_connection spec) ''command'' = Some (JStr ''python'')
      then spec\<lparr>sp_connection := AList.update ''command'' (JStr exe) (sp_connection spec)\<rparr> else spec)"

type_synonym connections = "(string \<times> mcp_spec) list"

fun resolve_names :: "(string \<Rightarrow> mcp_spec option result) \<Rightarrow> string list \<Rightarrow> connections \<Rightarrow> connections result" where
  "resolve_names entry [] conns = Inr conns"
| "resolve_names entry (n # ns) conns =
     bind_res (entry n) (\<lambda>s. resolve_names entry ns (case s of None \<Rightarrow> conns | Some spec \<Rightarrow> AList.update n spec conns))"

definition normalize_commands :: "mcp_env \<Rightarrow> connections \<Rightarrow> connections" where
  "normalize_commands env = map (\<lambda>(n, s). (n, normalize_command (me_executable env) s))"

definition resolve_mcp_connections :: "mcp_env \<Rightarrow> string list \<Rightarrow> connections result" where
  "resolve_mcp_connections env servers =
     bind_res (resolve_names (resolve_registry_entry env) servers []) (\<lambda>c. Inr (normalize_commands env c))"

text \<open>
  The user tier is a map in which \<open>None\<close> is an explicit block; a provider that raises (the value
  \<open>None\<close>) counts as an empty map.
\<close>

type_synonym user_map = "(string \<times> mcp_spec option) list"

definition user_tier :: "(user_id \<Rightarrow> user_map option) option \<Rightarrow> user_id option \<Rightarrow> user_map" where
  "user_tier provider uid =
     (case provider of
        Some p \<Rightarrow> if truthy_str uid then (case p (the uid) of None \<Rightarrow> [] | Some m \<Rightarrow> m) else []
      | None \<Rightarrow> [])"

definition tiered_entry :: "mcp_env \<Rightarrow> user_map \<Rightarrow> string \<Rightarrow> mcp_spec option result" where
  "tiered_entry env user_connections name =
     (case map_of user_connections name of
        Some s \<Rightarrow> Inr s
      | None \<Rightarrow> resolve_registry_entry env name)"

definition aresolve_mcp_connections ::
  "mcp_env \<Rightarrow> string list \<Rightarrow> user_id option \<Rightarrow> (user_id \<Rightarrow> user_map option) option \<Rightarrow> connections result"
where
  "aresolve_mcp_connections env servers uid provider =
     bind_res (resolve_names (tiered_entry env (user_tier provider uid)) servers []) (\<lambda>c. Inr (normalize_commands env c))"

definition env_override_names :: "string list \<Rightarrow> string list" where
  "env_override_names vars =
     map (\<lambda>v. replace_char (CHR ''_'') (CHR ''-'') (py_lower (drop (length override_prefix) v)))
       (filter (\<lambda>v. take (length override_prefix) v = override_prefix) vars)"

subsection \<open>Fingerprints and breakers\<close>

definition FINGERPRINT_KEYS :: "string list" where
  "FINGERPRINT_KEYS = [''transport'', ''url'', ''headers'', ''command'', ''args'', ''env'']"

definition spec_fingerprint :: "mcp_spec \<Rightarrow> json" where
  "spec_fingerprint spec =
     JObj (List.map_filter (\<lambda>k. map_option (Pair k) (map_of (sp_connection spec) k)) FINGERPRINT_KEYS
           @ [(ALLOWED_TOOLS_KEY, JList (sp_allowed spec))])"

definition fingerprint_payload :: "connections \<Rightarrow> json" where
  "fingerprint_payload conns = JObj (map (\<lambda>(n, s). (n, spec_fingerprint s)) (sort_key fst conns))"

definition fingerprint_connections :: "mcp_env \<Rightarrow> connections \<Rightarrow> string" where
  "fingerprint_connections env conns = me_digest env (fingerprint_payload conns)"

definition breaker_key :: "mcp_env \<Rightarrow> string \<Rightarrow> dict \<Rightarrow> string result" where
  "breaker_key env name conn =
     bind_res (spec_of conn None None) (\<lambda>s. Inr (''mcp:'' @ name @ '':'' @ fingerprint_connections env [(name, s)]))"

text \<open>The registry of breakers: each key with the name of its server.\<close>

type_synonym breakers = "(string \<times> string) list"

definition mcp_breaker :: "mcp_env \<Rightarrow> string \<Rightarrow> dict \<Rightarrow> breakers \<Rightarrow> (string \<times> breakers) result" where
  "mcp_breaker env name conn bs =
     bind_res (breaker_key env name conn) (\<lambda>key.
       Inr (key, if map_of bs key = None then bs @ [(key, name)] else bs))"

fun breaker_states :: "(string \<Rightarrow> 's) \<Rightarrow> ('s \<Rightarrow> bool) \<Rightarrow> breakers \<Rightarrow> (string \<times> 's) list \<Rightarrow> (string \<times> 's) list" where
  "breaker_states snapshot is_open [] states = states"
| "breaker_states snapshot is_open ((key, name) # bs) states =
     breaker_states snapshot is_open bs
       (case map_of states name of
          None \<Rightarrow> AList.update name (snapshot key) states
        | Some current \<Rightarrow>
            if is_open (snapshot key) \<and> \<not> is_open current then AList.update name (snapshot key) states else states)"

definition get_mcp_breaker_states :: "(string \<Rightarrow> 's) \<Rightarrow> ('s \<Rightarrow> bool) \<Rightarrow> breakers \<Rightarrow> (string \<times> 's) list" where
  "get_mcp_breaker_states snapshot is_open bs = breaker_states snapshot is_open bs []"

subsection \<open>Loading\<close>

text \<open>\<open>_fix_stringified_json_args\<close>; \<open>loads\<close> is the JSON parser, \<open>None\<close> where it raises.\<close>

definition expects_string :: "json \<Rightarrow> bool" where
  "expects_string expected =
     (case expected of JStr s \<Rightarrow> s = ''string'' | JList xs \<Rightarrow> JStr ''string'' \<in> set xs | _ \<Rightarrow> False)"

definition fix_arg :: "(string \<Rightarrow> json option) \<Rightarrow> dict \<Rightarrow> string \<times> json \<Rightarrow> (string \<times> json) result" where
  "fix_arg loads schema_props kv =
     (case snd kv of
        JStr s \<Rightarrow>
          (case (case map_of schema_props (fst kv) of None \<Rightarrow> JObj [] | Some p \<Rightarrow> p) of
             JObj prop \<Rightarrow>
               Inr (fst kv,
                 if expects_string (case map_of prop ''type'' of None \<Rightarrow> JStr [] | Some t \<Rightarrow> t) then JStr s
                 else (case loads s of
                         Some (JObj d) \<Rightarrow> JObj d | Some (JList xs) \<Rightarrow> JList xs | _ \<Rightarrow> JStr s))
           | _ \<Rightarrow> Inl AttributeError)
      | _ \<Rightarrow> Inr kv)"

definition fix_stringified_json_args :: "(string \<Rightarrow> json option) \<Rightarrow> dict \<Rightarrow> dict \<Rightarrow> dict result" where
  "fix_stringified_json_args loads schema_props kwargs =
     (if schema_props = [] then Inr kwargs else map_res (fix_arg loads schema_props) kwargs)"

text \<open>The allowlist of a connection; \<open>py_str\<close> is the text of an entry that is not a string.\<close>

definition entry_text :: "(json \<Rightarrow> string) \<Rightarrow> json \<Rightarrow> string" where
  "entry_text py_str entry = (case entry of JStr s \<Rightarrow> s | _ \<Rightarrow> py_str entry)"

definition spec_allows :: "(json \<Rightarrow> string) \<Rightarrow> string \<Rightarrow> mcp_spec \<Rightarrow> bool" where
  "spec_allows py_str name spec =
     (sp_allowed spec = []
      \<or> list_ex (\<lambda>entry. JStr name = entry \<or> ends_with name (CHR ''_'' # entry_text py_str entry)) (sp_allowed spec))"

lemma spec_allows_names: "sp_allowed spec = map JStr names \<Longrightarrow> spec_allows py_str n spec = tool_allowed n names"
  by (auto simp: spec_allows_def tool_allowed_def entry_text_def list_ex_iff)

text \<open>A tool as the adapter returns it: bound to the connection it opens a session with.\<close>

record loaded_tool =
  lt_name :: string
  lt_metadata :: "dict option"
  lt_server :: string
  lt_connection :: dict
  lt_auth :: "oauth option"
  lt_interceptor :: "user_id option option"

record exposed_tool =
  et_name :: string
  et_metadata :: "dict option"
  et_inner :: loaded_tool

type_synonym handshake = "string \<Rightarrow> dict \<Rightarrow> oauth option \<Rightarrow> (string \<times> dict option) list option"

definition get_tool_ui_meta :: "dict option \<Rightarrow> dict result" where
  "get_tool_ui_meta metadata =
     (let meta = (case metadata of None \<Rightarrow> JNull | Some m \<Rightarrow> (case map_of m ''_meta'' of None \<Rightarrow> JNull | Some j \<Rightarrow> j))
      in if \<not> json_truthy meta then Inr []
         else (case meta of
                 JObj d \<Rightarrow>
                   (case map_of d ''ui'' of
                      Some (JObj ui) \<Rightarrow> Inr ui
                    | _ \<Rightarrow>
                        (case map_of d ''ui/resourceUri'' of
                           None \<Rightarrow> Inr []
                         | Some legacy \<Rightarrow> Inr (if json_truthy legacy then [(''resourceUri'', legacy)] else [])))
               | _ \<Rightarrow> Inl AttributeError))"

definition is_model_facing :: "loaded_tool \<Rightarrow> bool result" where
  "is_model_facing tool =
     bind_res (get_tool_ui_meta (lt_metadata tool)) (\<lambda>ui.
       Inr (case map_of ui ''visibility'' of Some (JList vs) \<Rightarrow> JStr ''model'' \<in> set vs | _ \<Rightarrow> True))"

definition filter_model_facing_tools :: "loaded_tool list \<Rightarrow> loaded_tool list result" where
  "filter_model_facing_tools tools =
     bind_res (map_res (\<lambda>t. bind_res (is_model_facing t) (\<lambda>b. Inr (t, b))) tools) (\<lambda>tbs. Inr (map fst (filter snd tbs)))"

definition wrap_with_args_fixer :: "loaded_tool \<Rightarrow> string \<Rightarrow> exposed_tool" where
  "wrap_with_args_fixer tool exposed_name =
     (let metadata = (case lt_metadata tool of None \<Rightarrow> [] | Some m \<Rightarrow> m);
          metadata = (if exposed_name \<noteq> lt_name tool then AList.update ''original_tool_name'' (JStr (lt_name tool)) metadata
                      else metadata)
      in \<lparr>et_name = exposed_name, et_metadata = (if metadata = [] then None else Some metadata), et_inner = tool\<rparr>)"

definition server_tools :: "(json \<Rightarrow> string) \<Rightarrow> handshake \<Rightarrow> user_id option option \<Rightarrow> string \<times> mcp_spec \<Rightarrow> loaded_tool list" where
  "server_tools py_str hs interceptor ns =
     (case ns of (name, spec) \<Rightarrow>
        (case hs name (sp_connection spec) (sp_auth spec) of
           None \<Rightarrow> []
         | Some raw \<Rightarrow>
             map (\<lambda>(n, m). \<lparr>lt_name = n, lt_metadata = m, lt_server = name, lt_connection = sp_connection spec,
                            lt_auth = sp_auth spec, lt_interceptor = interceptor\<rparr>)
               (if sp_allowed spec = [] then raw else filter (\<lambda>(n, m). spec_allows py_str n spec) raw)))"

definition load_mcp_tools :: "mcp_env \<Rightarrow> handshake \<Rightarrow> connections \<Rightarrow> user_id option \<Rightarrow> exposed_tool list result" where
  "load_mcp_tools env hs conns uid =
     (if conns = [] then Inr []
      else
        (let interceptor = (if MCP_TOOL_AUTHZ_ENABLED env \<and> me_interceptor_factory env then Some uid else None);
             tools = concat (map (server_tools (me_str env) hs interceptor) conns)
         in bind_res (if MCP_APPS_ENABLED env then filter_model_facing_tools tools else Inr tools) (\<lambda>tools.
              Inr (map2 wrap_with_args_fixer tools (exposed_names [] (map lt_name tools))))))"

subsection \<open>The cache\<close>

type_synonym tools_cache = "((string \<times> string) \<times> time \<times> exposed_tool list) list"

definition cache_scope :: "mcp_env \<Rightarrow> user_id option \<Rightarrow> string" where
  "cache_scope env uid =
     (if MCP_TOOL_AUTHZ_ENABLED env then ''authz:'' @ (if truthy_str uid then the uid else ''system'') else ''shared'')"

definition cached_load_tools ::
  "mcp_env \<Rightarrow> handshake \<Rightarrow> time \<Rightarrow> connections \<Rightarrow> user_id option \<Rightarrow> tools_cache \<Rightarrow> exposed_tool list result \<times> tools_cache"
where
  "cached_load_tools env hs now conns uid cache =
     (if conns = [] then (Inr [], cache)
      else
        (let key = (cache_scope env uid, fingerprint_connections env conns);
             load = (case load_mcp_tools env hs conns uid of
                       Inl e \<Rightarrow> (Inl e, cache)
                     | Inr tools \<Rightarrow>
                         (Inr tools,
                          AList.update key (now + MCP_USER_TOOLS_CACHE_TTL_SECS env, tools)
                            (filter (\<lambda>(k, expires, _). now < expires) cache)))
         in case map_of cache key of
              Some (expires, tools) \<Rightarrow> if now < expires then (Inr tools, cache) else load
            | None \<Rightarrow> load))"

text \<open>The three factories of \<open>with_mcp_tools\<close>, up to the call of the builder with the tools.\<close>

definition user_factory ::
  "mcp_env \<Rightarrow> handshake \<Rightarrow> time \<Rightarrow> string list \<Rightarrow> (user_id \<Rightarrow> user_map option) \<Rightarrow> dict option \<Rightarrow> tools_cache
   \<Rightarrow> exposed_tool list result \<times> tools_cache"
where
  "user_factory env hs now servers provider config cache =
     (let uid = configurable_user_id config
      in case aresolve_mcp_connections env servers uid (Some provider) of
           Inl e \<Rightarrow> (Inl e, cache)
         | Inr conns \<Rightarrow> cached_load_tools env hs now conns uid cache)"

definition per_run_factory ::
  "mcp_env \<Rightarrow> handshake \<Rightarrow> time \<Rightarrow> string list \<Rightarrow> dict option \<Rightarrow> tools_cache \<Rightarrow> exposed_tool list result \<times> tools_cache"
where
  "per_run_factory env hs now servers config cache =
     (case resolve_mcp_connections env servers of
        Inl e \<Rightarrow> (Inl e, cache)
      | Inr conns \<Rightarrow> cached_load_tools env hs now conns (configurable_user_id config) cache)"

definition shared_factory ::
  "mcp_env \<Rightarrow> handshake \<Rightarrow> time \<Rightarrow> string list \<Rightarrow> tools_cache \<Rightarrow> exposed_tool list result \<times> tools_cache"
where
  "shared_factory env hs now servers cache =
     (case resolve_mcp_connections env servers of
        Inl e \<Rightarrow> (Inl e, cache)
      | Inr conns \<Rightarrow> cached_load_tools env hs now conns None cache)"


subsection \<open>Which server a name means\<close>

lemma map_of_resolve_names:
  "resolve_names entry ns conns = Inr c \<Longrightarrow>
   map_of c n = (if n \<in> set ns then (case entry n of Inr (Some s) \<Rightarrow> Some s | _ \<Rightarrow> map_of conns n) else map_of conns n)"
proof (induction ns arbitrary: conns)
  case (Cons m ns)
  then obtain s where s: "entry m = Inr s"
    "resolve_names entry ns (case s of None \<Rightarrow> conns | Some spec \<Rightarrow> AList.update m spec conns) = Inr c"
    by (auto dest!: bind_res_InrD)
  have "map_of (case s of None \<Rightarrow> conns | Some spec \<Rightarrow> AList.update m spec conns) n = (if n = m \<and> s \<noteq> None then s else map_of conns n)"
    by (cases s) (simp_all add: update_conv')
  with Cons.IH [OF s(2)] s(1) show ?case by (cases s) (auto split: sum.splits option.splits)
qed simp

lemma map_of_normalize: "map_of (normalize_commands env c) n = map_option (normalize_command (me_executable env)) (map_of c n)"
  unfolding normalize_commands_def by (induction c) auto

text \<open>
  Which server a graph talks to is decided by the declared names and the tiers.  A run
  reaches exactly the names its graph declared; where the user has a connection of that name it is
  the user's, where the user has disabled it there is none, and otherwise it is what the
  deployment configures, environment before registry.
\<close>

theorem resolution_precedence:
  assumes "aresolve_mcp_connections env servers uid provider = Inr conns"
  shows "map_of conns name =
    (if name \<notin> set servers then None
     else
       map_option (normalize_command (me_executable env))
         (case map_of (user_tier provider uid) name of
            Some s \<Rightarrow> s
          | None \<Rightarrow> (case resolve_registry_entry env name of Inr s \<Rightarrow> s | Inl _ \<Rightarrow> None)))"
proof -
  from assms obtain c where c: "resolve_names (tiered_entry env (user_tier provider uid)) servers [] = Inr c"
    and conns: "conns = normalize_commands env c"
    by (auto simp: aresolve_mcp_connections_def dest!: bind_res_InrD)
  show ?thesis
    unfolding conns map_of_normalize map_of_resolve_names [OF c]
    by (auto simp: tiered_entry_def split: option.splits sum.splits)
qed

definition example_mcp_env :: mcp_env where
  "example_mcp_env =
     \<lparr>me_override = (\<lambda>_. Unset),
      me_registry = [(''kb'', JObj [(''transport'', JStr ''stdio''), (''command'', JStr ''python'')])],
      me_executable = ''/usr/bin/python3'', me_digest = (\<lambda>_. ''d''), me_str = (\<lambda>_. []), MCP_APPS_ENABLED = False,
      MCP_TOOL_AUTHZ_ENABLED = True, me_interceptor_factory = True, MCP_USER_TOOLS_CACHE_TTL_SECS = 60\<rparr>"

definition kb_spec :: mcp_spec where
  "kb_spec = \<lparr>sp_connection = [(''transport'', JStr ''streamable_http''), (''url'', JStr ''https://kb/'')], sp_auth = None, sp_allowed = [JStr ''get'']\<rparr>"

theorem resolution_precedence_witness:
  "\<exists>conns. aresolve_mcp_connections example_mcp_env [''kb''] (Some ''alice'') (Some (\<lambda>_. Some [(''kb'', Some kb_spec), (''x'', Some kb_spec)]))
      = Inr conns \<and> map_of conns ''kb'' = Some kb_spec \<and> map_of conns ''x'' = None"
proof -
  let ?p = "Some (\<lambda>_ :: user_id. Some [(''kb'', Some kb_spec), (''x'', Some kb_spec)])"
  have tier: "user_tier ?p (Some ''alice'') = [(''kb'', Some kb_spec), (''x'', Some kb_spec)]" by (simp add: user_tier_def truthy_str_def)
  then obtain conns where c: "aresolve_mcp_connections example_mcp_env [''kb''] (Some ''alice'') ?p = Inr conns"
    by (simp add: aresolve_mcp_connections_def tiered_entry_def)
  have "normalize_command exe kb_spec = kb_spec" for exe by (simp add: normalize_command_def kb_spec_def)
  with c resolution_precedence [OF c, of "''kb''"] resolution_precedence [OF c, of "''x''"] show ?thesis by (simp add: tier)
qed

subsection \<open>The catalogue\<close>

lemma filter_model_facing:
  assumes "filter_model_facing_tools tools = Inr kept" and "t \<in> set kept"
  shows "t \<in> set tools \<and> is_model_facing t = Inr True"
proof -
  from assms(1) obtain tbs where tbs: "map_res (\<lambda>t. bind_res (is_model_facing t) (\<lambda>b. Inr (t, b))) tools = Inr tbs"
    and kept: "kept = map fst (filter snd tbs)"
    by (auto simp: filter_model_facing_tools_def dest!: bind_res_InrD)
  from kept assms(2) obtain i where i: "i < length tbs" "tbs ! i = (t, True)"
    by (auto simp: in_set_conv_nth)
  with map_res_InrD [OF tbs] have "i < length tools" "bind_res (is_model_facing (tools ! i)) (\<lambda>b. Inr (tools ! i, b)) = Inr (t, True)"
    by (auto simp: list_all2_conv_all_nth)
  then show ?thesis by (auto dest!: bind_res_InrD)
qed

definition well_bound :: "mcp_env \<Rightarrow> connections \<Rightarrow> user_id option \<Rightarrow> loaded_tool \<Rightarrow> bool" where
  "well_bound env conns uid t =
     (\<exists>spec. (lt_server t, spec) \<in> set conns \<and> lt_connection t = sp_connection spec \<and> lt_auth t = sp_auth spec
        \<and> spec_allows (me_str env) (lt_name t) spec
        \<and> lt_interceptor t = (if MCP_TOOL_AUTHZ_ENABLED env \<and> me_interceptor_factory env then Some uid else None))"

lemma server_tools_bound:
  assumes "t \<in> set (server_tools py_str hs interceptor (name, spec))"
  shows "lt_server t = name \<and> lt_connection t = sp_connection spec \<and> lt_auth t = sp_auth spec \<and> lt_interceptor t = interceptor
    \<and> spec_allows py_str (lt_name t) spec"
  using assms by (auto simp: server_tools_def spec_allows_def split: option.splits if_splits)

lemma map2_wrap:
  "length names = length tools \<Longrightarrow>
   map et_name (map2 wrap_with_args_fixer tools names) = names \<and> map et_inner (map2 wrap_with_args_fixer tools names) = tools"
  by (induction names tools rule: list_induct2) (simp_all add: wrap_with_args_fixer_def Let_def)

lemma length_exposed_names [simp]: "length (exposed_names used ns) = length ns"
  by (induction ns arbitrary: used) (auto split: prod.split)

text \<open>Unless there are no connections, a load renames the tools of the handshakes that are meant for models.\<close>

lemma load_shape:
  assumes "load_mcp_tools env hs conns uid = Inr tools" and "conns \<noteq> []"
  obtains raw where "tools = map2 wrap_with_args_fixer raw (exposed_names [] (map lt_name raw))"
    and "\<And>t. t \<in> set raw \<Longrightarrow> well_bound env conns uid t \<and> (MCP_APPS_ENABLED env \<longrightarrow> is_model_facing t = Inr True)"
proof -
  let ?i = "if MCP_TOOL_AUTHZ_ENABLED env \<and> me_interceptor_factory env then Some uid else None"
  let ?all = "concat (map (server_tools (me_str env) hs ?i) conns)"
  from assms obtain raw where raw: "(if MCP_APPS_ENABLED env then filter_model_facing_tools ?all else Inr ?all) = Inr raw"
    and tools: "tools = map2 wrap_with_args_fixer raw (exposed_names [] (map lt_name raw))"
    by (auto simp: load_mcp_tools_def Let_def dest!: bind_res_InrD)
  have mem: "t \<in> set ?all \<and> (MCP_APPS_ENABLED env \<longrightarrow> is_model_facing t = Inr True)" if "t \<in> set raw" for t
  proof (cases "MCP_APPS_ENABLED env")
    case True
    then have "filter_model_facing_tools ?all = Inr raw" using raw by (simp only: if_True)
    from filter_model_facing [OF this that] show ?thesis by blast
  next
    case False
    then have "raw = ?all" using raw by (simp only: if_False sum.inject)
    with that False show ?thesis by (simp only: simp_thms)
  qed
  moreover have "well_bound env conns uid t" if "t \<in> set raw" for t
    using mem [OF that] server_tools_bound [of t "me_str env" hs ?i] by (fastforce simp: well_bound_def)
  ultimately show ?thesis using that [OF tools] by blast
qed

lemma wrapped_names:
  "map et_name (map2 wrap_with_args_fixer raw (exposed_names [] (map lt_name raw))) = exposed_names [] (map lt_name raw)
   \<and> map et_inner (map2 wrap_with_args_fixer raw (exposed_names [] (map lt_name raw))) = raw"
  by (rule map2_wrap) simp

lemma loaded_tools_bound:
  assumes "load_mcp_tools env hs conns uid = Inr tools" and "t \<in> set tools"
  shows "well_bound env conns uid (et_inner t) \<and> (MCP_APPS_ENABLED env \<longrightarrow> is_model_facing (et_inner t) = Inr True)"
proof -
  have "conns \<noteq> []" using assms by (auto simp: load_mcp_tools_def)
  from load_shape [OF assms(1) this] obtain raw
    where tools: "tools = map2 wrap_with_args_fixer raw (exposed_names [] (map lt_name raw))"
      and raw: "\<And>t. t \<in> set raw \<Longrightarrow> well_bound env conns uid t \<and> (MCP_APPS_ENABLED env \<longrightarrow> is_model_facing t = Inr True)"
    by blast
  have "et_inner t \<in> set (map et_inner tools)" using assms(2) by simp
  then have "et_inner t \<in> set raw" using wrapped_names [of raw, folded tools] by simp
  then show ?thesis by (rule raw)
qed

text \<open>
  Claim C29.  The catalogue of a fresh load, before the cache (which tools a cache serves is the
  subject of another claim).  Every tool is bound to a resolved connection with that connection's own
  credentials, passes its allowlist, carries the acting user's interceptor when tool calls are
  authorised and an interceptor factory is registered, and is meant for models when apps are
  supported; the shown names are pairwise distinct, and each is legal for function calling unless
  the server's own name for that tool ends in a newline.
\<close>

theorem loaded_catalogue:
  assumes "load_mcp_tools env hs conns uid = Inr tools" and "length tools < 10 ^ 50"
  shows "(\<forall>t \<in> set tools. well_bound env conns uid (et_inner t)
      \<and> (MCP_APPS_ENABLED env \<longrightarrow> is_model_facing (et_inner t) = Inr True)
      \<and> (lt_name (et_inner t) = [] \<or> last (lt_name (et_inner t)) \<noteq> CHR 0x0A \<longrightarrow> llm_safe (et_name t)))
    \<and> distinct (map et_name tools)"
proof (cases "conns = []")
  case True
  with assms(1) show ?thesis by (simp add: load_mcp_tools_def)
next
  case False
  from load_shape [OF assms(1) False] obtain raw
    where tools: "tools = map2 wrap_with_args_fixer raw (exposed_names [] (map lt_name raw))" by blast
  note wrapped = wrapped_names [of raw, folded tools]
  have "length raw < 10 ^ 50" using assms(2) wrapped by (metis length_map)
  then have names: "list_all2 safe_unless_newline (map lt_name raw) (map et_name tools)" "distinct (map et_name tools)"
    using exposed_names_safe [of "map lt_name raw"] wrapped by simp_all
  have "raw = map et_inner tools" using wrapped by simp
  then have "list_all (\<lambda>t. safe_unless_newline (lt_name (et_inner t)) (et_name t)) tools"
    using names(1) by (simp add: list_all2_conv_all_nth list_all_length)
  then show ?thesis using names(2) loaded_tools_bound [OF assms(1)] by (auto simp: list_all_iff safe_unless_newline_def)
qed

subsection \<open>What the cache serves\<close>

record load_request =
  q_now :: time
  q_conns :: connections
  q_user :: "user_id option"
  q_handshake :: handshake

definition serve :: "mcp_env \<Rightarrow> load_request \<Rightarrow> tools_cache \<Rightarrow> exposed_tool list result \<times> tools_cache" where
  "serve env q cache = cached_load_tools env (q_handshake q) (q_now q) (q_conns q) (q_user q) cache"

definition loads_as :: "mcp_env \<Rightarrow> load_request \<Rightarrow> exposed_tool list \<Rightarrow> bool" where
  "loads_as env q tools = (load_mcp_tools env (q_handshake q) (q_conns q) (q_user q) = Inr tools)"

definition request_key :: "mcp_env \<Rightarrow> load_request \<Rightarrow> string \<times> string" where
  "request_key env q = (cache_scope env (q_user q), fingerprint_connections env (q_conns q))"

definition acting_user :: "user_id option \<Rightarrow> user_id" where
  "acting_user uid = (if truthy_str uid then the uid else ''system'')"

definition cache_from :: "mcp_env \<Rightarrow> load_request list \<Rightarrow> tools_cache \<Rightarrow> bool" where
  "cache_from env past cache =
     (\<forall>key expires tools. (key, expires, tools) \<in> set cache \<longrightarrow>
        (\<exists>q \<in> set past. request_key env q = key \<and> expires = q_now q + MCP_USER_TOOLS_CACHE_TTL_SECS env \<and> loads_as env q tools))"

lemma cached_load_cases:
  assumes "fst (cached_load_tools env hs now conns uid cache) = Inr tools" and "conns \<noteq> []"
  shows "load_mcp_tools env hs conns uid = Inr tools
    \<or> (\<exists>expires. map_of cache (cache_scope env uid, fingerprint_connections env conns) = Some (expires, tools) \<and> now < expires)"
  using assms
  by (cases "load_mcp_tools env hs conns uid"; cases "map_of cache (cache_scope env uid, fingerprint_connections env conns)")
    (auto simp: cached_load_tools_def Let_def split: if_splits)

lemma set_update_subset: "set (AList.update k v al) \<subseteq> insert (k, v) (set al)"
  by (induction al) auto

lemma cache_from_serve:
  assumes "cache_from env past cache"
  shows "cache_from env (past @ [q]) (snd (serve env q cache))"
proof -
  have old: "cache_from env (past @ [q]) c" if "set c \<subseteq> set cache" for c
    using assms that unfolding cache_from_def by (metis (no_types, opaque_lifting) UnI1 set_append subsetD)
  have new: "cache_from env (past @ [q]) (AList.update (request_key env q) (q_now q + MCP_USER_TOOLS_CACHE_TTL_SECS env, tools) c)"
    if l: "loads_as env q tools" and c: "set c \<subseteq> set cache" for c tools
    unfolding cache_from_def
  proof (intro allI impI)
    fix key expires ts
    assume "(key, expires, ts) \<in> set (AList.update (request_key env q) (q_now q + MCP_USER_TOOLS_CACHE_TTL_SECS env, tools) c)"
    then consider "(key, expires, ts) \<in> set c"
      | "key = request_key env q" "expires = q_now q + MCP_USER_TOOLS_CACHE_TTL_SECS env" "ts = tools"
      using set_update_subset [of "request_key env q" "(q_now q + MCP_USER_TOOLS_CACHE_TTL_SECS env, tools)" c] by blast
    then show "\<exists>q' \<in> set (past @ [q]). request_key env q' = key \<and> expires = q_now q' + MCP_USER_TOOLS_CACHE_TTL_SECS env \<and> loads_as env q' ts"
    proof cases
      case 1
      then show ?thesis using old [OF c] unfolding cache_from_def by blast
    qed (use l in auto)
  qed
  show ?thesis
    using old new
    by (auto simp: serve_def cached_load_tools_def Let_def request_key_def loads_as_def split: option.splits sum.splits)
qed

lemma cache_from_run: "cache_from env past (fold (\<lambda>q c. snd (serve env q c)) past [])"
proof (induction past rule: rev_induct)
  case (snoc q past)
  then show ?case using cache_from_serve [OF snoc] by simp
qed (simp add: cache_from_def)

text \<open>
  Claim C30.  What the cache serves.  After any sequence of loads, the tools a load returns were
  loaded by itself or by an earlier load of the same scope whose connections have the same
  fingerprint, and not longer ago than the cache lives; and when tool calls are authorised they
  were loaded for the same acting user.
\<close>

theorem tools_cache_sound:
  assumes "fst (serve env q (fold (\<lambda>q c. snd (serve env q c)) past [])) = Inr tools" and "q_conns q \<noteq> []"
  shows "\<exists>q0 \<in> set (past @ [q]). load_mcp_tools env (q_handshake q0) (q_conns q0) (q_user q0) = Inr tools
    \<and> fingerprint_connections env (q_conns q0) = fingerprint_connections env (q_conns q)
    \<and> (q0 = q \<or> q_now q < q_now q0 + MCP_USER_TOOLS_CACHE_TTL_SECS env)
    \<and> (MCP_TOOL_AUTHZ_ENABLED env \<longrightarrow> acting_user (q_user q0) = acting_user (q_user q))"
proof -
  let ?cache = "fold (\<lambda>q c. snd (serve env q c)) past []"
  have scope: "acting_user u = acting_user v" if "MCP_TOOL_AUTHZ_ENABLED env" "cache_scope env u = cache_scope env v" for u v
    using that by (simp add: cache_scope_def acting_user_def)
  consider "load_mcp_tools env (q_handshake q) (q_conns q) (q_user q) = Inr tools"
    | expires where "map_of ?cache (request_key env q) = Some (expires, tools)" "q_now q < expires"
    using cached_load_cases [of env "q_handshake q" "q_now q" "q_conns q" "q_user q" ?cache tools] assms
    unfolding serve_def request_key_def by blast
  then show ?thesis
  proof cases
    case 2
    then obtain q0 where "q0 \<in> set past" "request_key env q0 = request_key env q"
      "expires = q_now q0 + MCP_USER_TOOLS_CACHE_TTL_SECS env" "loads_as env q0 tools"
      using cache_from_run [of env past] map_of_SomeD [OF 2(1)] unfolding cache_from_def by blast
    note q0 = this
    then have same: "cache_scope env (q_user q0) = cache_scope env (q_user q)"
      "fingerprint_connections env (q_conns q0) = fingerprint_connections env (q_conns q)" by (simp_all add: request_key_def)
    have "q_now q < q_now q0 + MCP_USER_TOOLS_CACHE_TTL_SECS env" using 2(2) q0(3) by simp
    with same(2) scope [OF _ same(1)] q0(1,4) show ?thesis unfolding loads_as_def by (intro bexI [of _ q0]) auto
  qed auto
qed

definition kb_handshake :: handshake where
  "kb_handshake server conn auth = Some [(''kb_get'', None), (''kb_put'', None)]"

definition kb_request :: "time \<Rightarrow> user_id \<Rightarrow> load_request" where
  "kb_request now uid = \<lparr>q_now = now, q_conns = [(''kb'', kb_spec)], q_user = Some uid, q_handshake = kb_handshake\<rparr>"

definition kb_tool :: "user_id \<Rightarrow> exposed_tool" where
  "kb_tool uid = wrap_with_args_fixer
     \<lparr>lt_name = ''kb_get'', lt_metadata = None, lt_server = ''kb'', lt_connection = sp_connection kb_spec, lt_auth = None,
      lt_interceptor = Some (Some uid)\<rparr> ''kb_get''"

lemma kb_load: "load_mcp_tools example_mcp_env kb_handshake [(''kb'', kb_spec)] (Some uid) = Inr [kb_tool uid]"
proof -
  have "exposed_names [] [''kb_get''] = [''kb_get'']" "spec_allows id' ''kb_get'' kb_spec" "\<not> spec_allows id' ''kb_put'' kb_spec" for id' by code_simp+
  then show ?thesis
    by (simp add: load_mcp_tools_def example_mcp_env_def server_tools_def kb_handshake_def kb_tool_def) (simp add: kb_spec_def)
qed

theorem loaded_catalogue_witness:
  "load_mcp_tools example_mcp_env kb_handshake [(''kb'', kb_spec)] (Some ''alice'') = Inr [kb_tool ''alice'']
   \<and> llm_safe (et_name (kb_tool ''alice''))"
  using loaded_catalogue [OF kb_load, of "''alice''"] kb_load [of "''alice''"]
  by (simp add: kb_tool_def wrap_with_args_fixer_def)

theorem tools_cache_sound_witness:
  "fst (serve example_mcp_env (kb_request 20 ''bob'')
     (fold (\<lambda>q c. snd (serve example_mcp_env q c)) [kb_request 10 ''alice''] [])) = Inr [kb_tool ''bob'']
   \<and> (\<exists>q0 \<in> {kb_request 10 ''alice'', kb_request 20 ''bob''}. acting_user (q_user q0) = ''bob'')"
proof -
  have s: "fst (serve example_mcp_env (kb_request 20 ''bob'')
     (fold (\<lambda>q c. snd (serve example_mcp_env q c)) [kb_request 10 ''alice''] [])) = Inr [kb_tool ''bob'']"
    by (simp add: serve_def cached_load_tools_def kb_request_def kb_load cache_scope_def truthy_str_def)
      (simp add: example_mcp_env_def)
  have "MCP_TOOL_AUTHZ_ENABLED example_mcp_env" by (simp add: example_mcp_env_def)
  with tools_cache_sound [OF s] s show ?thesis by (auto simp: kb_request_def acting_user_def truthy_str_def)
qed

text \<open>
  A malformed bracket in the address of a registered server is an uncaught error of the whole
  resolution, not a skipped server.
\<close>

lemma bad_registry_url_raises:
  "resolve_mcp_connections (example_mcp_env\<lparr>me_registry := [(''kb'', JObj [(''transport'', JStr ''sse''), (''url'', JStr ''http://[x/'')])]\<rparr>)
     [''kb''] = Inl ValueError"
proof -
  have "split_netloc ''http://[x/'' = (''http'', ''[x'', ''/'')" "bad_netloc ''[x''" "server_name_ok ''kb''" by code_simp+
  then show ?thesis
    by (simp add: resolve_mcp_connections_def resolve_registry_entry_def registry_entry_def example_mcp_env_def
        validate_connection_dict_def TRANSPORT_REQUIRED_KEYS_def check_scheme_def)
qed

end
