(* ===== verification/Mcp_Errors.thy ===== *)
theory Mcp_Errors
  imports Event_Ids
begin

text \<open>
  Classification of failures of MCP servers (\<^verbatim>\<open>repo/graphs/mcp_errors.py\<close>).  Exceptions are objects
  in a heap, so that a chain of causes may be cyclic.
\<close>

datatype failure_reason = Unreachable | Timeout | TlsError | AuthRequired | HttpError | CircuitOpenReason | InvalidConfig

definition status_code :: "failure_reason \<Rightarrow> nat" where
  "status_code r =
     (case r of Unreachable \<Rightarrow> 502 | Timeout \<Rightarrow> 504 | TlsError \<Rightarrow> 502 | AuthRequired \<Rightarrow> 401 | HttpError \<Rightarrow> 502
      | CircuitOpenReason \<Rightarrow> 503 | InvalidConfig \<Rightarrow> 500)"

record http_response =
  hr_status :: "int option"
  hr_challenge :: "string option"

text \<open>What the classifier reads of an exception: its links, classes, text and response.\<close>

record py_exception =
  ex_cause :: "nat option"
  ex_context :: "nat option"
  ex_circuit_open :: bool
  ex_timeout :: bool
  ex_ssl :: bool
  ex_text :: string
  ex_response :: "http_response option"

type_synonym exc_heap = "(nat \<times> py_exception) list"

definition cause_of :: "py_exception \<Rightarrow> nat option" where
  "cause_of e = (case ex_cause e of Some c \<Rightarrow> Some c | None \<Rightarrow> ex_context e)"

definition unvisited :: "nat list \<Rightarrow> exc_heap \<Rightarrow> exc_heap" where
  "unvisited seen heap = filter (\<lambda>x. fst x \<notin> set seen) heap"

lemma unvisited_less:
  assumes "i \<notin> set seen" and "map_of heap i = Some e"
  shows "length (unvisited (i # seen) heap) < length (unvisited seen heap)"
proof -
  have "unvisited (i # seen) heap = filter (\<lambda>x. fst x \<noteq> i) (unvisited seen heap)"
    unfolding unvisited_def filter_filter by (rule filter_cong) auto
  moreover have "(i, e) \<in> set (unvisited seen heap)" using assms map_of_SomeD by (force simp: unvisited_def)
  ultimately show ?thesis by (metis (mono_tags, lifting) fst_conv length_filter_less)
qed

function exception_chain :: "exc_heap \<Rightarrow> nat list \<Rightarrow> nat option \<Rightarrow> py_exception list" where
  "exception_chain heap seen current =
     (case current of
        None \<Rightarrow> []
      | Some i \<Rightarrow>
          if i \<in> set seen then []
          else (case map_of heap i of None \<Rightarrow> [] | Some e \<Rightarrow> e # exception_chain heap (i # seen) (cause_of e)))"
  by pat_completeness auto
termination
  by (relation "measure (\<lambda>(heap, seen, _). length (unvisited seen heap))") (auto simp: unvisited_less)

declare exception_chain.simps [simp del]

definition TLS_MARKERS :: "string list" where
  "TLS_MARKERS =
     [''certificate verify failed'', ''certificate_verify_failed'', ''sslcertverificationerror'', ''self-signed certificate'',
      ''certificate has expired'', ''record layer failure'', ''tlsv1 alert'']"

fun contains_text :: "string \<Rightarrow> string \<Rightarrow> bool" where
  "contains_text marker [] = (marker = [])"
| "contains_text marker (c # cs) = (take (length marker) (c # cs) = marker \<or> contains_text marker cs)"

definition looks_like_tls_failure :: "py_exception list \<Rightarrow> bool" where
  "looks_like_tls_failure chain =
     list_ex (\<lambda>e. ex_ssl e \<or> list_ex (\<lambda>marker. contains_text marker (py_lower (ex_text e))) TLS_MARKERS) chain"

text \<open>\<open>resource_metadata\s*=\s*"([^"]+)"\<close>, in any case, anywhere in the challenge.\<close>

definition metadata_at :: "string \<Rightarrow> string option" where
  "metadata_at s =
     (let word = ''resource_metadata''
      in if py_lower (take (length word) s) \<noteq> word then None
         else
           (case dropWhile py_space (drop (length word) s) of
              c # rest \<Rightarrow>
                if c \<noteq> CHR ''='' then None
                else
                  (case dropWhile py_space rest of
                     q # quoted \<Rightarrow>
                       if q = CHR 0x22 \<and> takeWhile (\<lambda>x. x \<noteq> CHR 0x22) quoted \<noteq> [] \<and> CHR 0x22 \<in> set quoted
                       then Some (takeWhile (\<lambda>x. x \<noteq> CHR 0x22) quoted) else None
                   | [] \<Rightarrow> None)
            | [] \<Rightarrow> None))"

fun metadata_search :: "string \<Rightarrow> string option" where
  "metadata_search [] = None"
| "metadata_search (c # cs) = (case metadata_at (c # cs) of Some m \<Rightarrow> Some m | None \<Rightarrow> metadata_search cs)"

fun resource_metadata :: "py_exception list \<Rightarrow> string option" where
  "resource_metadata [] = None"
| "resource_metadata (e # es) =
     (case Option.bind (ex_response e) hr_challenge of
        Some challenge \<Rightarrow>
          (case metadata_search challenge of Some m \<Rightarrow> Some m | None \<Rightarrow> resource_metadata es)
      | None \<Rightarrow> resource_metadata es)"

record mcp_failure =
  mf_reason :: failure_reason
  mf_resource_metadata :: "string option"

definition failed :: "failure_reason \<Rightarrow> mcp_failure" where
  "failed r = \<lparr>mf_reason = r, mf_resource_metadata = None\<rparr>"

definition classify_mcp_error :: "exc_heap \<Rightarrow> nat \<Rightarrow> mcp_failure" where
  "classify_mcp_error heap exc =
     (let chain = exception_chain heap [] (Some exc)
      in if list_ex ex_circuit_open chain then failed CircuitOpenReason
         else
           (case List.map_filter ex_response chain of
              response # _ \<Rightarrow>
                if hr_status response \<in> {Some 401, Some 403}
                then \<lparr>mf_reason = AuthRequired, mf_resource_metadata = resource_metadata chain\<rparr>
                else failed HttpError
            | [] \<Rightarrow>
                if list_ex ex_timeout chain then failed Timeout
                else if looks_like_tls_failure chain then failed TlsError
                else failed Unreachable))"

subsection \<open>The chain of an exception\<close>

text \<open>
  Specification of the chain: the identities of exceptions, from the one raised along the explicit
  cause, or else the context it was raised in, each once, until there is no further one.
\<close>

definition raised_from :: "exc_heap \<Rightarrow> nat \<Rightarrow> nat \<Rightarrow> bool" where
  "raised_from heap i j =
     (\<exists>e. map_of heap i = Some e \<and> (ex_cause e = Some j \<or> ex_cause e = None \<and> ex_context e = Some j))"

definition cause_path :: "exc_heap \<Rightarrow> nat list \<Rightarrow> nat list \<Rightarrow> bool" where
  "cause_path heap seen ids =
     (distinct ids \<and> set ids \<inter> set seen = {} \<and> set ids \<subseteq> dom (map_of heap) \<and> successively (raised_from heap) ids
      \<and> (\<forall>j. ids \<noteq> [] \<and> raised_from heap (last ids) j \<longrightarrow> j \<in> set ids \<union> set seen \<or> j \<notin> dom (map_of heap)))"

lemma raised_from_cause: "map_of heap i = Some e \<Longrightarrow> raised_from heap i j = (cause_of e = Some j)"
  by (auto simp: raised_from_def cause_of_def split: option.splits)

lemma chain_path:
  "\<exists>ids. exception_chain heap seen current = map (\<lambda>i. the (map_of heap i)) ids \<and> cause_path heap seen ids
     \<and> (\<forall>i. current = Some i \<and> i \<notin> set seen \<and> i \<in> dom (map_of heap) \<longrightarrow> ids \<noteq> [] \<and> hd ids = i)
     \<and> (ids \<noteq> [] \<longrightarrow> current = Some (hd ids))"
proof (induction heap seen current rule: exception_chain.induct)
  case (1 heap seen current)
  show ?case
  proof (cases "\<exists>i e. current = Some i \<and> i \<notin> set seen \<and> map_of heap i = Some e")
    case True
    then obtain i e where ie: "current = Some i" "i \<notin> set seen" "map_of heap i = Some e" by blast
    from "1.IH" [OF ie] obtain ids where
      ids: "exception_chain heap (i # seen) (cause_of e) = map (\<lambda>i. the (map_of heap i)) ids" "cause_path heap (i # seen) ids"
        "\<forall>j. cause_of e = Some j \<and> j \<notin> set (i # seen) \<and> j \<in> dom (map_of heap) \<longrightarrow> ids \<noteq> [] \<and> hd ids = j"
        "ids \<noteq> [] \<longrightarrow> cause_of e = Some (hd ids)" by blast
    have "exception_chain heap seen current = map (\<lambda>i. the (map_of heap i)) (i # ids)"
      using ie ids(1) by (subst exception_chain.simps) simp
    moreover have "cause_path heap seen (i # ids)"
    proof (cases ids)
      case Nil
      have "j \<in> insert i (set seen) \<or> j \<notin> dom (map_of heap)" if "raised_from heap i j" for j
        using that ids(3) Nil raised_from_cause [OF ie(3), of j] by auto
      then show ?thesis using ie Nil by (auto simp: cause_path_def)
    next
      case (Cons j js)
      then have "raised_from heap i j" using ids(4) raised_from_cause [OF ie(3)] by simp
      with ids(2) ie Cons show ?thesis by (auto simp: cause_path_def)
    qed
    ultimately show ?thesis using ie by (intro exI [of _ "i # ids"]) auto
  next
    case False
    then have "exception_chain heap seen current = []" by (subst exception_chain.simps) (auto split: option.splits)
    with False show ?thesis by (intro exI [of _ "[]"]) (auto simp: cause_path_def)
  qed
qed

subsection \<open>The texts that are searched\<close>

lemma contains_text_iff: "contains_text marker s \<longleftrightarrow> (\<exists>pre post. s = pre @ marker @ post)"
proof (induction s)
  case (Cons c cs)
  have "take (length marker) (c # cs) = marker \<longleftrightarrow> (\<exists>post. c # cs = marker @ post)"
    by (metis append_eq_conv_conj append_take_drop_id)
  moreover have "(\<exists>pre post. c # cs = pre @ marker @ post) \<longleftrightarrow> (\<exists>post. c # cs = marker @ post) \<or> (\<exists>pre post. cs = pre @ marker @ post)"
    by (metis append_Cons append_Nil neq_Nil_conv list.inject)
  ultimately show ?case using Cons by simp
qed simp

text \<open>A challenge advertises a metadata address: the word in any case, an equals sign, the quoted address.\<close>

definition advertised_here :: "string \<Rightarrow> string \<Rightarrow> bool" where
  "advertised_here s m =
     (\<exists>w sp1 sp2 post. s = w @ sp1 @ CHR ''='' # sp2 @ CHR 0x22 # m @ CHR 0x22 # post \<and> py_lower w = ''resource_metadata''
        \<and> list_all py_space (sp1 @ sp2) \<and> m \<noteq> [] \<and> CHR 0x22 \<notin> set m)"

definition advertises :: "string \<Rightarrow> string \<Rightarrow> bool" where
  "advertises s m = (\<exists>pre t. s = pre @ t \<and> advertised_here t m)"

lemma dropWhile_shape: "dropWhile p s = c # cs \<Longrightarrow> \<exists>sp. s = sp @ c # cs \<and> list_all p sp"
  by (metis list_all_iff set_takeWhileD takeWhile_dropWhile_id)

lemma metadata_at_sound:
  assumes "metadata_at s = Some m"
  shows "advertised_here s m"
proof -
  let ?w = "take (length ''resource_metadata'') s"
  obtain rest quoted where w: "py_lower ?w = ''resource_metadata''"
    and rest: "dropWhile py_space (drop (length ''resource_metadata'') s) = CHR ''='' # rest"
    and q: "dropWhile py_space rest = CHR 0x22 # quoted"
    and m: "m = takeWhile (\<lambda>x. x \<noteq> CHR 0x22) quoted" "m \<noteq> []" "CHR 0x22 \<in> set quoted"
    using assms unfolding metadata_at_def Let_def by (auto split: if_splits list.splits)
  obtain sp1 where sp1: "drop (length ''resource_metadata'') s = sp1 @ CHR ''='' # rest" "list_all py_space sp1"
    using dropWhile_shape [OF rest] by blast
  obtain sp2 where sp2: "rest = sp2 @ CHR 0x22 # quoted" "list_all py_space sp2" using dropWhile_shape [OF q] by blast
  obtain y post where post: "dropWhile (\<lambda>x. x \<noteq> CHR 0x22) quoted = y # post"
    using m(3) by (cases "dropWhile (\<lambda>x. x \<noteq> CHR 0x22) quoted") (auto simp: dropWhile_eq_Nil_conv)
  then have "y = CHR 0x22" by (metis (mono_tags) hd_dropWhile list.distinct(1) list.sel(1))
  with post have "quoted = m @ CHR 0x22 # post" using m(1) by (metis takeWhile_dropWhile_id)
  moreover have "s = ?w @ sp1 @ CHR ''='' # rest" using sp1(1) by (metis append_take_drop_id)
  moreover have "CHR 0x22 \<notin> set m" using m(1) by (auto dest: set_takeWhileD)
  ultimately show ?thesis using w sp1(2) sp2 m(2) unfolding advertised_here_def
    by (intro exI [of _ ?w] exI [of _ sp1] exI [of _ sp2] exI [of _ post]) simp
qed

lemma metadata_at_complete:
  assumes "advertised_here s m"
  shows "metadata_at s = Some m"
proof -
  obtain w sp1 sp2 post where s: "s = w @ sp1 @ CHR ''='' # sp2 @ CHR 0x22 # m @ CHR 0x22 # post"
    and w: "py_lower w = ''resource_metadata''" and sp: "list_all py_space sp1" "list_all py_space sp2" and m: "m \<noteq> []" "CHR 0x22 \<notin> set m"
    using assms by (auto simp: advertised_here_def)
  have len: "length w = length ''resource_metadata''" using w by (metis length_map py_lower_def)
  have "dropWhile py_space (sp @ c # t) = c # t" if "list_all py_space sp" "\<not> py_space c" for sp c t
    using that by (simp add: dropWhile_append2 list_all_iff)
  moreover have "\<not> py_space (CHR ''='')" "\<not> py_space (CHR 0x22)" by (simp_all add: py_space_def)
  ultimately have d: "dropWhile py_space (sp1 @ CHR ''='' # t) = CHR ''='' # t" "dropWhile py_space (sp2 @ CHR 0x22 # t) = CHR 0x22 # t" for t
    using sp by blast+
  have "takeWhile (\<lambda>x. x \<noteq> CHR 0x22) (m @ CHR 0x22 # post) = m"
    using m(2) by (simp add: takeWhile_append2 takeWhile_tail) (metis takeWhile_eq_all_conv)
  then show ?thesis using w len d m(1) by (simp add: metadata_at_def s)
qed

lemma metadata_search_sound: "metadata_search s = Some m \<Longrightarrow> advertises s m"
proof (induction s)
  case (Cons c cs)
  show ?case
  proof (cases "metadata_at (c # cs)")
    case None
    with Cons obtain pre t where "cs = pre @ t" "advertised_here t m" by (auto simp: advertises_def)
    then show ?thesis unfolding advertises_def by (intro exI [of _ "c # pre"] exI [of _ t]) simp
  next
    case (Some m')
    with Cons.prems Some have "advertised_here (c # cs) m" using metadata_at_sound by simp
    then show ?thesis unfolding advertises_def by (metis append_Nil)
  qed
qed simp

lemma metadata_search_complete: "advertised_here t m \<Longrightarrow> metadata_search (pre @ t) \<noteq> None"
proof (induction pre)
  case Nil
  then have "t \<noteq> []" by (auto simp: advertised_here_def)
  with metadata_at_complete [OF Nil] show ?case by (cases t) auto
qed (auto split: option.splits)

lemma advertised_found: "advertises c m \<Longrightarrow> \<exists>x. metadata_search c = Some x"
  using metadata_search_complete by (auto simp: advertises_def)

definition challenge_of :: "py_exception \<Rightarrow> string option" where
  "challenge_of e = (case ex_response e of None \<Rightarrow> None | Some r \<Rightarrow> hr_challenge r)"

lemma resource_metadata_sound:
  "resource_metadata chain = Some m \<Longrightarrow> \<exists>e \<in> set chain. \<exists>c. challenge_of e = Some c \<and> advertises c m"
  by (induction chain) (auto simp: challenge_of_def split: option.splits bind_splits dest: metadata_search_sound)

lemma resource_metadata_complete:
  "e \<in> set chain \<Longrightarrow> challenge_of e = Some c \<Longrightarrow> advertises c m \<Longrightarrow> resource_metadata chain \<noteq> None"
proof (induction chain)
  case (Cons x xs)
  then show ?case using advertised_found [of c m] by (auto simp: challenge_of_def split: option.splits)
qed simp

text \<open>What makes a failure one of TLS: an error of the TLS library, or one of its texts in any case.\<close>

definition tls_evidence :: "py_exception \<Rightarrow> bool" where
  "tls_evidence e =
     (ex_ssl e \<or> (\<exists>marker \<in> set TLS_MARKERS. \<exists>pre post. py_lower (ex_text e) = pre @ marker @ post))"

lemma tls_iff: "looks_like_tls_failure chain \<longleftrightarrow> (\<exists>e \<in> set chain. tls_evidence e)"
  by (auto simp: looks_like_tls_failure_def tls_evidence_def list_ex_iff contains_text_iff)

lemma first_response:
  "\<exists>rs. List.map_filter ex_response es = (case find (\<lambda>e. ex_response e \<noteq> None) es of None \<Rightarrow> [] | Some e \<Rightarrow> the (ex_response e) # rs)"
  by (induction es) (auto simp: map_filter_simps split: option.splits)

lemma classified_reason:
  "mf_reason (classify_mcp_error heap exc) =
     (let chain = exception_chain heap [] (Some exc)
      in if \<exists>e \<in> set chain. ex_circuit_open e then CircuitOpenReason
         else case find (\<lambda>e. ex_response e \<noteq> None) chain of
                Some e \<Rightarrow> if hr_status (the (ex_response e)) \<in> {Some 401, Some 403} then AuthRequired else HttpError
              | None \<Rightarrow> if \<exists>e \<in> set chain. ex_timeout e then Timeout
                        else if \<exists>e \<in> set chain. tls_evidence e then TlsError else Unreachable)"
proof -
  obtain rs where "List.map_filter ex_response (exception_chain heap [] (Some exc))
    = (case find (\<lambda>e. ex_response e \<noteq> None) (exception_chain heap [] (Some exc)) of None \<Rightarrow> [] | Some e \<Rightarrow> the (ex_response e) # rs)"
    using first_response by blast
  then show ?thesis
    by (cases "find (\<lambda>e. ex_response e \<noteq> None) (exception_chain heap [] (Some exc))")
      (simp_all add: classify_mcp_error_def Let_def failed_def tls_iff list_ex_iff)
qed

lemma classified_metadata:
  "mf_resource_metadata (classify_mcp_error heap exc) =
     (if mf_reason (classify_mcp_error heap exc) = AuthRequired then resource_metadata (exception_chain heap [] (Some exc)) else None)"
  by (simp add: classify_mcp_error_def Let_def failed_def split: list.split)

text \<open>
  Claim C32.  Every failure of a server is classified by its whole chain, and as the most specific
  class the chain shows.  The chain starts with the exception raised and goes on along the explicit
  cause, or else the context, visiting each exception once; it ends, also when causes are cyclic, and
  not before there is no further exception.  An open breaker comes before anything else, then the
  first HTTP response, then the deadline, then evidence of TLS, and without any of these the server
  is unreachable.  The OAuth metadata address accompanies refused credentials and nothing else: it is
  given whenever a challenge in the chain advertises one, and only an advertised one is given.
\<close>

theorem failures_classified:
  assumes "exc \<in> dom (map_of heap)"
  shows "\<exists>ids chain. cause_path heap [] (exc # ids) \<and> chain = map (\<lambda>i. the (map_of heap i)) (exc # ids)
    \<and> (let failure = classify_mcp_error heap exc; reason = mf_reason failure; metadata = mf_resource_metadata failure
       in reason =
            (if \<exists>e \<in> set chain. ex_circuit_open e then CircuitOpenReason
             else case find (\<lambda>e. ex_response e \<noteq> None) chain of
                    Some e \<Rightarrow> if hr_status (the (ex_response e)) \<in> {Some 401, Some 403} then AuthRequired else HttpError
                  | None \<Rightarrow> if \<exists>e \<in> set chain. ex_timeout e then Timeout
                            else if \<exists>e \<in> set chain. tls_evidence e then TlsError else Unreachable)
          \<and> (metadata \<noteq> None \<longleftrightarrow> reason = AuthRequired \<and> (\<exists>e \<in> set chain. \<exists>c m. challenge_of e = Some c \<and> advertises c m))
          \<and> (\<forall>m. metadata = Some m \<longrightarrow> (\<exists>e \<in> set chain. \<exists>c. challenge_of e = Some c \<and> advertises c m))
          \<and> status_code reason = (if reason = AuthRequired then 401 else if reason = CircuitOpenReason then 503
              else if reason = Timeout then 504 else 502))"
proof -
  let ?chain = "exception_chain heap [] (Some exc)"
  obtain ids where ids: "?chain = map (\<lambda>i. the (map_of heap i)) ids" "cause_path heap [] ids" "ids \<noteq> []" "hd ids = exc"
    using chain_path [of heap "[]" "Some exc"] assms by auto
  then obtain rest where rest: "ids = exc # rest" by (cases ids) auto
  let ?f = "classify_mcp_error heap exc"
  have status: "status_code (mf_reason ?f) = (if mf_reason ?f = AuthRequired then 401 else if mf_reason ?f = CircuitOpenReason then 503
              else if mf_reason ?f = Timeout then 504 else 502)"
    unfolding classified_reason Let_def by (auto simp: status_code_def split: option.split)
  have meta: "mf_resource_metadata ?f \<noteq> None \<longleftrightarrow>
      mf_reason ?f = AuthRequired \<and> (\<exists>e \<in> set ?chain. \<exists>c m. challenge_of e = Some c \<and> advertises c m)"
    using resource_metadata_sound resource_metadata_complete unfolding classified_metadata by (auto; blast)
  have adv: "\<exists>e \<in> set ?chain. \<exists>c. challenge_of e = Some c \<and> advertises c m" if "mf_resource_metadata ?f = Some m" for m
    using that resource_metadata_sound by (simp add: classified_metadata split: if_splits)
  show ?thesis
    using ids(2) rest classified_reason [of heap exc, unfolded Let_def] meta adv status
    unfolding Let_def by (intro exI [of _ rest] exI [of _ ?chain]) (simp only: ids(1) rest simp_thms, blast)
qed

definition plain_exception :: py_exception where
  "plain_exception = \<lparr>ex_cause = None, ex_context = None, ex_circuit_open = False, ex_timeout = False, ex_ssl = False,
     ex_text = [], ex_response = None\<rparr>"

definition cyclic_heap :: exc_heap where
  "cyclic_heap = [(0, plain_exception\<lparr>ex_context := Some 1\<rparr>), (1, plain_exception\<lparr>ex_cause := Some 0, ex_timeout := True\<rparr>)]"

theorem failures_classified_witness:
  "mf_reason (classify_mcp_error cyclic_heap 0) = Timeout \<and> status_code (mf_reason (classify_mcp_error cyclic_heap 0)) = 504"
proof -
  have "0 \<in> dom (map_of cyclic_heap)" by (simp add: cyclic_heap_def)
  moreover have "mf_reason (classify_mcp_error cyclic_heap 0) = Timeout" by code_simp
  ultimately show ?thesis using failures_classified [of 0 cyclic_heap] by (auto simp: Let_def)
qed

end
