(* ===== verification/Oauth.thy ===== *)
theory Oauth
  imports Json Event_Ids
begin

text \<open>
  The OAuth flow of user connections (\<^verbatim>\<open>hub/oauth/flow.py\<close>, \<^verbatim>\<open>storage.py\<close>, \<^verbatim>\<open>store.py\<close>).  Values of
  the token store, JSON strings in the code, are a datatype; an authorize URL is given with the
  \<open>state\<close> of its query.  The clock of the store is an argument of every call and \<open>sec\<close> is one
  second in it.
\<close>

subsection \<open>Token stores\<close>

datatype oauth_value =
    PendingFlow string string
  | FlowOwner user_id string
  | FlowCode string
  | StoredTokens string

type_synonym 'v entries = "(string \<times> 'v \<times> time option) list"

text \<open>\<open>InMemoryTokenStore\<close>: entries expire when they are read.\<close>

definition memory_token_get :: "time \<Rightarrow> string \<Rightarrow> 'v entries \<Rightarrow> 'v option \<times> 'v entries" where
  "memory_token_get now k s =
     (case map_of s k of
        None \<Rightarrow> (None, s)
      | Some (v, expires) \<Rightarrow>
          (case expires of
             Some e \<Rightarrow> if e \<le> now then (None, AList.delete k s) else (Some v, s)
           | None \<Rightarrow> (Some v, s)))"

definition memory_token_set :: "time \<Rightarrow> string \<Rightarrow> 'v \<Rightarrow> int option \<Rightarrow> 'v entries \<Rightarrow> 'v entries" where
  "memory_token_set now k v ttl s = AList.update k (v, map_option (\<lambda>d. now + d) ttl) s"

definition memory_token_delete :: "string \<Rightarrow> 'v entries \<Rightarrow> 'v entries" where
  "memory_token_delete k s = AList.delete k s"

text \<open>\<open>RedisTokenStore\<close>: whole seconds, at least one; Redis drops what has expired.\<close>

definition redis_token_get :: "time \<Rightarrow> string \<Rightarrow> 'v entries \<Rightarrow> 'v option \<times> 'v entries" where
  "redis_token_get now k s =
     (case map_of s k of
        None \<Rightarrow> (None, s)
      | Some (v, expires) \<Rightarrow>
          (case expires of Some e \<Rightarrow> if e \<le> now then (None, s) else (Some v, s) | None \<Rightarrow> (Some v, s)))"

definition redis_token_set :: "int \<Rightarrow> time \<Rightarrow> string \<Rightarrow> 'v \<Rightarrow> int option \<Rightarrow> 'v entries \<Rightarrow> 'v entries" where
  "redis_token_set sec now k v ttl s = AList.update k (v, map_option (\<lambda>d. now + max 1 (d div sec) * sec) ttl) s"

record ('s, 'v) token_ops =
  tok_get :: "time \<Rightarrow> string \<Rightarrow> 's \<Rightarrow> 'v option \<times> 's"
  tok_set :: "time \<Rightarrow> string \<Rightarrow> 'v \<Rightarrow> int option \<Rightarrow> 's \<Rightarrow> 's"
  tok_delete :: "string \<Rightarrow> 's \<Rightarrow> 's"

definition memory_tokens :: "('v entries, 'v) token_ops" where
  "memory_tokens = \<lparr>tok_get = memory_token_get, tok_set = memory_token_set, tok_delete = memory_token_delete\<rparr>"

definition redis_tokens :: "int \<Rightarrow> ('v entries, 'v) token_ops" where
  "redis_tokens sec = \<lparr>tok_get = redis_token_get, tok_set = redis_token_set sec, tok_delete = memory_token_delete\<rparr>"

subsection \<open>The flow\<close>

definition PENDING_TTL_SECS :: int where "PENDING_TTL_SECS = 600"
definition CODE_TTL_SECS :: int where "CODE_TTL_SECS = 300"
definition EXPIRY_SKEW_SECS :: int where "EXPIRY_SKEW_SECS = 60"
definition DEFAULT_TOKEN_TTL_SECS :: int where "DEFAULT_TOKEN_TTL_SECS = 3600"

definition pending_key :: "user_id \<Rightarrow> string \<Rightarrow> string" where
  "pending_key uid conn = ''mcp_oauth:pending:'' @ uid @ '':'' @ conn"

definition code_key :: "user_id \<Rightarrow> string \<Rightarrow> string" where
  "code_key uid conn = ''mcp_oauth:code:'' @ uid @ '':'' @ conn"

definition state_key :: "string \<Rightarrow> string" where
  "state_key state = ''mcp_oauth:state:'' @ state"

definition tokens_key :: "user_id \<Rightarrow> string \<Rightarrow> string" where
  "tokens_key uid conn = ''mcp_oauth:tok:'' @ uid @ '':'' @ conn"

definition on_redirect ::
  "('s, oauth_value) token_ops \<Rightarrow> int \<Rightarrow> time \<Rightarrow> user_id \<Rightarrow> string \<Rightarrow> string \<Rightarrow> string option \<Rightarrow> 's \<Rightarrow> 's"
where
  "on_redirect ops sec now uid conn url state s =
     (case state of
        None \<Rightarrow> s
      | Some st \<Rightarrow>
          tok_set ops now (state_key st) (FlowOwner uid conn) (Some (PENDING_TTL_SECS * sec))
            (tok_set ops now (pending_key uid conn) (PendingFlow url st) (Some (PENDING_TTL_SECS * sec)) s))"

text \<open>The code and the current state, or the pause of the run with the URL to open.\<close>

datatype awaited = GotCode string "string option" | PausedFor "string option"

definition pending_of :: "oauth_value option \<Rightarrow> (string \<times> string) option result" where
  "pending_of v = (case v of None \<Rightarrow> Inr None | Some (PendingFlow url st) \<Rightarrow> Inr (Some (url, st)) | Some _ \<Rightarrow> Inl KeyError)"

definition await_code ::
  "('s, oauth_value) token_ops \<Rightarrow> time \<Rightarrow> user_id \<Rightarrow> string \<Rightarrow> 's \<Rightarrow> awaited result \<times> 's"
where
  "await_code ops now uid conn s =
     (case tok_get ops now (pending_key uid conn) s of (pending, s) \<Rightarrow>
      case tok_get ops now (code_key uid conn) s of (code, s) \<Rightarrow>
      case (pending_of pending, code) of
        (Inl e, _) \<Rightarrow> (Inl e, s)
      | (Inr p, Some (FlowCode c)) \<Rightarrow>
          (Inr (GotCode c (map_option snd p)), tok_delete ops (pending_key uid conn) (tok_delete ops (code_key uid conn) s))
      | (Inr p, Some _) \<Rightarrow> (Inl KeyError, s)
      | (Inr p, None) \<Rightarrow> (Inr (PausedFor (map_option fst p)), s))"

definition complete_from_browser ::
  "('s, oauth_value) token_ops \<Rightarrow> int \<Rightarrow> time \<Rightarrow> string \<Rightarrow> string \<Rightarrow> 's \<Rightarrow> bool result \<times> 's"
where
  "complete_from_browser ops sec now state code s =
     (case tok_get ops now (state_key state) s of
        (None, s) \<Rightarrow> (Inr False, s)
      | (Some (FlowOwner uid conn), s) \<Rightarrow>
          (case tok_get ops now (pending_key uid conn) (tok_delete ops (state_key state) s) of
             (None, s) \<Rightarrow> (Inr False, s)
           | (Some _, s) \<Rightarrow>
               (Inr True, tok_set ops now (code_key uid conn) (FlowCode code) (Some (CODE_TTL_SECS * sec)) s))
      | (Some _, s) \<Rightarrow> (Inl KeyError, tok_delete ops (state_key state) s))"

definition abandon_from_browser :: "('s, oauth_value) token_ops \<Rightarrow> time \<Rightarrow> string \<Rightarrow> 's \<Rightarrow> bool result \<times> 's" where
  "abandon_from_browser ops now state s =
     (case tok_get ops now (state_key state) s of
        (None, s) \<Rightarrow> (Inr False, s)
      | (Some (FlowOwner uid conn), s) \<Rightarrow>
          (Inr True,
           tok_delete ops (code_key uid conn) (tok_delete ops (pending_key uid conn) (tok_delete ops (state_key state) s)))
      | (Some _, s) \<Rightarrow> (Inl KeyError, tok_delete ops (state_key state) s))"

text \<open>The page of the callback: its title and status.\<close>

definition oauth_callback ::
  "('s, oauth_value) token_ops \<Rightarrow> int \<Rightarrow> time \<Rightarrow> string \<Rightarrow> string option \<Rightarrow> string option \<Rightarrow> 's \<Rightarrow> (string \<times> nat) result \<times> 's"
where
  "oauth_callback ops sec now state code error s =
     (if error \<noteq> None then
        (case abandon_from_browser ops now state s of
           (Inl e, s) \<Rightarrow> (Inl e, s) | (Inr _, s) \<Rightarrow> (Inr (''Authorization failed'', 400), s))
      else if \<not> truthy_str code then (Inr (''Authorization failed'', 400), s)
      else
        (case complete_from_browser ops sec now state (the code) s of
           (Inl e, s) \<Rightarrow> (Inl e, s)
         | (Inr False, s) \<Rightarrow> (Inr (''Link expired'', 400), s)
         | (Inr True, s) \<Rightarrow> (Inr (''Authorization complete'', 200), s)))"

subsection \<open>\<open>HubTokenStorage\<close>\<close>

text \<open>Registrations of clients: rows with owner, connection and the registration.\<close>

type_synonym registrations = "(user_id \<times> string \<times> string) list"

definition set_tokens ::
  "('s, oauth_value) token_ops \<Rightarrow> int \<Rightarrow> time \<Rightarrow> user_id \<Rightarrow> string \<Rightarrow> string \<Rightarrow> int option \<Rightarrow> 's \<Rightarrow> 's"
where
  "set_tokens ops sec now uid conn tokens expires_in s =
     (let ttl = (case expires_in of
            Some e \<Rightarrow> if e = 0 then DEFAULT_TOKEN_TTL_SECS else e - EXPIRY_SKEW_SECS
          | None \<Rightarrow> DEFAULT_TOKEN_TTL_SECS)
      in tok_set ops now (tokens_key uid conn) (StoredTokens tokens) (Some (max ttl 1 * sec)) s)"

definition get_tokens :: "('s, oauth_value) token_ops \<Rightarrow> time \<Rightarrow> user_id \<Rightarrow> string \<Rightarrow> 's \<Rightarrow> string option result \<times> 's" where
  "get_tokens ops now uid conn s =
     (case tok_get ops now (tokens_key uid conn) s of
        (None, s) \<Rightarrow> (Inr None, s)
      | (Some (StoredTokens t), s) \<Rightarrow> (Inr (Some t), s)
      | (Some _, s) \<Rightarrow> (Inl ValueError, s))"

definition get_client_info :: "user_id \<Rightarrow> string \<Rightarrow> registrations \<Rightarrow> string option" where
  "get_client_info uid conn regs = map_option (\<lambda>(_, _, r). r) (first_where (\<lambda>(u, c, _). u = uid \<and> c = conn) regs)"

definition set_client_info :: "user_id \<Rightarrow> string \<Rightarrow> string \<Rightarrow> registrations \<Rightarrow> registrations" where
  "set_client_info uid conn info regs =
     (if first_where (\<lambda>(u, c, _). u = uid \<and> c = conn) regs = None then regs @ [(uid, conn, info)]
      else update_where (\<lambda>(u, c, _). u = uid \<and> c = conn) (\<lambda>(u, c, _). (u, c, info)) regs)"

definition clear_tokens ::
  "('s, oauth_value) token_ops \<Rightarrow> user_id \<Rightarrow> string \<Rightarrow> 's \<times> registrations \<Rightarrow> 's \<times> registrations"
where
  "clear_tokens ops uid conn sr =
     (tok_delete ops (tokens_key uid conn) (fst sr), delete_where (\<lambda>(u, c, _). u = uid \<and> c = conn) (snd sr))"

definition purge_oauth_state ::
  "('s, oauth_value) token_ops \<Rightarrow> user_id \<Rightarrow> string \<Rightarrow> 's \<times> registrations \<Rightarrow> 's \<times> registrations"
where
  "purge_oauth_state ops uid conn sr =
     (case clear_tokens ops uid conn sr of (s, regs) \<Rightarrow>
        (tok_delete ops (code_key uid conn) (tok_delete ops (pending_key uid conn) s), regs))"

subsection \<open>The contract of a token store\<close>

locale token_store =
  fixes ops :: "('s, 'v) token_ops"
  assumes get_again: "t' \<le> t \<Longrightarrow> fst (tok_get ops t k' (snd (tok_get ops t' k s))) = fst (tok_get ops t k' s)"
    and set_same: "fst (tok_get ops t k (tok_set ops t' k v ttl s)) \<in> {None, Some v}"
    and set_other: "k' \<noteq> k \<Longrightarrow> fst (tok_get ops t k' (tok_set ops t' k v ttl s)) = fst (tok_get ops t k' s)"
    and delete_same: "fst (tok_get ops t k (tok_delete ops k s)) = None"
    and delete_other: "k' \<noteq> k \<Longrightarrow> fst (tok_get ops t k' (tok_delete ops k s)) = fst (tok_get ops t k' s)"

lemma map_of_delete: "map_of (AList.delete k s) k' = (if k' = k then None else map_of s k')"
  by (simp add: delete_conv')

lemma map_of_update: "map_of (AList.update k v s) k' = (if k' = k then Some v else map_of s k')"
  by (simp add: update_conv')

interpretation memory_store: token_store memory_tokens
  by unfold_locales
    (auto simp: memory_tokens_def memory_token_get_def memory_token_set_def memory_token_delete_def map_of_delete map_of_update
      split: option.splits)

interpretation redis_store: token_store "redis_tokens sec" for sec
  by unfold_locales
    (auto simp: redis_tokens_def redis_token_get_def redis_token_set_def memory_token_delete_def map_of_delete map_of_update
      split: option.splits)


subsection \<open>What the flow guarantees\<close>

lemma key_parts:
  assumes "CHR '':'' \<notin> set conn" and "CHR '':'' \<notin> set conn'"
  shows "uid @ CHR '':'' # conn = uid' @ CHR '':'' # conn' \<longleftrightarrow> uid = uid' \<and> conn = conn'"
proof
  assume eq: "uid @ CHR '':'' # conn = uid' @ CHR '':'' # conn'"
  have "rev (takeWhile (\<lambda>x. x \<noteq> CHR '':'') (rev (u @ CHR '':'' # c))) = c" if "CHR '':'' \<notin> set c" for u c
  proof -
    have "takeWhile (\<lambda>x. x \<noteq> CHR '':'') (rev c @ CHR '':'' # rev u) = rev c" using that by (subst takeWhile_append2) auto
    then show ?thesis by simp
  qed
  with assms eq have "conn = conn'" by metis
  with eq show "uid = uid' \<and> conn = conn'" by simp
qed simp

lemma key_kinds [simp]:
  "pending_key u c \<noteq> code_key u' c'" "code_key u' c' \<noteq> pending_key u c" "pending_key u c \<noteq> state_key st" "state_key st \<noteq> pending_key u c"
  "code_key u c \<noteq> state_key st" "state_key st \<noteq> code_key u c" "tokens_key u c \<noteq> pending_key u' c'" "pending_key u' c' \<noteq> tokens_key u c"
  "tokens_key u c \<noteq> code_key u' c'" "code_key u' c' \<noteq> tokens_key u c" "tokens_key u c \<noteq> state_key st" "state_key st \<noteq> tokens_key u c"
  by (simp_all add: pending_key_def code_key_def state_key_def tokens_key_def)

lemma state_key_inj: "state_key st = state_key st' \<longleftrightarrow> st = st'"
  by (simp add: state_key_def)

lemma key_inj:
  assumes "CHR '':'' \<notin> set c" and "CHR '':'' \<notin> set c'"
  shows "pending_key u c = pending_key u' c' \<longleftrightarrow> u = u' \<and> c = c'" "code_key u c = code_key u' c' \<longleftrightarrow> u = u' \<and> c = c'"
    "tokens_key u c = tokens_key u' c' \<longleftrightarrow> u = u' \<and> c = c'"
  using key_parts [OF assms] by (simp_all add: pending_key_def code_key_def tokens_key_def)

definition look :: "('s, 'v) token_ops \<Rightarrow> time \<Rightarrow> string \<Rightarrow> 's \<Rightarrow> 'v option" where
  "look ops t k s = fst (tok_get ops t k s)"

context token_store
begin

lemma look_get: "t' \<le> t \<Longrightarrow> look ops t k' (snd (tok_get ops t' k s)) = look ops t k' s"
  using get_again by (simp add: look_def)

lemma look_delete: "look ops t k' (tok_delete ops k s) = (if k' = k then None else look ops t k' s)"
  using delete_same delete_other by (simp add: look_def)

lemma look_set_other: "k' \<noteq> k \<Longrightarrow> look ops t k' (tok_set ops t' k v ttl s) = look ops t k' s"
  using set_other by (simp add: look_def)

end

text \<open>The flow over any store that keeps the contract.\<close>

locale oauth_store = token_store ops for ops :: "('s, oauth_value) token_ops"
begin

lemma complete_view:
  assumes "complete_from_browser ops sec now state code s = (res, s')" and "now \<le> t" and "k \<noteq> state_key state"
  shows "look ops t k s' = look ops t k s
    \<or> (\<exists>uid conn. look ops now (state_key state) s = Some (FlowOwner uid conn) \<and> k = code_key uid conn
        \<and> look ops now (pending_key uid conn) s \<noteq> None \<and> res = Inr True)"
proof -
  obtain v s1 where g: "tok_get ops now (state_key state) s = (v, s1)" by (cases "tok_get ops now (state_key state) s")
  have v: "look ops now (state_key state) s = v" by (simp add: look_def g)
  have one: "look ops t' k' s1 = look ops t' k' s" if "now \<le> t'" for t' k' using look_get [OF that, of k' "state_key state" s] g by simp
  let ?s2 = "tok_delete ops (state_key state) s1"
  have two: "look ops t k ?s2 = look ops t k s" using assms(2,3) one by (simp add: look_delete)
  show ?thesis
  proof (cases "\<exists>uid conn. v = Some (FlowOwner uid conn)")
    case True
    then obtain uid conn where o: "v = Some (FlowOwner uid conn)" by blast
    obtain p s3 where g2: "tok_get ops now (pending_key uid conn) ?s2 = (p, s3)" by (cases "tok_get ops now (pending_key uid conn) ?s2")
    have p: "look ops now (pending_key uid conn) s = p"
      using one [of now "pending_key uid conn"] g2 by (simp add: look_def look_delete [unfolded look_def])
        (metis fst_conv delete_other key_kinds(3))
    have three: "look ops t k s3 = look ops t k s" using look_get [OF assms(2), of k "pending_key uid conn" ?s2] g2 two by simp
    show ?thesis
    proof (cases p)
      case None
      with assms(1) g o g2 three show ?thesis by (simp add: complete_from_browser_def)
    next
      case (Some x)
      with assms(1) g o g2 have "res = Inr True" "s' = tok_set ops now (code_key uid conn) (FlowCode code) (Some (CODE_TTL_SECS * sec)) s3"
        by (simp_all add: complete_from_browser_def)
      with three v o p Some look_set_other [of k "code_key uid conn"] show ?thesis by (cases "k = code_key uid conn") auto
    qed
  next
    case False
    with assms(1) g have "s' = s1 \<or> s' = ?s2"
      by (cases v) (auto simp: complete_from_browser_def split: oauth_value.splits)
    with one [OF assms(2)] two show ?thesis by auto
  qed
qed

lemma complete_uses_state:
  assumes "complete_from_browser ops sec now state code s = (Inr True, s')" and "now \<le> t"
  shows "look ops t (state_key state) s' = None \<and> (\<exists>uid conn. look ops now (state_key state) s = Some (FlowOwner uid conn)
    \<and> look ops now (pending_key uid conn) s \<noteq> None \<and> look ops t (code_key uid conn) s' \<in> {None, Some (FlowCode code)})"
proof -
  obtain v s1 where g: "tok_get ops now (state_key state) s = (v, s1)" by (cases "tok_get ops now (state_key state) s")
  with assms(1) obtain uid conn where o: "v = Some (FlowOwner uid conn)"
    by (cases v) (auto simp: complete_from_browser_def split: oauth_value.splits)
  let ?s2 = "tok_delete ops (state_key state) s1"
  obtain p s3 where g2: "tok_get ops now (pending_key uid conn) ?s2 = (p, s3)" by (cases "tok_get ops now (pending_key uid conn) ?s2")
  with assms(1) g o have p: "p \<noteq> None"
    and s': "s' = tok_set ops now (code_key uid conn) (FlowCode code) (Some (CODE_TTL_SECS * sec)) s3"
    by (auto simp: complete_from_browser_def split: option.splits)
  have "look ops t (state_key state) s3 = None"
    using look_get [OF assms(2), of "state_key state" "pending_key uid conn" ?s2] g2 by (simp add: look_delete)
  then have "look ops t (state_key state) s' = None" by (simp add: s' look_set_other)
  moreover have "look ops now (pending_key uid conn) s = p"
    using look_get [of now now "pending_key uid conn" "state_key state" s] look_delete [of now "pending_key uid conn" "state_key state" s1] g g2
    by (simp add: look_def)
  moreover have "look ops t (code_key uid conn) s' \<in> {None, Some (FlowCode code)}"
    using set_same unfolding s' look_def .
  ultimately show ?thesis using g o p by (auto simp: look_def)
qed

lemma spent_state: "look ops now (state_key state) s = None \<Longrightarrow> fst (complete_from_browser ops sec now state code s) = Inr False"
  by (cases "tok_get ops now (state_key state) s") (auto simp: complete_from_browser_def look_def)

lemma abandon_view:
  assumes "now \<le> t"
  shows "look ops t k (snd (abandon_from_browser ops now state s)) \<in> {None, look ops t k s}"
proof -
  obtain v s1 where g: "tok_get ops now (state_key state) s = (v, s1)" by (cases "tok_get ops now (state_key state) s")
  have "look ops t k s1 = look ops t k s" using look_get [OF assms, of k "state_key state" s] g by simp
  then show ?thesis
    using g by (auto simp: abandon_from_browser_def look_delete split: option.splits oauth_value.splits)
qed

lemma await_view:
  assumes "now \<le> t"
  shows "look ops t k (snd (await_code ops now uid conn s)) \<in> {None, look ops t k s}"
proof -
  obtain p s1 where g: "tok_get ops now (pending_key uid conn) s = (p, s1)" by (cases "tok_get ops now (pending_key uid conn) s")
  obtain c s2 where g2: "tok_get ops now (code_key uid conn) s1 = (c, s2)" by (cases "tok_get ops now (code_key uid conn) s1")
  have "look ops t k s2 = look ops t k s"
    using look_get [OF assms, of k "pending_key uid conn" s] look_get [OF assms, of k "code_key uid conn" s1] g g2 by simp
  then show ?thesis
    using g g2 by (auto simp: await_code_def look_delete split: sum.splits option.splits oauth_value.splits)
qed

end

interpretation memory_flow: oauth_store memory_tokens
  by unfold_locales

interpretation redis_flow: oauth_store "redis_tokens sec" for sec
  by unfold_locales

text \<open>Everything that can happen to a store after a connection was deleted.\<close>

datatype oauth_event =
    Callback string "string option" "string option"
  | Redirect user_id string string "string option"
  | Await user_id string

definition oauth_step ::
  "('s, oauth_value) token_ops \<Rightarrow> int \<Rightarrow> time \<times> oauth_event \<Rightarrow> 's \<Rightarrow> 's"
where
  "oauth_step ops sec te s =
     (case te of (now, ev) \<Rightarrow>
        (case ev of
           Callback state code error \<Rightarrow> snd (oauth_callback ops sec now state code error s)
         | Redirect uid conn url state \<Rightarrow> on_redirect ops sec now uid conn url state s
         | Await uid conn \<Rightarrow> snd (await_code ops now uid conn s)))"

definition elsewhere :: "user_id \<Rightarrow> string \<Rightarrow> oauth_event \<Rightarrow> bool" where
  "elsewhere uid conn ev =
     (case ev of Redirect uid' conn' _ _ \<Rightarrow> (uid', conn') \<noteq> (uid, conn) \<and> CHR '':'' \<notin> set conn' | _ \<Rightarrow> True)"

definition dead_from :: "('s, oauth_value) token_ops \<Rightarrow> time \<Rightarrow> user_id \<Rightarrow> string \<Rightarrow> 's \<Rightarrow> bool" where
  "dead_from ops now uid conn s =
     (\<forall>t \<ge> now. look ops t (pending_key uid conn) s = None \<and> look ops t (code_key uid conn) s = None)"

lemma same_slot: "code_key uid conn = code_key uid' conn' \<Longrightarrow> pending_key uid conn = pending_key uid' conn'"
  by (simp add: code_key_def pending_key_def)

lemma dead_step:
  assumes "oauth_store ops" and "dead_from ops now uid conn s" and "now \<le> t" and "elsewhere uid conn ev" and "CHR '':'' \<notin> set conn"
  shows "dead_from ops t uid conn (oauth_step ops sec (t, ev) s)"
  unfolding dead_from_def
proof (intro allI impI)
  fix t'
  assume t': "t \<le> t'"
  have now: "look ops r (pending_key uid conn) s = None" "look ops r (code_key uid conn) s = None" if "t \<le> r" for r
    using assms(2,3) that by (auto simp: dead_from_def)
  show "look ops t' (pending_key uid conn) (oauth_step ops sec (t, ev) s) = None
      \<and> look ops t' (code_key uid conn) (oauth_step ops sec (t, ev) s) = None"
  proof (cases ev)
    case (Callback state code error)
    obtain res s' where c: "complete_from_browser ops sec t state (the code) s = (res, s')" by (cases "complete_from_browser ops sec t state (the code) s")
    have fin: "look ops t' (pending_key uid conn) s' = None"
      using oauth_store.complete_view [OF assms(1) c t', of "pending_key uid conn"] now(1) [OF t'] by simp
    have fin2: "look ops t' (code_key uid conn) s' = None"
    proof (rule ccontr)
      assume "look ops t' (code_key uid conn) s' \<noteq> None"
      with oauth_store.complete_view [OF assms(1) c t', of "code_key uid conn"] now(2) [OF t']
      obtain uid' conn' where "code_key uid conn = code_key uid' conn'" "look ops t (pending_key uid' conn') s \<noteq> None" by auto
      with same_slot [of uid conn uid' conn'] now(1) [OF order_refl] show False by simp
    qed
    have "snd (oauth_callback ops sec t state code error s) \<in> {s, s', snd (abandon_from_browser ops t state s)}"
      using c by (auto simp: oauth_callback_def split: prod.splits sum.splits bool.splits)
    with Callback fin fin2 now [OF t'] oauth_store.abandon_view [OF assms(1) t', of "pending_key uid conn" state s]
      oauth_store.abandon_view [OF assms(1) t', of "code_key uid conn" state s]
    show ?thesis by (auto simp: oauth_step_def)
  next
    case (Redirect uid' conn' url state)
    with assms(4,5) have "pending_key uid conn \<noteq> pending_key uid' conn'" by (auto simp: elsewhere_def key_inj)
    with Redirect now [OF t'] show ?thesis
      by (auto simp: oauth_step_def on_redirect_def token_store.look_set_other [OF oauth_store.axioms [OF assms(1)]] split: option.splits)
  next
    case (Await uid' conn')
    with now [OF t'] oauth_store.await_view [OF assms(1) t', of "pending_key uid conn" uid' conn' s]
      oauth_store.await_view [OF assms(1) t', of "code_key uid conn" uid' conn' s]
    show ?thesis by (auto simp: oauth_step_def)
  qed
qed

lemma dead_run:
  assumes "oauth_store ops" and "dead_from ops now uid conn s" and "sorted (now # map fst events)"
    and "list_all (elsewhere uid conn) (map snd events)" and "CHR '':'' \<notin> set conn" and "\<forall>te \<in> set events. fst te \<le> t" and "now \<le> t"
  shows "dead_from ops t uid conn (fold (oauth_step ops sec) events s)"
  using assms(2-4,6,7)
proof (induction events arbitrary: now s)
  case Nil
  then show ?case by (auto simp: dead_from_def)
next
  case (Cons te events)
  obtain r ev where te: "te = (r, ev)" by (cases te)
  have "dead_from ops r uid conn (oauth_step ops sec (r, ev) s)"
    using Cons.prems te by (intro dead_step [OF assms(1) Cons.prems(1) _ _ assms(5)]) auto
  from Cons.IH [OF this] Cons.prems te show ?case by auto
qed

text \<open>
  A callback serves the flow it belongs to, once.  When the public callback accepts a
  state, the state had been issued to one user's connection whose flow was still parked; only that flow's code slot changes,
  so nobody else's flow, code or token is touched; the state is spent,
  and the same link gets the answer that it has expired at any later time.
\<close>

theorem oauth_state_single_use:
  assumes "oauth_store ops" and "complete_from_browser ops sec now state code s = (Inr True, s')" and "now \<le> t"
  shows "\<exists>uid conn. look ops now (state_key state) s = Some (FlowOwner uid conn) \<and> look ops now (pending_key uid conn) s \<noteq> None
    \<and> look ops t (code_key uid conn) s' \<in> {None, Some (FlowCode code)}
    \<and> (\<forall>k. k \<noteq> state_key state \<and> k \<noteq> code_key uid conn \<longrightarrow> look ops t k s' = look ops t k s)
    \<and> fst (complete_from_browser ops sec t state code' s') = Inr False"
proof -
  obtain uid conn where o: "look ops now (state_key state) s = Some (FlowOwner uid conn)"
      "look ops now (pending_key uid conn) s \<noteq> None" "look ops t (code_key uid conn) s' \<in> {None, Some (FlowCode code)}"
    and spent: "look ops t (state_key state) s' = None"
    using oauth_store.complete_uses_state [OF assms] by blast
  have "look ops t k s' = look ops t k s" if "k \<noteq> state_key state" "k \<noteq> code_key uid conn" for k
    using oauth_store.complete_view [OF assms(1,2,3) that(1)] o(1) that(2) by auto
  with o oauth_store.spent_state [OF assms(1) spent] show ?thesis by blast
qed

text \<open>
  Claim C31.  A deleted connection collects nothing.  After its OAuth state was purged, whatever
  callbacks, polls and flows of other connections follow, with any store that keeps the contract,
  no code and no pending flow of the deleted connection exists, until a new flow starts for it.
\<close>

theorem purged_flow_stays_dead:
  assumes "oauth_store ops" and "CHR '':'' \<notin> set conn" and "sorted (now # map fst events)"
    and "list_all (elsewhere uid conn) (map snd events)" and "\<forall>te \<in> set events. fst te \<le> t" and "now \<le> t"
  shows "fst (await_code ops t uid conn (fold (oauth_step ops sec) events (fst (purge_oauth_state ops uid conn (s, regs)))))
    = Inr (PausedFor None)"
proof -
  let ?s = "fold (oauth_step ops sec) events (fst (purge_oauth_state ops uid conn (s, regs)))"
  note look_delete = token_store.look_delete [OF oauth_store.axioms [OF assms(1)]]
  have "dead_from ops now uid conn (fst (purge_oauth_state ops uid conn (s, regs)))"
    by (simp add: dead_from_def purge_oauth_state_def clear_tokens_def look_delete)
  from dead_run [OF assms(1) this assms(3,4,2,5,6)] have dead: "dead_from ops t uid conn ?s" .
  obtain p s1 where p: "tok_get ops t (pending_key uid conn) ?s = (p, s1)" by (cases "tok_get ops t (pending_key uid conn) ?s")
  obtain c s2 where c: "tok_get ops t (code_key uid conn) s1 = (c, s2)" by (cases "tok_get ops t (code_key uid conn) s1")
  have "look ops t (code_key uid conn) s1 = look ops t (code_key uid conn) ?s"
    using token_store.look_get [OF oauth_store.axioms [OF assms(1)], of t t "code_key uid conn" "pending_key uid conn" ?s] p by simp
  with dead p c have "p = None" "c = None" by (auto simp: dead_from_def look_def)
  with p c show ?thesis by (simp add: await_code_def pending_of_def)
qed


definition parked_store :: "oauth_value entries" where
  "parked_store = on_redirect memory_tokens 1 0 ''alice'' ''kb'' ''https://auth/?state=s1'' (Some ''s1'') []"

lemma parked_completed:
  "complete_from_browser memory_tokens 1 10 ''s1'' ''c1'' parked_store
   = (Inr True, [(''mcp_oauth:pending:alice:kb'', PendingFlow ''https://auth/?state=s1'' ''s1'', Some 600),
                 (''mcp_oauth:code:alice:kb'', FlowCode ''c1'', Some 310)])"
  by (simp add: parked_store_def on_redirect_def complete_from_browser_def memory_tokens_def memory_token_get_def memory_token_set_def
      memory_token_delete_def state_key_def pending_key_def code_key_def PENDING_TTL_SECS_def CODE_TTL_SECS_def)

theorem oauth_state_single_use_witness:
  "complete_from_browser memory_tokens 1 10 ''s1'' ''c1'' parked_store
     = (Inr True, [(''mcp_oauth:pending:alice:kb'', PendingFlow ''https://auth/?state=s1'' ''s1'', Some 600),
                   (''mcp_oauth:code:alice:kb'', FlowCode ''c1'', Some 310)])
   \<and> fst (complete_from_browser memory_tokens 1 20 ''s1'' ''c2''
       [(''mcp_oauth:pending:alice:kb'', PendingFlow ''https://auth/?state=s1'' ''s1'', Some 600),
        (''mcp_oauth:code:alice:kb'', FlowCode ''c1'', Some 310)]) = Inr False"
  using oauth_state_single_use [OF memory_flow.oauth_store_axioms parked_completed, of 20 "''c2''"] parked_completed by auto

theorem purged_flow_stays_dead_witness:
  "fst (await_code memory_tokens 30 ''alice'' ''kb'' (fold (oauth_step memory_tokens 1) [(20, Callback ''s1'' (Some ''c1'') None)]
     (fst (purge_oauth_state memory_tokens ''alice'' ''kb'' (parked_store, []))))) = Inr (PausedFor None)"
  by (rule purged_flow_stays_dead [OF memory_flow.oauth_store_axioms, of _ 10]) (auto simp: elsewhere_def)

text \<open>
  A state of a deleted connection comes back to life with the next flow of the same name: the
  callback then parks the old code for the new flow.
\<close>

lemma stale_state_revived:
  assumes "oauth_store ops" and "purge_oauth_state ops uid conn (s, regs) = (s1, regs')"
    and "look ops t (state_key old) s = Some (FlowOwner uid conn)" and "old \<noteq> new"
    and "look ops t (pending_key uid conn) (on_redirect ops sec now uid conn url (Some new) s1) \<noteq> None"
  shows "fst (complete_from_browser ops sec t old code (on_redirect ops sec now uid conn url (Some new) s1)) = Inr True"
proof -
  note laws = oauth_store.axioms [OF assms(1)]
  let ?s = "on_redirect ops sec now uid conn url (Some new) s1"
  have "look ops t (state_key old) ?s = look ops t (state_key old) s1"
    using assms(4) state_key_inj [of old new] by (simp add: on_redirect_def token_store.look_set_other [OF laws])
  also have "\<dots> = Some (FlowOwner uid conn)"
    using assms(2,3) by (auto simp: purge_oauth_state_def clear_tokens_def token_store.look_delete [OF laws])
  finally have o: "look ops t (state_key old) ?s = Some (FlowOwner uid conn)" .
  obtain v s2 where g: "tok_get ops t (state_key old) ?s = (v, s2)" by (cases "tok_get ops t (state_key old) ?s")
  with o have v: "v = Some (FlowOwner uid conn)" by (simp add: look_def)
  obtain p s3 where g2: "tok_get ops t (pending_key uid conn) (tok_delete ops (state_key old) s2) = (p, s3)"
    by (cases "tok_get ops t (pending_key uid conn) (tok_delete ops (state_key old) s2)")
  have "look ops t (pending_key uid conn) (tok_delete ops (state_key old) s2) = look ops t (pending_key uid conn) ?s"
    using token_store.look_get [OF laws, of t t "pending_key uid conn" "state_key old" ?s] g by (simp add: token_store.look_delete [OF laws])
  with assms(5) g2 have "p \<noteq> None" by (simp add: look_def)
  with g g2 v show ?thesis by (auto simp: complete_from_browser_def)
qed

end
