(* ===== verification/Hub.thy ===== *)
theory Hub
  imports Policy Url_Guard Mcp_Loader Mcp_Errors Oauth
begin

text \<open>
  The hub of user skills and MCP connections: \<^verbatim>\<open>hub/models.py\<close>, \<^verbatim>\<open>hub/importer.py\<close>,
  \<^verbatim>\<open>hub/repositories.py\<close>, \<^verbatim>\<open>hub/services.py\<close>, \<^verbatim>\<open>hub/apps_host.py\<close> and \<^verbatim>\<open>hub/queries.py\<close>.  The policy
  engine, DNS, the HTTP client, the YAML and zip libraries, UTF-8 decoding and the calls to a
  connected server are arguments.
\<close>

subsection \<open>Skill models\<close>

definition SKILL_MD :: string where "SKILL_MD = ''SKILL.md''"
definition MAX_FILES_PER_SKILL :: nat where "MAX_FILES_PER_SKILL = 50"
definition MAX_FILE_BYTES :: nat where "MAX_FILE_BYTES = 262144"
definition MAX_TOTAL_BYTES :: nat where "MAX_TOTAL_BYTES = 1048576"
definition MAX_DESCRIPTION_CHARS :: nat where "MAX_DESCRIPTION_CHARS = 1024"

record skill_input =
  fi_path :: string
  fi_content :: string

text \<open>\<open>^[a-z0-9][a-z0-9-]{0,63}$\<close>, whose end anchor also matches before a final newline.\<close>

definition hub_name :: "string \<Rightarrow> bool" where
  "hub_name s =
     (let body = (if s \<noteq> [] \<and> last s = CHR 0x0A then butlast s else s)
      in body \<noteq> [] \<and> length body \<le> 64 \<and> hd body \<noteq> CHR ''-'' \<and> list_all server_name_char body)"

definition utf8_len :: "string \<Rightarrow> nat" where
  "utf8_len s = sum_list (map (\<lambda>c. if (of_char c :: nat) < 128 then 1 else 2) s)"

text \<open>A \<open>SkillValidationError\<close> is \<open>ValueError\<close> here; the services turn it into a 422.\<close>

definition validate_file_path :: "string \<Rightarrow> unit result" where
  "validate_file_path path =
     (if path = [] \<or> hd path = CHR ''/'' \<or> CHR 0x5C \<in> set path then Inl ValueError
      else if list_ex (\<lambda>part. part = [] \<or> part = ''.'' \<or> part = ''..'') (py_split ''/'' path) then Inl ValueError
      else Inr ())"

record parsed_skill =
  ps_name :: string
  ps_description :: string
  ps_license :: "string option"
  ps_metadata :: dict

text \<open>The text before the first \<open>marker\<close>.\<close>

fun before_text :: "string \<Rightarrow> string \<Rightarrow> string option" where
  "before_text marker [] = (if marker = [] then Some [] else None)"
| "before_text marker (c # cs) =
     (if take (length marker) (c # cs) = marker then Some [] else map_option ((#) c) (before_text marker cs))"

definition parse_skill_md :: "(string \<Rightarrow> json option) \<Rightarrow> string \<Rightarrow> parsed_skill result" where
  "parse_skill_md yaml content =
     (if take 3 content \<noteq> ''---'' then Inl ValueError
      else
        (case before_text (CHR 0x0A # ''---'') (drop 3 content) of
           None \<Rightarrow> Inl ValueError
         | Some front \<Rightarrow>
             (case yaml front of
                Some (JObj d) \<Rightarrow>
                  (case (map_of d ''name'', map_of d ''description'') of
                     (Some (JStr name), Some (JStr description)) \<Rightarrow>
                       if \<not> hub_name name \<or> py_strip description = [] \<or> length description > MAX_DESCRIPTION_CHARS
                       then Inl ValueError
                       else
                         (let metadata = get_or d ''metadata'' JNull
                          in if json_truthy metadata \<and> \<not> is_dict metadata then Inl ValueError
                             else Inr \<lparr>ps_name = name, ps_description = description,
                                       ps_license = (case map_of d ''license'' of Some (JStr l) \<Rightarrow> Some l | _ \<Rightarrow> None),
                                       ps_metadata = (case metadata of JObj m \<Rightarrow> m | _ \<Rightarrow> [])\<rparr>)
                   | _ \<Rightarrow> Inl ValueError)
              | _ \<Rightarrow> Inl ValueError)))"

text \<open>The loop over the files: seen paths, total size and the root document.\<close>

fun check_files :: "string list \<Rightarrow> nat \<Rightarrow> string option \<Rightarrow> skill_input list \<Rightarrow> (nat \<times> string option) result" where
  "check_files seen bytes md [] = Inr (bytes, md)"
| "check_files seen bytes md (f # fs) =
     bind_res (validate_file_path (fi_path f)) (\<lambda>_.
       if fi_path f \<in> set seen then Inl ValueError
       else if utf8_len (fi_content f) > MAX_FILE_BYTES then Inl ValueError
       else check_files (fi_path f # seen) (bytes + utf8_len (fi_content f))
              (if fi_path f = SKILL_MD then Some (fi_content f) else md) fs)"

definition validate_skill_files :: "(string \<Rightarrow> json option) \<Rightarrow> skill_input list \<Rightarrow> parsed_skill result" where
  "validate_skill_files yaml files =
     (if length files > MAX_FILES_PER_SKILL then Inl ValueError
      else
        bind_res (check_files [] 0 None files) (\<lambda>(bytes, md).
          if bytes > MAX_TOTAL_BYTES then Inl ValueError
          else (case md of None \<Rightarrow> Inl ValueError | Some content \<Rightarrow> parse_skill_md yaml content)))"

subsection \<open>Imports\<close>

text \<open>
  An entry of an archive: its name, the mode bits, the declared size and the bytes that
  decompressing it yields, \<open>None\<close> when that raises.
\<close>

record zip_entry =
  z_name :: string
  z_mode :: nat
  z_size :: nat
  z_data :: "string option"

definition is_dir_entry :: "zip_entry \<Rightarrow> bool" where
  "is_dir_entry z = (z_name z \<noteq> [] \<and> last (z_name z) = CHR ''/'')"

text \<open>The file type bits are \<open>0o170000\<close>; a regular file has \<open>0o100000\<close>.\<close>

definition file_type :: "nat \<Rightarrow> nat" where
  "file_type mode = (mode div 4096) mod 16"

fun reject_entries :: "nat \<Rightarrow> zip_entry list \<Rightarrow> unit result" where
  "reject_entries declared [] = Inr ()"
| "reject_entries declared (z # zs) =
     (if file_type (z_mode z) \<noteq> 0 \<and> file_type (z_mode z) \<noteq> 8 then Inl ValueError
      else if z_size z > MAX_FILE_BYTES then Inl ValueError
      else if declared + z_size z > MAX_TOTAL_BYTES then Inl ValueError
      else reject_entries (declared + z_size z) zs)"

definition reject_oversized_entries :: "zip_entry list \<Rightarrow> unit result" where
  "reject_oversized_entries entries =
     (if length entries > MAX_FILES_PER_SKILL then Inl ValueError else reject_entries 0 entries)"

definition rstrip_slash :: "string \<Rightarrow> string" where
  "rstrip_slash s = rev (dropWhile (\<lambda>c. c = CHR ''/'') (rev s))"

definition skill_roots :: "zip_entry list \<Rightarrow> string list" where
  "skill_roots entries =
     remdups (filter (\<lambda>r. r = [] \<or> CHR ''/'' \<notin> set r)
       (map (\<lambda>z. rstrip_slash (take (length (z_name z) - length SKILL_MD) (z_name z)))
         (filter (\<lambda>z. ends_with (z_name z) SKILL_MD) entries)))"

text \<open>Reading the members under the root; \<open>decode\<close> is UTF-8 decoding.\<close>

fun read_members ::
  "(string \<Rightarrow> string option) \<Rightarrow> string \<Rightarrow> nat \<Rightarrow> zip_entry list \<Rightarrow> skill_input list result"
where
  "read_members decode pre read_total [] = Inr []"
| "read_members decode pre read_total (z # zs) =
     (if take (length pre) (z_name z) \<noteq> pre then read_members decode pre read_total zs
      else
        (case z_data z of
           None \<Rightarrow> Inl RuntimeError
         | Some raw \<Rightarrow>
             if length raw > MAX_FILE_BYTES then Inl ValueError
             else if read_total + length raw > MAX_TOTAL_BYTES then Inl ValueError
             else
               (case decode raw of
                  None \<Rightarrow> Inl ValueError
                | Some content \<Rightarrow>
                    bind_res (read_members decode pre (read_total + length raw) zs) (\<lambda>fs.
                      Inr (\<lparr>fi_path = drop (length pre) (z_name z), fi_content = content\<rparr> # fs)))))"

definition unpack_zip ::
  "(string \<Rightarrow> zip_entry list option) \<Rightarrow> (string \<Rightarrow> string option) \<Rightarrow> string \<Rightarrow> skill_input list result"
where
  "unpack_zip unzip decode data =
     (case unzip data of
        None \<Rightarrow> Inl ValueError
      | Some infolist \<Rightarrow>
          (let entries = filter (\<lambda>z. \<not> is_dir_entry z) infolist
           in bind_res (reject_oversized_entries entries) (\<lambda>_.
                case skill_roots entries of
                  [folder] \<Rightarrow> read_members decode (if folder = [] then [] else folder @ ''/'') 0 entries
                | _ \<Rightarrow> Inl ValueError)))"

definition parse_import_payload ::
  "(string \<Rightarrow> zip_entry list option) \<Rightarrow> (string \<Rightarrow> string option) \<Rightarrow> string \<Rightarrow> skill_input list result"
where
  "parse_import_payload unzip decode data =
     (if take 4 data = [CHR ''P'', CHR ''K'', CHR 0x03, CHR 0x04] then unpack_zip unzip decode data
      else (case decode data of
              None \<Rightarrow> Inl ValueError
            | Some content \<Rightarrow> Inr [\<lparr>fi_path = SKILL_MD, fi_content = content\<rparr>]))"

subsection \<open>Tables\<close>

record skill_row =
  sk_skill_id :: string
  sk_user_id :: user_id
  sk_name :: string
  sk_description :: string
  sk_license :: "string option"
  sk_metadata :: dict
  sk_created_at :: time
  sk_updated_at :: time

record skill_file =
  sf_skill_id :: string
  sf_path :: string
  sf_content :: string

record connection_row =
  mc_user_id :: user_id
  mc_name :: string
  mc_transport :: string
  mc_url :: string
  mc_auth_type :: string
  mc_headers :: "(string \<times> string) list"
  mc_allowed :: "string list option"
  mc_enabled :: bool
  mc_created_at :: time
  mc_updated_at :: time

record hub_db =
  hub_skills :: "skill_row list"
  hub_files :: "skill_file list"
  hub_connections :: "connection_row list"

definition skill_for_owner :: "user_id \<Rightarrow> string \<Rightarrow> hub_db \<Rightarrow> skill_row option" where
  "skill_for_owner uid name d = first_where (\<lambda>r. sk_user_id r = uid \<and> sk_name r = name) (hub_skills d)"

definition connection_for_owner :: "user_id \<Rightarrow> string \<Rightarrow> hub_db \<Rightarrow> connection_row option" where
  "connection_for_owner uid name d = first_where (\<lambda>r. mc_user_id r = uid \<and> mc_name r = name) (hub_connections d)"

text \<open>A text column is ordered by the database's collation, here the collation key of a text.\<close>

definition skill_list_files :: "(string \<Rightarrow> string) \<Rightarrow> string \<Rightarrow> hub_db \<Rightarrow> skill_file list" where
  "skill_list_files collate sid d = sort_key (\<lambda>f. collate (sf_path f)) (select_where (\<lambda>f. sf_skill_id f = sid) (hub_files d))"

definition files_of :: "string \<Rightarrow> (string \<times> string) list \<Rightarrow> skill_file list" where
  "files_of sid files = map (\<lambda>(p, c). \<lparr>sf_skill_id = sid, sf_path = p, sf_content = c\<rparr>) files"

text \<open>
  What a column of JSON keeps of a value: the bind processor removes NUL characters.  The row object
  a request goes on with still holds the value as given, since a commit does not expire it.
\<close>

definition stored_skill :: "skill_row \<Rightarrow> skill_row" where
  "stored_skill r = r\<lparr>sk_metadata := bind_dict (sk_metadata r)\<rparr>"

definition stored_connection :: "connection_row \<Rightarrow> connection_row" where
  "stored_connection r = r\<lparr>mc_allowed := map_option (map strip_nul) (mc_allowed r)\<rparr>"

lemma stored_connection_key [simp]:
  "mc_user_id (stored_connection c) = mc_user_id c" "mc_name (stored_connection c) = mc_name c"
  by (simp_all add: stored_connection_def)

lemma stored_skill_key [simp]:
  "sk_user_id (stored_skill r) = sk_user_id r" "sk_name (stored_skill r) = sk_name r" "sk_skill_id (stored_skill r) = sk_skill_id r"
  by (simp_all add: stored_skill_def)

definition skill_save ::
  "time \<Rightarrow> string \<Rightarrow> user_id \<Rightarrow> parsed_skill \<Rightarrow> (string \<times> string) list \<Rightarrow> hub_db \<Rightarrow> skill_row \<times> hub_db"
where
  "skill_save now new_id uid p files d =
     (case skill_for_owner uid (ps_name p) d of
        None \<Rightarrow>
          (let row = \<lparr>sk_skill_id = new_id, sk_user_id = uid, sk_name = ps_name p, sk_description = ps_description p,
                 sk_license = ps_license p, sk_metadata = ps_metadata p, sk_created_at = now, sk_updated_at = now\<rparr>
           in (row, d\<lparr>hub_skills := hub_skills d @ [stored_skill row], hub_files := hub_files d @ files_of new_id files\<rparr>))
      | Some row \<Rightarrow>
          (let change = (\<lambda>r. r\<lparr>sk_description := ps_description p, sk_license := ps_license p,
                 sk_metadata := ps_metadata p, sk_updated_at := now\<rparr>)
           in (change row,
               d\<lparr>hub_skills := update_where (\<lambda>r. sk_skill_id r = sk_skill_id row) (stored_skill \<circ> change) (hub_skills d),
                 hub_files := delete_where (\<lambda>f. sf_skill_id f = sk_skill_id row) (hub_files d)
                   @ files_of (sk_skill_id row) files\<rparr>)))"

definition skill_delete :: "skill_row \<Rightarrow> hub_db \<Rightarrow> hub_db" where
  "skill_delete row d =
     d\<lparr>hub_skills := delete_where (\<lambda>r. sk_skill_id r = sk_skill_id row) (hub_skills d),
       hub_files := delete_where (\<lambda>f. sf_skill_id f = sk_skill_id row) (hub_files d)\<rparr>"

subsection \<open>\<open>SkillService\<close>\<close>

record hub_env =
  he_policy :: policy_engine
  he_dns :: "string \<Rightarrow> ip list option"
  he_yaml :: "string \<Rightarrow> json option"
  he_unzip :: "string \<Rightarrow> zip_entry list option"
  he_decode :: "string \<Rightarrow> string option"
  he_fetch :: "string \<Rightarrow> fetched"
  he_allowed_domains :: "string list"
  he_tool_authz :: bool
  he_collate :: "string \<Rightarrow> string"

definition allowed_mcp_domains :: "string \<Rightarrow> string list" where
  "allowed_mcp_domains setting = map (\<lambda>d. py_lower (py_strip d)) (filter (\<lambda>d. py_strip d \<noteq> []) (py_split '','' setting))"

definition hub_require :: "hub_env \<Rightarrow> user \<Rightarrow> string \<Rightarrow> string \<Rightarrow> string \<Rightarrow> user_id option \<Rightarrow> unit result" where
  "hub_require env u perm ty rid owner = pe_require (he_policy env) u perm \<lparr>res_type = ty, res_id = rid, res_owner_id = owner\<rparr> None"

definition or_422 :: "'a result \<Rightarrow> 'a result" where
  "or_422 r = (case r of Inl ValueError \<Rightarrow> Inl (HTTPException 422) | _ \<Rightarrow> r)"

definition get_owned_skill :: "user \<Rightarrow> string \<Rightarrow> hub_db \<Rightarrow> skill_row result" where
  "get_owned_skill u name d =
     (case skill_for_owner (identity u) name d of None \<Rightarrow> Inl (HTTPException 404) | Some r \<Rightarrow> Inr r)"

record skill_detail =
  sd_row :: skill_row
  sd_files :: "(string \<times> string) list"

definition get_skill :: "hub_env \<Rightarrow> user \<Rightarrow> string \<Rightarrow> hub_db \<Rightarrow> skill_detail result" where
  "get_skill env u name d =
     bind_res (get_owned_skill u name d) (\<lambda>row.
     bind_res (hub_require env u ''read'' ''skill'' name (Some (sk_user_id row))) (\<lambda>_.
       Inr \<lparr>sd_row = row, sd_files = map (\<lambda>f. (sf_path f, sf_content f)) (skill_list_files (he_collate env) (sk_skill_id row) d)\<rparr>))"

text \<open>A text column refuses a NUL character; the driver's error is \<open>RuntimeError\<close> here, and nothing is committed.\<close>

definition storable_text :: "parsed_skill \<Rightarrow> (string \<times> string) list \<Rightarrow> bool" where
  "storable_text p files =
     list_all (\<lambda>s. CHR 0x00 \<notin> set s)
       (ps_description p # (case ps_license p of None \<Rightarrow> [] | Some l \<Rightarrow> [l]) @ map fst files)"

definition install_skill ::
  "hub_env \<Rightarrow> time \<Rightarrow> string \<Rightarrow> user \<Rightarrow> skill_input list \<Rightarrow> hub_db \<Rightarrow> skill_detail result \<times> hub_db"
where
  "install_skill env now new_id u files d =
     (case or_422 (validate_skill_files (he_yaml env) files) of
        Inl e \<Rightarrow> (Inl e, d)
      | Inr parsed \<Rightarrow>
          (case hub_require env u ''install'' ''skill'' (ps_name parsed) (Some (identity u)) of
             Inl e \<Rightarrow> (Inl e, d)
           | Inr _ \<Rightarrow>
               (let contents = map (\<lambda>f. (fi_path f, fi_content f)) files
                in if \<not> storable_text parsed contents then (Inl RuntimeError, d) else case skill_save now new_id (identity u) parsed (dict_update [] contents) d of
                     (row, d') \<Rightarrow> (Inr \<lparr>sd_row = row, sd_files = contents\<rparr>, d'))))"

definition replace_skill ::
  "hub_env \<Rightarrow> time \<Rightarrow> string \<Rightarrow> user \<Rightarrow> string \<Rightarrow> skill_input list \<Rightarrow> hub_db \<Rightarrow> skill_detail result \<times> hub_db"
where
  "replace_skill env now new_id u name files d =
     (case bind_res (or_422 (validate_skill_files (he_yaml env) files)) (\<lambda>parsed.
             if ps_name parsed \<noteq> name then Inl (HTTPException 422) else get_owned_skill u name d) of
        Inl e \<Rightarrow> (Inl e, d)
      | Inr _ \<Rightarrow> install_skill env now new_id u files d)"

definition uninstall_skill :: "hub_env \<Rightarrow> user \<Rightarrow> string \<Rightarrow> hub_db \<Rightarrow> unit result \<times> hub_db" where
  "uninstall_skill env u name d =
     (case bind_res (get_owned_skill u name d) (\<lambda>row.
             bind_res (hub_require env u ''uninstall'' ''skill'' name (Some (sk_user_id row))) (\<lambda>_. Inr row)) of
        Inl e \<Rightarrow> (Inl e, d)
      | Inr row \<Rightarrow> (Inr (), skill_delete row d))"

text \<open>
  The request model of an installation wants at least one file; for an import it is built
  outside the handler of validation errors.
\<close>

definition import_skill ::
  "hub_env \<Rightarrow> time \<Rightarrow> string \<Rightarrow> user \<Rightarrow> string \<Rightarrow> hub_db \<Rightarrow> skill_detail result \<times> hub_db"
where
  "import_skill env now new_id u url d =
     (case (case he_fetch env url of
              Body data \<Rightarrow> or_422 (parse_import_payload (he_unzip env) (he_decode env) data)
            | SkillFetchError \<Rightarrow> Inl (HTTPException 422)
            | UncaughtValueError \<Rightarrow> Inl ValueError
            | UncaughtInvalidURL \<Rightarrow> Inl RuntimeError) of
        Inl e \<Rightarrow> (Inl e, d)
      | Inr files \<Rightarrow> if files = [] then (Inl ValueError, d) else install_skill env now new_id u files d)"

subsection \<open>Connection models\<close>

definition MAX_HEADERS :: nat where "MAX_HEADERS = 20"
definition MAX_ALLOWED_TOOLS :: nat where "MAX_ALLOWED_TOOLS = 100"
definition MAX_TOOL_NAME_CHARS :: nat where "MAX_TOOL_NAME_CHARS = 128"
definition USER_TRANSPORT :: string where "USER_TRANSPORT = ''streamable_http''"

text \<open>An \<open>McpConnectionValidationError\<close> is the 422 it becomes; a \<open>ValueError\<close> of the URL parser is not one.\<close>

definition validate_connection_name :: "string \<Rightarrow> unit result" where
  "validate_connection_name name = (if hub_name name then Inr () else Inl (HTTPException 422))"

definition validate_connection_url :: "string \<Rightarrow> unit result" where
  "validate_connection_url url =
     (case split_netloc url of (scheme, netloc, _) \<Rightarrow>
        if bad_netloc netloc then Inl ValueError
        else if (scheme \<noteq> ''http'' \<and> scheme \<noteq> ''https'') \<or> netloc = [] then Inl (HTTPException 422) else Inr ())"

fun clean_tools :: "string list \<Rightarrow> string list \<Rightarrow> string list result" where
  "clean_tools cleaned [] = Inr cleaned"
| "clean_tools cleaned (raw # names) =
     (let name = py_strip raw
      in if name = [] \<or> length name > MAX_TOOL_NAME_CHARS then Inl (HTTPException 422)
         else clean_tools (if name \<in> set cleaned then cleaned else cleaned @ [name]) names)"

definition normalize_allowed_tools :: "string list option \<Rightarrow> string list option result" where
  "normalize_allowed_tools names =
     (case names of
        None \<Rightarrow> Inr None
      | Some [] \<Rightarrow> Inr None
      | Some ns \<Rightarrow>
          bind_res (clean_tools [] ns) (\<lambda>cleaned.
            if length cleaned > MAX_ALLOWED_TOOLS then Inl (HTTPException 422) else Inr (Some cleaned)))"

definition validate_auth_type_headers :: "string \<Rightarrow> (string \<times> string) list \<Rightarrow> unit result" where
  "validate_auth_type_headers auth_type headers =
     (if (auth_type = ''headers'') = (headers = []) then Inl (HTTPException 422) else Inr ())"

record connection_create =
  cc_name :: string
  cc_url :: string
  cc_auth_type :: string
  cc_headers :: "(string \<times> string) list"
  cc_allowed :: "string list option"

record connection_update =
  cup_url :: "string option"
  cup_auth_type :: "string option"
  cup_headers :: "(string \<times> string) list option"
  cup_allowed :: "string list option"
  cup_enabled :: "bool option"

definition AUTH_TYPES :: "string list" where "AUTH_TYPES = [''none'', ''headers'', ''oauth'']"

definition validate_connection_create :: "connection_create \<Rightarrow> connection_create result" where
  "validate_connection_create p =
     (if cc_auth_type p \<notin> set AUTH_TYPES \<or> length (cc_headers p) > MAX_HEADERS then Inl (HTTPException 422)
      else
        bind_res (normalize_allowed_tools (cc_allowed p)) (\<lambda>allowed.
        bind_res (validate_auth_type_headers (cc_auth_type p) (cc_headers p)) (\<lambda>_. Inr (p\<lparr>cc_allowed := allowed\<rparr>))))"

definition validate_connection_update :: "connection_update \<Rightarrow> connection_update result" where
  "validate_connection_update p =
     (if (case cup_auth_type p of None \<Rightarrow> False | Some t \<Rightarrow> t \<notin> set AUTH_TYPES) then Inl (HTTPException 422)
      else
        (case cup_allowed p of
           None \<Rightarrow> Inr p
         | Some _ \<Rightarrow>
             bind_res (normalize_allowed_tools (cup_allowed p)) (\<lambda>allowed.
               Inr (p\<lparr>cup_allowed := Some (case allowed of None \<Rightarrow> [] | Some a \<Rightarrow> a)\<rparr>))))"

record connection_view =
  cv_name :: string
  cv_transport :: string
  cv_url :: string
  cv_auth_type :: string
  cv_header_keys :: "string list"
  cv_allowed :: "string list option"
  cv_enabled :: bool
  cv_created_at :: time
  cv_updated_at :: time

definition to_view :: "connection_row \<Rightarrow> connection_view" where
  "to_view r =
     \<lparr>cv_name = mc_name r, cv_transport = mc_transport r, cv_url = mc_url r, cv_auth_type = mc_auth_type r,
      cv_header_keys = sort (map fst (mc_headers r)), cv_allowed = mc_allowed r, cv_enabled = mc_enabled r,
      cv_created_at = mc_created_at r, cv_updated_at = mc_updated_at r\<rparr>"

subsection \<open>\<open>McpConnectionService\<close>\<close>

definition url_host :: "string \<Rightarrow> string" where
  "url_host url = (case split_netloc url of (_, netloc, _) \<Rightarrow> py_lower (case hostname netloc of None \<Rightarrow> [] | Some h \<Rightarrow> h))"

definition validate_connection :: "hub_env \<Rightarrow> string \<Rightarrow> string \<Rightarrow> unit result" where
  "validate_connection env name url =
     bind_res (validate_connection_name name) (\<lambda>_.
     bind_res (validate_connection_url url) (\<lambda>_.
       let host = url_host url;
           allowed = he_allowed_domains env;
           explicitly_allowed = (host \<noteq> [] \<and> host \<in> set allowed)
       in if allowed \<noteq> [] \<and> \<not> explicitly_allowed then Inl (HTTPException 422)
          else if explicitly_allowed then Inr ()
          else (case validate_public_http_url (he_dns env) url of
                  Fetch _ \<Rightarrow> Inr () | Refused \<Rightarrow> Inl (HTTPException 422) | RaisedValueError \<Rightarrow> Inl ValueError)))"

definition get_owned_connection :: "user \<Rightarrow> string \<Rightarrow> hub_db \<Rightarrow> connection_row result" where
  "get_owned_connection u name d =
     (case connection_for_owner (identity u) name d of None \<Rightarrow> Inl (HTTPException 404) | Some r \<Rightarrow> Inr r)"

definition require_connection :: "hub_env \<Rightarrow> user \<Rightarrow> string \<Rightarrow> connection_row \<Rightarrow> unit result" where
  "require_connection env u perm row = hub_require env u perm ''mcp_connection'' (mc_name row) (Some (mc_user_id row))"

definition get_connection :: "hub_env \<Rightarrow> user \<Rightarrow> string \<Rightarrow> hub_db \<Rightarrow> connection_view result" where
  "get_connection env u name d =
     bind_res (get_owned_connection u name d) (\<lambda>row.
     bind_res (require_connection env u ''read'' row) (\<lambda>_. Inr (to_view row)))"

definition create_connection ::
  "hub_env \<Rightarrow> time \<Rightarrow> user \<Rightarrow> connection_create \<Rightarrow> hub_db \<Rightarrow> connection_view result \<times> hub_db"
where
  "create_connection env now u payload d =
     (case bind_res (validate_connection_create payload) (\<lambda>p.
           bind_res (validate_connection env (cc_name p) (cc_url p)) (\<lambda>_.
           bind_res (hub_require env u ''create'' ''mcp_connection'' (cc_name p) (Some (identity u))) (\<lambda>_.
             if connection_for_owner (identity u) (cc_name p) d \<noteq> None then Inl (HTTPException 409) else Inr p))) of
        Inl e \<Rightarrow> (Inl e, d)
      | Inr p \<Rightarrow>
          (let row = \<lparr>mc_user_id = identity u, mc_name = cc_name p, mc_transport = USER_TRANSPORT, mc_url = cc_url p,
                 mc_auth_type = cc_auth_type p, mc_headers = cc_headers p, mc_allowed = cc_allowed p, mc_enabled = True,
                 mc_created_at = now, mc_updated_at = now\<rparr>
           in (Inr (to_view row), d\<lparr>hub_connections := hub_connections d @ [stored_connection row]\<rparr>)))"

definition patched_connection :: "time \<Rightarrow> connection_update \<Rightarrow> connection_row \<Rightarrow> connection_row" where
  "patched_connection now p row =
     row\<lparr>mc_url := (case cup_url p of None \<Rightarrow> mc_url row | Some url \<Rightarrow> url),
         mc_auth_type := (case cup_auth_type p of None \<Rightarrow> mc_auth_type row | Some t \<Rightarrow> t),
         mc_headers := (case cup_headers p of None \<Rightarrow> mc_headers row | Some h \<Rightarrow> h),
         mc_allowed := (case cup_allowed p of None \<Rightarrow> mc_allowed row | Some [] \<Rightarrow> None | Some a \<Rightarrow> Some a),
         mc_enabled := (case cup_enabled p of None \<Rightarrow> mc_enabled row | Some b \<Rightarrow> b),
         mc_updated_at := now\<rparr>"

text \<open>
  A change is one step here.  In the code the row is read, judged and written without a lock and the
  write names the changed columns only, so two changes of one connection that overlap can combine:
  see \<open>overlapping_changes\<close> in \<open>Hub_System\<close>.
\<close>

definition update_connection ::
  "hub_env \<Rightarrow> time \<Rightarrow> user \<Rightarrow> string \<Rightarrow> connection_update \<Rightarrow> hub_db \<Rightarrow> connection_view result \<times> hub_db"
where
  "update_connection env now u name payload d =
     (case bind_res (validate_connection_update payload) (\<lambda>p.
           bind_res (get_owned_connection u name d) (\<lambda>row.
           bind_res (require_connection env u ''update'' row) (\<lambda>_.
           bind_res (case cup_url p of None \<Rightarrow> Inr () | Some url \<Rightarrow> validate_connection env (mc_name row) url) (\<lambda>_.
           let new = patched_connection now p row
           in bind_res (validate_auth_type_headers (mc_auth_type new) (mc_headers new)) (\<lambda>_. Inr (p, new)))))) of
        Inl e \<Rightarrow> (Inl e, d)
      | Inr (p, new) \<Rightarrow>
          (Inr (to_view new),
           d\<lparr>hub_connections := update_where (\<lambda>r. mc_user_id r = identity u \<and> mc_name r = name)
               (stored_connection \<circ> patched_connection now p) (hub_connections d)\<rparr>))"

definition delete_connection ::
  "hub_env \<Rightarrow> ('s, oauth_value) token_ops \<Rightarrow> user \<Rightarrow> string \<Rightarrow> hub_db \<times> 's \<times> registrations
   \<Rightarrow> unit result \<times> hub_db \<times> 's \<times> registrations"
where
  "delete_connection env ops u name st =
     (case st of (d, s, regs) \<Rightarrow>
        (case bind_res (get_owned_connection u name d) (\<lambda>row.
                bind_res (require_connection env u ''delete'' row) (\<lambda>_. Inr row)) of
           Inl e \<Rightarrow> (Inl e, d, s, regs)
         | Inr row \<Rightarrow>
             (case purge_oauth_state ops (mc_user_id row) (mc_name row) (s, regs) of (s', regs') \<Rightarrow>
                (Inr (), d\<lparr>hub_connections := delete_where (\<lambda>r. mc_user_id r = mc_user_id row \<and> mc_name r = mc_name row)
                    (hub_connections d)\<rparr>, s', regs'))))"

subsection \<open>The proxy of the apps host\<close>

definition proxy_row :: "hub_env \<Rightarrow> user \<Rightarrow> string \<Rightarrow> hub_db \<Rightarrow> connection_row result" where
  "proxy_row env u name d =
     bind_res (get_owned_connection u name d) (\<lambda>row.
     bind_res (require_connection env u ''read'' row) (\<lambda>_.
       if mc_enabled row then Inr row else Inl (HTTPException 409)))"

definition allowed_names :: "connection_row \<Rightarrow> string list" where
  "allowed_names row = (case mc_allowed row of None \<Rightarrow> [] | Some a \<Rightarrow> a)"

text \<open>The shown tools with the name a model would see, when it differs.\<close>

definition list_tools_payload :: "connection_row \<Rightarrow> string list \<Rightarrow> (string \<times> string option) list" where
  "list_tools_payload row server_names =
     (let names = filter (\<lambda>n. tool_allowed n (allowed_names row)) server_names
      in map2 (\<lambda>n llm. (n, if llm = n then None else Some llm)) names (exposed_names [] names))"

fun find_tool_from :: "string list \<Rightarrow> string list \<Rightarrow> string \<Rightarrow> string list \<Rightarrow> string option" where
  "find_tool_from used allowed tool_name [] = None"
| "find_tool_from used allowed tool_name (n # ns) =
     (case sanitize_tool_name n used of (llm, used') \<Rightarrow>
        if tool_name = n \<or> tool_name = llm \<or> ends_with n (CHR ''_'' # tool_name)
        then (if tool_allowed n allowed then Some n else None)
        else find_tool_from used' allowed tool_name ns)"

definition find_tool :: "string list \<Rightarrow> string \<Rightarrow> string list \<Rightarrow> string option" where
  "find_tool server_names tool_name allowed = find_tool_from [] allowed tool_name server_names"

text \<open>
  An operation behind the breaker and the deadline: what it returns, or the exception that is
  classified.  A call with its tool and arguments is recorded as the name that is invoked.
\<close>

definition run_guarded :: "'a + exc_heap \<times> nat \<Rightarrow> 'a result" where
  "run_guarded outcome =
     (case outcome of
        Inl x \<Rightarrow> Inr x
      | Inr (heap, exc) \<Rightarrow> Inl (HTTPException (status_code (mf_reason (classify_mcp_error heap exc)))))"

definition proxy_list_tools ::
  "hub_env \<Rightarrow> user \<Rightarrow> string \<Rightarrow> (string list + exc_heap \<times> nat) \<Rightarrow> hub_db \<Rightarrow> (string \<times> string option) list result"
where
  "proxy_list_tools env u name outcome d =
     bind_res (proxy_row env u name d) (\<lambda>row.
     bind_res (run_guarded outcome) (\<lambda>server_names. Inr (list_tools_payload row server_names)))"

definition proxy_call_tool ::
  "hub_env \<Rightarrow> user \<Rightarrow> string \<Rightarrow> string \<Rightarrow> (string list + exc_heap \<times> nat) \<Rightarrow> hub_db \<Rightarrow> string result"
where
  "proxy_call_tool env u name tool_name outcome d =
     bind_res (proxy_row env u name d) (\<lambda>row.
     bind_res (if he_tool_authz env then hub_require env u ''execute'' ''mcp_tool'' (mc_name row @ ''/'' @ tool_name) None else Inr ()) (\<lambda>_.
     bind_res (run_guarded outcome) (\<lambda>server_names.
       case find_tool server_names tool_name (allowed_names row) of
         None \<Rightarrow> Inl (HTTPException 404) | Some invoked \<Rightarrow> Inr invoked)))"

definition proxy_resources ::
  "hub_env \<Rightarrow> user \<Rightarrow> string \<Rightarrow> ('r + exc_heap \<times> nat) \<Rightarrow> hub_db \<Rightarrow> 'r result"
where
  "proxy_resources env u name outcome d =
     bind_res (proxy_row env u name d) (\<lambda>row. run_guarded outcome)"

subsection \<open>Loaders for graphs\<close>

text \<open>The files of a skill become a dictionary; the order of the unordered query is the table's.\<close>

definition load_user_skill_contents :: "(string \<Rightarrow> string) \<Rightarrow> user_id \<Rightarrow> hub_db \<Rightarrow> (string \<times> (string \<times> string) list) list" where
  "load_user_skill_contents collate uid d =
     map (\<lambda>s. (sk_name s, dict_update []
           (map (\<lambda>f. (sf_path f, sf_content f)) (select_where (\<lambda>f. sf_skill_id f = sk_skill_id s) (hub_files d)))))
       (sort_key (\<lambda>s. collate (sk_name s)) (select_where (\<lambda>s. sk_user_id s = uid) (hub_skills d)))"

definition connection_spec :: "connection_row \<Rightarrow> mcp_spec" where
  "connection_spec r =
     \<lparr>sp_connection =
        [(''transport'', JStr (mc_transport r)), (''url'', JStr (mc_url r))]
        @ (if mc_auth_type r = ''headers'' \<and> mc_headers r \<noteq> []
           then [(''headers'', JObj (map (\<lambda>(k, v). (k, JStr v)) (mc_headers r)))] else []),
      sp_auth = (if mc_auth_type r = ''oauth'' then Some (mc_user_id r, mc_name r, mc_url r) else None),
      sp_allowed = map JStr (allowed_names r)\<rparr>"

definition load_connection_map :: "user_id \<Rightarrow> hub_db \<Rightarrow> user_map" where
  "load_connection_map uid d =
     fold (\<lambda>r. AList.update (mc_name r) (if mc_enabled r then Some (connection_spec r) else None))
       (select_where (\<lambda>r. mc_user_id r = uid) (hub_connections d)) []"

end
