(* ===== verification/Hub_System.thy ===== *)
theory Hub_System
  imports Hub
begin

text \<open>
  The calls of the hub as steps on its tables: isolation of users, the contract of what is stored,
  the round trip of a skill, and the reach of a call through the proxy.
\<close>


subsection \<open>Calls\<close>

datatype hub_call =
    InstallSkill "skill_input list"
  | ReplaceSkill string "skill_input list"
  | UninstallSkill string
  | ImportSkill string
  | CreateConnection connection_create
  | UpdateConnection string connection_update
  | DeleteConnection string

definition hub_step ::
  "hub_env \<Rightarrow> ('s, oauth_value) token_ops \<Rightarrow> time \<Rightarrow> string \<Rightarrow> user \<Rightarrow> hub_call \<Rightarrow> hub_db \<times> 's \<times> registrations
   \<Rightarrow> hub_db \<times> 's \<times> registrations"
where
  "hub_step env ops now new_id u call st =
     (case st of (d, sr) \<Rightarrow>
        (case call of
           InstallSkill files \<Rightarrow> (if files = [] then d else snd (install_skill env now new_id u files d), sr)
         | ReplaceSkill name files \<Rightarrow> (if files = [] then d else snd (replace_skill env now new_id u name files d), sr)
         | UninstallSkill name \<Rightarrow> (snd (uninstall_skill env u name d), sr)
         | ImportSkill url \<Rightarrow> (snd (import_skill env now new_id u url d), sr)
         | CreateConnection p \<Rightarrow> (snd (create_connection env now u p d), sr)
         | UpdateConnection name p \<Rightarrow> (snd (update_connection env now u name p d), sr)
         | DeleteConnection name \<Rightarrow> snd (delete_connection env ops u name (d, sr))))"

definition skill_files :: "hub_db \<Rightarrow> skill_row \<Rightarrow> skill_file list" where
  "skill_files d s = select_where (\<lambda>f. sf_skill_id f = sk_skill_id s) (hub_files d)"

definition hub_view :: "user_id \<Rightarrow> hub_db \<Rightarrow> (skill_row \<times> skill_file list) list \<times> connection_row list" where
  "hub_view v d =
     (map (\<lambda>s. (s, skill_files d s)) (select_where (\<lambda>s. sk_user_id s = v) (hub_skills d)),
      select_where (\<lambda>c. mc_user_id c = v) (hub_connections d))"

text \<open>Skill ids are unique, files belong to skills, and the generated id is new.\<close>

definition hub_wf :: "hub_db \<Rightarrow> bool" where
  "hub_wf d =
     (distinct (map sk_skill_id (hub_skills d)) \<and> sf_skill_id ` set (hub_files d) \<subseteq> sk_skill_id ` set (hub_skills d))"

definition new_skill_id :: "string \<Rightarrow> hub_db \<Rightarrow> bool" where
  "new_skill_id new_id d = (new_id \<notin> sk_skill_id ` set (hub_skills d))"

subsection \<open>Isolation\<close>

lemma skill_ownerD:
  "skill_for_owner uid name d = Some r \<Longrightarrow> r \<in> set (hub_skills d) \<and> sk_user_id r = uid \<and> sk_name r = name"
  by (auto simp: skill_for_owner_def dest: first_where_SomeD)

lemma other_skill_id:
  assumes "hub_wf d" and "r \<in> set (hub_skills d)" and "s \<in> set (hub_skills d)" and "sk_user_id s \<noteq> sk_user_id r"
  shows "sk_skill_id s \<noteq> sk_skill_id r"
  using assms unique_key [of sk_skill_id "hub_skills d" s r] by (auto simp: hub_wf_def)

lemma hub_view_rows:
  assumes "select_where (\<lambda>s. sk_user_id s = v) (hub_skills d') = select_where (\<lambda>s. sk_user_id s = v) (hub_skills d)"
    and "\<And>s. s \<in> set (hub_skills d) \<Longrightarrow> sk_user_id s = v \<Longrightarrow> skill_files d' s = skill_files d s"
    and "hub_connections d' = hub_connections d"
  shows "hub_view v d' = hub_view v d"
  using assms by (auto simp: hub_view_def)

lemma files_of_other: "i \<noteq> j \<Longrightarrow> select_where (\<lambda>f. sf_skill_id f = i) (files_of j files) = []"
  by (auto simp: select_where_def files_of_def filter_empty_conv)

lemma deleted_files_other:
  "i \<noteq> j \<Longrightarrow> select_where (\<lambda>f. sf_skill_id f = i) (delete_where (\<lambda>f. sf_skill_id f = j) fs) = select_where (\<lambda>f. sf_skill_id f = i) fs"
  by (intro select_delete_other) auto

lemma view_save:
  assumes "hub_wf d" and "new_skill_id new_id d" and "v \<noteq> uid"
  shows "hub_view v (snd (skill_save now new_id uid p files d)) = hub_view v d"
proof (cases "skill_for_owner uid (ps_name p) d")
  case None
  then show ?thesis
    using assms(2,3)
    by (intro hub_view_rows) (auto simp: skill_save_def stored_skill_def comp_def Let_def select_where_def skill_files_def files_of_def new_skill_id_def filter_empty_conv)
next
  case (Some r)
  note r = skill_ownerD [OF Some]
  have other: "sk_skill_id s \<noteq> sk_skill_id r" if "s \<in> set (hub_skills d)" "sk_user_id s = v" for s
    using other_skill_id [OF assms(1) conjunct1 [OF r] that(1)] r that(2) assms(3) by auto
  then have "select_where (\<lambda>s. sk_user_id s = v) (update_where (\<lambda>x. sk_skill_id x = sk_skill_id r)
      (\<lambda>r. r\<lparr>sk_description := ps_description p, sk_license := ps_license p, sk_updated_at := now, sk_metadata := bind_dict (ps_metadata p)\<rparr>)
      (hub_skills d)) = select_where (\<lambda>s. sk_user_id s = v) (hub_skills d)"
    by (intro select_rewritten_other) auto
  then show ?thesis
    using other Some
    by (intro hub_view_rows)
      (auto simp: skill_save_def stored_skill_def comp_def Let_def skill_files_def files_of_other deleted_files_other)
qed

lemma view_install:
  assumes "hub_wf d" and "new_skill_id new_id d" and "v \<noteq> identity u"
  shows "hub_view v (snd (install_skill env now new_id u files d)) = hub_view v d"
  using view_save [OF assms] by (auto simp: install_skill_def Let_def split: sum.split prod.split) (metis snd_conv)

lemma view_delete_skill:
  assumes "hub_wf d" and "r \<in> set (hub_skills d)" and "sk_user_id r \<noteq> v"
  shows "hub_view v (skill_delete r d) = hub_view v d"
proof -
  have other: "sk_skill_id s \<noteq> sk_skill_id r" if "s \<in> set (hub_skills d)" "sk_user_id s = v" for s
    using other_skill_id [OF assms(1,2) that(1)] that(2) assms(3) by auto
  then have "select_where (\<lambda>s. sk_user_id s = v) (delete_where (\<lambda>x. sk_skill_id x = sk_skill_id r) (hub_skills d))
      = select_where (\<lambda>s. sk_user_id s = v) (hub_skills d)"
    by (fastforce simp: select_where_def delete_where_def intro!: filter_cong)
  then show ?thesis
    using deleted_files_other [OF other] by (intro hub_view_rows) (simp_all add: skill_delete_def skill_files_def)
qed

lemma owned_connectionD:
  "get_owned_connection u name d = Inr r \<Longrightarrow> r \<in> set (hub_connections d) \<and> mc_user_id r = identity u \<and> mc_name r = name"
  by (auto simp: get_owned_connection_def connection_for_owner_def dest: first_where_SomeD split: option.splits)

lemma view_connections:
  "select_where (\<lambda>c. mc_user_id c = v) cs = select_where (\<lambda>c. mc_user_id c = v) (hub_connections d)
   \<Longrightarrow> hub_view v (d\<lparr>hub_connections := cs\<rparr>) = hub_view v d"
  by (simp add: hub_view_def skill_files_def)

text \<open>
  Claim C25.  Tenant isolation of the hub: whatever names, files and URLs a call of one user
  carries and whatever the policy engine answers, it changes no skill, file or connection of another user.
\<close>

theorem hub_tenant_isolation:
  assumes "hub_wf d" and "new_skill_id new_id d" and "v \<noteq> identity u"
  shows "hub_view v (fst (hub_step env ops now new_id u call (d, sr))) = hub_view v d"
proof (cases call)
  case (InstallSkill files)
  then show ?thesis using view_install [OF assms] by (simp add: hub_step_def)
next
  case (ReplaceSkill name files)
  then show ?thesis using view_install [OF assms] by (auto simp: hub_step_def replace_skill_def split: sum.split)
next
  case (UninstallSkill name)
  then show ?thesis
    using view_delete_skill [OF assms(1)] assms(3)
    by (auto simp: hub_step_def uninstall_skill_def get_owned_skill_def split: sum.splits option.splits dest!: bind_res_InrD skill_ownerD)
next
  case (ImportSkill url)
  then show ?thesis using view_install [OF assms] by (auto simp: hub_step_def import_skill_def split: sum.split fetched.split)
next
  case (CreateConnection p)
  then show ?thesis
    using assms(3) by (auto simp: hub_step_def create_connection_def Let_def select_where_def intro!: view_connections split: sum.split)
next
  case (UpdateConnection name p)
  then show ?thesis
    using assms(3)
    by (auto simp: hub_step_def update_connection_def patched_connection_def intro!: view_connections select_rewritten_other split: sum.split)
next
  case (DeleteConnection name)
  then show ?thesis
    using assms(3)
    by (cases sr) (auto simp: hub_step_def delete_connection_def intro!: view_connections select_delete_other
        dest!: bind_res_InrD owned_connectionD split: sum.splits prod.splits)
qed


subsection \<open>What is stored\<close>

definition file_inputs :: "skill_file list \<Rightarrow> (string \<times> string) list" where
  "file_inputs fs = map (\<lambda>f. (sf_path f, sf_content f)) fs"

text \<open>The contract of a stored skill and of a stored connection.\<close>

definition files_within_caps :: "(string \<times> string) list \<Rightarrow> bool" where
  "files_within_caps fs =
     (length fs \<le> MAX_FILES_PER_SKILL \<and> distinct (map fst fs)
      \<and> list_all (\<lambda>(p, c). validate_file_path p = Inr () \<and> utf8_len c \<le> MAX_FILE_BYTES) fs
      \<and> sum_list (map (\<lambda>(p, c). utf8_len c) fs) \<le> MAX_TOTAL_BYTES)"

definition describes :: "(string \<Rightarrow> json option) \<Rightarrow> (string \<times> string) list \<Rightarrow> parsed_skill \<Rightarrow> bool" where
  "describes yaml fs p =
     (case map_of fs SKILL_MD of None \<Rightarrow> False | Some md \<Rightarrow> parse_skill_md yaml md = Inr p)"

definition valid_skill :: "(string \<Rightarrow> json option) \<Rightarrow> skill_row \<Rightarrow> (string \<times> string) list \<Rightarrow> bool" where
  "valid_skill yaml s fs =
     (files_within_caps fs
      \<and> (\<exists>p. describes yaml fs p \<and> sk_name s = ps_name p \<and> sk_description s = ps_description p \<and> sk_license s = ps_license p))"

definition valid_connection :: "string list \<Rightarrow> connection_row \<Rightarrow> bool" where
  "valid_connection domains c =
     (hub_name (mc_name c) \<and> mc_transport c = USER_TRANSPORT
      \<and> (if domains = [] then \<exists>dns. validate_public_http_url dns (mc_url c) = Fetch (mc_url c)
         else url_host (mc_url c) \<in> set domains)
      \<and> (mc_auth_type c = ''headers'' \<longleftrightarrow> mc_headers c \<noteq> [])
      \<and> (case mc_allowed c of None \<Rightarrow> True | Some names \<Rightarrow> names \<noteq> [] \<and> length names \<le> MAX_ALLOWED_TOOLS))"

lemma check_files_InrD:
  "check_files seen b md fs = Inr (b', md') \<Longrightarrow>
     (\<forall>f \<in> set fs. validate_file_path (fi_path f) = Inr () \<and> utf8_len (fi_content f) \<le> MAX_FILE_BYTES \<and> fi_path f \<notin> set seen)
     \<and> distinct (map fi_path fs)
     \<and> b' = b + sum_list (map (\<lambda>f. utf8_len (fi_content f)) fs)
     \<and> md' = (case map_of (map (\<lambda>f. (fi_path f, fi_content f)) fs) SKILL_MD of None \<Rightarrow> md | Some c \<Rightarrow> Some c)"
proof (induction seen b md fs arbitrary: b' md' rule: check_files.induct)
  case (2 seen b md f fs)
  have v: "validate_file_path (fi_path f) = Inr ()"
    and fresh: "fi_path f \<notin> set seen" and sz: "\<not> utf8_len (fi_content f) > MAX_FILE_BYTES"
    using "2.prems" by (auto dest!: bind_res_InrD split: if_splits)
  have "check_files (fi_path f # seen) (b + utf8_len (fi_content f)) (if fi_path f = SKILL_MD then Some (fi_content f) else md) fs
      = Inr (b', md')"
    using "2.prems" v fresh sz by simp
  note ih = "2.IH" [OF fresh sz this]
  then have nmem: "fi_path f \<notin> fi_path ` set fs" by auto
  then have "fi_path f = SKILL_MD \<Longrightarrow> map_of (map (\<lambda>f. (fi_path f, fi_content f)) fs) SKILL_MD = None"
    by (auto simp: map_of_eq_None_iff)
  with ih nmem v sz fresh show ?case by (auto simp: algebra_simps split: option.splits)
qed auto

lemma validated_files:
  assumes "validate_skill_files yaml files = Inr p"
  shows "files_within_caps (map (\<lambda>f. (fi_path f, fi_content f)) files) \<and> describes yaml (map (\<lambda>f. (fi_path f, fi_content f)) files) p"
proof -
  obtain b md content where len: "length files \<le> MAX_FILES_PER_SKILL"
    and chk: "check_files [] 0 None files = Inr (b, Some content)" and b: "b \<le> MAX_TOTAL_BYTES"
    and p: "parse_skill_md yaml content = Inr p"
    using assms by (auto simp: validate_skill_files_def split: if_splits option.splits dest!: bind_res_InrD)
  note c = check_files_InrD [OF chk]
  have sums: "sum_list (map (\<lambda>(p, c). utf8_len c) (map (\<lambda>f. (fi_path f, fi_content f)) files)) = b"
    using c by (simp add: comp_def)
  have md: "map_of (map (\<lambda>f. (fi_path f, fi_content f)) files) SKILL_MD = Some content"
    using c by (simp split: option.splits)
  have "files_within_caps (map (\<lambda>f. (fi_path f, fi_content f)) files)"
    using c len b sums by (simp add: files_within_caps_def list_all_iff comp_def)
  then show ?thesis using md p by (simp add: describes_def)
qed

lemma dict_update_distinct: "distinct (map fst (d @ e)) \<Longrightarrow> dict_update d e = d @ e"
proof (induction e arbitrary: d)
  case (Cons kv e)
  obtain k v where kv: "kv = (k, v)" by (cases kv)
  have "AList.update k v d = d @ [(k, v)]"
    using Cons.prems kv by (induction d) auto
  with Cons kv show ?case by simp
qed simp

lemma file_inputs_files_of [simp]: "file_inputs (files_of sid fs) = fs"
  by (induction fs) (auto simp: file_inputs_def files_of_def)

lemma select_files_of [simp]: "select_where (\<lambda>f. sf_skill_id f = sid) (files_of sid fs) = files_of sid fs"
  by (auto simp: select_where_def files_of_def filter_id_conv)


lemma deleted_files_gone: "select_where (\<lambda>f. sf_skill_id f = sid) (delete_where (\<lambda>f. sf_skill_id f = sid) fs) = []"
  by (simp add: select_where_Nil_iff)

subsection \<open>The invariant\<close>

definition hub_ok :: "(string \<Rightarrow> json option) \<Rightarrow> string list \<Rightarrow> hub_db \<Rightarrow> bool" where
  "hub_ok yaml domains d =
     (hub_wf d
      \<and> distinct (map (\<lambda>s. (sk_user_id s, sk_name s)) (hub_skills d))
      \<and> distinct (map (\<lambda>c. (mc_user_id c, mc_name c)) (hub_connections d))
      \<and> (\<forall>s \<in> set (hub_skills d). valid_skill yaml s (file_inputs (skill_files d s)))
      \<and> (\<forall>c \<in> set (hub_connections d). valid_connection domains c))"

text \<open>
  The states the endpoints reach from an empty database.  DNS, downloads and the policy may answer
  differently on every call; the YAML parser and the list of allowed domains stay.
\<close>

inductive hub_reachable ::
  "(string \<Rightarrow> json option) \<Rightarrow> string list \<Rightarrow> ('s, oauth_value) token_ops \<Rightarrow> hub_db \<times> 's \<times> registrations \<Rightarrow> bool"
  for yaml domains ops
where
  hub_empty: "hub_reachable yaml domains ops (\<lparr>hub_skills = [], hub_files = [], hub_connections = []\<rparr>, sr)"
| hub_call: "hub_reachable yaml domains ops (d, sr) \<Longrightarrow> he_yaml env = yaml \<Longrightarrow> he_allowed_domains env = domains
    \<Longrightarrow> new_skill_id new_id d \<Longrightarrow> hub_reachable yaml domains ops (hub_step env ops now new_id u call (d, sr))"

lemma wf_no_new_files:
  assumes "hub_wf d" and "new_skill_id new_id d"
  shows "select_where (\<lambda>f. sf_skill_id f = new_id) (hub_files d) = []"
  using assms by (auto simp: hub_wf_def new_skill_id_def select_where_Nil_iff)

lemma files_of_ids: "sf_skill_id ` set (files_of sid fs) \<subseteq> {sid}"
  by (auto simp: files_of_def)

lemma ok_new_skill:
  assumes "hub_ok yaml domains d" and "new_skill_id new_id d" and "skill_for_owner uid (ps_name p) d = None"
    and "files_within_caps fs" and "describes yaml fs p"
  shows "hub_ok yaml domains (snd (skill_save now new_id uid p fs d))"
proof -
  let ?row = "\<lparr>sk_skill_id = new_id, sk_user_id = uid, sk_name = ps_name p, sk_description = ps_description p,
     sk_license = ps_license p, sk_metadata = bind_dict (ps_metadata p), sk_created_at = now, sk_updated_at = now\<rparr>"
  let ?d = "d\<lparr>hub_skills := hub_skills d @ [?row], hub_files := hub_files d @ files_of new_id fs\<rparr>"
  note wf = assms(1) [unfolded hub_ok_def, THEN conjunct1]
  have "skill_files ?d s = skill_files d s" if "s \<in> set (hub_skills d)" for s
  proof -
    have "sk_skill_id s \<noteq> new_id" using that assms(2) by (auto simp: new_skill_id_def)
    then show ?thesis by (simp add: skill_files_def files_of_other)
  qed
  moreover have "skill_files ?d ?row = files_of new_id fs"
    using wf_no_new_files [OF wf assms(2)] by (simp add: skill_files_def)
  moreover have "hub_wf ?d"
    using wf assms(2) files_of_ids [of new_id fs] by (auto simp: hub_wf_def new_skill_id_def)
  moreover have "(uid, ps_name p) \<notin> (\<lambda>s. (sk_user_id s, sk_name s)) ` set (hub_skills d)"
    using assms(3) by (auto simp: skill_for_owner_def first_where_None_iff)
  moreover have "valid_skill yaml ?row fs" using assms(4,5) by (auto simp: valid_skill_def)
  ultimately have "hub_ok yaml domains ?d" using assms(1) by (auto simp: hub_ok_def)
  then show ?thesis by (simp add: skill_save_def stored_skill_def comp_def assms(3) Let_def)
qed

lemma ok_replaced_skill:
  assumes "hub_ok yaml domains d" and owned: "skill_for_owner uid (ps_name p) d = Some r"
    and "files_within_caps fs" and "describes yaml fs p"
  shows "hub_ok yaml domains (snd (skill_save now new_id uid p fs d))"
proof -
  let ?change = "\<lambda>r. r\<lparr>sk_description := ps_description p, sk_license := ps_license p, sk_updated_at := now, sk_metadata := bind_dict (ps_metadata p)\<rparr>"
  let ?rows = "update_where (\<lambda>x. sk_skill_id x = sk_skill_id r) ?change (hub_skills d)"
  let ?d = "d\<lparr>hub_skills := ?rows, hub_files := delete_where (\<lambda>f. sf_skill_id f = sk_skill_id r) (hub_files d) @ files_of (sk_skill_id r) fs\<rparr>"
  note r = skill_ownerD [OF owned]
  have wf: "hub_wf d" and valid: "\<And>s. s \<in> set (hub_skills d) \<Longrightarrow> valid_skill yaml s (file_inputs (skill_files d s))"
    using assms(1) by (auto simp: hub_ok_def)
  have ids: "map sk_skill_id ?rows = map sk_skill_id (hub_skills d)" by (rule map_key_update_where) simp
  have keys: "map (\<lambda>s. (sk_user_id s, sk_name s)) ?rows = map (\<lambda>s. (sk_user_id s, sk_name s)) (hub_skills d)"
    by (rule map_key_update_where) simp
  have "sk_skill_id ` set ?rows = sk_skill_id ` set (hub_skills d)" using ids by (metis list.set_map)
  moreover have "sf_skill_id ` set (hub_files ?d) \<subseteq> sf_skill_id ` set (hub_files d) \<union> {sk_skill_id r}"
    using files_of_ids [of "sk_skill_id r" fs] by auto
  ultimately have "hub_wf ?d" using wf r ids by (simp add: hub_wf_def) blast
  moreover have "valid_skill yaml s (file_inputs (skill_files ?d s))" if "s \<in> set ?rows" for s
    using that
  proof (cases rule: in_update_whereE)
    case (hit x)
    then have "x = r" using wf r unique_key [of sk_skill_id "hub_skills d" x r] by (auto simp: hub_wf_def)
    then have "skill_files ?d s = files_of (sk_skill_id r) fs"
      using hit by (simp add: skill_files_def deleted_files_gone)
    then show ?thesis using hit \<open>x = r\<close> r assms(3,4) by (auto simp: valid_skill_def)
  next
    case miss
    then have "skill_files ?d s = skill_files d s" by (simp add: skill_files_def deleted_files_other files_of_other)
    then show ?thesis using valid [OF miss(1)] by simp
  qed
  ultimately have "hub_ok yaml domains ?d" using assms(1) keys by (simp add: hub_ok_def)
  then show ?thesis by (simp add: skill_save_def stored_skill_def comp_def owned Let_def)
qed

lemma ok_install:
  assumes "hub_ok (he_yaml env) domains d" and "new_skill_id new_id d"
  shows "hub_ok (he_yaml env) domains (snd (install_skill env now new_id u files d))"
proof (cases "validate_skill_files (he_yaml env) files")
  case (Inl e)
  then show ?thesis using assms(1) by (cases e) (simp_all add: install_skill_def or_422_def)
next
  case (Inr p)
  let ?fs = "map (\<lambda>f. (fi_path f, fi_content f)) files"
  note v = validated_files [OF Inr]
  then have dict: "dict_update [] ?fs = ?fs" by (intro dict_update_distinct [of "[]", simplified]) (simp add: files_within_caps_def)
  have "hub_ok (he_yaml env) domains (snd (skill_save now new_id (identity u) p ?fs d))"
    using v ok_new_skill [OF assms] ok_replaced_skill [OF assms(1)] by (cases "skill_for_owner (identity u) (ps_name p) d") auto
  then show ?thesis using Inr assms(1) dict
    by (simp add: install_skill_def or_422_def Let_def split: sum.split prod.split) (metis snd_conv)
qed

lemma ok_delete_skill:
  assumes "hub_ok yaml domains d" and "r \<in> set (hub_skills d)"
  shows "hub_ok yaml domains (skill_delete r d)"
proof -
  have "skill_files (skill_delete r d) s = skill_files d s" if "sk_skill_id s \<noteq> sk_skill_id r" for s
    using that by (simp add: skill_files_def skill_delete_def deleted_files_other)
  moreover have "hub_wf (skill_delete r d)"
  proof -
    have wf: "hub_wf d" using assms(1) by (simp add: hub_ok_def)
    have "sf_skill_id f \<in> sk_skill_id ` {s \<in> set (hub_skills d). sk_skill_id s \<noteq> sk_skill_id r}"
      if "f \<in> set (hub_files d)" "sf_skill_id f \<noteq> sk_skill_id r" for f
    proof -
      have "sf_skill_id f \<in> sk_skill_id ` set (hub_skills d)" using wf that(1) by (auto simp: hub_wf_def)
      then obtain s where "s \<in> set (hub_skills d)" "sf_skill_id f = sk_skill_id s" by blast
      with that(2) show ?thesis by auto
    qed
    then show ?thesis using wf by (simp add: hub_wf_def skill_delete_def distinct_map_delete_where image_subset_iff)
  qed
  ultimately show ?thesis
    using assms(1) by (auto simp: hub_ok_def skill_delete_def distinct_map_delete_where)
qed


lemma validated_url:
  assumes "validate_connection env name url = Inr ()"
  shows "hub_name name \<and> (if he_allowed_domains env = [] then \<exists>dns. validate_public_http_url dns url = Fetch url
     else url_host url \<in> set (he_allowed_domains env))"
proof -
  have name: "hub_name name" using assms by (auto simp: validate_connection_def validate_connection_name_def split: if_splits)
  have "validate_public_http_url (he_dns env) url = Fetch url" if "he_allowed_domains env = []"
    using assms that guard_returns_url [of "he_dns env" url]
    by (auto simp: validate_connection_def Let_def dest!: bind_res_InrD split: verdict.splits)
  moreover have "url_host url \<in> set (he_allowed_domains env)" if "he_allowed_domains env \<noteq> []"
    using assms that by (auto simp: validate_connection_def Let_def dest!: bind_res_InrD split: if_splits)
  ultimately show ?thesis using name by auto
qed

lemma normalized_tools:
  assumes "normalize_allowed_tools names = Inr (Some ts)"
  shows "ts \<noteq> [] \<and> length ts \<le> MAX_ALLOWED_TOOLS"
proof -
  have grows: "clean_tools acc ns = Inr cs \<Longrightarrow> acc \<noteq> [] \<Longrightarrow> cs \<noteq> []" for acc ns cs
    by (induction acc ns rule: clean_tools.induct) (auto simp: Let_def split: if_splits)
  have "clean_tools [] (n # ns) = Inr cs \<Longrightarrow> cs \<noteq> []" for n ns cs
    using grows by (auto simp: Let_def split: if_splits)
  then show ?thesis
    using assms by (fastforce simp: normalize_allowed_tools_def split: option.splits list.splits if_splits dest!: bind_res_InrD)
qed

lemma auth_headers_InrD: "validate_auth_type_headers t h = Inr () \<Longrightarrow> (t = ''headers'' \<longleftrightarrow> h \<noteq> [])"
  by (auto simp: validate_auth_type_headers_def split: if_splits)

lemma created_connection:
  assumes "validate_connection_create payload = Inr p" and "validate_connection env (cc_name p) (cc_url p) = Inr ()"
  shows "valid_connection (he_allowed_domains env)
    \<lparr>mc_user_id = uid, mc_name = cc_name p, mc_transport = USER_TRANSPORT, mc_url = cc_url p, mc_auth_type = cc_auth_type p,
     mc_headers = cc_headers p, mc_allowed = cc_allowed p, mc_enabled = True, mc_created_at = now, mc_updated_at = now\<rparr>"
proof -
  have "normalize_allowed_tools (cc_allowed payload) = Inr (cc_allowed p)"
    and "validate_auth_type_headers (cc_auth_type p) (cc_headers p) = Inr ()"
    using assms(1) by (auto simp: validate_connection_create_def split: if_splits dest!: bind_res_InrD)
  then show ?thesis
    using validated_url [OF assms(2)] normalized_tools [of "cc_allowed payload"] auth_headers_InrD
    by (auto simp: valid_connection_def split: option.split)
qed

lemma valid_stored: "valid_connection domains c \<Longrightarrow> valid_connection domains (stored_connection c)"
  by (simp add: valid_connection_def stored_connection_def split: option.splits)

lemma ok_append_connection:
  assumes "hub_ok yaml domains d" and "valid_connection domains c" and "connection_for_owner (mc_user_id c) (mc_name c) d = None"
  shows "hub_ok yaml domains (d\<lparr>hub_connections := hub_connections d @ [c]\<rparr>)"
  using assms by (auto simp: hub_ok_def hub_wf_def skill_files_def connection_for_owner_def first_where_None_iff)

lemma ok_create_connection:
  assumes "hub_ok yaml (he_allowed_domains env) d"
  shows "hub_ok yaml (he_allowed_domains env) (snd (create_connection env now u payload d))"
  using assms valid_stored [OF created_connection] ok_append_connection [OF assms]
  by (auto simp: create_connection_def Let_def split: sum.splits if_splits dest!: bind_res_InrD)

lemma patched_allowed:
  assumes "validate_connection_update payload = Inr p" and "valid_connection domains row"
    and "case cup_url p of None \<Rightarrow> True | Some url \<Rightarrow> validate_connection env (mc_name row) url = Inr ()" and "domains = he_allowed_domains env"
    and "validate_auth_type_headers (mc_auth_type (patched_connection now p row)) (mc_headers (patched_connection now p row)) = Inr ()"
  shows "valid_connection domains (patched_connection now p row)"
proof -
  have "case mc_allowed (patched_connection now p row) of None \<Rightarrow> True | Some names \<Rightarrow> names \<noteq> [] \<and> length names \<le> MAX_ALLOWED_TOOLS"
  proof (cases "cup_allowed payload")
    case None
    then have "cup_allowed p = None" using assms(1) by (auto simp: validate_connection_update_def split: if_splits)
    then show ?thesis using assms(2) by (simp add: patched_connection_def valid_connection_def)
  next
    case (Some names)
    then obtain allowed where a: "normalize_allowed_tools (Some names) = Inr allowed"
      "cup_allowed p = Some (case allowed of None \<Rightarrow> [] | Some a \<Rightarrow> a)"
      using assms(1) by (auto simp: validate_connection_update_def split: if_splits dest!: bind_res_InrD)
    then show ?thesis
      using normalized_tools [of "Some names"] by (cases allowed) (auto simp: patched_connection_def split: list.split)
  qed
  moreover have "if domains = [] then \<exists>dns. validate_public_http_url dns (mc_url (patched_connection now p row)) = Fetch (mc_url (patched_connection now p row))
      else url_host (mc_url (patched_connection now p row)) \<in> set domains"
    using assms(2,3,4) validated_url [of env "mc_name row"]
    by (cases "cup_url p") (auto simp: valid_connection_def patched_connection_def)
  moreover have "mc_name (patched_connection now p row) = mc_name row" "mc_transport (patched_connection now p row) = mc_transport row"
    by (simp_all add: patched_connection_def)
  ultimately show ?thesis
    using assms(2) auth_headers_InrD [OF assms(5)] unfolding valid_connection_def by simp
qed

lemma ok_update_connections:
  assumes "hub_ok yaml domains d" and "\<And>c. c \<in> set (hub_connections d) \<Longrightarrow> q c \<Longrightarrow> valid_connection domains (f c)"
    and "\<And>c. (mc_user_id (f c), mc_name (f c)) = (mc_user_id c, mc_name c)"
  shows "hub_ok yaml domains (d\<lparr>hub_connections := update_where q f (hub_connections d)\<rparr>)"
  using assms map_key_update_where [of "\<lambda>c. (mc_user_id c, mc_name c)" f q "hub_connections d"]
  by (auto simp: hub_ok_def hub_wf_def skill_files_def in_update_where)

lemma ok_update_connection:
  assumes ok: "hub_ok yaml (he_allowed_domains env) d"
  shows "hub_ok yaml (he_allowed_domains env) (snd (update_connection env now u name payload d))"
proof (cases "bind_res (validate_connection_update payload) (\<lambda>p.
           bind_res (get_owned_connection u name d) (\<lambda>row.
           bind_res (require_connection env u ''update'' row) (\<lambda>_.
           bind_res (case cup_url p of None \<Rightarrow> Inr () | Some url \<Rightarrow> validate_connection env (mc_name row) url) (\<lambda>_.
           let new = patched_connection now p row
           in bind_res (validate_auth_type_headers (mc_auth_type new) (mc_headers new)) (\<lambda>_. Inr (p, new))))))")
  case (Inl e)
  then show ?thesis using ok by (simp add: update_connection_def)
next
  case (Inr pn)
  then obtain p row where v: "validate_connection_update payload = Inr p" "get_owned_connection u name d = Inr row"
    "(case cup_url p of None \<Rightarrow> Inr () | Some url \<Rightarrow> validate_connection env (mc_name row) url) = Inr ()"
    "validate_auth_type_headers (mc_auth_type (patched_connection now p row)) (mc_headers (patched_connection now p row)) = Inr ()"
    "pn = (p, patched_connection now p row)"
    by (auto simp: Let_def dest!: bind_res_InrD)
  note row = owned_connectionD [OF v(2)]
  have same: "c = row" if "c \<in> set (hub_connections d)" "mc_user_id c = identity u \<and> mc_name c = name" for c
    using that row ok unique_key [of "\<lambda>c. (mc_user_id c, mc_name c)" "hub_connections d" c row] by (auto simp: hub_ok_def)
  have "valid_connection (he_allowed_domains env) (patched_connection now p row)"
    using v(3) row ok by (intro patched_allowed [OF v(1) _ _ refl v(4)]) (auto simp: hub_ok_def split: option.splits)
  then have "hub_ok yaml (he_allowed_domains env)
      (d\<lparr>hub_connections := update_where (\<lambda>r. mc_user_id r = identity u \<and> mc_name r = name)
        (stored_connection \<circ> patched_connection now p) (hub_connections d)\<rparr>)"
    using same valid_stored by (intro ok_update_connections [OF ok]) (auto simp: patched_connection_def)
  then show ?thesis using Inr v(5) by (simp add: update_connection_def)
qed

lemma ok_delete_connection:
  assumes "hub_ok yaml domains d"
  shows "hub_ok yaml domains (fst (snd (delete_connection env ops u name (d, sr))))"
  using assms
  by (cases sr) (auto simp: delete_connection_def hub_ok_def hub_wf_def skill_files_def distinct_map_delete_where split: sum.split prod.split)

lemma ok_step:
  assumes "hub_ok (he_yaml env) (he_allowed_domains env) d" and "new_skill_id new_id d"
  shows "hub_ok (he_yaml env) (he_allowed_domains env) (fst (hub_step env ops now new_id u call (d, sr)))"
proof (cases call)
  case (ReplaceSkill name files)
  then show ?thesis using assms ok_install by (auto simp: hub_step_def replace_skill_def split: sum.split)
next
  case (UninstallSkill name)
  then show ?thesis
    using assms(1) ok_delete_skill [OF assms(1)]
    by (auto simp: hub_step_def uninstall_skill_def get_owned_skill_def split: sum.splits option.splits dest!: bind_res_InrD skill_ownerD)
next
  case (ImportSkill url)
  then show ?thesis using assms ok_install by (auto simp: hub_step_def import_skill_def split: sum.split fetched.split)
next
  case (DeleteConnection name)
  then show ?thesis using ok_delete_connection [OF assms(1), of env ops u name sr] by (simp add: hub_step_def)
qed (use assms ok_install ok_create_connection ok_update_connection in \<open>auto simp: hub_step_def\<close>)

lemma reachable_hub_ok: "hub_reachable yaml domains ops st \<Longrightarrow> hub_ok yaml domains (fst st)"
proof (induction rule: hub_reachable.induct)
  case (hub_empty sr)
  then show ?case by (simp add: hub_ok_def hub_wf_def)
next
  case (hub_call d sr env new_id now u call)
  then show ?case using ok_step [of env d new_id] by simp
qed


text \<open>The two loaders that graphs use read the tables back.\<close>

lemma fold_updates: "fold (\<lambda>r. AList.update (k r) (v r)) rs d = dict_update d (map (\<lambda>r. (k r, v r)) rs)"
  by (induction rs arbitrary: d) simp_all

lemma distinct_own_names:
  assumes "distinct (map (\<lambda>r. (owner r, name r)) rows)"
  shows "distinct (map name (select_where (\<lambda>r. owner r = uid) rows))"
  using assms by (induction rows) (auto simp: select_where_def image_iff)

lemma loaded_connection:
  assumes "hub_ok yaml domains d" and "c \<in> set (hub_connections d)"
  shows "map_of (load_connection_map (mc_user_id c) d) (mc_name c) = Some (if mc_enabled c then Some (connection_spec c) else None)"
proof -
  let ?rows = "select_where (\<lambda>r. mc_user_id r = mc_user_id c) (hub_connections d)"
  let ?kv = "\<lambda>r. (mc_name r, if mc_enabled r then Some (connection_spec r) else None)"
  have dist: "distinct (map mc_name ?rows)"
    using assms(1) by (intro distinct_own_names) (simp add: hub_ok_def)
  then have "load_connection_map (mc_user_id c) d = map ?kv ?rows"
    by (simp add: load_connection_map_def fold_updates dict_update_distinct comp_def)
  then show ?thesis using dist assms(2) by (auto simp: comp_def intro!: map_of_is_SomeI)
qed

lemma capped_paths:
  assumes "files_within_caps fs"
  shows "\<forall>path \<in> fst ` set fs. CHR 0x5C \<notin> set path \<and> (\<forall>part \<in> set (py_split ''/'' path). part \<notin> {[], ''.'', ''..''})"
  using assms by (fastforce simp: files_within_caps_def list_all_iff validate_file_path_def list_ex_iff split: if_splits)

text \<open>
  Claim C26.  Whatever calls reach the hub, every stored skill satisfies what installation checks:
  at most fifty files with distinct, relative paths free of backslashes and of empty, \<open>.\<close> and \<open>..\<close>
  segments, each file and their sum within the byte limits, and a \<open>SKILL.md\<close> whose front matter carries the very name, description and license
  the skill is listed under.  A user has at most one skill and one connection of a name.
\<close>

theorem stored_skills_valid:
  assumes "hub_reachable yaml domains ops (d, sr)" and "s \<in> set (hub_skills d)"
  shows "files_within_caps (file_inputs (skill_files d s))
    \<and> (\<forall>path \<in> fst ` set (file_inputs (skill_files d s)).
          CHR 0x5C \<notin> set path \<and> (\<forall>part \<in> set (py_split ''/'' path). part \<notin> {[], ''.'', ''..''}))
    \<and> (\<exists>p. describes yaml (file_inputs (skill_files d s)) p
          \<and> sk_name s = ps_name p \<and> sk_description s = ps_description p \<and> sk_license s = ps_license p)
    \<and> distinct (map (\<lambda>s. (sk_user_id s, sk_name s)) (hub_skills d))
    \<and> distinct (map (\<lambda>c. (mc_user_id c, mc_name c)) (hub_connections d))"
proof -
  have ok: "hub_ok yaml domains d" using reachable_hub_ok [OF assms(1)] by simp
  then have "valid_skill yaml s (file_inputs (skill_files d s))" using assms(2) by (simp add: hub_ok_def)
  note valid = this [unfolded valid_skill_def]
  show ?thesis using valid capped_paths [OF conjunct1 [OF valid]] ok by (simp add: hub_ok_def)
qed

text \<open>
  Claim C27.  Every stored connection was vetted, and it is what a graph of its owner gets.  Its
  address is one the guard accepted under some answer of DNS, or, where the operator lists
  domains, a host of that list; it speaks the one remote transport, so a user can never make the
  server run a command; headers are stored exactly for header authentication; and a restriction
  of the tools is never the empty list, which would admit all of them.  A disabled connection
  is handed out as a block of its name.  The calls of the endpoints follow each other; what two
  overlapping updates of one connection can leave is \<open>overlapping_changes\<close>.
\<close>

theorem connections_vetted:
  assumes "hub_reachable yaml domains ops (d, sr)" and "c \<in> set (hub_connections d)"
  shows "hub_name (mc_name c) \<and> mc_transport c = ''streamable_http''
    \<and> (if domains = [] then \<exists>dns. validate_public_http_url dns (mc_url c) = Fetch (mc_url c) else url_host (mc_url c) \<in> set domains)
    \<and> (mc_auth_type c = ''headers'' \<longleftrightarrow> mc_headers c \<noteq> [])
    \<and> (case mc_allowed c of None \<Rightarrow> True | Some names \<Rightarrow> names \<noteq> [] \<and> length names \<le> 100)
    \<and> map_of (load_connection_map (mc_user_id c) d) (mc_name c) = Some (if mc_enabled c then Some (connection_spec c) else None)"
proof -
  have ok: "hub_ok yaml domains d" using reachable_hub_ok [OF assms(1)] by simp
  then have "valid_connection domains c" using assms(2) by (simp add: hub_ok_def)
  with loaded_connection [OF ok assms(2)] show ?thesis
    by (simp add: valid_connection_def USER_TRANSPORT_def MAX_ALLOWED_TOOLS_def split: option.splits)
qed

subsection \<open>Reading a skill back\<close>

lemma saved_skill:
  assumes "hub_ok yaml domains d" and "new_skill_id new_id d" and "skill_save now new_id uid p fs d = (row, d')"
  shows "stored_skill row \<in> set (hub_skills d') \<and> sk_user_id row = uid \<and> sk_name row = ps_name p
    \<and> skill_files d' (stored_skill row) = files_of (sk_skill_id row) fs"
proof (cases "skill_for_owner uid (ps_name p) d")
  case None
  then show ?thesis
    using assms wf_no_new_files [of d new_id] by (auto simp: skill_save_def Let_def skill_files_def hub_ok_def)
next
  case (Some r)
  note r = skill_ownerD [OF Some]
  then show ?thesis
    using assms(3) Some by (auto simp: skill_save_def Let_def skill_files_def deleted_files_gone in_update_where)
qed

lemma map_sort_key: "map g (sort_key (\<lambda>x. f (g x)) xs) = sort_key f (map g xs)"
proof (induction xs)
  case (Cons x xs)
  have "map g (insort_key (\<lambda>x. f (g x)) x ys) = insort_key f (g x) (map g ys)" for ys
    by (induction ys) auto
  with Cons show ?case by simp
qed simp

lemma found_skill:
  assumes "hub_ok yaml domains d" and "s \<in> set (hub_skills d)"
  shows "skill_for_owner (sk_user_id s) (sk_name s) d = Some s"
  using assms first_where_unique_key [of "\<lambda>s. (sk_user_id s, sk_name s)" "hub_skills d" s]
  by (simp add: hub_ok_def skill_for_owner_def)

lemma loaded_skill:
  assumes "hub_ok yaml domains d" and "s \<in> set (hub_skills d)"
  shows "map_of (load_user_skill_contents collate (sk_user_id s) d) (sk_name s) = Some (file_inputs (skill_files d s))"
proof -
  let ?rows = "sort_key (\<lambda>r. collate (sk_name r)) (select_where (\<lambda>r. sk_user_id r = sk_user_id s) (hub_skills d))"
  let ?kv = "\<lambda>s. (sk_name s, dict_update [] (file_inputs (skill_files d s)))"
  have "distinct (map sk_name (select_where (\<lambda>r. sk_user_id r = sk_user_id s) (hub_skills d)))"
    using assms(1) by (intro distinct_own_names) (simp add: hub_ok_def)
  then have dist: "distinct (map sk_name ?rows)" by (simp add: distinct_map)
  have "dict_update [] (file_inputs (skill_files d s)) = file_inputs (skill_files d s)"
    using assms by (intro dict_update_distinct [of "[]", simplified]) (auto simp: hub_ok_def valid_skill_def files_within_caps_def)
  moreover have "map_of (map ?kv ?rows) (sk_name s) = Some (dict_update [] (file_inputs (skill_files d s)))"
    using dist assms(2) by (intro map_of_is_SomeI) (auto simp: comp_def)
  ultimately show ?thesis
    by (simp add: load_user_skill_contents_def skill_files_def file_inputs_def)
qed

text \<open>
  Claim C28.  Round trip of a skill.  After a successful installation, new or over an older version,
  the detail endpoint answers with the row of the installation as the database stores it (its
  metadata without NUL characters, which the answer of the installation still shows) and with the
  files of the installation in the order of the database's collation; and the graphs of the user find
  exactly those files under the name of the front matter.
\<close>

theorem installed_skill_reads_back:
  assumes "hub_reachable (he_yaml env) domains ops (d, sr)" and "new_skill_id new_id d"
    and "install_skill env now new_id u files d = (Inr detail, d')"
    and "hub_require env u ''read'' ''skill'' (sk_name (sd_row detail)) (Some (identity u)) = Inr ()"
  shows "get_skill env u (sk_name (sd_row detail)) d'
      = Inr \<lparr>sd_row = stored_skill (sd_row detail), sd_files = sort_key (\<lambda>f. he_collate env (fst f)) (sd_files detail)\<rparr>
    \<and> sd_files detail = map (\<lambda>f. (fi_path f, fi_content f)) files
    \<and> (\<exists>contents. map_of (load_user_skill_contents (he_collate env) (identity u) d') (sk_name (sd_row detail)) = Some contents
        \<and> set contents = set (sd_files detail) \<and> distinct (map fst contents))"
proof -
  have ok: "hub_ok (he_yaml env) domains d" using reachable_hub_ok [OF assms(1)] by simp
  let ?fs = "map (\<lambda>f. (fi_path f, fi_content f)) files"
  obtain p row where v: "validate_skill_files (he_yaml env) files = Inr p"
    and save: "skill_save now new_id (identity u) p (dict_update [] ?fs) d = (row, d')"
    and det: "detail = \<lparr>sd_row = row, sd_files = ?fs\<rparr>"
    using assms(3) by (auto simp: install_skill_def Let_def or_422_def split: sum.splits prod.splits py_error.splits if_splits)
  have paths: "distinct (map fst ?fs)" using validated_files [OF v] by (simp add: files_within_caps_def)
  have dict: "dict_update [] ?fs = ?fs" using paths by (intro dict_update_distinct [of "[]", simplified]) simp
  let ?row = "stored_skill row"
  note row = saved_skill [OF ok assms(2) save, unfolded dict]
  have ok': "hub_ok (he_yaml env) domains d'" using ok_install [OF ok assms(2), of now u files] assms(3) by simp
  have files: "file_inputs (skill_files d' ?row) = ?fs" using row by simp
  have "map (\<lambda>f. (sf_path f, sf_content f)) (skill_list_files (he_collate env) (sk_skill_id row) d') = sort_key (\<lambda>f. he_collate env (fst f)) ?fs"
    using map_sort_key [of "\<lambda>f. (sf_path f, sf_content f)" "\<lambda>f. he_collate env (fst f)" "skill_files d' ?row"] files
    by (simp add: skill_list_files_def skill_files_def file_inputs_def)
  moreover have "skill_for_owner (identity u) (sk_name row) d' = Some ?row"
    and "map_of (load_user_skill_contents (he_collate env) (identity u) d') (sk_name row) = Some ?fs"
    using found_skill [OF ok', of ?row] loaded_skill [OF ok', of ?row] row files by simp_all
  ultimately show ?thesis using row det assms(4) paths by (simp add: get_skill_def get_owned_skill_def)
qed


subsection \<open>An example\<close>

definition example_policy :: policy_engine where
  "example_policy = \<lparr>pe_check = (\<lambda>_ _ _ _. Inr True), pe_require = (\<lambda>_ _ _ _. Inr ()), pe_access_filter = (\<lambda>_ _ _ _. Inr all_filter)\<rparr>"

definition example_hub_env :: hub_env where
  "example_hub_env =
     \<lparr>he_policy = example_policy, he_dns = (\<lambda>_. None),
      he_yaml = (\<lambda>_. Some (JObj [(''name'', JStr ''notes''), (''description'', JStr ''Take notes'')])),
      he_unzip = (\<lambda>_. None), he_decode = Some, he_fetch = (\<lambda>_. SkillFetchError), he_allowed_domains = [''kb''], he_tool_authz = False, he_collate = py_lower\<rparr>"

definition hub_alice :: user where
  "hub_alice = \<lparr>identity = ''alice'', is_authenticated = True, permissions = [], display_name = ''alice'', org_id = None, email = None\<rparr>"

definition notes_files :: "skill_input list" where
  "notes_files =
     [\<lparr>fi_path = ''b.txt'', fi_content = ''b''\<rparr>, \<lparr>fi_path = ''SKILL.md'', fi_content = ''---x'' @ [CHR 0x0A] @ ''---''\<rparr>]"

definition empty_hub :: hub_db where
  "empty_hub = \<lparr>hub_skills = [], hub_files = [], hub_connections = []\<rparr>"

definition notes_row :: skill_row where
  "notes_row = \<lparr>sk_skill_id = ''id1'', sk_user_id = ''alice'', sk_name = ''notes'', sk_description = ''Take notes'',
     sk_license = None, sk_metadata = [], sk_created_at = 1, sk_updated_at = 1\<rparr>"

definition notes_hub :: hub_db where
  "notes_hub = \<lparr>hub_skills = [notes_row], hub_files = files_of ''id1'' [(''b.txt'', ''b''), (''SKILL.md'', ''---x'' @ [CHR 0x0A] @ ''---'')], hub_connections = []\<rparr>"

lemma notes_paths: "validate_file_path ''b.txt'' = Inr ()" "validate_file_path ''SKILL.md'' = Inr ()"
  by code_simp+

lemma notes_parsed:
  "parse_skill_md (\<lambda>_. Some (JObj [(''name'', JStr ''notes''), (''description'', JStr ''Take notes'')])) (''---x'' @ [CHR 0x0A] @ ''---'')
   = Inr \<lparr>ps_name = ''notes'', ps_description = ''Take notes'', ps_license = None, ps_metadata = []\<rparr>"
  by (code_simp)

lemma notes_validated:
  "validate_skill_files (he_yaml example_hub_env) notes_files = Inr \<lparr>ps_name = ''notes'', ps_description = ''Take notes'', ps_license = None, ps_metadata = []\<rparr>"
  using notes_paths notes_parsed
  by (simp add: example_hub_env_def notes_files_def validate_skill_files_def utf8_len_def SKILL_MD_def
      MAX_FILES_PER_SKILL_def MAX_FILE_BYTES_def MAX_TOTAL_BYTES_def)

lemma notes_installed:
  "install_skill example_hub_env 1 ''id1'' hub_alice notes_files empty_hub
   = (Inr \<lparr>sd_row = notes_row, sd_files = [(''b.txt'', ''b''), (''SKILL.md'', ''---x'' @ [CHR 0x0A] @ ''---'')]\<rparr>, notes_hub)"
  using notes_validated
  by (simp add: install_skill_def storable_text_def or_422_def hub_require_def example_hub_env_def example_policy_def skill_save_def stored_skill_def comp_def skill_for_owner_def empty_hub_def
      notes_files_def notes_hub_def notes_row_def hub_alice_def first_where_def Let_def bind_dict_eq)

definition kb_payload :: connection_create where
  "kb_payload = \<lparr>cc_name = ''kb'', cc_url = ''https://kb/'', cc_auth_type = ''none'', cc_headers = [], cc_allowed = Some [''get'']\<rparr>"

definition kb_row :: connection_row where
  "kb_row = \<lparr>mc_user_id = ''alice'', mc_name = ''kb'', mc_transport = ''streamable_http'', mc_url = ''https://kb/'', mc_auth_type = ''none'',
     mc_headers = [], mc_allowed = Some [''get''], mc_enabled = True, mc_created_at = 2, mc_updated_at = 2\<rparr>"

lemma kb_validated: "validate_connection_create kb_payload = Inr kb_payload"
  by (code_simp)

lemma kb_vetted: "validate_connection example_hub_env ''kb'' ''https://kb/'' = Inr ()"
  by (code_simp)

lemma kb_created:
  "create_connection example_hub_env 2 hub_alice kb_payload notes_hub = (Inr (to_view kb_row), notes_hub\<lparr>hub_connections := [kb_row]\<rparr>)"
  using kb_vetted
  by (simp add: create_connection_def kb_validated)
    (simp add: kb_payload_def hub_require_def example_hub_env_def example_policy_def connection_for_owner_def notes_hub_def first_where_def
      kb_row_def hub_alice_def Let_def USER_TRANSPORT_def stored_connection_def strip_nul_def)

lemma notes_reachable: "hub_reachable (he_yaml example_hub_env) [''kb''] memory_tokens (notes_hub, [], [])"
proof -
  have "hub_reachable (he_yaml example_hub_env) [''kb''] memory_tokens
      (hub_step example_hub_env memory_tokens 1 ''id1'' hub_alice (InstallSkill notes_files) (empty_hub, [], []))"
    using hub_empty by (intro hub_call) (simp_all add: empty_hub_def new_skill_id_def example_hub_env_def)
  moreover have "notes_files \<noteq> []" by (simp add: notes_files_def)
  ultimately show ?thesis by (simp add: hub_step_def notes_installed)
qed

lemma kb_reachable: "hub_reachable (he_yaml example_hub_env) [''kb''] memory_tokens (notes_hub\<lparr>hub_connections := [kb_row]\<rparr>, [], [])"
proof -
  have "hub_reachable (he_yaml example_hub_env) [''kb''] memory_tokens
      (hub_step example_hub_env memory_tokens 2 ''id2'' hub_alice (CreateConnection kb_payload) (notes_hub, [], []))"
    using notes_reachable by (intro hub_call) (simp_all add: new_skill_id_def example_hub_env_def notes_hub_def notes_row_def)
  then show ?thesis by (simp add: hub_step_def kb_created)
qed

theorem hub_tenant_isolation_witness:
  "hub_view ''alice'' (fst (hub_step example_hub_env memory_tokens 3 ''id2'' (hub_alice\<lparr>identity := ''bob''\<rparr>) (UninstallSkill ''notes'')
     (notes_hub, [], []))) = ([(notes_row, hub_files notes_hub)], [])"
  using hub_tenant_isolation [of notes_hub "''id2''" "''alice''" "hub_alice\<lparr>identity := ''bob''\<rparr>" example_hub_env memory_tokens 3
      "UninstallSkill ''notes''" "([], [])"]
  by (simp add: hub_wf_def new_skill_id_def hub_view_def skill_files_def)
    (simp add: notes_hub_def notes_row_def files_of_def select_where_def)

theorem stored_skills_valid_witness:
  "files_within_caps (file_inputs (skill_files notes_hub notes_row))"
  using stored_skills_valid [OF notes_reachable, of notes_row] by (simp add: notes_hub_def)

theorem connections_vetted_witness:
  "map_of (load_connection_map ''alice'' (notes_hub\<lparr>hub_connections := [kb_row]\<rparr>)) ''kb'' = Some (Some (connection_spec kb_row))"
  using connections_vetted [OF kb_reachable, of kb_row] by (simp add: kb_row_def)

theorem installed_skill_reads_back_witness:
  "\<exists>detail contents. get_skill example_hub_env hub_alice ''notes'' notes_hub = Inr detail
     \<and> map fst (sd_files detail) = [''b.txt'', ''SKILL.md'']
     \<and> map_of (load_user_skill_contents py_lower ''alice'' notes_hub) ''notes'' = Some contents
     \<and> set contents = {(''b.txt'', ''b''), (''SKILL.md'', ''---x'' @ [CHR 0x0A] @ ''---'')}"
proof -
  have start: "hub_reachable (he_yaml example_hub_env) [''kb''] memory_tokens (empty_hub, [], [])"
    unfolding empty_hub_def by (rule hub_empty)
  have may: "hub_require example_hub_env hub_alice ''read'' ''skill'' n w = Inr ()" for n w
    by (simp add: hub_require_def example_hub_env_def example_policy_def)
  have "new_skill_id ''id1'' empty_hub" by (simp add: new_skill_id_def empty_hub_def)
  moreover have "he_collate example_hub_env = py_lower" by (simp add: example_hub_env_def)
  moreover have "map fst (sort_key (\<lambda>f. py_lower (fst f)) [(''b.txt'', ''b''), (''SKILL.md'', ''---x'' @ [CHR 0x0A] @ ''---'')])
      = [''b.txt'', ''SKILL.md'']" by code_simp
  ultimately show ?thesis
    using installed_skill_reads_back [OF start _ notes_installed may] by (auto simp: notes_row_def hub_alice_def)
qed

text \<open>
  Two changes of a connection that overlap: each is valid against the row both have read, and
  together they leave credentials of static headers on a connection that authenticates by OAuth.
\<close>

definition to_headers :: connection_update where
  "to_headers = \<lparr>cup_url = None, cup_auth_type = Some ''headers'', cup_headers = Some [(''X-Key'', ''k'')], cup_allowed = None, cup_enabled = None\<rparr>"

definition to_oauth :: connection_update where
  "to_oauth = \<lparr>cup_url = None, cup_auth_type = Some ''oauth'', cup_headers = None, cup_allowed = None, cup_enabled = None\<rparr>"

lemma overlapping_changes:
  "snd (update_connection example_hub_env 3 hub_alice ''kb'' to_headers (empty_hub\<lparr>hub_connections := [kb_row]\<rparr>))
     = empty_hub\<lparr>hub_connections := [patched_connection 3 to_headers kb_row]\<rparr>"
  "snd (update_connection example_hub_env 3 hub_alice ''kb'' to_oauth (empty_hub\<lparr>hub_connections := [kb_row]\<rparr>))
     = empty_hub\<lparr>hub_connections := [patched_connection 3 to_oauth kb_row]\<rparr>"
  "let row = patched_connection 3 to_oauth (patched_connection 3 to_headers kb_row)
   in mc_auth_type row = ''oauth'' \<and> mc_headers row = [(''X-Key'', ''k'')]"
  by code_simp+


subsection \<open>Calls through the proxy\<close>

lemma find_tool_allowed:
  "find_tool_from used allowed t ns = Some n \<Longrightarrow> n \<in> set ns \<and> tool_allowed n allowed"
  by (induction used allowed t ns rule: find_tool_from.induct) (auto split: prod.splits if_splits)

text \<open>
  What a call through the proxy can reach.  A call that returns invoked a tool the server offers, on an
  enabled connection the caller owns and may read, and the tool passes the allowlist of that
  connection, whichever of the accepted spellings the caller used; where tool calls are authorised
  the policy allowed the spelling that was requested.
\<close>

theorem proxy_call_confined:
  assumes "proxy_call_tool env u name tool_name outcome d = Inr invoked"
  shows "\<exists>row server_names. row \<in> set (hub_connections d) \<and> mc_user_id row = identity u \<and> mc_name row = name \<and> mc_enabled row
    \<and> hub_require env u ''read'' ''mcp_connection'' name (Some (identity u)) = Inr ()
    \<and> outcome = Inl server_names \<and> invoked \<in> set server_names
    \<and> (case mc_allowed row of None \<Rightarrow> True | Some allowed \<Rightarrow> tool_allowed invoked allowed)
    \<and> (he_tool_authz env \<longrightarrow> hub_require env u ''execute'' ''mcp_tool'' (name @ ''/'' @ tool_name) None = Inr ())"
proof -
  obtain row where row: "proxy_row env u name d = Inr row"
    and may: "(if he_tool_authz env then hub_require env u ''execute'' ''mcp_tool'' (mc_name row @ ''/'' @ tool_name) None else Inr ()) = Inr ()"
    and call: "bind_res (run_guarded outcome) (\<lambda>server_names. case find_tool server_names tool_name (allowed_names row) of
         None \<Rightarrow> Inl (HTTPException 404) | Some invoked \<Rightarrow> Inr invoked) = Inr invoked"
    using assms by (auto simp: proxy_call_tool_def dest!: bind_res_InrD)
  from row have own: "row \<in> set (hub_connections d) \<and> mc_user_id row = identity u \<and> mc_name row = name"
    and reads: "require_connection env u ''read'' row = Inr ()" and on: "mc_enabled row"
    by (auto simp: proxy_row_def dest!: bind_res_InrD owned_connectionD split: if_splits)
  from call obtain ns where ns: "outcome = Inl ns" "find_tool ns tool_name (allowed_names row) = Some invoked"
    by (cases outcome) (auto simp: run_guarded_def split: option.splits)
  with find_tool_allowed have "invoked \<in> set ns" "tool_allowed invoked (allowed_names row)"
    by (fastforce simp: find_tool_def)+
  with own reads on ns(1) may show ?thesis
    by (intro exI [of _ row] exI [of _ ns]) (auto simp: require_connection_def allowed_names_def split: option.split if_splits)
qed

theorem proxy_call_confined_witness:
  "proxy_call_tool example_hub_env hub_alice ''kb'' ''get'' (Inl [''drop'', ''kb_get'']) (notes_hub\<lparr>hub_connections := [kb_row]\<rparr>) = Inr ''kb_get''
   \<and> ''kb_get'' \<in> set [''drop'', ''kb_get'']"
proof -
  have call: "proxy_call_tool example_hub_env hub_alice ''kb'' ''get'' (Inl [''drop'', ''kb_get'']) (notes_hub\<lparr>hub_connections := [kb_row]\<rparr>) = Inr ''kb_get''"
    by code_simp
  from proxy_call_confined [OF this] call show ?thesis by auto
qed

text \<open>
  The replay of the names runs over the unfiltered list, so a name that was shown can belong to a hidden tool; and the suffix
  form is tried before a later tool of exactly the requested name.
\<close>

lemma shown_name_refused:
  "list_tools_payload (kb_row\<lparr>mc_allowed := Some [''x.y'']\<rparr>) [''x y'', ''x.y''] = [(''x.y'', Some ''x_y'')]"
  "find_tool [''x y'', ''x.y''] ''x_y'' [''x.y''] = None"
  by code_simp+

lemma suffix_shadows_exact_name: "find_tool [''x_get'', ''get''] ''get'' [] = Some ''x_get''"
  by code_simp

text \<open>An update accepts more headers than a creation does.\<close>

lemma header_cap_bypassed:
  assumes "length hs > MAX_HEADERS"
  shows "validate_connection_create \<lparr>cc_name = n, cc_url = url, cc_auth_type = ''headers'', cc_headers = hs, cc_allowed = None\<rparr> = Inl (HTTPException 422)"
    and "validate_connection_update \<lparr>cup_url = None, cup_auth_type = Some ''headers'', cup_headers = Some hs, cup_allowed = None, cup_enabled = None\<rparr>
      = Inr \<lparr>cup_url = None, cup_auth_type = Some ''headers'', cup_headers = Some hs, cup_allowed = None, cup_enabled = None\<rparr>"
  using assms by (simp_all add: validate_connection_create_def validate_connection_update_def AUTH_TYPES_def)

text \<open>Moving a connection to another address leaves the tokens and the registration of the old one.\<close>

lemma moved_connection_keeps_tokens:
  "snd (hub_step env ops now new_id u (UpdateConnection name p) (d, sr)) = sr"
  by (simp add: hub_step_def)

text \<open>An archive whose only \<open>SKILL.md\<close> is a name with that ending yields no file, which is raised past the handler.\<close>

lemma misnamed_root_raises:
  "fst (import_skill (example_hub_env\<lparr>he_fetch := (\<lambda>_. Body (''PK'' @ [CHR 0x03, CHR 0x04])),
       he_unzip := (\<lambda>_. Some [\<lparr>z_name = ''xSKILL.md'', z_mode = 0, z_size = 1, z_data = Some ''a''\<rparr>])\<rparr>) 1 ''id1'' hub_alice ''https://kb/'' empty_hub)
   = Inl ValueError"
  by (simp add: import_skill_def parse_import_payload_def unpack_zip_def is_dir_entry_def reject_oversized_entries_def file_type_def
      MAX_FILES_PER_SKILL_def MAX_FILE_BYTES_def MAX_TOTAL_BYTES_def skill_roots_def rstrip_slash_def ends_with_def SKILL_MD_def or_422_def)

subsection \<open>The cache across users\<close>

text \<open>
  The fingerprint of a connection leaves out its authorisation.  While tool calls are not authorised the cache is shared, so the
  second of two users with the same connection gets the tools bound to the session of the first.
\<close>

lemma shared_cache_leaks_session:
  assumes off: "\<not> MCP_TOOL_AUTHZ_ENABLED env"
    and same: "mc_name a = mc_name b" "mc_transport a = mc_transport b" "mc_url a = mc_url b" "mc_allowed a = mc_allowed b"
    and oauth: "mc_auth_type a = ''oauth''" "mc_auth_type b = ''oauth''"
    and first: "cached_load_tools env hs now [(mc_name a, connection_spec a)] uid [] = (Inr tools, cache)"
    and fresh: "now' < now + MCP_USER_TOOLS_CACHE_TTL_SECS env"
  shows "cached_load_tools env hs' now' [(mc_name b, connection_spec b)] uid' cache = (Inr tools, cache)"
    and "\<And>t. t \<in> set tools \<Longrightarrow> lt_auth (et_inner t) = Some (mc_user_id a, mc_name a, mc_url a)"
proof -
  have fp: "fingerprint_connections env [(mc_name b, connection_spec b)] = fingerprint_connections env [(mc_name a, connection_spec a)]"
    using same oauth by (simp add: fingerprint_connections_def fingerprint_payload_def spec_fingerprint_def connection_spec_def allowed_names_def)
  have load: "load_mcp_tools env hs [(mc_name a, connection_spec a)] uid = Inr tools"
    and cache: "cache = [((''shared'', fingerprint_connections env [(mc_name a, connection_spec a)]), now + MCP_USER_TOOLS_CACHE_TTL_SECS env, tools)]"
    using first off by (auto simp: cached_load_tools_def Let_def cache_scope_def split: sum.splits)
  show "cached_load_tools env hs' now' [(mc_name b, connection_spec b)] uid' cache = (Inr tools, cache)"
    using off fresh fp by (simp add: cached_load_tools_def cache cache_scope_def)
  show "lt_auth (et_inner t) = Some (mc_user_id a, mc_name a, mc_url a)" if "t \<in> set tools" for t
    using loaded_tools_bound [OF load that] oauth by (auto simp: well_bound_def connection_spec_def)
qed

end
