(* ===== verification/Graphs.thy ===== *)
theory Graphs
  imports Json Event_Ids
begin

text \<open>
  The graphs of the deployment: \<^verbatim>\<open>repo/graphs/graph_factory.py\<close> and the loading, caching and serving of graphs in
  \<^verbatim>\<open>repo/graphs/langgraph_service.py\<close>.  The user's modules are an argument, which may differ from call to
  call because files change; so are the operations of the graph library and the models of contexts.
\<close>

subsection \<open>Factories\<close>

text \<open>
  An annotation: absent, the \<open>ServerRuntime\<close> alias, one of its classes, another class, a
  parametrised runtime, another parametrised type (union, \<open>Annotated\<close>), or any other object.
\<close>

datatype annotation =
    NoAnnotation
  | ServerRuntimeAlias
  | RuntimeClass
  | PlainClass string
  | RuntimeOf "annotation list"
  | GenericOf "annotation list"
  | OtherAnnotation string

fun is_runtime_annotation :: "annotation \<Rightarrow> bool" where
  "is_runtime_annotation ServerRuntimeAlias = True"
| "is_runtime_annotation RuntimeClass = True"
| "is_runtime_annotation (RuntimeOf args) = True"
| "is_runtime_annotation (GenericOf args) = list_ex is_runtime_annotation args"
| "is_runtime_annotation _ = False"

fun extract_context_type :: "annotation \<Rightarrow> annotation option" where
  "extract_context_type (RuntimeOf args) = (case args of [] \<Rightarrow> None | a # _ \<Rightarrow> Some a)"
| "extract_context_type (GenericOf args) =
     (case filter (\<lambda>t. t \<noteq> None) (map extract_context_type args) of [] \<Rightarrow> None | t # _ \<Rightarrow> t)"
| "extract_context_type _ = None"

datatype 'c context_value = RawContext dict | Coerced 'c

text \<open>The runtime handed to a factory; whether it carries a store is kept, not the store itself.\<close>

datatype 'c runtime =
    ExecutionRuntime string "user option" bool "'c context_value option"
  | ReadRuntime string "user option" bool

datatype 'c factory_arg = ConfigArg dict | RuntimeArg "'c runtime"

text \<open>What a module or a factory gives; entering a context and awaiting a coroutine may raise.\<close>

datatype 'g made =
    Pregel 'g
  | StateGraph 'g
  | OtherObject 'g
  | AsyncContext "py_error + 'g made"
  | SyncContext "py_error + 'g made"
  | Coroutine "py_error + 'g made"

record ('g, 'c) factory =
  fa_params :: "(string \<times> annotation) list"
  fa_hints :: "(string \<times> annotation) list"
  fa_async :: bool
  fa_body :: "(string \<times> 'c factory_arg) list \<Rightarrow> 'g made result"

record param_spec =
  pr_name :: string
  pr_runtime :: bool
  pr_annotation :: annotation

definition classify_param :: "(string \<times> annotation) list \<Rightarrow> string \<times> annotation \<Rightarrow> param_spec" where
  "classify_param hints p =
     (let annotation = (case map_of hints (fst p) of None \<Rightarrow> snd p | Some a \<Rightarrow> a)
      in \<lparr>pr_name = fst p, pr_runtime = is_runtime_annotation annotation, pr_annotation = annotation\<rparr>)"

definition validate_specs :: "param_spec list \<Rightarrow> unit result" where
  "validate_specs specs =
     (if length (filter (\<lambda>s. \<not> pr_runtime s) specs) > 1 then Inl ValueError
      else if length (filter pr_runtime specs) > 1 then Inl ValueError
      else Inr ())"

definition classify :: "('g, 'c) factory \<Rightarrow> (param_spec list \<times> annotation option) option result" where
  "classify fn =
     (let specs = map (classify_param (fa_hints fn)) (fa_params fn)
      in if specs = [] then Inr None
         else bind_res (validate_specs specs) (\<lambda>_.
           Inr (Some (specs,
             (case filter pr_runtime specs of [] \<Rightarrow> None | s # _ \<Rightarrow> extract_context_type (pr_annotation s))))))"

definition param_value :: "param_spec \<Rightarrow> dict \<Rightarrow> 'c runtime \<Rightarrow> 'c factory_arg" where
  "param_value spec config rt = (if pr_runtime spec then RuntimeArg rt else ConfigArg config)"

definition hook_kwargs :: "param_spec list \<Rightarrow> dict \<Rightarrow> 'c runtime \<Rightarrow> (string \<times> 'c factory_arg) list" where
  "hook_kwargs specs config rt = map (\<lambda>s. (pr_name s, param_value s config rt)) specs"

definition call_factory :: "('g, 'c) factory \<Rightarrow> (string \<times> 'c factory_arg) list \<Rightarrow> 'g made result" where
  "call_factory fn kwargs = (if fa_async fn then Inr (Coroutine (fa_body fn kwargs)) else fa_body fn kwargs)"

text \<open>The registry of hooks, with the context type of each graph.\<close>

type_synonym hooks = "string \<rightharpoonup> param_spec list \<times> annotation option"

definition classify_factory :: "('g, 'c) factory \<Rightarrow> string \<Rightarrow> hooks \<Rightarrow> hooks result" where
  "classify_factory fn graph_id hooks =
     (if hooks graph_id \<noteq> None then Inr hooks
      else bind_res (classify fn) (\<lambda>h. case h of None \<Rightarrow> Inr hooks | Some entry \<Rightarrow> Inr (hooks(graph_id \<mapsto> entry))))"

definition is_factory :: "string \<Rightarrow> hooks \<Rightarrow> bool" where
  "is_factory graph_id hooks = (hooks graph_id \<noteq> None)"

definition invoke_factory :: "('g, 'c) factory \<Rightarrow> string \<Rightarrow> dict \<Rightarrow> 'c runtime \<Rightarrow> hooks \<Rightarrow> 'g made result" where
  "invoke_factory fn graph_id config rt hooks =
     (case hooks graph_id of
        None \<Rightarrow> call_factory fn []
      | Some (specs, _) \<Rightarrow> call_factory fn (if specs = [] then [] else hook_kwargs specs config rt))"

definition generate_graph :: "'g made \<Rightarrow> 'g made result" where
  "generate_graph v =
     (case v of
        AsyncContext r \<Rightarrow> r
      | SyncContext r \<Rightarrow> r
      | Coroutine r \<Rightarrow> r
      | _ \<Rightarrow> Inr v)"

definition clear_factory_registry :: "string option \<Rightarrow> hooks \<Rightarrow> hooks" where
  "clear_factory_registry graph_id hooks = (case graph_id of None \<Rightarrow> Map.empty | Some g \<Rightarrow> hooks(g := None))"

subsection \<open>Contexts and runtimes\<close>

record ('g, 'c) graph_lib =
  gl_compile :: "'g \<Rightarrow> 'g result"
  gl_copy :: "'g made \<Rightarrow> 'g made option"
  gl_copy_with_config :: "'g made \<Rightarrow> 'g made option"
  gl_is_pydantic :: "annotation \<Rightarrow> bool"
  gl_is_dataclass :: "annotation \<Rightarrow> bool"
  gl_validate :: "annotation \<Rightarrow> dict \<Rightarrow> 'c option"
  gl_construct :: "annotation \<Rightarrow> dict \<Rightarrow> 'c option"

definition coerce_context :: "('g, 'c) graph_lib \<Rightarrow> dict option \<Rightarrow> string \<Rightarrow> hooks \<Rightarrow> 'c context_value option" where
  "coerce_context lib context graph_id hooks =
     (case context of
        None \<Rightarrow> None
      | Some c \<Rightarrow>
          (case hooks graph_id of
             Some (_, Some t) \<Rightarrow>
               (if gl_is_pydantic lib t then Some (case gl_validate lib t c of None \<Rightarrow> RawContext c | Some v \<Rightarrow> Coerced v)
                else if gl_is_dataclass lib t then Some (case gl_construct lib t c of None \<Rightarrow> RawContext c | Some v \<Rightarrow> Coerced v)
                else Some (RawContext c))
           | _ \<Rightarrow> Some (RawContext c)))"

definition is_for_execution :: "string \<Rightarrow> bool" where
  "is_for_execution access = (access = ''threads.create_run'')"

text \<open>\<open>ctx_user\<close> is the user of the current request, if there is one.\<close>

definition build_server_runtime ::
  "user option \<Rightarrow> string \<Rightarrow> bool \<Rightarrow> user option \<Rightarrow> 'c context_value option \<Rightarrow> 'c runtime"
where
  "build_server_runtime ctx_user access store u context =
     (let u = (case u of None \<Rightarrow> ctx_user | Some _ \<Rightarrow> u)
      in if is_for_execution access then ExecutionRuntime access u store context else ReadRuntime access u store)"

subsection \<open>The service\<close>

datatype ('g, 'c) export = Exported "'g made" | ExportedFunction "('g, 'c) factory"

text \<open>A module by its path: missing, failing when executed, or its exports.\<close>

type_synonym ('g, 'c) modules = "string \<Rightarrow> (string \<Rightarrow> ('g, 'c) export option) result option"

record ('g, 'c) service =
  sv_registry :: "(string \<times> string \<times> string) list"
  sv_base :: "string \<rightharpoonup> 'g made"
  sv_factories :: "string \<rightharpoonup> ('g, 'c) factory"
  sv_hooks :: hooks

definition module_name_for :: "string \<Rightarrow> string" where
  "module_name_for graph_id =
     ''user_graphs.'' @ map (\<lambda>c. if c \<in> {CHR ''.'', CHR ''/'', CHR ''-''} then CHR ''_'' else c) graph_id"

fun collides :: "string list \<Rightarrow> string list \<Rightarrow> bool" where
  "collides seen [] = False"
| "collides seen (g # gs) = (module_name_for g \<in> set seen \<or> collides (module_name_for g # seen) gs)"

definition split_path :: "string \<Rightarrow> (string \<times> string) result" where
  "split_path p =
     (if CHR '':'' \<notin> set p then Inl ValueError
      else Inr (takeWhile (\<lambda>c. c \<noteq> CHR '':'') p, tl (dropWhile (\<lambda>c. c \<noteq> CHR '':'') p)))"

definition load_graph_registry :: "(string \<times> string) list \<Rightarrow> (string \<times> string \<times> string) list result" where
  "load_graph_registry graphs =
     (if collides [] (map fst graphs) then Inl ValueError
      else map_res (\<lambda>(g, p). bind_res (split_path p) (\<lambda>fe. Inr (g, fe))) graphs)"

definition load_graph_from_file ::
  "('g, 'c) modules \<Rightarrow> string \<Rightarrow> string \<times> string \<Rightarrow> ('g, 'c) service \<Rightarrow> 'g made option result \<times> ('g, 'c) service"
where
  "load_graph_from_file modules graph_id info sv =
     (case modules (fst info) of
        None \<Rightarrow> (Inl ValueError, sv)
      | Some (Inl e) \<Rightarrow> (Inl e, sv)
      | Some (Inr exports) \<Rightarrow>
          (case exports (snd info) of
             None \<Rightarrow> (Inl ValueError, sv)
           | Some (Exported g) \<Rightarrow> (Inr (Some g), sv)
           | Some (ExportedFunction fn) \<Rightarrow>
               (case classify_factory fn graph_id (sv_hooks sv) of
                  Inl e \<Rightarrow> (Inl e, sv)
                | Inr hooks \<Rightarrow>
                    (let sv = sv\<lparr>sv_hooks := hooks\<rparr>
                     in if is_factory graph_id hooks
                        then (Inr None, sv\<lparr>sv_factories := (sv_factories sv)(graph_id \<mapsto> fn)\<rparr>)
                        else (bind_res (fa_body fn []) (\<lambda>v. bind_res (generate_graph v) (\<lambda>g. Inr (Some g))), sv)))))"

definition compiled :: "('g, 'c) graph_lib \<Rightarrow> 'g made \<Rightarrow> 'g made result" where
  "compiled lib g = (case g of StateGraph s \<Rightarrow> bind_res (gl_compile lib s) (\<lambda>p. Inr (Pregel p)) | _ \<Rightarrow> Inr g)"

fun load_all ::
  "('g, 'c) graph_lib \<Rightarrow> ('g, 'c) modules \<Rightarrow> (string \<times> string \<times> string) list \<Rightarrow> ('g, 'c) service
   \<Rightarrow> unit result \<times> ('g, 'c) service"
where
  "load_all lib modules [] sv = (Inr (), sv)"
| "load_all lib modules ((graph_id, info) # rest) sv =
     (case load_graph_from_file modules graph_id info sv of
        (Inl e, sv) \<Rightarrow> (Inl e, sv)
      | (Inr None, sv) \<Rightarrow> load_all lib modules rest sv
      | (Inr (Some g), sv) \<Rightarrow>
          (case compiled lib g of
             Inl e \<Rightarrow> (Inl e, sv)
           | Inr g \<Rightarrow> load_all lib modules rest (sv\<lparr>sv_base := (sv_base sv)(graph_id \<mapsto> g)\<rparr>)))"

definition initialize ::
  "('g, 'c) graph_lib \<Rightarrow> ('g, 'c) modules \<Rightarrow> (string \<times> string) list \<Rightarrow> ('g, 'c) service result"
where
  "initialize lib modules graphs =
     bind_res (load_graph_registry graphs) (\<lambda>registry.
       case load_all lib modules registry \<lparr>sv_registry = registry, sv_base = Map.empty, sv_factories = Map.empty, sv_hooks = Map.empty\<rparr> of
         (Inl e, _) \<Rightarrow> Inl e | (Inr _, sv) \<Rightarrow> Inr sv)"

definition DEFAULT_CONFIG :: dict where "DEFAULT_CONFIG = [(''configurable'', JObj [])]"

definition call_factory_with_defaults ::
  "user option \<Rightarrow> ('g, 'c) factory \<Rightarrow> string \<Rightarrow> ('g, 'c) service \<Rightarrow> 'g made result"
where
  "call_factory_with_defaults ctx_user fn graph_id sv =
     bind_res (invoke_factory fn graph_id DEFAULT_CONFIG (build_server_runtime ctx_user ''assistants.read'' False None None) (sv_hooks sv))
       generate_graph"

definition get_base_graph ::
  "('g, 'c) graph_lib \<Rightarrow> ('g, 'c) modules \<Rightarrow> user option \<Rightarrow> string \<Rightarrow> ('g, 'c) service \<Rightarrow> 'g made result \<times> ('g, 'c) service"
where
  "get_base_graph lib modules ctx_user graph_id sv =
     (case map_of (sv_registry sv) graph_id of
        None \<Rightarrow> (Inl ValueError, sv)
      | Some info \<Rightarrow>
          (case sv_base sv graph_id of
             Some g \<Rightarrow> (Inr g, sv)
           | None \<Rightarrow>
               (case (case sv_factories sv graph_id of
                        Some fn \<Rightarrow> (bind_res (call_factory_with_defaults ctx_user fn graph_id sv) (\<lambda>g. Inr (Some g)), sv)
                      | None \<Rightarrow> load_graph_from_file modules graph_id info sv) of
                  (Inl e, sv) \<Rightarrow> (Inl e, sv)
                | (Inr raw, sv) \<Rightarrow>
                    (case (case (raw, sv_factories sv graph_id) of
                             (None, Some fn) \<Rightarrow> bind_res (call_factory_with_defaults ctx_user fn graph_id sv) (\<lambda>g. Inr (Some g))
                           | _ \<Rightarrow> Inr raw) of
                       Inl e \<Rightarrow> (Inl e, sv)
                     | Inr None \<Rightarrow> (Inl ValueError, sv)
                     | Inr (Some g) \<Rightarrow>
                         (case compiled lib g of
                            Inl e \<Rightarrow> (Inl e, sv)
                          | Inr g \<Rightarrow>
                              (Inr g, if sv_factories sv graph_id = None then sv\<lparr>sv_base := (sv_base sv)(graph_id \<mapsto> g)\<rparr> else sv))))))"

text \<open>The part of \<open>get_graph\<close> and of the validation that calls a factory for one request.\<close>

definition build_from_factory ::
  "('g, 'c) graph_lib \<Rightarrow> ('g, 'c) factory \<Rightarrow> string \<Rightarrow> dict option \<Rightarrow> 'c runtime \<Rightarrow> ('g, 'c) service \<Rightarrow> 'g made result"
where
  "build_from_factory lib fn graph_id config rt sv =
     bind_res (invoke_factory fn graph_id (case config of None \<Rightarrow> DEFAULT_CONFIG | Some c \<Rightarrow> if c = [] then DEFAULT_CONFIG else c) rt (sv_hooks sv)) (\<lambda>v.
     bind_res (generate_graph v) (compiled lib))"

definition or_uncopied :: "'g made option \<Rightarrow> 'g made \<Rightarrow> 'g made" where
  "or_uncopied c g = (case c of None \<Rightarrow> g | Some g' \<Rightarrow> g')"

record graph_request =
  gq_config :: "dict option"
  gq_access :: string
  gq_user :: "user option"
  gq_context :: "dict option"
  gq_ctx_user :: "user option"

definition get_graph ::
  "('g, 'c) graph_lib \<Rightarrow> ('g, 'c) modules \<Rightarrow> string \<Rightarrow> graph_request \<Rightarrow> ('g, 'c) service \<Rightarrow> 'g made result \<times> ('g, 'c) service"
where
  "get_graph lib modules graph_id rq sv =
     (case (if sv_factories sv graph_id = None \<and> sv_base sv graph_id = None
            then (case map_of (sv_registry sv) graph_id of
                    None \<Rightarrow> (Inr None, sv) | Some info \<Rightarrow> load_graph_from_file modules graph_id info sv)
            else (Inr None, sv)) of
        (Inl e, sv) \<Rightarrow> (Inl e, sv)
      | (Inr _, sv) \<Rightarrow>
          (case sv_factories sv graph_id of
             Some fn \<Rightarrow>
               (bind_res (build_from_factory lib fn graph_id (gq_config rq)
                   (build_server_runtime (gq_ctx_user rq) (gq_access rq) True (gq_user rq) (coerce_context lib (gq_context rq) graph_id (sv_hooks sv))) sv)
                  (\<lambda>g. Inr (or_uncopied (gl_copy lib g) g)), sv)
           | None \<Rightarrow>
               (case get_base_graph lib modules (gq_ctx_user rq) graph_id sv of
                  (Inl e, sv) \<Rightarrow> (Inl e, sv)
                | (Inr g, sv) \<Rightarrow> (Inr (or_uncopied (gl_copy_with_config lib g) g), sv))))"

definition get_graph_for_validation ::
  "('g, 'c) graph_lib \<Rightarrow> ('g, 'c) modules \<Rightarrow> string \<Rightarrow> graph_request \<Rightarrow> ('g, 'c) service \<Rightarrow> 'g made result \<times> ('g, 'c) service"
where
  "get_graph_for_validation lib modules graph_id rq sv =
     (case sv_factories sv graph_id of
        Some fn \<Rightarrow>
          (build_from_factory lib fn graph_id (gq_config rq)
             (build_server_runtime (gq_ctx_user rq) (gq_access rq) False (gq_user rq) None) sv, sv)
      | None \<Rightarrow> get_base_graph lib modules (gq_ctx_user rq) graph_id sv)"

text \<open>An empty id counts as none.\<close>

definition invalidate_cache :: "string option \<Rightarrow> ('g, 'c) service \<Rightarrow> ('g, 'c) service" where
  "invalidate_cache graph_id sv =
     (let sv = (if truthy_str graph_id
                then sv\<lparr>sv_base := (sv_base sv)(the graph_id := None), sv_factories := (sv_factories sv)(the graph_id := None)\<rparr>
                else sv\<lparr>sv_base := Map.empty, sv_factories := Map.empty\<rparr>)
      in sv\<lparr>sv_hooks := clear_factory_registry graph_id (sv_hooks sv)\<rparr>)"

definition list_graphs :: "('g, 'c) service \<Rightarrow> (string \<times> string) list" where
  "list_graphs sv = map (\<lambda>(g, f, _). (g, f)) (sv_registry sv)"


subsection \<open>Arguments of factories\<close>

text \<open>The runtime parameter gets the runtime and the other one the configuration, in either order.\<close>

lemma classified_specs:
  assumes "classify fn = Inr (Some (specs, t))"
  shows "specs = map (classify_param (fa_hints fn)) (fa_params fn) \<and> specs \<noteq> []
    \<and> length (filter pr_runtime specs) \<le> 1 \<and> length (filter (\<lambda>s. \<not> pr_runtime s) specs) \<le> 1"
  using assms by (auto simp: classify_def Let_def validate_specs_def split: if_splits dest!: bind_res_InrD)

lemma classified_arity:
  assumes "classify fn = Inr (Some (specs, t))"
  shows "length specs \<in> {1, 2}"
proof -
  have "length specs = length (filter pr_runtime specs) + length (filter (\<lambda>s. \<not> pr_runtime s) specs)"
    by (rule sum_length_filter_compl [symmetric])
  moreover have "specs \<noteq> []" using classified_specs [OF assms] by blast
  then have "length specs \<noteq> 0" by simp
  ultimately have "length specs = 1 \<or> length specs = 2" using classified_specs [OF assms] by linarith
  then show ?thesis by simp
qed

subsection \<open>What is cached\<close>

definition static_graph :: "('g, 'c) graph_lib \<Rightarrow> ('g, 'c) modules \<Rightarrow> string \<times> string \<Rightarrow> 'g made \<Rightarrow> bool" where
  "static_graph lib modules info g =
     (case modules (fst info) of
        Some (Inr exports) \<Rightarrow>
          (case exports (snd info) of
             None \<Rightarrow> False
           | Some (Exported v) \<Rightarrow> compiled lib v = Inr g
           | Some (ExportedFunction fn) \<Rightarrow>
               fa_params fn = [] \<and> bind_res (fa_body fn []) (\<lambda>v. bind_res (generate_graph v) (compiled lib)) = Inr g)
      | _ \<Rightarrow> False)"

definition service_ok :: "('g, 'c) graph_lib \<Rightarrow> ('g, 'c) modules set \<Rightarrow> ('g, 'c) service \<Rightarrow> bool" where
  "service_ok lib seen sv =
     ((\<forall>gid g. sv_base sv gid = Some g \<longrightarrow> sv_factories sv gid = None
         \<and> (\<exists>modules \<in> seen. \<exists>info. map_of (sv_registry sv) gid = Some info \<and> static_graph lib modules info g))
      \<and> (\<forall>gid. sv_factories sv gid = None \<longleftrightarrow> sv_hooks sv gid = None)
      \<and> (\<forall>gid fn. sv_factories sv gid = Some fn \<longrightarrow> classify fn = Inr (sv_hooks sv gid)))"

lemma service_okD:
  assumes "service_ok lib seen sv"
  shows "sv_base sv gid = Some g \<Longrightarrow> sv_factories sv gid = None"
    and "sv_base sv gid = Some g \<Longrightarrow> \<exists>modules \<in> seen. \<exists>info. map_of (sv_registry sv) gid = Some info \<and> static_graph lib modules info g"
    and "sv_factories sv gid = None \<longleftrightarrow> sv_hooks sv gid = None"
    and "sv_factories sv gid = Some fn \<Longrightarrow> classify fn = Inr (sv_hooks sv gid)"
  using assms by (auto simp: service_ok_def)

lemma service_ok_mono: "service_ok lib seen sv \<Longrightarrow> seen \<subseteq> seen' \<Longrightarrow> service_ok lib seen' sv"
  unfolding service_ok_def by blast

lemma service_ok_cached:
  assumes "service_ok lib seen sv" and "sv_factories sv gid = None"
    and "modules \<in> seen" and "map_of (sv_registry sv) gid = Some info" and "static_graph lib modules info g"
  shows "service_ok lib seen (sv\<lparr>sv_base := (sv_base sv)(gid \<mapsto> g)\<rparr>)"
  using assms by (cases info) (auto simp: service_ok_def)

text \<open>Loading a graph that is neither cached nor registered as a factory.\<close>

lemma loaded_graph:
  assumes ok: "service_ok lib seen sv" and new: "sv_factories sv gid = None" "sv_base sv gid = None"
    and load: "load_graph_from_file modules gid info sv = (r, sv')"
  shows "service_ok lib seen sv' \<and> sv_registry sv' = sv_registry sv \<and> sv_base sv' = sv_base sv
    \<and> (\<forall>g g'. r = Inr (Some g) \<longrightarrow> compiled lib g = Inr g' \<longrightarrow> static_graph lib modules info g' \<and> sv_factories sv' gid = None)
    \<and> (r = Inr None \<longrightarrow> sv_factories sv' gid \<noteq> None) \<and> (\<forall>k. k \<noteq> gid \<longrightarrow> sv_factories sv' k = sv_factories sv k)"
proof -
  have hook: "sv_hooks sv gid = None" using service_okD(3) [OF ok] new(1) by simp
  consider (fails) e where "r = Inl e" "sv' = sv"
    | (exported) exports g where "modules (fst info) = Some (Inr exports)" "exports (snd info) = Some (Exported g)" "r = Inr (Some g)" "sv' = sv"
    | (called) exports fn where "modules (fst info) = Some (Inr exports)" "exports (snd info) = Some (ExportedFunction fn)"
    using load by (auto simp: load_graph_from_file_def split: option.splits sum.splits export.splits)
  then show ?thesis
  proof cases
    case fails
    then show ?thesis using ok by simp
  next
    case exported
    then show ?thesis using ok new by (auto simp: static_graph_def)
  next
    case (called exports fn)
    show ?thesis
    proof (cases "classify fn")
      case (Inl e)
      then show ?thesis using load called hook ok by (auto simp: load_graph_from_file_def classify_factory_def)
    next
      case (Inr h)
      show ?thesis
      proof (cases h)
        case None
        then have "fa_params fn = []" using Inr by (auto simp: classify_def Let_def split: if_splits dest!: bind_res_InrD)
        moreover have "r = bind_res (fa_body fn []) (\<lambda>v. bind_res (generate_graph v) (\<lambda>g. Inr (Some g))) \<and> sv' = sv"
          using load called hook None Inr by (auto simp: load_graph_from_file_def classify_factory_def is_factory_def)
        ultimately show ?thesis using ok new called by (auto simp: static_graph_def dest!: bind_res_InrD)
      next
        case (Some entry)
        then have "r = Inr None \<and> sv' = sv\<lparr>sv_hooks := (sv_hooks sv)(gid \<mapsto> entry), sv_factories := (sv_factories sv)(gid \<mapsto> fn)\<rparr>"
          using load called hook Inr by (auto simp: load_graph_from_file_def classify_factory_def is_factory_def)
        then show ?thesis using ok new Inr Some by (auto simp: service_ok_def)
      qed
    qed
  qed
qed


lemma loaded_static_same:
  assumes "load_graph_from_file modules gid info sv = (r, sv')" and "sv_hooks sv gid = None" and "sv_factories sv' gid = None"
  shows "sv' = sv"
  using assms
  by (auto simp: load_graph_from_file_def classify_factory_def is_factory_def Let_def
      split: option.splits sum.splits export.splits if_splits dest!: bind_res_InrD)

lemma all_loaded:
  assumes "load_all lib modules rest sv = (Inr (), sv')" and "service_ok lib seen sv" and "modules \<in> seen"
    and "distinct (map fst rest)" and "\<And>gid info. (gid, info) \<in> set rest \<Longrightarrow> map_of (sv_registry sv) gid = Some info"
    and "\<And>gid. gid \<in> fst ` set rest \<Longrightarrow> sv_factories sv gid = None \<and> sv_base sv gid = None"
  shows "service_ok lib seen sv' \<and> sv_registry sv' = sv_registry sv"
  using assms
proof (induction rest arbitrary: sv)
  case (Cons x rest)
  obtain gid info where x: "x = (gid, info)" by (cases x)
  obtain r sv1 where load: "load_graph_from_file modules gid info sv = (r, sv1)" by (cases "load_graph_from_file modules gid info sv")
  have new: "sv_factories sv gid = None" "sv_base sv gid = None" and reg: "map_of (sv_registry sv) gid = Some info"
    using Cons.prems(5,6) x by auto
  note l = loaded_graph [OF Cons.prems(2) new load]
  have others: "sv_factories sv1 k = None \<and> sv_base sv1 k = None" if "k \<in> fst ` set rest" for k
  proof -
    have "k \<noteq> gid" using that Cons.prems(4) x by auto
    moreover have "sv_factories sv k = None \<and> sv_base sv k = None" using that Cons.prems(6) x by simp
    ultimately show ?thesis using l by simp
  qed
  have regs: "map_of (sv_registry sv1) k = Some i" if "(k, i) \<in> set rest" for k i
    using that l Cons.prems(5) by simp
  show ?case
  proof (cases r)
    case (Inl e)
    then show ?thesis using Cons.prems(1) load x by simp
  next
    case (Inr g)
    show ?thesis
    proof (cases g)
      case None
      then have "load_all lib modules rest sv1 = (Inr (), sv')" using Cons.prems(1) load x Inr by simp
      then show ?thesis using Cons.IH [of sv1] l Cons.prems(3,4) others regs x by simp
    next
      case (Some v)
      then obtain v' where v: "compiled lib v = Inr v'"
        and rest: "load_all lib modules rest (sv1\<lparr>sv_base := (sv_base sv1)(gid \<mapsto> v')\<rparr>) = (Inr (), sv')"
        using Cons.prems(1) load x Inr by (auto split: sum.splits)
      have "service_ok lib seen (sv1\<lparr>sv_base := (sv_base sv1)(gid \<mapsto> v')\<rparr>)"
        using l Inr Some v reg Cons.prems(3) by (intro service_ok_cached) auto
      moreover have "sv_factories sv1 k = None \<and> ((sv_base sv1)(gid \<mapsto> v')) k = None" if "k \<in> fst ` set rest" for k
      proof -
        have "k \<noteq> gid" using that Cons.prems(4) x by auto
        then show ?thesis using others [OF that] by simp
      qed
      moreover have "distinct (map fst rest)" using Cons.prems(4) by simp
      ultimately show ?thesis using Cons.IH [OF rest _ Cons.prems(3)] regs l by simp
    qed
  qed
qed simp

lemma collides_sound: "\<not> collides seen gs \<Longrightarrow> distinct (map module_name_for gs) \<and> set (map module_name_for gs) \<inter> set seen = {}"
  by (induction seen gs rule: collides.induct) auto

lemma registry_keys: "load_graph_registry graphs = Inr registry \<Longrightarrow> distinct (map module_name_for (map fst registry))"
proof -
  assume a: "load_graph_registry graphs = Inr registry"
  then have "\<not> collides [] (map fst graphs)"
    and m: "map_res (\<lambda>(g, p). bind_res (split_path p) (\<lambda>fe. Inr (g, fe))) graphs = Inr registry"
    by (auto simp: load_graph_registry_def split: if_splits)
  moreover have "map fst registry = map fst graphs"
    using m by (induction graphs arbitrary: registry) (auto dest!: bind_res_InrD)
  ultimately show ?thesis using collides_sound [of "[]" "map fst graphs"] by simp
qed

lemma initialized_ok:
  assumes "initialize lib modules graphs = Inr sv" and "modules \<in> seen"
  shows "service_ok lib seen sv"
proof -
  obtain registry where reg: "load_graph_registry graphs = Inr registry"
    and load: "load_all lib modules registry \<lparr>sv_registry = registry, sv_base = Map.empty, sv_factories = Map.empty, sv_hooks = Map.empty\<rparr> = (Inr (), sv)"
    using assms(1) by (auto simp: initialize_def split: prod.splits sum.splits dest!: bind_res_InrD)
  have "distinct (map fst registry)" using registry_keys [OF reg] by (simp only: distinct_map)
  moreover have "service_ok lib seen \<lparr>sv_registry = registry, sv_base = Map.empty, sv_factories = Map.empty, sv_hooks = Map.empty\<rparr>"
    by (simp add: service_ok_def)
  ultimately have "service_ok lib seen sv \<and> sv_registry sv = registry"
    using all_loaded [OF load _ assms(2)] by auto
  then show ?thesis ..
qed

lemma base_graph_ok:
  assumes ok: "service_ok lib seen sv" and "modules \<in> seen"
    and get: "get_base_graph lib modules ctx_user gid sv = (r, sv')"
  shows "service_ok lib seen sv' \<and> sv_registry sv' = sv_registry sv
    \<and> (\<forall>g. r = Inr g \<longrightarrow> sv_factories sv' gid = None \<longrightarrow> sv_base sv' gid = Some g)"
proof (cases "map_of (sv_registry sv) gid")
  case None
  then show ?thesis using get ok by (auto simp: get_base_graph_def)
next
  case (Some info)
  note reg = Some
  show ?thesis
  proof (cases "sv_base sv gid")
    case (Some g)
    then show ?thesis using get ok reg by (auto simp: get_base_graph_def)
  next
    case None
    note new = None
    show ?thesis
    proof (cases "sv_factories sv gid")
      case (Some fn)
      then show ?thesis using get ok reg new
        by (auto simp: get_base_graph_def split: sum.splits option.splits dest!: bind_res_InrD)
    next
      case None
      obtain raw sv1 where load: "load_graph_from_file modules gid info sv = (raw, sv1)" by (cases "load_graph_from_file modules gid info sv")
      note l = loaded_graph [OF ok None new load]
      show ?thesis
      proof (cases "\<exists>g. raw = Inr (Some g)")
        case True
        then obtain g where g: "raw = Inr (Some g)" by blast
        show ?thesis
        proof (cases "compiled lib g")
          case (Inl e)
          then show ?thesis using get reg new None load g l by (auto simp: get_base_graph_def)
        next
          case (Inr g')
          then have st: "static_graph lib modules info g'" "sv_factories sv1 gid = None" using l g by auto
          then have "r = Inr g' \<and> sv' = sv1\<lparr>sv_base := (sv_base sv1)(gid \<mapsto> g')\<rparr>"
            using get reg new None load g Inr by (auto simp: get_base_graph_def)
          moreover have "service_ok lib seen (sv1\<lparr>sv_base := (sv_base sv1)(gid \<mapsto> g')\<rparr>)"
            using l st reg assms(2) by (intro service_ok_cached) auto
          ultimately show ?thesis using l by auto
        qed
      next
        case False
        then have "sv' = sv1 \<and> (\<forall>g. r = Inr g \<longrightarrow> raw = Inr None)"
          using get reg new None load l
          by (auto simp: get_base_graph_def split: sum.splits option.splits dest!: bind_res_InrD)
        then show ?thesis using l by auto
      qed
    qed
  qed
qed


lemma get_graph_ok:
  assumes ok: "service_ok lib seen sv" and "modules \<in> seen" and get: "get_graph lib modules gid rq sv = (r, sv')"
  shows "service_ok lib seen sv'"
proof (cases "sv_factories sv gid = None \<and> sv_base sv gid = None \<and> map_of (sv_registry sv) gid \<noteq> None")
  case True
  then obtain info where reg: "map_of (sv_registry sv) gid = Some info" by blast
  obtain raw sv1 where load: "load_graph_from_file modules gid info sv = (raw, sv1)" by (cases "load_graph_from_file modules gid info sv")
  from True have "sv_factories sv gid = None" "sv_base sv gid = None" by simp_all
  from loaded_graph [OF ok this load] have ok1: "service_ok lib seen sv1" by (rule conjunct1)
  show ?thesis
    using get True reg load ok1 base_graph_ok [OF ok1 assms(2)]
    by (auto simp: get_graph_def split: sum.splits option.splits prod.splits)
next
  case False
  then have "(if sv_factories sv gid = None \<and> sv_base sv gid = None
            then (case map_of (sv_registry sv) gid of
                    None \<Rightarrow> (Inr None, sv) | Some info \<Rightarrow> load_graph_from_file modules gid info sv)
            else (Inr None, sv)) = (Inr None, sv)" by (cases "map_of (sv_registry sv) gid") auto
  then show ?thesis
    using get ok base_graph_ok [OF ok assms(2)]
    by (auto simp: get_graph_def split: sum.splits option.splits prod.splits)
qed

lemma validation_ok:
  assumes ok: "service_ok lib seen sv" and "modules \<in> seen" and get: "get_graph_for_validation lib modules gid rq sv = (r, sv')"
  shows "service_ok lib seen sv'"
  using get ok base_graph_ok [OF ok assms(2)] by (auto simp: get_graph_for_validation_def split: option.splits)

lemma invalidated_ok:
  assumes "service_ok lib seen sv" and "gid \<noteq> Some []"
  shows "service_ok lib seen (invalidate_cache gid sv)"
  using assms
  by (cases gid) (auto simp: invalidate_cache_def truthy_str_def clear_factory_registry_def service_ok_def)

text \<open>
  The states of a server: one start, then requests and invalidations, each seeing the modules as they
  are then.  The empty id, which is neither one graph nor all of them, is excluded.
\<close>

inductive served :: "('g, 'c) graph_lib \<Rightarrow> ('g, 'c) modules list \<Rightarrow> ('g, 'c) service \<Rightarrow> bool" for lib where
  start: "initialize lib modules graphs = Inr sv \<Longrightarrow> served lib [modules] sv"
| request: "served lib past sv \<Longrightarrow> get_graph lib modules gid rq sv = (r, sv') \<Longrightarrow> served lib (modules # past) sv'"
| validation: "served lib past sv \<Longrightarrow> get_graph_for_validation lib modules gid rq sv = (r, sv') \<Longrightarrow> served lib (modules # past) sv'"
| invalidation: "served lib past sv \<Longrightarrow> which \<noteq> Some [] \<Longrightarrow> served lib past (invalidate_cache which sv)"

lemma served_ok: "served lib past sv \<Longrightarrow> service_ok lib (set past) sv"
proof (induction rule: served.induct)
  case (start modules graphs sv)
  then show ?case by (simp add: initialized_ok)
next
  case (request past sv modules gid rq r sv')
  have "service_ok lib (set (modules # past)) sv" using request.IH by (rule service_ok_mono) auto
  then show ?case using get_graph_ok request.hyps(2) by (metis list.set_intros(1))
next
  case (validation past sv modules gid rq r sv')
  have "service_ok lib (set (modules # past)) sv" using validation.IH by (rule service_ok_mono) auto
  then show ?case using validation_ok validation.hyps(2) by (metis list.set_intros(1))
next
  case (invalidation past sv which)
  then show ?case by (simp add: invalidated_ok)
qed

definition own_config :: "graph_request \<Rightarrow> dict" where
  "own_config rq = (case gq_config rq of None \<Rightarrow> DEFAULT_CONFIG | Some c \<Rightarrow> if c = [] then DEFAULT_CONFIG else c)"

definition own_user :: "graph_request \<Rightarrow> user option" where
  "own_user rq = (case gq_user rq of None \<Rightarrow> gq_ctx_user rq | Some u \<Rightarrow> Some u)"

definition own_runtime :: "graph_request \<Rightarrow> 'c context_value option \<Rightarrow> 'c runtime" where
  "own_runtime rq context =
     (if gq_access rq = ''threads.create_run'' then ExecutionRuntime (gq_access rq) (own_user rq) True context
      else ReadRuntime (gq_access rq) (own_user rq) True)"

text \<open>The call of a factory for a request, and the graph it gives.\<close>

definition built_for :: "('g, 'c) graph_lib \<Rightarrow> ('g, 'c) factory \<Rightarrow> param_spec list \<Rightarrow> dict \<Rightarrow> 'c runtime \<Rightarrow> 'g made result" where
  "built_for lib fn specs config rt =
     bind_res (call_factory fn (map (\<lambda>s. (pr_name s, if pr_runtime s then RuntimeArg rt else ConfigArg config)) specs)) (\<lambda>v.
     bind_res (generate_graph v) (compiled lib))"

lemma own_user_eq: "(case gq_user rq of None \<Rightarrow> gq_ctx_user rq | Some _ \<Rightarrow> gq_user rq) = own_user rq"
  by (simp add: own_user_def split: option.split)

lemma runtime_own: "build_server_runtime (gq_ctx_user rq) (gq_access rq) True (gq_user rq) context = own_runtime rq context"
  by (simp add: build_server_runtime_def own_user_eq is_for_execution_def own_runtime_def)

lemma build_own:
  assumes "sv_hooks sv gid = Some (specs, t)" and "specs \<noteq> []"
  shows "build_from_factory lib fn gid (gq_config rq) (build_server_runtime (gq_ctx_user rq) (gq_access rq) True (gq_user rq) context) sv
    = built_for lib fn specs (own_config rq) (own_runtime rq context)"
  using assms
  by (simp add: build_from_factory_def invoke_factory_def built_for_def hook_kwargs_def param_value_def own_config_def runtime_own)

text \<open>
  Claim C24.  A request never gets a graph that was made for another one.  After any sequence of requests, validations
  and invalidations of one graph or of all graphs, with modules that may change in between (an
  invalidation with an empty id is left out: it empties the caches but keeps the hooks, so the claim
  fails after it, see \<open>empty_id_keeps_hooks\<close>), the graph served is either what the
  factory of that graph makes from this request's configuration, acting user, access and context,
  each passed to the parameter that declares it, and is not kept; or the cached graph of a module
  that takes no arguments, hence depends on no request at all.
\<close>

theorem served_graph_is_own:
  assumes "served lib past sv" and "get_graph lib modules gid rq sv = (Inr g, sv')"
  shows "(\<exists>fn specs t made. sv_factories sv' gid = Some fn \<and> sv_base sv' gid = None \<and> classify fn = Inr (Some (specs, t))
      \<and> built_for lib fn specs (own_config rq) (own_runtime rq (coerce_context lib (gq_context rq) gid (sv_hooks sv'))) = Inr made
      \<and> g = or_uncopied (gl_copy lib made) made)
    \<or> (\<exists>base m info. sv_factories sv' gid = None \<and> sv_base sv' gid = Some base \<and> m \<in> set (modules # past)
      \<and> map_of (sv_registry sv') gid = Some info \<and> static_graph lib m info base \<and> g = or_uncopied (gl_copy_with_config lib base) base)"
proof -
  let ?seen = "set (modules # past)"
  have ok: "service_ok lib ?seen sv" using served_ok [OF assms(1)] by (rule service_ok_mono) auto
  have ok': "service_ok lib ?seen sv'" using get_graph_ok [OF ok _ assms(2)] by simp
  let ?first = "if sv_factories sv gid = None \<and> sv_base sv gid = None
            then (case map_of (sv_registry sv) gid of
                    None \<Rightarrow> (Inr None, sv) | Some info \<Rightarrow> load_graph_from_file modules gid info sv)
            else (Inr None, sv)"
  obtain raw sv1 where first: "?first = (raw, sv1)" by (cases ?first)
  obtain x where raw: "raw = Inr x" using assms(2) first by (cases raw) (auto simp: get_graph_def)
  show ?thesis
  proof (cases "sv_factories sv1 gid")
    case (Some fn)
    then have sv': "sv' = sv1"
      and b: "bind_res (build_from_factory lib fn gid (gq_config rq)
          (build_server_runtime (gq_ctx_user rq) (gq_access rq) True (gq_user rq) (coerce_context lib (gq_context rq) gid (sv_hooks sv1))) sv1)
          (\<lambda>g. Inr (or_uncopied (gl_copy lib g) g)) = Inr g"
      using assms(2) first raw by (auto simp: get_graph_def)
    obtain specs t where h: "sv_hooks sv1 gid = Some (specs, t)" using service_okD(3) [OF ok', of gid] Some sv' by auto
    have c: "classify fn = Inr (Some (specs, t))" using service_okD(4) [OF ok'] Some sv' h by simp
    have "sv_base sv' gid = None" using service_okD(1) [OF ok', of gid] Some sv' by (cases "sv_base sv' gid") auto
    with b build_own [OF h] classified_specs [OF c] c Some sv' show ?thesis by (auto dest!: bind_res_InrD)
  next
    case None
    then obtain base where get: "get_base_graph lib modules (gq_ctx_user rq) gid sv1 = (Inr base, sv')"
      and g: "g = or_uncopied (gl_copy_with_config lib base) base"
      using assms(2) first raw by (auto simp: get_graph_def split: prod.splits sum.splits)
    have "sv_factories sv' gid = None"
    proof (cases "sv_base sv gid = None \<and> sv_factories sv gid = None \<and> map_of (sv_registry sv) gid \<noteq> None")
      case True
      then obtain info where load: "load_graph_from_file modules gid info sv = (Inr x, sv1)" and reg: "map_of (sv_registry sv) gid = Some info"
        using first raw by (auto split: option.splits)
      from True have new: "sv_factories sv gid = None" "sv_base sv gid = None" by simp_all
      note l = loaded_graph [OF ok new load]
      from l None obtain v where x: "x = Some v" by (cases x) auto
      have same: "sv1 = sv" using loaded_static_same [OF load] service_okD(3) [OF ok, of gid] new None by simp
      show ?thesis using get load reg new unfolding same x
        by (auto simp: get_base_graph_def split: sum.splits if_splits)
    next
      case False
      then have same: "sv1 = sv" using first by (auto split: if_splits option.splits)
      from False None same have "(\<exists>b. sv_base sv gid = Some b) \<or> map_of (sv_registry sv) gid = None"
        by (cases "map_of (sv_registry sv) gid") auto
      then show ?thesis using get None unfolding same
        by (auto simp: get_base_graph_def split: option.splits)
    qed
    moreover have "service_ok lib ?seen sv1"
    proof (cases "sv_factories sv gid = None \<and> sv_base sv gid = None \<and> map_of (sv_registry sv) gid \<noteq> None")
      case True
      then obtain info where "load_graph_from_file modules gid info sv = (raw, sv1)" using first by (auto split: option.splits)
      from loaded_graph [OF ok conjunct1 [OF True] conjunct1 [OF conjunct2 [OF True]] this] show ?thesis by (rule conjunct1)
    next
      case False
      then have "sv1 = sv" using first by (auto split: if_splits option.splits)
      then show ?thesis using ok by simp
    qed
    then have "sv_factories sv' gid = None \<longrightarrow> sv_base sv' gid = Some base"
      using base_graph_ok [OF _ _ get] by auto
    ultimately show ?thesis using service_okD(2) [OF ok', of gid base] g by blast
  qed
qed


subsection \<open>Invalidation\<close>

text \<open>
  After an invalidation the first validation of a factory graph takes the path for introspection: the factory is called with the
  default configuration and without the user of the request, which the next validation passes.
\<close>

definition probe_factory :: "(string, unit) factory" where
  "probe_factory =
     \<lparr>fa_params = [(''rt'', ServerRuntimeAlias)], fa_hints = [], fa_async = False,
      fa_body = (\<lambda>kwargs. case kwargs of
         [(_, RuntimeArg (ReadRuntime _ (Some u) _))] \<Rightarrow> Inr (Pregel (identity u))
       | [(_, RuntimeArg (ExecutionRuntime _ (Some u) _ _))] \<Rightarrow> Inr (Pregel (identity u))
       | _ \<Rightarrow> Inr (Pregel ''nobody''))\<rparr>"

definition probe_lib :: "(string, unit) graph_lib" where
  "probe_lib =
     \<lparr>gl_compile = Inr, gl_copy = Some, gl_copy_with_config = Some, gl_is_pydantic = (\<lambda>_. False), gl_is_dataclass = (\<lambda>_. False),
      gl_validate = (\<lambda>_ _. None), gl_construct = (\<lambda>_ _. None)\<rparr>"

definition probe_modules :: "(string, unit) modules" where
  "probe_modules = (\<lambda>path. if path = ''g.py'' then Some (Inr (\<lambda>export. if export = ''make'' then Some (ExportedFunction probe_factory) else None)) else None)"

definition probe_user :: user where
  "probe_user = \<lparr>identity = ''alice'', is_authenticated = True, permissions = [], display_name = ''alice'', org_id = None, email = None\<rparr>"

definition probe_request :: graph_request where
  "probe_request = \<lparr>gq_config = None, gq_access = ''assistants.read'', gq_user = Some probe_user, gq_context = None, gq_ctx_user = None\<rparr>"

definition probe_service :: "(string, unit) service" where
  "probe_service =
     \<lparr>sv_registry = [(''agent'', ''g.py'', ''make'')], sv_base = Map.empty, sv_factories = [''agent'' \<mapsto> probe_factory],
      sv_hooks = [''agent'' \<mapsto> ([\<lparr>pr_name = ''rt'', pr_runtime = True, pr_annotation = ServerRuntimeAlias\<rparr>], None)]\<rparr>"

lemmas probe_defs = probe_factory_def probe_lib_def probe_modules_def probe_user_def probe_request_def probe_service_def

lemma probe_fields: "fa_params probe_factory = [(''rt'', ServerRuntimeAlias)]" "fa_hints probe_factory = []"
  by (simp_all add: probe_factory_def)

lemma probe_initialized: "initialize probe_lib probe_modules [(''agent'', ''g.py:make'')] = Inr probe_service"
  by (simp add: initialize_def load_graph_registry_def module_name_for_def split_path_def load_graph_from_file_def classify_factory_def classify_def
      classify_param_def validate_specs_def is_factory_def probe_fields probe_modules_def probe_service_def Let_def)

lemma validation_after_invalidation:
  "fst (get_graph_for_validation probe_lib probe_modules ''agent'' probe_request probe_service) = Inr (Pregel ''alice'')"
  "fst (get_graph_for_validation probe_lib probe_modules ''agent'' probe_request (invalidate_cache (Some ''agent'') probe_service))
     = Inr (Pregel ''nobody'')"
  by (simp_all add: get_graph_for_validation_def get_base_graph_def invalidate_cache_def truthy_str_def clear_factory_registry_def build_from_factory_def
      call_factory_with_defaults_def invoke_factory_def hook_kwargs_def param_value_def call_factory_def generate_graph_def compiled_def
      build_server_runtime_def is_for_execution_def load_graph_from_file_def classify_factory_def classify_def classify_param_def validate_specs_def
      is_factory_def probe_defs Let_def)

text \<open>An empty id empties the caches but not the hooks.\<close>

lemma empty_id_keeps_hooks:
  "sv_factories (invalidate_cache (Some []) probe_service) ''agent'' = None"
  "sv_hooks (invalidate_cache (Some []) probe_service) ''agent'' \<noteq> None"
  by (simp_all add: invalidate_cache_def truthy_str_def clear_factory_registry_def probe_service_def)

theorem served_graph_is_own_witness:
  "\<exists>g sv'. get_graph probe_lib probe_modules ''agent'' probe_request probe_service = (Inr g, sv') \<and> g = Pregel ''alice''
     \<and> built_for probe_lib probe_factory [\<lparr>pr_name = ''rt'', pr_runtime = True, pr_annotation = ServerRuntimeAlias\<rparr>] DEFAULT_CONFIG
         (ReadRuntime ''assistants.read'' (Some probe_user) True) = Inr g"
proof -
  have s: "served probe_lib [probe_modules] probe_service" using probe_initialized by (rule served.start)
  have g: "get_graph probe_lib probe_modules ''agent'' probe_request probe_service = (Inr (Pregel ''alice''), probe_service)"
    by (simp add: get_graph_def build_from_factory_def invoke_factory_def hook_kwargs_def param_value_def call_factory_def generate_graph_def compiled_def
        build_server_runtime_def is_for_execution_def or_uncopied_def probe_defs Let_def)
  from served_graph_is_own [OF s g] g show ?thesis
    by (auto simp: probe_service_def own_config_def own_runtime_def own_user_def probe_request_def probe_lib_def or_uncopied_def
        classify_def classify_param_def probe_factory_def Let_def validate_specs_def)
qed

end
