(* ===== verification/Graph_Streaming.thy ===== *)
theory Graph_Streaming
  imports Json Mcp_Errors
begin

text \<open>
  The stream of a graph: \<^verbatim>\<open>usecase/streaming/graph_streaming.py\<close>.  The graph's raw stream is an argument, as
  are the operations of the message library: the class and id of a message, the concatenation of
  chunks and the conversions.  What the generator yields before an exception is delivered.
\<close>

subsection \<open>Values of the stream\<close>

datatype message_class = AIMessageChunk | ToolMessageChunk | OtherMessageChunk | AIMessage | ToolMessage | OtherMessage

record 'm message_lib =
  ml_class :: "'m \<Rightarrow> message_class"
  ml_id :: "'m \<Rightarrow> string option"
  ml_add :: "'m \<Rightarrow> 'm \<Rightarrow> 'm result"
  ml_to_message :: "'m \<Rightarrow> 'm"
  ml_ai_chunk_of :: "'m \<Rightarrow> 'm"
  ml_tool_chunk_of :: "'m \<Rightarrow> 'm"
  ml_new_ai_chunk :: "dict \<Rightarrow> 'm result"
  ml_new_tool_chunk :: "dict \<Rightarrow> 'm result"
  ml_new_base_chunk :: "dict \<Rightarrow> 'm result"
  ml_convert :: "dict \<Rightarrow> 'm result"

definition is_base_chunk :: "'m message_lib \<Rightarrow> 'm \<Rightarrow> bool" where
  "is_base_chunk lib m = (ml_class lib m \<in> {AIMessageChunk, ToolMessageChunk, OtherMessageChunk})"

datatype 'm raw_message = RawDict dict | RawMessage 'm

datatype stream_ns = NoNamespace | NsText string | NsPath "string list"

text \<open>Chunks, and the pairs and triples a graph wraps them in.\<close>

datatype 'm chunk =
    Data json
  | MessagePair "'m raw_message" json
  | ModePair string "'m chunk"
  | ModeTriple stream_ns string "'m chunk"

record 'm graph_event =
  ge_event :: string
  ge_name :: string
  ge_run_id :: string
  ge_tags :: "string list"
  ge_data :: "'m chunk"
  ge_chunk :: "'m chunk option"

datatype 'm streamed =
    OutChunk "'m chunk"
  | OutMetadata "string option" json
  | OutMessages "'m list"
  | OutEvent "'m graph_event"
  | OutRun string json

type_synonym 'm yields = "(string \<times> 'm streamed) list"

definition to_message_chunk :: "'m message_lib \<Rightarrow> 'm raw_message \<Rightarrow> 'm raw_message" where
  "to_message_chunk lib msg =
     (case msg of
        RawDict d \<Rightarrow> RawDict d
      | RawMessage m \<Rightarrow>
          (case ml_class lib m of
             AIMessage \<Rightarrow> RawMessage (ml_ai_chunk_of lib m)
           | ToolMessage \<Rightarrow> RawMessage (ml_tool_chunk_of lib m)
           | _ \<Rightarrow> RawMessage m))"

subsection \<open>Configuration\<close>

definition INTERRUPT_KEYS :: "string list" where
  "INTERRUPT_KEYS = [''interrupt_before'', ''interrupt_after'']"

definition normalize_interrupt_value :: "json \<Rightarrow> json" where
  "normalize_interrupt_value v = (if v = JList [JStr ''*''] then JStr ''*'' else v)"

definition extract_interrupt_kwargs :: "dict \<Rightarrow> dict \<times> dict" where
  "extract_interrupt_kwargs config =
     (dict_filter (\<lambda>k. k \<notin> set INTERRUPT_KEYS) config,
      concat (map (\<lambda>k. case map_of config k of
                         None \<Rightarrow> [] | Some v \<Rightarrow> if v = JNull then [] else [(k, normalize_interrupt_value v)]) INTERRUPT_KEYS))"

text \<open>
  The modes the graph is asked for; a Python set, whose order does not matter.  The second
  component tells whether updates are wanted for their interrupts only.
\<close>

definition prepare_modes :: "bool \<Rightarrow> string list \<Rightarrow> string list \<times> bool" where
  "prepare_modes is_js stream_mode =
     (let modes = List.insert ''debug'' (remdups (filter (\<lambda>m. m \<noteq> ''events'') stream_mode));
          modes = (if ''messages-tuple'' \<in> set modes \<and> \<not> is_js
                   then List.insert ''messages'' (filter (\<lambda>m. m \<noteq> ''messages-tuple'') modes) else modes)
      in (List.insert ''updates'' modes, ''updates'' \<notin> set modes))"

text \<open>\<open>key in value\<close> for JSON values.\<close>

definition py_contains :: "json \<Rightarrow> string \<Rightarrow> bool result" where
  "py_contains v k =
     (case v of
        JObj d \<Rightarrow> Inr (map_of d k \<noteq> None)
      | JList xs \<Rightarrow> Inr (JStr k \<in> set xs)
      | JStr s \<Rightarrow> Inr (contains_text k s)
      | _ \<Rightarrow> Inl TypeError)"

definition filter_context_by_schema :: "dict \<Rightarrow> json \<Rightarrow> dict result" where
  "filter_context_by_schema context schema =
     (if \<not> json_truthy schema \<or> context = [] then Inr context
      else
        (case schema of
           JObj s \<Rightarrow>
             (let properties = get_or s ''properties'' (JObj [])
              in if \<not> json_truthy properties then Inr context
                 else bind_res (map_res (\<lambda>kv. bind_res (py_contains properties (fst kv)) (\<lambda>b. Inr (kv, b))) context)
                        (\<lambda>kvbs. Inr (map fst (filter snd kvbs))))
         | _ \<Rightarrow> Inl AttributeError))"

text \<open>The schema is \<open>None\<close> where the graph raises; a failure leaves the context as it is.\<close>

definition filtered_context :: "bool \<Rightarrow> json option \<Rightarrow> dict \<Rightarrow> dict" where
  "filtered_context is_js schema context =
     (if context \<noteq> [] \<and> \<not> is_js
      then (case schema of
              None \<Rightarrow> context
            | Some s \<Rightarrow> (case filter_context_by_schema context s of Inl _ \<Rightarrow> context | Inr c \<Rightarrow> c))
      else context)"

subsection \<open>Debug payloads\<close>

definition normalize_checkpoint_task :: "json \<Rightarrow> json result" where
  "normalize_checkpoint_task task =
     (case task of
        JObj t \<Rightarrow>
          (let state_data = get_or t ''state'' JNull
           in if \<not> json_truthy state_data then Inr (JObj t)
              else bind_res (py_contains state_data ''configurable'') (\<lambda>b.
                if \<not> b then Inr (JObj t)
                else (case state_data of
                        JObj s \<Rightarrow>
                          (let configurable = get_or s ''configurable'' JNull
                           in if \<not> json_truthy configurable then Inr (JObj t)
                              else Inr (JObj (AList.delete ''state'' (AList.update ''checkpoint'' configurable t))))
                      | _ \<Rightarrow> Inl AttributeError)))
      | _ \<Rightarrow> Inl TypeError)"

definition normalize_checkpoint_payload :: "json \<Rightarrow> json result" where
  "normalize_checkpoint_payload payload =
     (if \<not> json_truthy payload then Inr JNull
      else
        (case payload of
           JObj p \<Rightarrow>
             (case map_of p ''tasks'' of
                None \<Rightarrow> Inl KeyError
              | Some (JList ts) \<Rightarrow>
                  bind_res (map_res normalize_checkpoint_task ts) (\<lambda>ts'. Inr (JObj (AList.update ''tasks'' (JList ts') p)))
              | Some _ \<Rightarrow> Inl TypeError)
         | _ \<Rightarrow> Inl TypeError))"

datatype callback = OnCheckpoint json | OnTaskResult json

text \<open>A debug event rewrites its chunk and calls the caller back.\<close>

definition debug_step :: "'m chunk \<Rightarrow> ('m chunk \<times> callback list) result" where
  "debug_step chunk =
     (case chunk of
        Data (JObj d) \<Rightarrow>
          (if get_or d ''type'' JNull = JStr ''checkpoint''
           then bind_res (normalize_checkpoint_payload (get_or d ''payload'' JNull)) (\<lambda>p.
                  Inr (Data (JObj (AList.update ''payload'' p d)), [OnCheckpoint p]))
           else if get_or d ''type'' JNull = JStr ''task_result'' then Inr (chunk, [OnTaskResult (get_or d ''payload'' JNull)])
           else Inr (chunk, []))
      | _ \<Rightarrow> Inl AttributeError)"

text \<open>The caller of \<open>_process_stream_event\<close> normalizes the payload again and drops the result.\<close>

definition debug_again :: "string \<Rightarrow> 'm chunk \<Rightarrow> unit result" where
  "debug_again mode chunk =
     (if mode \<noteq> ''debug'' then Inr ()
      else (case chunk of
              Data (JObj d) \<Rightarrow>
                (if get_or d ''type'' JNull = JStr ''checkpoint''
                 then bind_res (normalize_checkpoint_payload (get_or d ''payload'' JNull)) (\<lambda>_. Inr ()) else Inr ())
            | _ \<Rightarrow> Inl AttributeError))"

subsection \<open>One event\<close>

fun join_with :: "string \<Rightarrow> string list \<Rightarrow> string" where
  "join_with sep [] = []"
| "join_with sep [x] = x"
| "join_with sep (x # y # xs) = x @ sep @ join_with sep (y # xs)"

definition ns_text :: "stream_ns \<Rightarrow> string" where
  "ns_text ns = (case ns of NoNamespace \<Rightarrow> [] | NsText s \<Rightarrow> s | NsPath p \<Rightarrow> join_with ''|'' p)"

definition ns_given :: "stream_ns \<Rightarrow> bool" where
  "ns_given ns = (case ns of NoNamespace \<Rightarrow> False | NsText s \<Rightarrow> s \<noteq> [] | NsPath p \<Rightarrow> p \<noteq> [])"

definition event_name :: "bool \<Rightarrow> stream_ns \<Rightarrow> string \<Rightarrow> string" where
  "event_name subgraphs ns mode = (if subgraphs \<and> ns_given ns then mode @ ''|'' @ ns_text ns else mode)"

text \<open>A message that arrives as a dictionary, and whether it is instantiated as a chunk.\<close>

definition lower_of :: "json \<Rightarrow> string result" where
  "lower_of v = (case v of JStr s \<Rightarrow> Inr (py_lower s) | _ \<Rightarrow> Inl AttributeError)"

definition message_of :: "'m message_lib \<Rightarrow> 'm raw_message \<Rightarrow> ('m \<times> bool) result" where
  "message_of lib raw =
     (case raw of
        RawMessage m \<Rightarrow> Inr (m, False)
      | RawDict d \<Rightarrow>
          bind_res (lower_of (get_or d ''type'' (JStr []))) (\<lambda>msg_type.
          bind_res (lower_of (get_or d ''role'' (JStr []))) (\<lambda>msg_role.
            if contains_text ''chunk'' msg_type \<or> contains_text ''chunk'' msg_role then
              bind_res (if contains_text ''ai'' msg_role then ml_new_ai_chunk lib d
                        else if contains_text ''tool'' msg_role then ml_new_tool_chunk lib d
                        else ml_new_base_chunk lib d) (\<lambda>m. Inr (m, True))
            else bind_res (ml_convert lib d) (\<lambda>m. Inr (m, False)))))"

type_synonym 'm tracked = "(string \<times> 'm) list"

definition track_message :: "'m message_lib \<Rightarrow> 'm \<Rightarrow> json \<Rightarrow> 'm tracked \<Rightarrow> ('m \<times> 'm yields \<times> 'm tracked) result" where
  "track_message lib m meta messages =
     (case ml_id lib m of
        None \<Rightarrow> Inr (m, [(''messages/metadata'', OutMetadata None meta)], messages)
      | Some i \<Rightarrow>
          (case map_of messages i of
             None \<Rightarrow> Inr (m, [(''messages/metadata'', OutMetadata (Some i) meta)], AList.update i m messages)
           | Some old \<Rightarrow> bind_res (ml_add lib old m) (\<lambda>sum. Inr (sum, [], AList.update i sum messages))))"

definition message_step ::
  "'m message_lib \<Rightarrow> 'm raw_message \<Rightarrow> json \<Rightarrow> 'm tracked \<Rightarrow> ('m yields \<times> 'm tracked) result"
where
  "message_step lib raw meta messages =
     bind_res (message_of lib raw) (\<lambda>(m, is_chunk_type).
     bind_res (track_message lib m meta messages) (\<lambda>(tracked, intro, messages).
       Inr (intro @ [(if is_base_chunk lib m then ''messages/partial'' else ''messages/complete'',
                      OutMessages [if is_chunk_type then tracked else ml_to_message lib tracked])], messages)))"

definition py_length :: "json \<Rightarrow> nat result" where
  "py_length v = (case v of JList xs \<Rightarrow> Inr (length xs) | JObj d \<Rightarrow> Inr (length d) | JStr s \<Rightarrow> Inr (length s) | _ \<Rightarrow> Inl TypeError)"

definition has_interrupt_data :: "'m chunk \<Rightarrow> bool result" where
  "has_interrupt_data chunk =
     (case chunk of
        Data (JObj d) \<Rightarrow>
          (case map_of d ''__interrupt__'' of None \<Rightarrow> Inr False | Some v \<Rightarrow> bind_res (py_length v) (\<lambda>n. Inr (0 < n)))
      | _ \<Rightarrow> Inr False)"

record 'm stream_request =
  sr_lib :: "'m message_lib"
  sr_modes :: "string list"
  sr_subgraphs :: bool
  sr_only_interrupts :: bool

definition process_stream_event ::
  "'m stream_request \<Rightarrow> string \<Rightarrow> 'm chunk \<Rightarrow> stream_ns \<Rightarrow> 'm tracked
   \<Rightarrow> ('m yields \<times> 'm tracked \<times> 'm chunk \<times> callback list) result"
where
  "process_stream_event rq mode chunk ns messages =
     bind_res (if mode = ''debug'' then debug_step chunk else Inr (chunk, [])) (\<lambda>(chunk, cbs).
       if mode = ''messages'' then
         (if ''messages-tuple'' \<in> set (sr_modes rq)
          then (let out = (case chunk of MessagePair m meta \<Rightarrow> MessagePair (to_message_chunk (sr_lib rq) m) meta | _ \<Rightarrow> chunk)
                in Inr ([(event_name (sr_subgraphs rq) ns ''messages'', OutChunk out)], messages, chunk, cbs))
          else
            (case chunk of
               MessagePair m meta \<Rightarrow>
                 bind_res (message_step (sr_lib rq) m meta messages) (\<lambda>(out, messages). Inr (out, messages, chunk, cbs))
             | _ \<Rightarrow> Inl ValueError))
       else if mode \<in> set (sr_modes rq) then Inr ([(event_name (sr_subgraphs rq) ns mode, OutChunk chunk)], messages, chunk, cbs)
       else if mode = ''updates'' \<and> sr_only_interrupts rq then
         bind_res (has_interrupt_data chunk) (\<lambda>b.
           Inr (if b then [(event_name (sr_subgraphs rq) ns ''values'', OutChunk chunk)] else [], messages, chunk, cbs))
       else Inr ([], messages, chunk, cbs))"

definition process_item ::
  "'m stream_request \<Rightarrow> string \<Rightarrow> 'm chunk \<Rightarrow> stream_ns \<Rightarrow> 'm tracked \<Rightarrow> 'm yields \<times> ('m tracked \<times> callback list) result"
where
  "process_item rq mode chunk ns messages =
     (case process_stream_event rq mode chunk ns messages of
        Inl e \<Rightarrow> ([], Inl e)
      | Inr (out, messages, chunk, cbs) \<Rightarrow> (out, bind_res (debug_again mode chunk) (\<lambda>_. Inr (messages, cbs))))"

subsection \<open>The stream\<close>

text \<open>\<open>astream\<close>: with subgraphs a triple, otherwise a pair; anything else does not unpack.\<close>

definition unpack_item :: "bool \<Rightarrow> 'm chunk \<Rightarrow> (stream_ns \<times> string \<times> 'm chunk) result" where
  "unpack_item subgraphs item =
     (case item of
        ModePair mode chunk \<Rightarrow> Inr (NoNamespace, mode, chunk)
      | ModeTriple ns mode chunk \<Rightarrow> (if subgraphs then Inr (ns, mode, chunk) else Inl ValueError)
      | _ \<Rightarrow> Inl ValueError)"

text \<open>A run of the loop: what was yielded, the cbs, and the exception that ended it, if any.\<close>

fun run_astream ::
  "'m stream_request \<Rightarrow> 'm chunk list \<Rightarrow> py_error option \<Rightarrow> 'm tracked \<Rightarrow> 'm yields \<times> callback list \<times> py_error option"
where
  "run_astream rq [] ending messages = ([], [], ending)"
| "run_astream rq (item # items) ending messages =
     (case unpack_item (sr_subgraphs rq) item of
        Inl e \<Rightarrow> ([], [], Some e)
      | Inr (ns, mode, chunk) \<Rightarrow>
          (case process_item rq mode chunk ns messages of
             (out, Inl e) \<Rightarrow> (out, [], Some e)
           | (out, Inr (messages, cbs)) \<Rightarrow>
               (case run_astream rq items ending messages of (outs, ns, e) \<Rightarrow> (out @ outs, cbs @ ns, e))))"

text \<open>\<open>astream_events\<close>: a chunk of another shape counts as values without subgraphs, and must unpack with them.\<close>

definition unpack_chunk :: "bool \<Rightarrow> 'm chunk \<Rightarrow> (stream_ns \<times> string \<times> 'm chunk) result" where
  "unpack_chunk subgraphs c =
     (case c of
        ModePair mode chunk \<Rightarrow> Inr (NoNamespace, mode, chunk)
      | ModeTriple ns mode chunk \<Rightarrow> (if subgraphs then Inr (ns, mode, chunk) else Inr (NoNamespace, ''values'', c))
      | Data (JObj [(a, _), (b, _)]) \<Rightarrow>
          (if subgraphs then Inr (NoNamespace, a, Data (JStr b)) else Inr (NoNamespace, ''values'', c))
      | Data v \<Rightarrow>
          (if subgraphs then Inl (case v of JObj _ \<Rightarrow> ValueError | JList _ \<Rightarrow> ValueError | JStr _ \<Rightarrow> ValueError | _ \<Rightarrow> TypeError)
           else Inr (NoNamespace, ''values'', c))
      | MessagePair _ _ \<Rightarrow> Inl ValueError)"

definition JS_MESSAGE_EVENTS :: "string list" where
  "JS_MESSAGE_EVENTS = [''messages/complete'', ''messages/partial'', ''messages/metadata'']"

definition event_step ::
  "'m stream_request \<Rightarrow> bool \<Rightarrow> string \<Rightarrow> 'm graph_event \<Rightarrow> 'm tracked \<Rightarrow> 'm yields \<times> ('m tracked \<times> callback list) result"
where
  "event_step rq is_js run_id ev messages =
     (if ''langsmith:hidden'' \<in> set (ge_tags ev) then ([], Inr (messages, []))
      else
        (let js = (if ''messages'' \<in> set (sr_modes rq) \<and> is_js \<and> ge_event ev = ''on_custom_event'' \<and> ge_name ev \<in> set JS_MESSAGE_EVENTS
                   then [(ge_name ev, OutChunk (ge_data ev))] else []);
             raw = (if ''events'' \<in> set (sr_modes rq) then [(''events'', OutEvent ev)] else [])
         in if ge_event ev = ''on_chain_stream'' \<and> ge_run_id ev = run_id then
              (case ge_chunk ev of
                 None \<Rightarrow> (js, Inr (messages, []))
               | Some c \<Rightarrow>
                   (case unpack_chunk (sr_subgraphs rq) c of
                      Inl e \<Rightarrow> (js, Inl e)
                    | Inr (ns, mode, chunk) \<Rightarrow>
                        (case process_item rq mode chunk ns messages of
                           (out, Inl e) \<Rightarrow> (js @ out, Inl e)
                         | (out, Inr st) \<Rightarrow> (js @ out @ raw, Inr st))))
            else (js @ raw, Inr (messages, []))))"

fun run_astream_events ::
  "'m stream_request \<Rightarrow> bool \<Rightarrow> string \<Rightarrow> 'm graph_event list \<Rightarrow> py_error option \<Rightarrow> 'm tracked
   \<Rightarrow> 'm yields \<times> callback list \<times> py_error option"
where
  "run_astream_events rq is_js run_id [] ending messages = ([], [], ending)"
| "run_astream_events rq is_js run_id (ev # evs) ending messages =
     (case event_step rq is_js run_id ev messages of
        (out, Inl e) \<Rightarrow> (out, [], Some e)
      | (out, Inr (messages, cbs)) \<Rightarrow>
          (case run_astream_events rq is_js run_id evs ending messages of (outs, ns, e) \<Rightarrow> (out @ outs, cbs @ ns, e)))"

text \<open>
  A graph is asked for its stream with the configuration, the interrupt keywords, the context and the modes it
  gets, and answers with the raw stream and the exception that ends it.
\<close>

record 'm raw_graph =
  gr_is_js :: bool
  gr_context_schema :: "json option"
  gr_astream :: "dict \<Rightarrow> dict \<Rightarrow> dict \<Rightarrow> string list \<Rightarrow> 'm chunk list \<times> py_error option"
  gr_astream_events :: "dict \<Rightarrow> dict \<Rightarrow> dict \<Rightarrow> string list \<Rightarrow> 'm graph_event list \<times> py_error option"

definition section_of :: "dict \<Rightarrow> string \<Rightarrow> dict" where
  "section_of config k = (case get_or config k (JObj []) of JObj d \<Rightarrow> d | _ \<Rightarrow> [])"

text \<open>The run id of the configuration is a string; without one a fresh id is used.\<close>

definition stream_run_id :: "string \<Rightarrow> dict \<Rightarrow> string" where
  "stream_run_id fresh config = (case map_of (section_of config ''configurable'') ''run_id'' of Some (JStr s) \<Rightarrow> s | _ \<Rightarrow> fresh)"

definition stream_graph_events ::
  "'m message_lib \<Rightarrow> 'm raw_graph \<Rightarrow> string \<Rightarrow> dict \<Rightarrow> dict \<Rightarrow> string list \<Rightarrow> bool \<Rightarrow> 'm yields \<times> callback list \<times> py_error option"
where
  "stream_graph_events lib graph fresh config context stream_mode subgraphs =
     (let run_id = stream_run_id fresh config;
          (config, interrupt_kwargs) = extract_interrupt_kwargs config;
          (modes, only_interrupts) = prepare_modes (gr_is_js graph) stream_mode;
          context = filtered_context (gr_is_js graph) (gr_context_schema graph) context;
          rq = \<lparr>sr_lib = lib, sr_modes = stream_mode, sr_subgraphs = subgraphs, sr_only_interrupts = only_interrupts\<rparr>;
          (outs, cbs, e) =
            (if ''events'' \<in> set stream_mode \<or> gr_is_js graph
             then (case gr_astream_events graph config interrupt_kwargs context modes of
                     (evs, ending) \<Rightarrow> run_astream_events rq (gr_is_js graph) run_id evs ending [])
             else (case gr_astream graph config interrupt_kwargs context modes of
                     (items, ending) \<Rightarrow> run_astream rq items ending []))
      in ((''metadata'', OutRun run_id (get_or (section_of config ''metadata'') ''run_attempt'' (JInt 1))) # outs, cbs, e))"


subsection \<open>Debug payloads are normalized once\<close>

lemma normalized_task: "normalize_checkpoint_task task = Inr t' \<Longrightarrow> normalize_checkpoint_task t' = Inr t'"
proof (cases task)
  case (JObj t)
  assume a: "normalize_checkpoint_task task = Inr t'"
  have "t' = JObj t \<or> (\<exists>c. t' = JObj (AList.delete ''state'' (AList.update ''checkpoint'' c t)))"
    using a by (simp add: normalize_checkpoint_task_def JObj Let_def split: if_splits json.splits) (auto simp: Let_def dest!: bind_res_InrD split: if_splits json.splits)
  moreover have "normalize_checkpoint_task (JObj (AList.delete ''state'' (AList.update ''checkpoint'' c t)))
      = Inr (JObj (AList.delete ''state'' (AList.update ''checkpoint'' c t)))" for c
    by (simp add: normalize_checkpoint_task_def get_or_def delete_conv')
  ultimately show ?thesis using a JObj by auto
qed (auto simp: normalize_checkpoint_task_def)

lemma normalized_tasks: "map_res normalize_checkpoint_task ts = Inr ts' \<Longrightarrow> map_res normalize_checkpoint_task ts' = Inr ts'"
proof (induction ts arbitrary: ts')
  case (Cons t ts)
  then obtain u us where "normalize_checkpoint_task t = Inr u" "map_res normalize_checkpoint_task ts = Inr us" "ts' = u # us"
    by (auto dest!: bind_res_InrD)
  with Cons.IH normalized_task show ?case by simp
qed simp

lemma normalized_payload:
  assumes "normalize_checkpoint_payload p = Inr q"
  shows "normalize_checkpoint_payload q = Inr q"
proof (cases "json_truthy p")
  case True
  then obtain d ts ts' where d: "p = JObj d" "map_res normalize_checkpoint_task ts = Inr ts'" "q = JObj (AList.update ''tasks'' (JList ts') d)"
    using assms by (auto simp: normalize_checkpoint_payload_def split: json.splits option.splits dest!: bind_res_InrD)
  have "AList.update ''tasks'' (JList ts') (AList.update ''tasks'' (JList ts') d) = AList.update ''tasks'' (JList ts') d"
    by (induction d) auto
  moreover have "AList.update ''tasks'' (JList ts') d \<noteq> []" by (cases d) auto
  ultimately show ?thesis using d normalized_tasks [OF d(2)] by (simp add: normalize_checkpoint_payload_def update_conv')
qed (use assms in \<open>simp add: normalize_checkpoint_payload_def\<close>)

lemma debug_again_quiet: "debug_step chunk = Inr (chunk', ns) \<Longrightarrow> debug_again ''debug'' chunk' = Inr ()"
  by (auto simp: debug_step_def debug_again_def get_or_def update_conv' normalized_payload
      split: chunk.splits json.splits if_splits dest!: bind_res_InrD)

lemma process_item_Inr:
  "process_item rq mode chunk ns messages = (out, Inr (messages', cbs)) \<Longrightarrow>
   \<exists>chunk'. process_stream_event rq mode chunk ns messages = Inr (out, messages', chunk', cbs)"
  by (auto simp: process_item_def split: sum.splits prod.splits dest!: bind_res_InrD)

subsection \<open>Interrupts\<close>

lemma run_astream_item:
  assumes "run_astream rq items ending messages = (outs, cbs, None)" and "item \<in> set items"
  shows "\<exists>ns mode chunk messages0 out st. unpack_item (sr_subgraphs rq) item = Inr (ns, mode, chunk)
    \<and> process_item rq mode chunk ns messages0 = (out, Inr st) \<and> set out \<subseteq> set outs"
  using assms
proof (induction rq items ending messages arbitrary: outs cbs rule: run_astream.induct)
  case (2 rq x items ending messages)
  then obtain ns mode chunk out messages' cbs' outs' cbs'' where
    x: "unpack_item (sr_subgraphs rq) x = Inr (ns, mode, chunk)"
    and p: "process_item rq mode chunk ns messages = (out, Inr (messages', cbs'))"
    and r: "run_astream rq items ending messages' = (outs', cbs'', None)" and o: "outs = out @ outs'"
    by (auto split: sum.splits prod.splits)
  show ?case
  proof (cases "item = x")
    case True
    with x p o show ?thesis by (auto intro!: exI)
  next
    case False
    then have "item \<in> set items" using "2.prems"(2) by simp
    from "2.IH" [OF x refl refl p [symmetric] refl refl r this] show ?thesis using o by fastforce
  qed
qed simp

lemma requested_updates: "''updates'' \<in> set (fst (prepare_modes is_js modes)) \<and> (snd (prepare_modes is_js modes) \<longleftrightarrow> ''updates'' \<notin> set modes)"
  by (auto simp: prepare_modes_def Let_def)

lemma interrupt_processed:
  assumes "process_item rq ''updates'' (Data (JObj d)) ns messages = (out, Inr st)"
    and "sr_only_interrupts rq \<longleftrightarrow> ''updates'' \<notin> set (sr_modes rq)" and "map_of d ''__interrupt__'' = Some (JList (i # rest))"
  shows "(event_name (sr_subgraphs rq) ns (if ''updates'' \<in> set (sr_modes rq) then ''updates'' else ''values''), OutChunk (Data (JObj d))) \<in> set out"
  using assms by (auto simp: process_item_def process_stream_event_def has_interrupt_data_def py_length_def split: if_splits)

text \<open>What the graph streams for a request, and how the client sees a namespaced mode of it.\<close>

definition raw_stream :: "'m raw_graph \<Rightarrow> dict \<Rightarrow> dict \<Rightarrow> string list \<Rightarrow> 'm chunk list \<times> py_error option" where
  "raw_stream graph config context stream_mode =
     gr_astream graph (fst (extract_interrupt_kwargs config)) (snd (extract_interrupt_kwargs config))
       (filtered_context (gr_is_js graph) (gr_context_schema graph) context) (fst (prepare_modes (gr_is_js graph) stream_mode))"

lemma stream_graph_events_eq:
  assumes "''events'' \<notin> set stream_mode" and "\<not> gr_is_js graph"
    and "stream_graph_events lib graph fresh config context stream_mode subgraphs = (outs, cbs, e)"
  shows "\<exists>outs'. run_astream \<lparr>sr_lib = lib, sr_modes = stream_mode, sr_subgraphs = subgraphs, sr_only_interrupts = (''updates'' \<notin> set stream_mode)\<rparr>
      (fst (raw_stream graph config context stream_mode)) (snd (raw_stream graph config context stream_mode)) [] = (outs', cbs, e)
    \<and> (\<exists>run_id attempt. outs = (''metadata'', OutRun run_id attempt) # outs')"
  using assms requested_updates [of False stream_mode]
  by (auto simp: stream_graph_events_def raw_stream_def Let_def split: prod.splits)

text \<open>
  Claim C23.  Interrupts reach the client of a Python graph whatever other modes it asked for, as long
  as it did not ask for \<open>events\<close>: that mode and JavaScript graphs take the path of
  \<open>astream_events\<close>, which is not covered.  The graph is always asked for its updates, and an
  update that carries an interrupt is sent, as an update when updates were requested and as values
  otherwise, in every such stream that ends without an exception.
\<close>

theorem interrupts_delivered:
  assumes "stream_graph_events lib graph fresh config context stream_mode subgraphs = (outs, cbs, None)"
    and "''events'' \<notin> set stream_mode" and "\<not> gr_is_js graph"
    and "item \<in> set (fst (raw_stream graph config context stream_mode))"
    and "unpack_item subgraphs item = Inr (ns, ''updates'', Data (JObj d))" and "map_of d ''__interrupt__'' = Some (JList (i # rest))"
  shows "(event_name subgraphs ns (if ''updates'' \<in> set stream_mode then ''updates'' else ''values''), OutChunk (Data (JObj d))) \<in> set outs
    \<and> ''updates'' \<in> set (fst (prepare_modes (gr_is_js graph) stream_mode))"
proof -
  let ?rq = "\<lparr>sr_lib = lib, sr_modes = stream_mode, sr_subgraphs = subgraphs, sr_only_interrupts = (''updates'' \<notin> set stream_mode)\<rparr>"
  obtain outs' where run: "run_astream ?rq (fst (raw_stream graph config context stream_mode)) (snd (raw_stream graph config context stream_mode)) []
      = (outs', cbs, None)" and outs: "set outs' \<subseteq> set outs"
    using stream_graph_events_eq [OF assms(2,3,1)] by (metis set_subset_Cons)
  from run_astream_item [OF run assms(4)] assms(5) obtain messages0 out st
    where "process_item ?rq ''updates'' (Data (JObj d)) ns messages0 = (out, Inr st)" and "set out \<subseteq> set outs'"
    by auto
  with interrupt_processed [OF this(1) _ assms(6)] outs requested_updates show ?thesis by fastforce
qed

subsection \<open>Accumulated messages\<close>

text \<open>
  The reference: each message event shows the concatenation of the chunks of its id so far, announced once by its metadata; messages
  without an id stand alone.
\<close>

definition same_id :: "'m message_lib \<Rightarrow> 'm list \<Rightarrow> 'm \<Rightarrow> 'm list" where
  "same_id lib prior m = (if ml_id lib m = None then [] else filter (\<lambda>x. ml_id lib x = ml_id lib m) prior)"

definition expected_one :: "'m message_lib \<Rightarrow> ('m \<Rightarrow> 'm \<Rightarrow> 'm) \<Rightarrow> 'm list \<Rightarrow> 'm \<times> bool \<times> json \<Rightarrow> 'm yields" where
  "expected_one lib glue prior x =
     (case x of (m, raw_chunk, meta) \<Rightarrow>
        (let earlier = same_id lib prior m;
             whole = (case earlier of [] \<Rightarrow> m | y # ys \<Rightarrow> foldl glue y (ys @ [m]))
         in (if earlier = [] then [(''messages/metadata'', OutMetadata (ml_id lib m) meta)] else [])
            @ [(if is_base_chunk lib m then ''messages/partial'' else ''messages/complete'',
                OutMessages [if raw_chunk then whole else ml_to_message lib whole])]))"

fun expected_from :: "'m message_lib \<Rightarrow> ('m \<Rightarrow> 'm \<Rightarrow> 'm) \<Rightarrow> 'm list \<Rightarrow> ('m \<times> bool \<times> json) list \<Rightarrow> 'm yields" where
  "expected_from lib glue prior [] = []"
| "expected_from lib glue prior (x # xs) = expected_one lib glue prior x @ expected_from lib glue (prior @ [fst x]) xs"

definition message_in :: "'m message_lib \<Rightarrow> bool \<Rightarrow> 'm chunk \<Rightarrow> ('m \<times> bool \<times> json) list" where
  "message_in lib subgraphs item =
     (case unpack_item subgraphs item of
        Inr (ns, mode, MessagePair raw meta) \<Rightarrow>
          (if mode = ''messages'' then (case message_of lib raw of Inr (m, b) \<Rightarrow> [(m, b, meta)] | Inl _ \<Rightarrow> []) else [])
      | _ \<Rightarrow> [])"

definition shows_message :: "string \<times> 'm streamed \<Rightarrow> bool" where
  "shows_message out = (case snd out of OutMetadata _ _ \<Rightarrow> True | OutMessages _ \<Rightarrow> True | _ \<Rightarrow> False)"

definition tracks :: "'m message_lib \<Rightarrow> ('m \<Rightarrow> 'm \<Rightarrow> 'm) \<Rightarrow> 'm list \<Rightarrow> 'm tracked \<Rightarrow> bool" where
  "tracks lib glue prior messages =
     (\<forall>i. map_of messages i = (case filter (\<lambda>x. ml_id lib x = Some i) prior of [] \<Rightarrow> None | y # ys \<Rightarrow> Some (foldl glue y ys)))"

lemma message_step_expected:
  assumes add: "\<And>a b. ml_add lib a b = Inr (glue a b)" and tr: "tracks lib glue prior messages"
    and of: "message_of lib raw = Inr (m, b)" and step: "message_step lib raw meta messages = Inr (out, messages')"
  shows "out = expected_one lib glue prior (m, b, meta) \<and> tracks lib glue (prior @ [m]) messages'"
proof (cases "ml_id lib m")
  case None
  then show ?thesis using tr of step
    by (auto simp: message_step_def track_message_def expected_one_def same_id_def tracks_def)
next
  case (Some i)
  have old: "map_of messages i = (case filter (\<lambda>x. ml_id lib x = Some i) prior of [] \<Rightarrow> None | y # ys \<Rightarrow> Some (foldl glue y ys))"
    using tr by (simp add: tracks_def)
  show ?thesis
  proof (cases "filter (\<lambda>x. ml_id lib x = Some i) prior")
    case Nil
    then show ?thesis using Some of step old tr
      by (auto simp: message_step_def track_message_def expected_one_def same_id_def tracks_def update_conv')
  next
    case (Cons y ys)
    then show ?thesis using Some of step old tr add
      by (auto simp: message_step_def track_message_def expected_one_def same_id_def tracks_def update_conv')
  qed
qed


lemma unchanged_messages:
  assumes "process_stream_event rq mode chunk ns messages = Inr (out, messages', chunk', cbs)" and "mode \<noteq> ''messages''"
  shows "messages' = messages \<and> filter shows_message out = []"
  using assms by (auto simp: process_stream_event_def shows_message_def dest!: bind_res_InrD split: if_splits prod.splits)

lemma process_item_expected:
  assumes add: "\<And>a b. ml_add (sr_lib rq) a b = Inr (glue a b)" and tr: "tracks (sr_lib rq) glue prior messages"
    and tuples: "''messages-tuple'' \<notin> set (sr_modes rq)" and un: "unpack_item (sr_subgraphs rq) item = Inr (ns, mode, chunk)"
    and p: "process_item rq mode chunk ns messages = (out, Inr (messages', cbs))"
  shows "filter shows_message out = expected_from (sr_lib rq) glue prior (message_in (sr_lib rq) (sr_subgraphs rq) item)
    \<and> tracks (sr_lib rq) glue (prior @ map fst (message_in (sr_lib rq) (sr_subgraphs rq) item)) messages'"
proof -
  from process_item_Inr [OF p] obtain chunk' where ps: "process_stream_event rq mode chunk ns messages = Inr (out, messages', chunk', cbs)" by blast
  show ?thesis
  proof (cases "mode = ''messages''")
    case False
    then have "message_in (sr_lib rq) (sr_subgraphs rq) item = []" by (simp add: message_in_def un split: chunk.split)
    then show ?thesis using unchanged_messages [OF ps False] tr by simp
  next
    case True
    then obtain raw meta where c: "chunk = MessagePair raw meta"
      and step: "message_step (sr_lib rq) raw meta messages = Inr (out, messages')"
      using ps tuples by (auto simp: process_stream_event_def split: chunk.splits dest!: bind_res_InrD)
    then obtain m b where of: "message_of (sr_lib rq) raw = Inr (m, b)" by (auto simp: message_step_def dest!: bind_res_InrD)
    have mi: "message_in (sr_lib rq) (sr_subgraphs rq) item = [(m, b, meta)]" by (simp add: message_in_def un c True of)
    from message_step_expected [OF add tr of step] have "out = expected_one (sr_lib rq) glue prior (m, b, meta)"
      and "tracks (sr_lib rq) glue (prior @ [m]) messages'" by simp_all
    moreover have "filter shows_message (expected_one (sr_lib rq) glue prior (m, b, meta)) = expected_one (sr_lib rq) glue prior (m, b, meta)"
      by (simp add: expected_one_def shows_message_def Let_def)
    ultimately show ?thesis by (simp add: mi)
  qed
qed

lemma expected_from_append:
  "expected_from lib glue prior (xs @ ys) = expected_from lib glue prior xs @ expected_from lib glue (prior @ map fst xs) ys"
  by (induction xs arbitrary: prior) simp_all

lemma run_expected:
  assumes add: "\<And>a b. ml_add (sr_lib rq) a b = Inr (glue a b)" and tuples: "''messages-tuple'' \<notin> set (sr_modes rq)"
  shows "run_astream rq items ending messages = (outs, cbs, None) \<Longrightarrow> tracks (sr_lib rq) glue prior messages
    \<Longrightarrow> filter shows_message outs = expected_from (sr_lib rq) glue prior (concat (map (message_in (sr_lib rq) (sr_subgraphs rq)) items))"
proof (induction items arbitrary: messages outs cbs prior)
  case (Cons x items)
  then obtain ns mode chunk out messages' cbs' outs' cbs'' where
    x: "unpack_item (sr_subgraphs rq) x = Inr (ns, mode, chunk)"
    and p: "process_item rq mode chunk ns messages = (out, Inr (messages', cbs'))"
    and r: "run_astream rq items ending messages' = (outs', cbs'', None)" and o: "outs = out @ outs'"
    by (auto split: sum.splits prod.splits)
  note here = process_item_expected [OF add Cons.prems(2) tuples x p]
  from Cons.IH [OF r conjunct2 [OF here]] here show ?case by (simp add: o expected_from_append)
qed simp


subsection \<open>An example\<close>

text \<open>Messages as id, class and text; chunks of one id arrive around an interrupt.\<close>

type_synonym text_message = "string option \<times> message_class \<times> string"

definition text_glue :: "text_message \<Rightarrow> text_message \<Rightarrow> text_message" where
  "text_glue a b = (fst a, fst (snd a), snd (snd a) @ snd (snd b))"

definition text_lib :: "text_message message_lib" where
  "text_lib =
     \<lparr>ml_class = (\<lambda>m. fst (snd m)), ml_id = fst, ml_add = (\<lambda>a b. Inr (text_glue a b)),
      ml_to_message = (\<lambda>m. (fst m, AIMessage, snd (snd m))), ml_ai_chunk_of = (\<lambda>m. (fst m, AIMessageChunk, snd (snd m))),
      ml_tool_chunk_of = (\<lambda>m. (fst m, ToolMessageChunk, snd (snd m))), ml_new_ai_chunk = (\<lambda>_. Inl ValueError),
      ml_new_tool_chunk = (\<lambda>_. Inl ValueError), ml_new_base_chunk = (\<lambda>_. Inl ValueError), ml_convert = (\<lambda>_. Inl ValueError)\<rparr>"

definition interrupt_update :: dict where
  "interrupt_update = [(''__interrupt__'', JList [JStr ''ok?''])]"

definition text_graph :: "text_message raw_graph" where
  "text_graph =
     \<lparr>gr_is_js = False, gr_context_schema = None,
      gr_astream = (\<lambda>_ _ _ _.
        ([ModePair ''messages'' (MessagePair (RawMessage (Some ''m1'', AIMessageChunk, ''Hel'')) JNull),
          ModeTriple (NsPath [''a'', ''b'']) ''updates'' (Data (JObj interrupt_update)),
          ModePair ''messages'' (MessagePair (RawMessage (Some ''m1'', AIMessageChunk, ''lo'')) JNull)], None)),
      gr_astream_events = (\<lambda>_ _ _ _. ([], None))\<rparr>"

definition text_outs :: "text_message yields" where
  "text_outs =
     [(''metadata'', OutRun ''r1'' (JInt 1)), (''messages/metadata'', OutMetadata (Some ''m1'') JNull),
      (''messages/partial'', OutMessages [(Some ''m1'', AIMessage, ''Hel'')]),
      (''values|a|b'', OutChunk (Data (JObj interrupt_update))),
      (''messages/partial'', OutMessages [(Some ''m1'', AIMessage, ''Hello'')])]"

lemma text_streamed: "stream_graph_events text_lib text_graph ''r1'' [] [] [''messages''] True = (text_outs, [], None)"
  by (simp add: stream_graph_events_def stream_run_id_def section_of_def get_or_def extract_interrupt_kwargs_def dict_filter_def
      prepare_modes_def filtered_context_def text_graph_def text_lib_def text_outs_def text_glue_def interrupt_update_def Let_def List.insert_def
      process_item_def process_stream_event_def message_step_def message_of_def track_message_def is_base_chunk_def has_interrupt_data_def py_length_def
      debug_again_def unpack_item_def event_name_def ns_given_def ns_text_def)

theorem interrupts_delivered_witness:
  "(event_name True (NsPath [''a'', ''b'']) ''values'', OutChunk (Data (JObj interrupt_update))) \<in> set text_outs"
  using interrupts_delivered [OF text_streamed, of "ModeTriple (NsPath [''a'', ''b'']) ''updates'' (Data (JObj interrupt_update))"
      "NsPath [''a'', ''b'']" interrupt_update "JStr ''ok?''" "[]"]
  by (simp add: text_graph_def raw_stream_def unpack_item_def) (simp add: interrupt_update_def)


end
