(* ===== verification/Spec2Isabelle.thy ===== *)
theory Spec2Isabelle
  imports Prelude Json Run_Config Run_Status Run_Job Lease Lease_Reaper Event_Ids Broker Redis_Broker
    Sse Streaming Run_Executor Worker Run_Preparation Run_System Cron Thread_TTL Policy Auth
    Circuit_Breaker Shop Assistants Threads Thread_Naming Runs_Api Enforcement V2_Normalizers V2_Session
    V2_Commands Store Url_Guard Crons_Api Mcp_Names Mcp_Loader Mcp_Errors Oauth Hub Hub_System
    Graphs Graph_Streaming
begin

text \<open>
  A verification development of the agent server of this repository: a FastAPI server that runs
  LangGraph graphs for authenticated users, with Postgres tables for threads, runs, crons and
  retention, a Redis queue and event broker, background workers under leases, and a few domain
  packages (hub, shop) on top.  The sources are under \<^verbatim>\<open>src/src\<close>; file names below are relative
  to \<^verbatim>\<open>src/src/agent_server\<close> unless they start with \<^verbatim>\<open>hub\<close>, \<^verbatim>\<open>graphs\<close> or \<^verbatim>\<open>shop\<close>.

  How the parts interact.  A request is checked by the authorisation handlers (\<^verbatim>\<open>auth\<close>), turned
  into a run by \<open>_prepare_run\<close>, which commits a pending row with the serialised job and pushes the
  run id to the queue.  A worker dequeues the id, acquires the run under a lease, rebuilds the job
  and executes the graph; heartbeats extend the lease, the reaper recovers runs whose lease
  expired, and a shutdown puts unfinished runs back.  The graph's events go to the broker of the
  run, from which the streaming service serves clients with replay and live events framed as SSE.
  The cron scheduler and the retention sweeper run beside it on their own tables.

  Conventions.  A table is a list of rows and a SQL statement a conditional update, selection or
  deletion over it; a transaction is a function from the database to the committed database and
  its result, and what other transactions do between two of them is an argument.  Clocks, Redis
  answers, generated ids, graphs, serialisers, the schedule library, the policy sidecar and user
  supplied handlers are arguments.  Exceptions are the values \<open>Inl\<close> of \<open>py_error + 'a\<close>.  Integers
  of Python are \<open>int\<close> or \<open>nat\<close>; prices are floats with infinities and NaN whose finite values are
  rationals, so that rounding is left out; strings are lists of 8-bit characters.  The order in
  which the database sorts texts (its collation) is an argument.  Every loop is a structural or
  measured recursion over its observations; no fuel is used.

  Theories, what they model and what they show:

  \<^item> \<open>Prelude\<close>: identifiers, errors, the three table operations and their lemmas.
  \<^item> \<open>Json\<close>: JSON values and dictionaries, \<open>_strip_null_bytes\<close>/\<open>JsonbSafe\<close> (\<^verbatim>\<open>repo/orm.py\<close>) and
    \<open>_merge_jsonb\<close> (\<^verbatim>\<open>usecase/execution/run_utils.py\<close>).  Stored values have no NUL byte; clean
    values are stored unchanged.
  \<^item> \<open>Run_Config\<close>: pinned keys (\<^verbatim>\<open>domain/run_config.py\<close>) and \<open>create_run_config\<close>,
    \<open>create_thread_config\<close>, \<open>inject_user_context\<close> (\<^verbatim>\<open>repo/graphs/langgraph_service.py\<close>).  The graph
    always sees the server's thread, run and user.
  \<^item> \<open>Run_Status\<close>: the runs and threads tables, status vocabulary, and the transactions of
    \<^verbatim>\<open>usecase/execution/run_status.py\<close>.  A final status is written once.
  \<^item> \<open>Run_Job\<close>: \<^verbatim>\<open>usecase/execution/run_job.py\<close>; the interface \<open>lossless_codec\<close> states what is
    relied on of the model library, interpreted on field-by-field models.
  \<^item> \<open>Lease\<close>: queue and lease operations of \<^verbatim>\<open>usecase/execution/worker_executor.py\<close>, with the two
    transactions of \<open>_acquire_and_load\<close> as \<open>claim_run\<close> and \<open>fail_missing\<close>.  As long as a claim lasts no
    other worker can take the run; a stale worker is harmless; waiting ends, normally or with the
    exception that looking raised.
  \<^item> \<open>Lease_Reaper\<close>: \<^verbatim>\<open>usecase/execution/lease_reaper.py\<close>.
  \<^item> \<open>Event_Ids\<close>: \<^verbatim>\<open>infra/sse_utils.py\<close> with Python's number parsing and splitting.
  \<^item> \<open>Broker\<close>: \<^verbatim>\<open>usecase/streaming/broker.py\<close>, with the contract of \<^verbatim>\<open>base_broker.py\<close> as the
    interface \<open>replayable_broker\<close>.  A subscriber receives the whole log once, in order.
  \<^item> \<open>Redis_Broker\<close>: \<^verbatim>\<open>usecase/streaming/redis_broker.py\<close> with failing and half-applied writes;
    it meets the same interface and replays what the in-memory broker replays until its keys
    expire, ten minutes after the last write.
  \<^item> \<open>Sse\<close>: \<^verbatim>\<open>infra/sse.py\<close> and \<^verbatim>\<open>usecase/streaming/event_converter.py\<close>; the framing reads back.
  \<^item> \<open>Streaming\<close>: \<^verbatim>\<open>usecase/streaming/streaming_service.py\<close>; a reconnecting client gets what it
    missed exactly once.
  \<^item> \<open>Run_Executor\<close>: \<^verbatim>\<open>usecase/execution/run_executor.py\<close>; one execution writes exactly the
    outcome its ending calls for.
  \<^item> \<open>Worker\<close>: worker loop, timeouts, cancellation, shutdown, the local executor, wait and join
    bodies, ephemeral threads (\<^verbatim>\<open>worker_executor.py\<close>, \<^verbatim>\<open>local_executor.py\<close>, \<^verbatim>\<open>run_waiters.py\<close>,
    \<^verbatim>\<open>run_cleanup.py\<close>).  Bounded concurrency, hand-over at shutdown, settled timeouts.
  \<^item> \<open>Run_Preparation\<close>: \<^verbatim>\<open>usecase/execution/run_preparation.py\<close> and the request models of
    \<^verbatim>\<open>domain/runs.py\<close>.  A prepared run acts for its caller only; a key with a NUL character is the exception shown.
  \<^item> \<open>Run_System\<close>: all transactions on the run store as one transition system, at arbitrary clock
    readings and in any interleaving, with the deletions of the endpoints and the retention sweeps
    and the workers that are between the two transactions of an acquisition.  Settled runs stay settled; leases and retry budgets are
    invariant; crashed runs are recovered; jobs survive storage and recoveries.
  \<^item> \<open>Cron\<close>: \<^verbatim>\<open>usecase/cron/service.py\<close> and \<^verbatim>\<open>scheduler.py\<close>, over the interface \<open>cron_library\<close>.
  \<^item> \<open>Thread_TTL\<close>: \<^verbatim>\<open>usecase/thread_ttl.py\<close>; the sweep loop terminates because every further batch
    claims at least one thread of a bounded budget.
  \<^item> \<open>Policy\<close>: \<^verbatim>\<open>auth/policy.py\<close>, \<^verbatim>\<open>auth/opa_policy.py\<close>, \<^verbatim>\<open>auth/tool_authz.py\<close> and the listings of
    \<^verbatim>\<open>hub/services.py\<close>, over the interface \<open>lawful_engine\<close>.
  \<^item> \<open>Auth\<close>: \<^verbatim>\<open>auth/filters.py\<close> and \<^verbatim>\<open>auth/handlers.py\<close>.
  \<^item> \<open>Circuit_Breaker\<close>: \<^verbatim>\<open>infra/circuit_breaker.py\<close>, over the interface \<open>breaker_storage\<close>.
  \<^item> \<open>Shop\<close>: \<^verbatim>\<open>shop/backends.py\<close> and the gates and tools of the merchant and shopping agents.
  \<^item> \<open>Assistants\<close>: \<^verbatim>\<open>usecase/assistant_service.py\<close> with its tables of live rows and versions.  The
    version history stays consistent under any sequence of calls; users do not see or change each
    other's assistants; rolling back restores a version; text search is literal.
  \<^item> \<open>Threads\<close>: \<^verbatim>\<open>controller/http/routers/threads.py\<close> and the conversion of snapshots
    (\<^verbatim>\<open>usecase/thread_state_service.py\<close>).  State endpoints reach the graph only with configurations
    pinned to the thread and the caller; tenants are isolated; search pages are complete.
  \<^item> \<open>Thread_Naming\<close>: \<^verbatim>\<open>usecase/thread_naming.py\<close>.
  \<^item> \<open>Runs_Api\<close>: \<^verbatim>\<open>controller/http/routers/runs.py\<close> and \<^verbatim>\<open>stateless_runs.py\<close>.  Tenants are isolated;
    interruption respects live owners and finished runs; stateless runs leave no thread behind.
  \<^item> \<open>Enforcement\<close>: \<^verbatim>\<open>auth/middleware.py\<close>, \<^verbatim>\<open>deps.py\<close>, \<^verbatim>\<open>registry.py\<close>, \<^verbatim>\<open>enforcement.py\<close>,
    \<^verbatim>\<open>rate_limit.py\<close>.  A request is authenticated once; every registered route is judged by exactly
    one layer; authentication that cannot be loaded admits everybody as one anonymous user.
  \<^item> \<open>V2_Normalizers\<close>, \<open>V2_Session\<close>: the event sessions of \<^verbatim>\<open>usecase/streaming/v2\<close>.  The cursor is
    exact over the same surviving events, and the end of a run closes every subgraph it opened.
  \<^item> \<open>V2_Commands\<close>: \<^verbatim>\<open>usecase/streaming/v2/commands.py\<close> and \<^verbatim>\<open>routers/event_streaming.py\<close>.  Every
    command is answered by an envelope; tenants are isolated.
  \<^item> \<open>Store\<close>: \<^verbatim>\<open>controller/http/routers/store.py\<close> and \<^verbatim>\<open>domain/store.py\<close> over a store of
    namespaced items.  Users reach their own namespaces only, and what is put is read back.
  \<^item> \<open>Url_Guard\<close>: \<^verbatim>\<open>infra/url_guard.py\<close> and \<^verbatim>\<open>infra/skill_fetcher.py\<close>, with 32 and 128 bit addresses
    and Python's address and URL parsers (the tables of the current 3.12).  The set of public
    addresses is an explicit table of intervals, the guarded host is the one that is contacted, and
    every redirect is guarded.
  \<^item> \<open>Crons_Api\<close>: \<^verbatim>\<open>controller/http/routers/crons.py\<close> and \<^verbatim>\<open>domain/crons.py\<close>.  What a creation leaves
    behind, also when the push of the first run fails after its commit; tenants are isolated, and
    the credentials of webhooks are not shown.
  \<^item> \<open>Mcp_Names\<close>, \<open>Mcp_Loader\<close>: \<^verbatim>\<open>repo/graphs/mcp_loader.py\<close> and \<^verbatim>\<open>mcp_apps.py\<close>.  Which server a declared
    name means, the catalogue of tools that a fresh load gives, with legal and distinct names, and what
    the cache of tools may serve; the client library is a parameter.
  \<^item> \<open>Mcp_Errors\<close>: \<^verbatim>\<open>repo/graphs/mcp_errors.py\<close> over a heap of exceptions that may be cyclic; every
    failure gets the most specific class its whole chain shows.
  \<^item> \<open>Oauth\<close>: \<^verbatim>\<open>hub/oauth\<close>, with the two token stores as instances of the interface \<open>oauth_store\<close>.  A
    state is accepted once, and the flow of a deleted connection yields nothing.
  \<^item> \<open>Hub\<close>: \<^verbatim>\<open>hub/models.py\<close>, \<^verbatim>\<open>importer.py\<close>, \<^verbatim>\<open>repositories.py\<close>, \<^verbatim>\<open>services.py\<close>, \<^verbatim>\<open>apps_host.py\<close> and
    \<^verbatim>\<open>queries.py\<close>, with what the columns refuse or strip of NUL characters.
  \<^item> \<open>Hub_System\<close>: the calls of the hub as a transition system.  Users do not change each other's
    skills and connections, everything stored satisfies what its creation checks, an installed
    skill is read back as the database stores and sorts it, and a call through the proxy stays
    within the allowlist.
  \<^item> \<open>Graphs\<close>: \<^verbatim>\<open>repo/graphs/graph_factory.py\<close> and \<^verbatim>\<open>langgraph_service.py\<close> over modules that may change
    between calls.  A request gets what the factory makes for it, or a graph that depends on no request.
  \<^item> \<open>Graph_Streaming\<close>: \<^verbatim>\<open>usecase/streaming/graph_streaming.py\<close> over the raw stream of a graph.  On the
    path without the \<open>events\<close> mode, chunks of a message are accumulated exactly and interrupts reach
    every client.
  \<^item> this theory: properties that span components.

  Some properties state behaviour that differs from what a comment or name promises: the shared
  breaker forgets slow failures, composed list filters of different kinds widen access, a cron
  whose run could not be queued stays due, the cancel listener ends on a malformed message, the
  shop's caps are per call and relative to the price at staging, a null configurable section
  breaks the listing of assistants, a price that is NaN passes the gates, overlapping updates of a
  connection can contradict each other, updating a thread ignores the filter of its handler, the
  forced deletion of a run leaves its thread busy, and the shared cache of tools can hand one
  user the session of another.

  Not modelled: HTTP middleware and OpenAPI (pure plumbing), the health router,
  the native stream of the version 2 protocol, observability, settings
  parsing, migrations, the machine learning service, and the graphs' prompts and nodes.  Texts of log and error messages are left out throughout.
\<close>

section \<open>From the request to the worker\<close>

text \<open>The ids the server accepts as run ids have no underscore, so event ids of runs are unambiguous.\<close>

lemma valid_run_id_no_underscore:
  assumes "is_valid_run_id rid"
  shows "CHR ''_'' \<notin> set rid"
proof
  assume "CHR ''_'' \<in> set rid"
  then obtain i where i: "i < length rid" "rid ! i = CHR ''_''" by (auto simp: in_set_conv_nth)
  have len: "length rid = 36 \<or> length rid = 37 \<and> last rid = CHR 0x0A" using assms by (auto simp: is_valid_run_id_def)
  show False
  proof (cases "i < 36")
    case True
    then have "uuid_at i (rid ! i)"
      using assms i(1) by (auto simp: is_valid_run_id_def list_all_iff in_set_enumerate_eq)
    with i(2) show False by (simp add: uuid_at_def is_hex_def split: if_splits)
  next
    case False
    with len i have "length rid = 37" "last rid = CHR 0x0A" "i = 36" by auto
    with i(2) show False by (cases rid rule: rev_cases) (auto simp: nth_append)
  qed
qed

lemma carries_acquired: "carries c job r \<Longrightarrow> carries c job (acquire_values w t r)"
  by (simp add: carries_def acquire_values_def params_of_def)

lemma lookup_prepared:
  assumes "prepare_run env now rid tid rq u st v2 (d, q) = (Inr job, d', q')" and "lookup_run d rid = None"
  obtains corr res a where "lookup_run d' rid = Some (new_run_row (pe_codec env) now st corr res a job)"
    "ji_run_id (j_identity job) = rid"
  using assms(1)
proof (rule prepare_run_InrD)
  fix a cc d2
  assume job: "job = build_job (pe_default_durability env) rid tid a u v2 rq (merged_config a cc)"
    and d': "d' = d2\<lparr>runs := runs d2 @ [new_run_row (pe_codec env) now st (pe_correlation env)
        (resolve_assistant_id (pe_uuid5 env) (pe_graphs env) (rc_assistant_id rq)) a job]\<rparr>"
    and runs: "runs d2 = runs d"
  have id: "ji_run_id (j_identity job) = rid" by (simp add: job build_job_def)
  have "lookup_run d' rid = Some (new_run_row (pe_codec env) now st (pe_correlation env)
      (resolve_assistant_id (pe_uuid5 env) (pe_graphs env) (rc_assistant_id rq)) a job)"
    using assms(2) id by (simp add: d' runs lookup_run_def first_where_def find_append) (simp add: new_run_row_def)
  with id show thesis by (intro that)
qed

text \<open>
  Claim C8.  The job that was submitted is the job that runs.  With models whose validation
  inverts their dump and a request free of NUL bytes, once preparation of a run with a fresh id
  has succeeded, its id is in the queue and the first worker that acquires the run, at whatever
  time, loads exactly the prepared job.
\<close>

theorem submitted_job_reaches_worker:
  assumes "lossless_codec (pe_codec env)" and "lookup_run d rid = None"
    and "prepare_run env now rid tid rq u Pending v2 (d, q) = (Inr job, d', q')" and "storable (pe_codec env) job"
  shows "rid \<in> set q' \<and> (\<exists>tr d''. acquire_and_load (pe_codec env) dur t rid w d' = (Loaded job tr, d''))"
proof -
  obtain corr res a where row: "lookup_run d' rid = Some (new_run_row (pe_codec env) now Pending corr res a job)"
    and id: "ji_run_id (j_identity job) = rid"
    using lookup_prepared [OF assms(3,2)] .
  let ?r = "new_run_row (pe_codec env) now Pending corr res a job"
  let ?p = "\<lambda>r. r_run_id r = rid \<and> r_status r = Pending \<and> r_claimed_by r = None"
  have p: "?p ?r" by (simp add: new_run_row_def id)
  then have hit: "select_where ?p (runs d') \<noteq> []"
    using lookup_run_SomeD [OF row] by (auto simp: select_where_Nil_iff)
  have look: "lookup_run (d'\<lparr>runs := update_where ?p (acquire_values w (t + dur)) (runs d')\<rparr>) rid =
      Some (acquire_values w (t + dur) ?r)"
    using row p by (simp add: lookup_acquire_update)
  have "from_run_orm (pe_codec env) (acquire_values w (t + dur) ?r) = Inr job"
    by (intro carries_loads [OF assms(1)] carries_acquired carries_new [OF assms(4)])
  moreover have "\<exists>params. r_execution_params (acquire_values w (t + dur) ?r) = Some params"
    by (simp add: acquire_values_def new_run_row_def)
  ultimately have "\<exists>tr d''. acquire_and_load (pe_codec env) dur t rid w d' = (Loaded job tr, d'')"
    using hit look by (auto simp: acquire_and_load_def claim_run_def Let_def)
  moreover have "rid \<in> set q'" using assms(3) by (rule prepare_run_InrD) simp
  ultimately show ?thesis by blast
qed

theorem submitted_job_reaches_worker_witness:
  "\<exists>job d' q' tr d''. prepare_run (example_env RedisUp) 10 ''r2'' ''t1'' example_request example_user Pending False
        (example_db [], []) = (Inr job, d', q') \<and>
     acquire_and_load plain_codec 30 20 ''r2'' ''w1'' d' = (Loaded job tr, d'')"
proof -
  obtain job d' q' where p: "prepare_run (example_env RedisUp) 10 ''r2'' ''t1'' example_request example_user Pending False
      (example_db [], []) = (Inr job, d', q')" using example_prepared by blast
  have codec: "pe_codec (example_env RedisUp) = plain_codec" by (simp add: example_env_def)
  have none: "lookup_run (example_db []) ''r2'' = None" by (simp add: lookup_run_def first_where_def example_db_def)
  have "storable plain_codec job"
    using p
  proof (rule prepare_run_InrD)
    fix a cc
    assume a: "a \<in> set (pe_assistants (example_env RedisUp))" and cc: "request_config example_request = Inr cc"
      and job: "job = build_job (pe_default_durability (example_env RedisUp)) ''r2'' ''t1'' a example_user False
        example_request (merged_config a cc)"
    have "cc = ([(''configurable'', JObj [(''temperature'', JInt 1)])], [(''temperature'', JInt 1)])"
      using cc by (simp add: request_config_def example_request_def get_or_def strip_pinned_config_keys_def dict_filter_def
          SERVER_PINNED_CONFIG_KEYS_def SERVER_PINNED_IDENTITY_KEYS_def Let_def)
    then show ?thesis
      using a by (simp add: storable_def to_execution_params_def job build_job_def merged_config_def example_env_def
          example_request_def example_user_def plain_codec_def json_of_opt_def strip_pinned_config_keys_def dict_filter_def
          SERVER_PINNED_CONFIG_KEYS_def SERVER_PINNED_IDENTITY_KEYS_def resolve_checkpoint_def resolve_durability_def Let_def)
  qed
  with submitted_job_reaches_worker [OF _ none p, of 30 20 "''w1''"] plain.lossless_codec_axioms p codec show ?thesis by auto
qed

end
